(* ===== verification/Prelude.thy ===== *)
theory Prelude
  imports Main
begin

text \<open>
  Shared vocabulary of the development: the collections of simplification rules, the
  result type of code that throws, the bounded buffers the clients keep their inbox and
  their error ring in, and the insertion-ordered maps (\<open>Map\<close>, \<open>Set\<close>) of the source.

  JavaScript strings are \<^typ>\<open>string\<close>: one \<^typ>\<open>char\<close> per UTF-16 code unit, for the
  code units up to \<open>0xFF\<close>. A code unit above that is outside the model; where the
  library functions could produce one (decoding), it is collapsed to \<open>0x1A\<close>.
\<close>

named_theorems client_defs \<open>definitions of client operations, unfolded together\<close>
named_theorems frame_simps \<open>which fields an operation leaves unchanged\<close>

section \<open>Exceptions as values\<close>

text \<open>
  A computation that may throw returns \<open>exn + 'a\<close>. \<open>JsError\<close> is \<open>new Error(msg)\<close>;
  \<open>JsTypeError\<close> and \<open>JsSyntaxError\<close> are thrown by the language (a property of
  \<open>null\<close>, \<open>JSON.parse\<close>), \<open>LibError\<close> by a third-party routine.
\<close>

datatype exn = JsError string | JsTypeError | JsSyntaxError | LibError

type_synonym 'a result = "exn + 'a"

definition bind_result :: "'a result \<Rightarrow> ('a \<Rightarrow> 'b result) \<Rightarrow> 'b result" where
  "bind_result r f = (case r of Inl e \<Rightarrow> Inl e | Inr a \<Rightarrow> f a)"

lemma bind_result_simps [simp]:
  "bind_result (Inl e) f = Inl e"
  "bind_result (Inr a) f = f a"
  by (simp_all add: bind_result_def)

lemma bind_result_Inr_iff:
  "bind_result r f = Inr b \<longleftrightarrow> (\<exists>a. r = Inr a \<and> f a = Inr b)"
  by (cases r) simp_all

definition catch_result :: "'a result \<Rightarrow> 'a \<Rightarrow> 'a" where
  \<comment> \<open>\<open>try { return r } catch { return d }\<close>\<close>
  "catch_result r d = (case r of Inl _ \<Rightarrow> d | Inr a \<Rightarrow> a)"

lemma catch_result_simps [simp]:
  "catch_result (Inl e) d = d"
  "catch_result (Inr a) d = a"
  by (simp_all add: catch_result_def)

definition of_option :: "exn \<Rightarrow> 'a option \<Rightarrow> 'a result" where
  "of_option e x = (case x of None \<Rightarrow> Inl e | Some a \<Rightarrow> Inr a)"

lemma of_option_simps [simp]:
  "of_option e None = Inl e"
  "of_option e (Some a) = Inr a"
  by (simp_all add: of_option_def)

section \<open>Bounded buffers\<close>

definition last_n :: "nat \<Rightarrow> 'a list \<Rightarrow> 'a list" where
  "last_n n xs = drop (length xs - n) xs"

lemma length_last_n [simp]: "length (last_n n xs) = min n (length xs)"
  by (simp add: last_n_def)

lemma last_n_all [simp]: "length xs \<le> n \<Longrightarrow> last_n n xs = xs"
  by (simp add: last_n_def)

lemma last_n_snoc: "last_n n (last_n n xs @ [x]) = last_n n (xs @ [x])"
  by (cases "length xs \<le> n") (auto simp: last_n_def min_def Suc_diff_le)

lemma last_n_append: "last_n n (last_n n xs @ ys) = last_n n (xs @ ys)"
proof (induction ys rule: rev_induct)
  case Nil
  show ?case by (simp add: last_n_def)
next
  case (snoc y ys)
  have "last_n n (last_n n xs @ ys @ [y]) = last_n n (last_n n (last_n n xs @ ys) @ [y])"
    by (simp add: last_n_snoc)
  also have "\<dots> = last_n n ((xs @ ys) @ [y])"
    by (simp add: snoc.IH last_n_snoc)
  finally show ?case by simp
qed

lemma set_last_n: "set (last_n n xs) \<subseteq> set xs"
  by (simp add: last_n_def set_drop_subset)

text \<open>\<open>a.push(x); if (a.length > cap) a.shift();\<close>\<close>

definition ring_push :: "nat \<Rightarrow> 'a list \<Rightarrow> 'a \<Rightarrow> 'a list" where
  "ring_push cap xs x = (let ys = xs @ [x] in if cap < length ys then tl ys else ys)"

lemma ring_push_last_n: "length xs \<le> cap \<Longrightarrow> ring_push cap xs x = last_n cap (xs @ [x])"
  by (cases "length xs = cap"; cases xs) (simp_all add: ring_push_def last_n_def Let_def drop_Suc)

text \<open>
  The contract of a bounded log inside some state: \<open>put\<close> appends and evicts the oldest
  entry beyond \<open>cap\<close>, \<open>drain\<close> hands everything out once.
\<close>

locale bounded_log =
  fixes log :: "'s \<Rightarrow> 'a list"
    and put :: "'a \<Rightarrow> 's \<Rightarrow> 's"
    and drain :: "'s \<Rightarrow> 'a list \<times> 's"
    and cap :: nat
  assumes log_put: "log (put x s) = ring_push cap (log s) x"
    and drain_all: "fst (drain s) = log s"
    and drain_empties: "log (snd (drain s)) = []"
begin

lemma put_bounded: "length (log s) \<le> cap \<Longrightarrow> length (log (put x s)) \<le> cap"
  by (simp add: log_put ring_push_last_n)

lemma log_fold:
  "length (log s) \<le> cap \<Longrightarrow> log (fold put xs s) = last_n cap (log s @ xs)"
proof (induction xs arbitrary: s)
  case Nil
  then show ?case by simp
next
  case (Cons x xs)
  from Cons.prems have "log (fold put xs (put x s)) = last_n cap (log (put x s) @ xs)"
    by (intro Cons.IH put_bounded)
  also have "\<dots> = last_n cap ((log s @ [x]) @ xs)"
    using Cons.prems by (simp add: log_put ring_push_last_n last_n_append)
  finally show ?case by simp
qed

lemma log_fold_bounded: "length (log s) \<le> cap \<Longrightarrow> length (log (fold put xs s)) \<le> cap"
  by (simp add: log_fold)

lemma newest_kept:
  "length (log s) \<le> cap \<Longrightarrow> 0 < cap \<Longrightarrow> x \<in> set (log (put x s))"
  by (simp add: log_put ring_push_last_n last_n_def)

lemma drain_once: "fst (drain (snd (drain s))) = []"
  by (simp add: drain_all drain_empties)

lemma drain_after_puts:
  "log s = [] \<Longrightarrow> fst (drain (fold put xs s)) = last_n cap xs"
  by (simp add: drain_all log_fold)

end

section \<open>Insertion-ordered maps\<close>

text \<open>
  \<open>Map\<close> keeps its keys in the order of their first insertion; \<open>set\<close> on a key that is
  there updates it in place. A \<open>Set\<close> is a list without repetition in the same order.
\<close>

type_synonym ('k, 'v) jsmap = "('k \<times> 'v) list"

abbreviation jm_get :: "('k, 'v) jsmap \<Rightarrow> 'k \<Rightarrow> 'v option" where
  "jm_get \<equiv> map_of"

fun jm_set :: "'k \<Rightarrow> 'v \<Rightarrow> ('k, 'v) jsmap \<Rightarrow> ('k, 'v) jsmap" where
  "jm_set k v [] = [(k, v)]"
| "jm_set k v ((k', v') # m) = (if k = k' then (k, v) # m else (k', v') # jm_set k v m)"

definition jm_del :: "'k \<Rightarrow> ('k, 'v) jsmap \<Rightarrow> ('k, 'v) jsmap" where
  "jm_del k m = filter (\<lambda>(k', _). k' \<noteq> k) m"

abbreviation jm_keys :: "('k, 'v) jsmap \<Rightarrow> 'k list" where
  "jm_keys \<equiv> map fst"

definition jm_has :: "('k, 'v) jsmap \<Rightarrow> 'k \<Rightarrow> bool" where
  "jm_has m k = (map_of m k \<noteq> None)"

definition js_add :: "'a \<Rightarrow> 'a list \<Rightarrow> 'a list" where
  \<comment> \<open>\<open>Set.add\<close>\<close>
  "js_add x s = (if x \<in> set s then s else s @ [x])"

definition js_remove :: "'a \<Rightarrow> 'a list \<Rightarrow> 'a list" where
  \<comment> \<open>\<open>Set.delete\<close>\<close>
  "js_remove x s = filter (\<lambda>y. y \<noteq> x) s"

fun js_set_of :: "'a list \<Rightarrow> 'a list \<Rightarrow> 'a list" where
  \<comment> \<open>\<open>new Set(xs)\<close>, added to the set \<open>s\<close>\<close>
  "js_set_of s [] = s"
| "js_set_of s (x # xs) = js_set_of (js_add x s) xs"

text \<open>The contract of a keyed store, shared by \<open>Map\<close> and by the properties of an object.\<close>

locale keyed_store =
  fixes get :: "'m \<Rightarrow> 'k \<Rightarrow> 'v option"
    and put :: "'k \<Rightarrow> 'v \<Rightarrow> 'm \<Rightarrow> 'm"
    and del :: "'k \<Rightarrow> 'm \<Rightarrow> 'm"
    and keys :: "'m \<Rightarrow> 'k list"
    and ok :: "'m \<Rightarrow> bool"
  assumes get_put: "get (put k v m) = (get m)(k \<mapsto> v)"
    and get_del: "get (del k m) = (get m)(k := None)"
    and set_keys: "set (keys m) = dom (get m)"
    and ok_put: "ok m \<Longrightarrow> ok (put k v m)"
    and ok_del: "ok m \<Longrightarrow> ok (del k m)"
    and ok_distinct: "ok m \<Longrightarrow> distinct (keys m)"
begin

lemma get_put_same: "get (put k v m) k = Some v"
  by (simp add: get_put)

lemma get_put_other: "k' \<noteq> k \<Longrightarrow> get (put k v m) k' = get m k'"
  by (simp add: get_put)

lemma put_overwrites: "get (put k v (put k w m)) = get (put k v m)"
  by (simp add: get_put)

lemma put_commutes: "k \<noteq> k' \<Longrightarrow> get (put k v (put k' w m)) = get (put k' w (put k v m))"
  by (simp add: get_put fun_upd_twist)

lemma del_put: "get (del k (put k v m)) = get (del k m)"
  by (simp add: get_put get_del)

lemma keys_put: "set (keys (put k v m)) = insert k (set (keys m))"
  by (simp add: set_keys get_put)

lemma keys_del: "set (keys (del k m)) = set (keys m) - {k}"
  by (auto simp: set_keys get_del split: if_splits)

lemma get_puts:
  "get (fold (\<lambda>(k, v). put k v) ps m) = get m ++ map_of (rev ps)"
  by (induction ps arbitrary: m) (auto simp: get_put fun_eq_iff map_add_def split: option.splits)

lemma ok_puts: "ok m \<Longrightarrow> ok (fold (\<lambda>(k, v). put k v) ps m)"
  by (induction ps arbitrary: m) (auto intro: ok_put)

end

lemma map_of_jm_set [simp]: "map_of (jm_set k v m) = (map_of m)(k \<mapsto> v)"
  by (induction k v m rule: jm_set.induct) (auto simp: fun_eq_iff)

lemma map_of_jm_del [simp]: "map_of (jm_del k m) = (map_of m)(k := None)"
  by (induction m) (auto simp: jm_del_def fun_eq_iff)

lemma keys_jm_set: "jm_keys (jm_set k v m) = (if k \<in> set (jm_keys m) then jm_keys m else jm_keys m @ [k])"
  by (induction k v m rule: jm_set.induct) auto

lemma jm_set_fresh: "k \<notin> fst ` set m \<Longrightarrow> jm_set k v m = m @ [(k, v)]"
  by (induction k v m rule: jm_set.induct) auto

lemma keys_jm_del: "jm_keys (jm_del k m) = filter (\<lambda>k'. k' \<noteq> k) (jm_keys m)"
  by (induction m) (auto simp: jm_del_def)

interpretation js_map: keyed_store map_of jm_set jm_del "map fst" "\<lambda>m. distinct (map fst m)"
  by unfold_locales (auto simp: dom_map_of_conv_image_fst keys_jm_set keys_jm_del)

lemma jm_has_set [simp]: "jm_has (jm_set k v m) k' = (k' = k \<or> jm_has m k')"
  by (simp add: jm_has_def)

lemma jm_has_del [simp]: "jm_has (jm_del k m) k' = (k' \<noteq> k \<and> jm_has m k')"
  by (simp add: jm_has_def)

lemma jm_del_Nil [simp]: "jm_del k [] = []"
  by (simp add: jm_del_def)

lemma jm_del_Cons [simp]: "jm_del k ((k', v) # m) = (if k' = k then jm_del k m else (k', v) # jm_del k m)"
  by (simp add: jm_del_def)

lemma set_js_add [simp]: "set (js_add x s) = insert x (set s)"
  by (auto simp: js_add_def)

lemma distinct_js_add [simp]: "distinct s \<Longrightarrow> distinct (js_add x s)"
  by (simp add: js_add_def)

lemma set_js_remove [simp]: "set (js_remove x s) = set s - {x}"
  by (auto simp: js_remove_def)

lemma distinct_js_remove [simp]: "distinct s \<Longrightarrow> distinct (js_remove x s)"
  by (simp add: js_remove_def)

lemma set_js_set_of [simp]: "set (js_set_of s xs) = set s \<union> set xs"
  by (induction s xs rule: js_set_of.induct) auto

lemma distinct_js_set_of [simp]: "distinct s \<Longrightarrow> distinct (js_set_of s xs)"
  by (induction s xs rule: js_set_of.induct) auto

end
