(* ===== verification/KeepAlive.thy ===== *)
theory KeepAlive
  imports Prelude
begin

text \<open>
  \<open>adapters/mcp-bridge/src/keepalive.ts\<close>: the liveness watchdog, in a world of timers. A timer has
  an identity, the time it is due, its period if it is an interval, and its callback. The fields of
  \<open>watchdog\<close> are those of \<open>KeepAliveWatchdog\<close>; \<open>ka\<close> adds the clock, the timers and the history of what
  passed between the watchdog and its peers, newest event first. A \<open>step\<close> is a timer firing, a pong
  arriving, time passing without a timer due, or a call of \<open>start\<close> or \<open>stop\<close>.
\<close>

type_synonym peer = nat

record ka_opts =
  every :: nat
  pongDeadline :: nat

definition DEFAULT_KEEP_ALIVE :: ka_opts where
  "DEFAULT_KEEP_ALIVE = \<lparr>every = 20000, pongDeadline = 10000\<rparr>"

datatype ka_callback = TickOf peer | DeadlineOf peer

datatype ka_event = Pinged peer | Ponged | Terminated peer

record ka_timer =
  t_id :: nat
  t_due :: nat
  t_period :: "nat option"
  t_cb :: ka_callback

record watchdog =
  pingsSent :: nat
  terminated :: bool
  interval :: "nat option"
  deadline :: "nat option"
  awaitingPong :: bool

record ka = watchdog +
  clock :: nat
  next_id :: nat
  timers :: "ka_timer list"
  hist :: "(nat \<times> ka_event) list"

definition ka_new :: ka where
  "ka_new = \<lparr>pingsSent = 0, terminated = False, interval = None, deadline = None, awaitingPong = False,
     clock = 0, next_id = 0, timers = [], hist = []\<rparr>"

definition add_timer :: "nat \<Rightarrow> nat option \<Rightarrow> ka_callback \<Rightarrow> ka \<Rightarrow> ka" where
  \<comment> \<open>\<open>setTimeout\<close> and \<open>setInterval\<close>; the handle is the \<open>next_id\<close> before the call\<close>
  "add_timer ms per cb w =
     w\<lparr>timers := \<lparr>t_id = next_id w, t_due = clock w + ms, t_period = per, t_cb = cb\<rparr> # timers w,
       next_id := next_id w + 1\<rparr>"

definition clear_timer :: "nat option \<Rightarrow> ka \<Rightarrow> ka" where
  \<comment> \<open>\<open>if (h !== undefined) clear(h)\<close>\<close>
  "clear_timer h w =
     (case h of None \<Rightarrow> w | Some i \<Rightarrow> w\<lparr>timers := filter (\<lambda>t. t_id t \<noteq> i) (timers w)\<rparr>)"

definition emit :: "ka_event \<Rightarrow> ka \<Rightarrow> ka" where
  "emit e w = w\<lparr>hist := (clock w, e) # hist w\<rparr>"

definition ka_stop :: "ka \<Rightarrow> ka" where
  "ka_stop w =
     (clear_timer (deadline w) (clear_timer (interval w) w))
       \<lparr>interval := None, deadline := None, awaitingPong := False\<rparr>"

definition ka_pong :: "ka \<Rightarrow> ka" where
  "ka_pong w = (clear_timer (deadline w) (emit Ponged (w\<lparr>awaitingPong := False\<rparr>)))\<lparr>deadline := None\<rparr>"

text \<open>\<open>sync p\<close>: the peer's \<open>ping()\<close> runs the pong listener before it returns.\<close>

definition ka_tick :: "ka_opts \<Rightarrow> (peer \<Rightarrow> bool) \<Rightarrow> peer \<Rightarrow> ka \<Rightarrow> ka" where
  "ka_tick opts sync p w =
     (if terminated w \<or> awaitingPong w then w
      else let w1 = w\<lparr>awaitingPong := True\<rparr>;
               w2 = (add_timer (pongDeadline opts) None (DeadlineOf p) w1)\<lparr>deadline := Some (next_id w1)\<rparr>;
               w3 = emit (Pinged p) (w2\<lparr>pingsSent := pingsSent w2 + 1\<rparr>)
           in if sync p then ka_pong w3 else w3)"

definition ka_expire :: "peer \<Rightarrow> ka \<Rightarrow> ka" where
  \<comment> \<open>the deadline callback\<close>
  "ka_expire p w = emit (Terminated p) (ka_stop (w\<lparr>terminated := True\<rparr>))"

definition ka_start :: "ka_opts \<Rightarrow> (peer \<Rightarrow> bool) \<Rightarrow> peer \<Rightarrow> ka \<Rightarrow> ka" where
  "ka_start opts sync p w =
     (let w1 = (ka_stop w)\<lparr>terminated := False\<rparr>;
          w2 = (add_timer (every opts) (Some (every opts)) (TickOf p) w1)\<lparr>interval := Some (next_id w1)\<rparr>
      in ka_tick opts sync p w2)"

definition rearm :: "ka_timer \<Rightarrow> ka_timer list \<Rightarrow> ka_timer list" where
  \<comment> \<open>the timers left when \<open>t\<close> fires: a timeout is gone, an interval is due a period later\<close>
  "rearm t ts =
     (case t_period t of
        None \<Rightarrow> filter (\<lambda>u. t_id u \<noteq> t_id t) ts
      | Some p \<Rightarrow> map (\<lambda>u. if t_id u = t_id t then u\<lparr>t_due := t_due u + p\<rparr> else u) ts)"

definition ka_fire :: "ka_opts \<Rightarrow> (peer \<Rightarrow> bool) \<Rightarrow> ka_timer \<Rightarrow> ka \<Rightarrow> ka" where
  "ka_fire opts sync t w =
     (let w1 = w\<lparr>clock := t_due t, timers := rearm t (timers w)\<rparr>
      in case t_cb t of TickOf p \<Rightarrow> ka_tick opts sync p w1 | DeadlineOf p \<Rightarrow> ka_expire p w1)"

datatype ka_label = Fire ka_timer | Pass nat | Pong | Start peer | Stop

inductive ka_step :: "ka_opts \<Rightarrow> (peer \<Rightarrow> bool) \<Rightarrow> ka \<Rightarrow> ka_label \<Rightarrow> ka \<Rightarrow> bool"
  for opts sync where
  fire: "t \<in> set (timers w) \<Longrightarrow> \<forall>u \<in> set (timers w). t_due t \<le> t_due u \<Longrightarrow>
    ka_step opts sync w (Fire t) (ka_fire opts sync t w)"
| pass: "clock w \<le> c \<Longrightarrow> \<forall>u \<in> set (timers w). c \<le> t_due u \<Longrightarrow>
    ka_step opts sync w (Pass c) (w\<lparr>clock := c\<rparr>)"
| pong: "ka_step opts sync w Pong (ka_pong w)"
| start: "ka_step opts sync w (Start p) (ka_start opts sync p w)"
| stop: "ka_step opts sync w Stop (ka_stop w)"

inductive ka_run :: "ka_opts \<Rightarrow> (peer \<Rightarrow> bool) \<Rightarrow> ka \<Rightarrow> ka_label list \<Rightarrow> ka \<Rightarrow> bool"
  for opts sync where
  refl: "ka_run opts sync w [] w"
| snoc: "ka_run opts sync w ls w' \<Longrightarrow> ka_step opts sync w' l w'' \<Longrightarrow> ka_run opts sync w (ls @ [l]) w''"

inductive_cases ka_stepE: "ka_step opts sync w l w'"

section \<open>The invariant\<close>

text \<open>\<open>silent p s h\<close>: \<open>p\<close> was pinged at time \<open>s\<close>, and no pong arrived since.\<close>

definition silent :: "peer \<Rightarrow> nat \<Rightarrow> (nat \<times> ka_event) list \<Rightarrow> bool" where
  "silent p s h = (\<exists>newer older. h = newer @ (s, Pinged p) # older \<and> (\<forall>c. (c, Ponged) \<notin> set newer))"

definition verdicts_ok :: "ka_opts \<Rightarrow> (nat \<times> ka_event) list \<Rightarrow> bool" where
  "verdicts_ok opts h =
     (\<forall>newer c p older. h = newer @ (c, Terminated p) # older \<longrightarrow>
        (\<exists>s. s + pongDeadline opts = c \<and> silent p s older))"

definition timer_ok :: "ka_opts \<Rightarrow> ka \<Rightarrow> ka_timer \<Rightarrow> bool" where
  "timer_ok opts w t =
     (clock w \<le> t_due t \<and> t_id t < next_id w
      \<and> (case t_cb t of
           TickOf p \<Rightarrow> interval w = Some (t_id t) \<and> t_period t = Some (every opts) \<and> t_due t \<le> clock w + every opts
         | DeadlineOf p \<Rightarrow> deadline w = Some (t_id t) \<and> t_period t = None
             \<and> (\<exists>s. s + pongDeadline opts = t_due t \<and> s \<le> clock w \<and> silent p s (hist w))))"

definition ka_inv :: "ka_opts \<Rightarrow> ka \<Rightarrow> bool" where
  "ka_inv opts w =
     (awaitingPong w = (deadline w \<noteq> None)
      \<and> distinct (map t_id (timers w))
      \<and> (\<forall>t \<in> set (timers w). timer_ok opts w t)
      \<and> (\<forall>i. interval w = Some i \<longrightarrow> (\<exists>t \<in> set (timers w). t_id t = i \<and> (\<exists>p. t_cb t = TickOf p)))
      \<and> (\<forall>d. deadline w = Some d \<longrightarrow> (\<exists>t \<in> set (timers w). t_id t = d \<and> (\<exists>p. t_cb t = DeadlineOf p)))
      \<and> (deadline w \<noteq> None \<longrightarrow> interval w \<noteq> None)
      \<and> (terminated w \<longrightarrow> interval w = None)
      \<and> verdicts_ok opts (hist w))"

lemma verdicts_ok_Nil [simp]: "verdicts_ok opts []"
  by (simp add: verdicts_ok_def)

lemma verdicts_ok_Cons:
  "verdicts_ok opts ((c, e) # h) =
     (verdicts_ok opts h \<and> (\<forall>p. e = Terminated p \<longrightarrow> (\<exists>s. s + pongDeadline opts = c \<and> silent p s h)))"
  (is "?l = ?r")
proof
  assume l: ?l
  then have "verdicts_ok opts h"
    unfolding verdicts_ok_def by (metis append_Cons)
  moreover have "\<exists>s. s + pongDeadline opts = c \<and> silent p s h" if "e = Terminated p" for p
    using l that unfolding verdicts_ok_def by (metis append_Nil)
  ultimately show ?r by blast
next
  assume ?r
  then show ?l by (auto simp: verdicts_ok_def Cons_eq_append_conv)
qed

lemma silent_Cons: "silent p s h \<Longrightarrow> e \<noteq> Ponged \<Longrightarrow> silent p s ((c, e) # h)"
  unfolding silent_def by (metis append_Cons prod.inject set_ConsD)

lemma silent_ping [simp]: "silent p s ((s, Pinged p) # h)"
  unfolding silent_def by (rule exI [of _ "[]"]) simp

lemmas ka_defs = add_timer_def clear_timer_def emit_def Let_def

lemma ka_inv_new: "ka_inv opts ka_new"
  by (simp add: ka_inv_def ka_new_def)

lemma ka_inv_timers:
  assumes "ka_inv opts w" "t \<in> set (timers w)"
  shows "timer_ok opts w t"
  using assms by (simp add: ka_inv_def)

lemma stop_clears:
  "\<forall>t \<in> set (timers w). interval w = Some (t_id t) \<or> deadline w = Some (t_id t) \<Longrightarrow> timers (ka_stop w) = []"
  by (fastforce simp: ka_stop_def clear_timer_def filter_empty_conv split: option.splits)

lemma timer_held: "timer_ok opts w t \<Longrightarrow> interval w = Some (t_id t) \<or> deadline w = Some (t_id t)"
  by (auto simp: timer_ok_def split: ka_callback.splits)

lemma stop_no_timers: "ka_inv opts w \<Longrightarrow> timers (ka_stop w) = []"
  using ka_inv_timers timer_held by (blast intro: stop_clears)

lemma stop_fields [simp]:
  "interval (ka_stop w) = None" "deadline (ka_stop w) = None" "awaitingPong (ka_stop w) = False"
  "terminated (ka_stop w) = terminated w" "hist (ka_stop w) = hist w" "clock (ka_stop w) = clock w"
  "pingsSent (ka_stop w) = pingsSent w" "next_id (ka_stop w) = next_id w"
  by (simp_all add: ka_stop_def clear_timer_def split: option.splits)

lemma ka_inv_stop: "ka_inv opts w \<Longrightarrow> ka_inv opts (ka_stop w)"
  using stop_no_timers [of opts w] by (simp add: ka_inv_def)

lemma pong_fields [simp]:
  "interval (ka_pong w) = interval w" "deadline (ka_pong w) = None" "awaitingPong (ka_pong w) = False"
  "terminated (ka_pong w) = terminated w" "hist (ka_pong w) = (clock w, Ponged) # hist w" "clock (ka_pong w) = clock w"
  "pingsSent (ka_pong w) = pingsSent w" "next_id (ka_pong w) = next_id w"
  by (simp_all add: ka_pong_def ka_defs split: option.splits)

lemma pong_timers:
  "timers (ka_pong w) = filter (\<lambda>t. deadline w \<noteq> Some (t_id t)) (timers w)"
  by (auto simp: ka_pong_def ka_defs intro!: filter_cong split: option.splits)

lemma ka_inv_pong:
  assumes inv: "ka_inv opts w"
  shows "ka_inv opts (ka_pong w)"
proof -
  have ok: "timer_ok opts (ka_pong w) t" if "t \<in> set (timers (ka_pong w))" for t
    using ka_inv_timers [OF inv, of t] that by (auto simp: timer_ok_def pong_timers split: ka_callback.splits)
  have "\<exists>t \<in> set (timers (ka_pong w)). t_id t = i \<and> (\<exists>p. t_cb t = TickOf p)" if i: "interval w = Some i" for i
  proof -
    from inv i obtain t p where t: "t \<in> set (timers w)" "t_id t = i" "t_cb t = TickOf p"
      by (auto simp: ka_inv_def)
    moreover have "deadline w \<noteq> Some i"
    proof
      assume "deadline w = Some i"
      with inv obtain u q where u: "u \<in> set (timers w)" "t_id u = i" "t_cb u = DeadlineOf q"
        by (auto simp: ka_inv_def)
      with t inv have "u = t" by (auto simp: ka_inv_def distinct_map dest: inj_onD)
      with t u show False by simp
    qed
    ultimately show ?thesis by (auto simp: pong_timers)
  qed
  with inv ok show ?thesis
    unfolding ka_inv_def by (simp add: verdicts_ok_Cons pong_timers distinct_map_filter)
qed

lemma timer_ok_ping:
  assumes "timer_ok opts w t" "deadline w = None"
    and "interval w' = interval w" "clock w' = clock w" "next_id w \<le> next_id w'"
  shows "timer_ok opts w' t"
  using assms by (auto simp: timer_ok_def split: ka_callback.splits)

text \<open>A ping, of a watchdog that is not waiting for a pong.\<close>

definition ka_ping :: "ka_opts \<Rightarrow> peer \<Rightarrow> ka \<Rightarrow> ka" where
  "ka_ping opts p w = emit (Pinged p)
     (((add_timer (pongDeadline opts) None (DeadlineOf p) (w\<lparr>awaitingPong := True\<rparr>))\<lparr>deadline := Some (next_id w)\<rparr>)
        \<lparr>pingsSent := pingsSent w + 1\<rparr>)"

lemma ka_tick_ping:
  "ka_tick opts sync p w =
     (if terminated w \<or> awaitingPong w then w else if sync p then ka_pong (ka_ping opts p w) else ka_ping opts p w)"
  by (simp add: ka_tick_def ka_ping_def Let_def add_timer_def)

lemma ping_fields [simp]:
  "interval (ka_ping opts p w) = interval w" "deadline (ka_ping opts p w) = Some (next_id w)"
  "awaitingPong (ka_ping opts p w) = True" "terminated (ka_ping opts p w) = terminated w"
  "hist (ka_ping opts p w) = (clock w, Pinged p) # hist w" "clock (ka_ping opts p w) = clock w"
  "pingsSent (ka_ping opts p w) = pingsSent w + 1" "next_id (ka_ping opts p w) = next_id w + 1"
  "timers (ka_ping opts p w) =
     \<lparr>t_id = next_id w, t_due = clock w + pongDeadline opts, t_period = None, t_cb = DeadlineOf p\<rparr> # timers w"
  by (simp_all add: ka_ping_def ka_defs)

lemma ka_inv_ping:
  assumes inv: "ka_inv opts w" and "\<not> awaitingPong w" "interval w \<noteq> None"
  shows "ka_inv opts (ka_ping opts p w)"
proof -
  from assms have d: "deadline w = None" by (simp add: ka_inv_def)
  have fresh: "t_id t \<noteq> next_id w" if "t \<in> set (timers w)" for t
    using ka_inv_timers [OF inv that] by (simp add: timer_ok_def)
  have "timer_ok opts (ka_ping opts p w) t" if "t \<in> set (timers w)" for t
    by (rule timer_ok_ping [OF ka_inv_timers [OF inv that] d]) simp_all
  moreover have "timer_ok opts (ka_ping opts p w)
      \<lparr>t_id = next_id w, t_due = clock w + pongDeadline opts, t_period = None, t_cb = DeadlineOf p\<rparr>"
    by (auto simp: timer_ok_def intro: exI [of _ "clock w"])
  ultimately show ?thesis
    using inv fresh assms(3) unfolding ka_inv_def by (force simp: verdicts_ok_Cons)
qed

lemma ka_inv_tick: "ka_inv opts w \<Longrightarrow> interval w \<noteq> None \<Longrightarrow> ka_inv opts (ka_tick opts sync p w)"
  by (simp add: ka_tick_ping ka_inv_ping ka_inv_pong)

lemma ka_inv_start:
  assumes inv: "ka_inv opts w"
  shows "ka_inv opts (ka_start opts sync p w)"
proof -
  let ?w = "(add_timer (every opts) (Some (every opts)) (TickOf p) ((ka_stop w)\<lparr>terminated := False\<rparr>))
    \<lparr>interval := Some (next_id w)\<rparr>"
  have "ka_inv opts ?w"
    using inv stop_no_timers [OF inv] by (simp add: ka_inv_def add_timer_def timer_ok_def)
  then have "ka_inv opts (ka_tick opts sync p ?w)" by (rule ka_inv_tick) simp
  then show ?thesis by (simp add: ka_start_def Let_def)
qed

lemma ka_inv_pass:
  assumes "ka_inv opts w" "clock w \<le> c" "\<forall>u \<in> set (timers w). c \<le> t_due u"
  shows "ka_inv opts (w\<lparr>clock := c\<rparr>)"
proof -
  have "timer_ok opts (w\<lparr>clock := c\<rparr>) t" if "t \<in> set (timers w)" for t
    using ka_inv_timers [OF assms(1) that] assms(2,3) that by (auto simp: timer_ok_def split: ka_callback.splits)
  with assms(1) show ?thesis by (simp add: ka_inv_def)
qed

lemma rearm_subset: "t_period t = None \<Longrightarrow> set (rearm t ts) \<subseteq> set ts"
  by (auto simp: rearm_def)

lemma ka_inv_fire:
  assumes inv: "ka_inv opts w" and t: "t \<in> set (timers w)" and least: "\<forall>u \<in> set (timers w). t_due t \<le> t_due u"
  shows "ka_inv opts (ka_fire opts sync t w)"
proof (cases "t_cb t")
  case (TickOf p)
  let ?w = "w\<lparr>clock := t_due t, timers := rearm t (timers w)\<rparr>"
  note ok = ka_inv_timers [OF inv]
  have i: "interval w = Some (t_id t)" "t_period t = Some (every opts)" "clock w \<le> t_due t"
    using ok [OF t] TickOf by (simp_all add: timer_ok_def)
  have r: "rearm t (timers w) = map (\<lambda>u. if t_id u = t_id t then u\<lparr>t_due := t_due u + every opts\<rparr> else u) (timers w)"
    by (simp add: rearm_def i)
  have ids: "map t_id (rearm t (timers w)) = map t_id (timers w)"
    by (auto simp: r)
  have same: "u = t" if "u \<in> set (timers w)" "t_id u = t_id t" for u
    using inv t that by (auto simp: ka_inv_def distinct_map dest: inj_onD)
  have "timer_ok opts ?w v" if v: "v \<in> set (rearm t (timers w))" for v
  proof -
    from v obtain u where u: "u \<in> set (timers w)"
      and v': "v = (if t_id u = t_id t then u\<lparr>t_due := t_due u + every opts\<rparr> else u)"
      by (auto simp: r)
    show ?thesis
    proof (cases "t_id u = t_id t")
      case True
      with u same have "u = t" by blast
      with v' ok [OF t] TickOf show ?thesis by (simp add: timer_ok_def)
    next
      case False
      with v' have "v = u" by simp
      with ok [OF u] False i least u show ?thesis by (auto simp: timer_ok_def split: ka_callback.splits)
    qed
  qed
  moreover have "\<exists>v \<in> set (rearm t (timers w)). t_id v = i \<and> (\<exists>p. t_cb v = TickOf p)"
    if "interval w = Some i" for i
    using t that TickOf i(1)
    by (intro bexI [of _ "t\<lparr>t_due := t_due t + every opts\<rparr>"]) (auto simp: r image_iff intro!: bexI [of _ t])
  moreover have "\<exists>v \<in> set (rearm t (timers w)). t_id v = d \<and> (\<exists>p. t_cb v = DeadlineOf p)"
    if "deadline w = Some d" for d
  proof -
    from inv that obtain u q where u: "u \<in> set (timers w)" "t_id u = d" "t_cb u = DeadlineOf q"
      by (auto simp: ka_inv_def)
    have "t_id u \<noteq> t_id t" using same [OF u(1)] u(3) TickOf by auto
    with u show ?thesis by (force simp: r)
  qed
  ultimately have "ka_inv opts ?w" using inv by (simp add: ka_inv_def ids)
  then show ?thesis using TickOf i(1) by (simp add: ka_fire_def ka_inv_tick)
next
  case (DeadlineOf p)
  let ?w = "w\<lparr>clock := t_due t, timers := rearm t (timers w), terminated := True\<rparr>"
  from ka_inv_timers [OF inv t] DeadlineOf obtain s where p: "t_period t = None"
    and s: "s + pongDeadline opts = t_due t" "silent p s (hist w)"
    by (auto simp: timer_ok_def)
  have "\<forall>u \<in> set (timers ?w). interval ?w = Some (t_id u) \<or> deadline ?w = Some (t_id u)"
    using rearm_subset [OF p, of "timers w"] ka_inv_timers [OF inv] timer_held [of opts w] by auto
  then have "timers (ka_stop ?w) = []" by (rule stop_clears)
  moreover have "verdicts_ok opts (hist w)" using inv by (simp add: ka_inv_def)
  ultimately show ?thesis
    using DeadlineOf s by (auto simp: ka_fire_def ka_expire_def emit_def ka_inv_def verdicts_ok_Cons)
qed

lemma ka_inv_step: "ka_step opts sync w l w' \<Longrightarrow> ka_inv opts w \<Longrightarrow> ka_inv opts w'"
  by (cases rule: ka_step.cases)
    (auto intro: ka_inv_fire ka_inv_pass ka_inv_pong ka_inv_start ka_inv_stop)

lemma ka_inv_run: "ka_run opts sync w ls w' \<Longrightarrow> ka_inv opts w \<Longrightarrow> ka_inv opts w'"
  by (induction rule: ka_run.induct) (auto intro: ka_inv_step)

section \<open>A dead peer is found\<close>

text \<open>
  The bound on the verdict: while no pong comes, either the peer has been terminated, or the deadline
  is armed and due in time, or the next tick is.
\<close>

definition closing_in :: "ka_opts \<Rightarrow> nat \<Rightarrow> peer \<Rightarrow> ka \<Rightarrow> bool" where
  "closing_in opts t0 p w =
     (terminated w \<and> (\<exists>c \<le> t0 + every opts + pongDeadline opts. (c, Terminated p) \<in> set (hist w))
      \<or> \<not> terminated w \<and> (\<forall>t \<in> set (timers w). t_cb t = TickOf p \<or> t_cb t = DeadlineOf p)
         \<and> interval w \<noteq> None
         \<and> (if awaitingPong w then \<exists>t \<in> set (timers w). t_cb t = DeadlineOf p \<and> t_due t \<le> t0 + every opts + pongDeadline opts
            else \<exists>t \<in> set (timers w). t_cb t = TickOf p \<and> t_due t \<le> t0 + every opts))"

definition hopeless :: "ka_label \<Rightarrow> bool" where
  \<comment> \<open>time passes and timers fire; nothing else happens\<close>
  "hopeless l = (case l of Fire _ \<Rightarrow> True | Pass _ \<Rightarrow> True | _ \<Rightarrow> False)"

lemma terminated_idle:
  assumes "ka_inv opts w" "terminated w"
  shows "timers w = []"
proof -
  have "interval w = None" "deadline w = None" using assms by (auto simp: ka_inv_def)
  with ka_inv_timers [OF assms(1)] timer_held have "t \<notin> set (timers w)" for t by fastforce
  then show ?thesis by (cases "timers w") auto
qed

lemma closing_start:
  assumes "ka_inv opts w" "\<not> sync p"
  shows "closing_in opts (clock w) p (ka_start opts sync p w)"
  using stop_no_timers [OF assms(1)] assms(2)
  by (simp add: ka_start_def closing_in_def ka_tick_ping Let_def add_timer_def)

lemma closing_tick:
  assumes inv: "ka_inv opts w" and "\<not> sync p" and cl: "closing_in opts t0 p w"
    and t: "t \<in> set (timers w)" "t_cb t = TickOf p" and least: "\<forall>u \<in> set (timers w). t_due t \<le> t_due u"
  shows "closing_in opts t0 p (ka_fire opts sync t w)"
proof -
  have live: "\<not> terminated w" using terminated_idle [OF inv] t(1) by auto
  have i: "t_period t = Some (every opts)"
    using ka_inv_timers [OF inv t(1)] t(2) by (simp add: timer_ok_def)
  let ?f = "\<lambda>u. if t_id u = t_id t then u\<lparr>t_due := t_due u + every opts\<rparr> else u"
  have r: "rearm t (timers w) = map ?f (timers w)" by (simp add: rearm_def i)
  have cbs: "\<forall>v \<in> set (rearm t (timers w)). t_cb v = TickOf p \<or> t_cb v = DeadlineOf p"
    using cl live by (auto simp: r closing_in_def)
  show ?thesis
  proof (cases "awaitingPong w")
    case True
    with cl live obtain u where u: "u \<in> set (timers w)" "t_cb u = DeadlineOf p" "t_due u \<le> t0 + every opts + pongDeadline opts"
      by (auto simp: closing_in_def)
    have "t_id u \<noteq> t_id t"
    proof
      assume "t_id u = t_id t"
      with inv t u have "u = t" by (auto simp: ka_inv_def distinct_map dest: inj_onD)
      with t u show False by simp
    qed
    with u have "u \<in> set (rearm t (timers w))" by (force simp: r)
    with u cbs cl live True t(2) show ?thesis
      by (auto simp: closing_in_def ka_fire_def ka_tick_ping)
  next
    case False
    with cl live obtain u where "u \<in> set (timers w)" "t_due u \<le> t0 + every opts"
      by (auto simp: closing_in_def)
    with least have "t_due t \<le> t0 + every opts" by force
    with cbs cl live False t(2) assms(2) show ?thesis
      by (auto simp: closing_in_def ka_fire_def ka_tick_ping)
  qed
qed

lemma closing_expire:
  assumes inv: "ka_inv opts w" and cl: "closing_in opts t0 p w"
    and t: "t \<in> set (timers w)" "t_cb t = DeadlineOf p" and least: "\<forall>u \<in> set (timers w). t_due t \<le> t_due u"
  shows "closing_in opts t0 p (ka_fire opts sync t w)"
proof -
  have live: "\<not> terminated w" using terminated_idle [OF inv] t(1) by auto
  have "deadline w \<noteq> None" using ka_inv_timers [OF inv t(1)] t(2) by (simp add: timer_ok_def)
  then have "awaitingPong w" using inv by (simp add: ka_inv_def)
  with cl live obtain u where "u \<in> set (timers w)" "t_due u \<le> t0 + every opts + pongDeadline opts"
    by (auto simp: closing_in_def)
  with least have "t_due t \<le> t0 + every opts + pongDeadline opts" by force
  with t(2) show ?thesis by (auto simp: closing_in_def ka_fire_def ka_expire_def emit_def)
qed

lemma closing_step:
  assumes "ka_step opts sync w l w'" "hopeless l" "ka_inv opts w" "\<not> sync p" "closing_in opts t0 p w"
  shows "closing_in opts t0 p w'"
  using assms(1)
proof (cases rule: ka_step.cases)
  case (fire t)
  then have "\<not> terminated w" using terminated_idle [OF assms(3)] by auto
  with fire assms(5) consider "t_cb t = TickOf p" | "t_cb t = DeadlineOf p"
    by (auto simp: closing_in_def)
  then show ?thesis
    using fire closing_tick [of opts w sync p t0 t] closing_expire [of opts w t0 p t sync] assms by cases auto
qed (use assms in \<open>auto simp: hopeless_def closing_in_def\<close>)

lemma closing_run:
  assumes "ka_run opts sync w ls w'" "list_all hopeless ls" "ka_inv opts w" "\<not> sync p" "closing_in opts t0 p w"
  shows "closing_in opts t0 p w'"
  using assms
  by (induction rule: ka_run.induct) (auto intro: closing_step ka_inv_run)

lemma closing_over:
  assumes "ka_inv opts w" "closing_in opts t0 p w" "t0 + every opts + pongDeadline opts < clock w"
  shows "terminated w \<and> (\<exists>c \<le> t0 + every opts + pongDeadline opts. (c, Terminated p) \<in> set (hist w))"
proof (rule ccontr)
  assume "\<not> ?thesis"
  with assms(2) obtain t where "t \<in> set (timers w)" "t_due t \<le> t0 + every opts + pongDeadline opts"
    by (force simp: closing_in_def split: if_splits)
  with ka_inv_timers [OF assms(1)] assms(3) show False by (force simp: timer_ok_def)
qed

text \<open>From any moment at which the watchdog is running, with the interval's tick within a period.\<close>

lemma closing_running:
  assumes "ka_inv opts w" "interval w \<noteq> None" "\<forall>t \<in> set (timers w). t_cb t = TickOf p \<or> t_cb t = DeadlineOf p"
  shows "closing_in opts (clock w) p w"
proof -
  have live: "\<not> terminated w" using assms(1,2) by (auto simp: ka_inv_def)
  show ?thesis
  proof (cases "awaitingPong w")
    case True
    with assms(1) have "deadline w \<noteq> None" by (simp add: ka_inv_def)
    with assms(1) obtain t where t: "t \<in> set (timers w)" "\<exists>q. t_cb t = DeadlineOf q"
      by (auto simp: ka_inv_def)
    with assms(3) have "t_cb t = DeadlineOf p" by auto
    moreover from this ka_inv_timers [OF assms(1) t(1)] have "t_due t \<le> clock w + every opts + pongDeadline opts"
      by (auto simp: timer_ok_def)
    ultimately show ?thesis using t True live assms(2,3) by (auto simp: closing_in_def)
  next
    case False
    from assms(1,2) obtain t where t: "t \<in> set (timers w)" "\<exists>q. t_cb t = TickOf q"
      by (auto simp: ka_inv_def)
    with assms(3) have "t_cb t = TickOf p" by auto
    moreover from this ka_inv_timers [OF assms(1) t(1)] have "t_due t \<le> clock w + every opts"
      by (auto simp: timer_ok_def)
    ultimately show ?thesis using t False live assms(2,3) by (auto simp: closing_in_def)
  qed
qed

lemma ka_inv_held:
  assumes "ka_inv opts w"
  shows "interval w = Some i \<Longrightarrow> \<exists>t \<in> set (timers w). t_id t = i \<and> (\<exists>p. t_cb t = TickOf p)"
    and "deadline w = Some d \<Longrightarrow> \<exists>t \<in> set (timers w). t_id t = d \<and> (\<exists>p. t_cb t = DeadlineOf p)"
    and "distinct (map t_id (timers w))"
    and "awaitingPong w = (deadline w \<noteq> None)"
    and "deadline w \<noteq> None \<Longrightarrow> interval w \<noteq> None"
  using assms unfolding ka_inv_def by blast+

lemma timer_ids:
  assumes inv: "ka_inv opts w"
  shows "t_id ` set (timers w) = set_option (interval w) \<union> set_option (deadline w)"
proof
  show "t_id ` set (timers w) \<subseteq> set_option (interval w) \<union> set_option (deadline w)"
    using ka_inv_timers [OF inv] timer_held by fastforce
  show "set_option (interval w) \<union> set_option (deadline w) \<subseteq> t_id ` set (timers w)"
  proof
    fix i
    assume "i \<in> set_option (interval w) \<union> set_option (deadline w)"
    then have "interval w = Some i \<or> deadline w = Some i" by auto
    then obtain t where "t \<in> set (timers w)" "t_id t = i"
      using ka_inv_held(1,2) [OF inv] by blast
    then show "i \<in> t_id ` set (timers w)" by blast
  qed
qed

lemma timer_ids_distinct:
  assumes inv: "ka_inv opts w" and "interval w = Some i" "deadline w = Some d"
  shows "i \<noteq> d"
proof
  assume "i = d"
  obtain t p where t: "t \<in> set (timers w)" "t_id t = i" "t_cb t = TickOf p"
    using ka_inv_held(1) [OF inv assms(2)] by blast
  obtain u q where u: "u \<in> set (timers w)" "t_id u = d" "t_cb u = DeadlineOf q"
    using ka_inv_held(2) [OF inv assms(3)] by blast
  have "u = t"
    using ka_inv_held(3) [OF inv] t u \<open>i = d\<close> by (auto simp: distinct_map dest: inj_onD)
  with t u show False by simp
qed

lemma timer_count:
  assumes inv: "ka_inv opts w"
  shows "length (timers w) = (if interval w = None then 0 else if awaitingPong w then 2 else 1)"
proof -
  have "length (timers w) = card (t_id ` set (timers w))"
    using distinct_card [OF ka_inv_held(3) [OF inv]] by simp
  then have "length (timers w) = card (set_option (interval w) \<union> set_option (deadline w))"
    by (simp only: timer_ids [OF inv])
  moreover have "card (set_option (interval w) \<union> set_option (deadline w)) = 2"
    if "interval w = Some i" "deadline w = Some d" for i d
    using timer_ids_distinct [OF inv that] that by simp
  moreover have "deadline w = None" if "interval w = None"
    using ka_inv_held(5) [OF inv] that by blast
  moreover have "awaitingPong w \<longleftrightarrow> deadline w \<noteq> None"
    by (rule ka_inv_held(4) [OF inv])
  ultimately show ?thesis by (cases "interval w"; cases "deadline w") auto
qed

section \<open>Properties\<close>

text \<open>C35: a peer that stops answering is terminated within \<open>every + pongDeadline\<close>: in any run in which
  only timers fire and time passes, from a moment at which the watchdog watches \<open>p\<close>, a verdict on \<open>p\<close>
  has fallen in time once the clock is past that bound.\<close>

theorem dead_peer_terminated:
  assumes "ka_run opts sync ka_new ls0 w" "interval w \<noteq> None"
    and "\<forall>t \<in> set (timers w). t_cb t = TickOf p \<or> t_cb t = DeadlineOf p" "\<not> sync p"
    and "ka_run opts sync w ls w'" "list_all hopeless ls"
    and "clock w + every opts + pongDeadline opts < clock w'"
  shows "terminated w' \<and> (\<exists>c \<le> clock w + every opts + pongDeadline opts. (c, Terminated p) \<in> set (hist w'))"
proof (rule closing_over)
  have inv: "ka_inv opts w" by (rule ka_inv_run [OF assms(1) ka_inv_new])
  show "ka_inv opts w'" by (rule ka_inv_run [OF assms(5) inv])
  show "closing_in opts (clock w) p w'"
    by (rule closing_run [OF assms(5,6) inv assms(4) closing_running [OF inv assms(2,3)]])
qed (rule assms(7))

text \<open>C36: a live peer is never terminated: a verdict falls only on a peer that was pinged exactly
  \<open>pongDeadline\<close> earlier, with no pong in between.\<close>

theorem terminated_only_when_silent:
  assumes "ka_run opts sync ka_new ls w" "hist w = newer @ (c, Terminated p) # older"
  shows "\<exists>s. s + pongDeadline opts = c \<and> silent p s older"
proof -
  have "ka_inv opts w" by (rule ka_inv_run [OF assms(1) ka_inv_new])
  then have "verdicts_ok opts (hist w)" by (simp add: ka_inv_def)
  then show ?thesis unfolding verdicts_ok_def using assms(2) by blast
qed

text \<open>At most one interval and one deadline are ever pending, the deadline exactly while a pong is
  awaited, and none after \<open>stop\<close> or a verdict: the watchdog leaks no timer, whatever the order of its
  calls.\<close>

lemma no_timer_leak:
  assumes "ka_run opts sync ka_new ls w"
  shows "length (timers w) = (if interval w = None then 0 else if awaitingPong w then 2 else 1)
    \<and> (awaitingPong w = (deadline w \<noteq> None)) \<and> (terminated w \<longrightarrow> timers w = []) \<and> timers (ka_stop w) = []"
proof -
  have inv: "ka_inv opts w" by (rule ka_inv_run [OF assms ka_inv_new])
  show ?thesis
    using timer_count [OF inv] ka_inv_held(4) [OF inv] terminated_idle [OF inv] stop_no_timers [OF inv] by simp
qed

section \<open>A concrete run\<close>

text \<open>Peer 1 is pinged at time 0, never answers, and is terminated at time 10.\<close>

definition demo_opts :: ka_opts where
  "demo_opts = \<lparr>every = 20, pongDeadline = 10\<rparr>"

definition demo_start :: ka where
  "demo_start = ka_start demo_opts (\<lambda>_. False) 1 ka_new"

definition demo_timer :: ka_timer where
  "demo_timer = \<lparr>t_id = 1, t_due = 10, t_period = None, t_cb = DeadlineOf 1\<rparr>"

lemmas demo_defs = demo_opts_def demo_start_def demo_timer_def ka_new_def ka_start_def ka_stop_def ka_tick_def
  ka_fire_def ka_expire_def ka_defs rearm_def

lemma demo_runs:
  "ka_run demo_opts (\<lambda>_. False) ka_new [Start 1] demo_start"
  "ka_run demo_opts (\<lambda>_. False) demo_start [Fire demo_timer] (ka_fire demo_opts (\<lambda>_. False) demo_timer demo_start)"
  "ka_run demo_opts (\<lambda>_. False) demo_start [Fire demo_timer, Pass 31]
     ((ka_fire demo_opts (\<lambda>_. False) demo_timer demo_start)\<lparr>clock := 31\<rparr>)"
  "ka_run demo_opts (\<lambda>_. False) ka_new [Start 1, Fire demo_timer] (ka_fire demo_opts (\<lambda>_. False) demo_timer demo_start)"
proof -
  note snoc1 = ka_run.snoc [OF ka_run.refl, simplified]
  show s: "ka_run demo_opts (\<lambda>_. False) ka_new [Start 1] demo_start"
    unfolding demo_start_def by (rule snoc1) (rule ka_step.start)
  have f: "ka_step demo_opts (\<lambda>_. False) demo_start (Fire demo_timer) (ka_fire demo_opts (\<lambda>_. False) demo_timer demo_start)"
    by (rule ka_step.fire) (simp_all add: demo_defs)
  show f1: "ka_run demo_opts (\<lambda>_. False) demo_start [Fire demo_timer] (ka_fire demo_opts (\<lambda>_. False) demo_timer demo_start)"
    by (rule snoc1) (rule f)
  have "ka_step demo_opts (\<lambda>_. False) (ka_fire demo_opts (\<lambda>_. False) demo_timer demo_start) (Pass 31)
     ((ka_fire demo_opts (\<lambda>_. False) demo_timer demo_start)\<lparr>clock := 31\<rparr>)"
    by (rule ka_step.pass) (simp_all add: demo_defs)
  from ka_run.snoc [OF f1 this]
  show "ka_run demo_opts (\<lambda>_. False) demo_start [Fire demo_timer, Pass 31]
     ((ka_fire demo_opts (\<lambda>_. False) demo_timer demo_start)\<lparr>clock := 31\<rparr>)" by simp
  from ka_run.snoc [OF s f]
  show "ka_run demo_opts (\<lambda>_. False) ka_new [Start 1, Fire demo_timer] (ka_fire demo_opts (\<lambda>_. False) demo_timer demo_start)"
    by simp
qed

lemma dead_peer_terminated_witness:
  "terminated ((ka_fire demo_opts (\<lambda>_. False) demo_timer demo_start)\<lparr>clock := 31\<rparr>)"
proof -
  have "interval demo_start \<noteq> None" "\<forall>t \<in> set (timers demo_start). t_cb t = TickOf 1 \<or> t_cb t = DeadlineOf 1"
    "list_all hopeless [Fire demo_timer, Pass 31]"
    "clock demo_start + every demo_opts + pongDeadline demo_opts < clock ((ka_fire demo_opts (\<lambda>_. False) demo_timer demo_start)\<lparr>clock := 31\<rparr>)"
    by (simp_all add: demo_defs hopeless_def)
  with dead_peer_terminated [OF demo_runs(1) _ _ _ demo_runs(3), of 1] show ?thesis by blast
qed

lemma terminated_only_when_silent_witness:
  "\<exists>s. s + 10 = 10 \<and> silent 1 s [(0, Pinged 1)]"
proof -
  have "hist (ka_fire demo_opts (\<lambda>_. False) demo_timer demo_start) = [] @ (10, Terminated 1) # [(0, Pinged 1)]"
    by (simp add: demo_defs)
  from terminated_only_when_silent [OF demo_runs(4) this] show ?thesis by (simp add: demo_opts_def)
qed

lemma no_timer_leak_witness: "length (timers demo_start) = 2"
  using no_timer_leak [OF demo_runs(1)] by (simp add: demo_defs)

end
