(* ===== verification/Json_Roundtrip.thy ===== *)
theory Json_Roundtrip
  imports Json
begin

text \<open>
  \<open>JSON.parse\<close> inverts \<open>JSON.stringify\<close>: the parser run on the printed form of any value, with
  any white-space indentation, returns the value's JSON normal form (\<open>undefined\<close> members dropped,
  \<open>undefined\<close> elements \<open>null\<close>, properties in property order). Values that come from the parser
  are already normal, so a file that is read, changed and written back reads as what was written.
\<close>

section \<open>Objects\<close>

lemma map_of_obj_put [simp]: "map_of (obj_put k v ps) = (map_of ps)(k \<mapsto> v)"
  by (induction k v ps rule: obj_put.induct) (auto simp: fun_eq_iff)

lemma map_of_obj_del [simp]: "map_of (obj_del k ps) = (map_of ps)(k := None)"
  by (induction ps) (auto simp: obj_del_def fun_eq_iff)

lemma keys_obj_put [simp]: "fst ` set (obj_put k v ps) = insert k (fst ` set ps)"
  by (induction k v ps rule: obj_put.induct) auto

lemma ranks_obj_put: "(\<lambda>p. prop_rank (fst p)) ` set (obj_put k v ps) = insert (prop_rank k) ((\<lambda>p. prop_rank (fst p)) ` set ps)"
  by (induction k v ps rule: obj_put.induct) auto

lemma distinct_obj_put:
  "distinct (map fst ps) \<Longrightarrow> sorted (map (\<lambda>p. prop_rank (fst p)) ps) \<Longrightarrow> distinct (map fst (obj_put k v ps))"
  by (induction k v ps rule: obj_put.induct) (auto simp: leD)

lemma sorted_obj_put:
  "sorted (map (\<lambda>p. prop_rank (fst p)) ps) \<Longrightarrow> sorted (map (\<lambda>p. prop_rank (fst p)) (obj_put k v ps))"
proof (induction k v ps rule: obj_put.induct)
  case (1 k v)
  then show ?case by simp
next
  case (2 k v k' v' ps)
  have *: "set (map (\<lambda>p. prop_rank (fst p)) (obj_put k v ps)) = insert (prop_rank k) ((\<lambda>p. prop_rank (fst p)) ` set ps)"
    by (simp only: set_map ranks_obj_put)
  consider "k = k'" | "k \<noteq> k'" "prop_rank k < prop_rank k'" | "k \<noteq> k'" "\<not> prop_rank k < prop_rank k'"
    by blast
  then show ?case
  proof cases
    case 1
    with "2.prems" show ?thesis by simp
  next
    case 2
    with "2.prems" show ?thesis by (auto intro: order.strict_implies_order order_trans)
  next
    case 3
    have "\<forall>y \<in> insert (prop_rank k) ((\<lambda>p. prop_rank (fst p)) ` set ps). prop_rank k' \<le> y"
      using "2.prems" 3 by auto
    with "2.IH" "2.prems" 3 * show ?thesis by (simp del: set_map)
  qed
qed

lemma obj_ok_put: "obj_ok ps \<Longrightarrow> obj_ok (obj_put k v ps)"
  by (simp add: obj_ok_def distinct_obj_put sorted_obj_put)

lemma obj_ok_del: "obj_ok ps \<Longrightarrow> obj_ok (obj_del k ps)"
  by (simp add: obj_ok_def obj_del_def distinct_map_filter sorted_filter)

lemma obj_ok_Nil [simp]: "obj_ok []"
  by (simp add: obj_ok_def)

interpretation js_obj: keyed_store map_of obj_put obj_del "map fst" obj_ok
  by unfold_locales (auto simp: dom_map_of_conv_image_fst obj_ok_put obj_ok_del obj_ok_def [THEN iffD1])

lemma obj_ok_puts: "obj_ok ps \<Longrightarrow> obj_ok (obj_puts ps ms)"
  by (induction ps ms rule: obj_puts.induct) (auto intro: obj_ok_put)

lemma obj_ok_obj_of [simp]: "obj_ok (obj_of ms)"
  by (simp add: obj_of_def obj_ok_puts)

lemma obj_put_last:
  assumes "k \<notin> fst ` set ps" and "\<forall>r \<in> (\<lambda>p. prop_rank (fst p)) ` set ps. r \<le> prop_rank k"
  shows "obj_put k v ps = ps @ [(k, v)]"
  using assms by (induction k v ps rule: obj_put.induct) auto

lemma obj_puts_append: "obj_ok (ps @ ms) \<Longrightarrow> obj_puts ps ms = ps @ ms"
proof (induction ps ms rule: obj_puts.induct)
  case (1 ps)
  then show ?case by simp
next
  case (2 ps k v ms)
  from 2(2) have "obj_put k v ps = ps @ [(k, v)]"
    by (intro obj_put_last) (auto simp: obj_ok_def sorted_append)
  with 2 show ?case by simp
qed

lemma obj_of_ok [simp]: "obj_ok ps \<Longrightarrow> obj_of ps = ps"
  by (simp add: obj_of_def obj_puts_append)

lemma map_of_obj_puts: "map_of (obj_puts ps ms) = map_of ps ++ map_of (rev ms)"
  by (induction ps ms rule: obj_puts.induct) (auto simp: fun_eq_iff map_add_def split: option.splits)

lemma map_of_rev_distinct: "distinct (map fst ms) \<Longrightarrow> map_of (rev ms) = map_of ms"
proof (induction ms)
  case Nil
  then show ?case by simp
next
  case (Cons p ms)
  then have "map_of ms (fst p) = None" by (simp add: map_of_eq_None_iff)
  with Cons show ?case by (cases p) (auto simp: fun_eq_iff map_add_def split: option.splits)
qed

lemma map_of_obj_of: "distinct (map fst ms) \<Longrightarrow> map_of (obj_of ms) = map_of ms"
  by (simp add: obj_of_def map_of_obj_puts map_of_rev_distinct)

lemma prop_of_put [simp]: "prop_of (obj_put k v ps) k' = (if k' = k then v else prop_of ps k')"
  by (simp add: prop_of_def)

lemma prop_of_del [simp]: "prop_of (obj_del k ps) k' = (if k' = k then JUndef else prop_of ps k')"
  by (simp add: prop_of_def)

lemma prop_of_Cons [simp]: "prop_of ((k, v) # ps) k' = (if k' = k then v else prop_of ps k')"
  by (simp add: prop_of_def)

lemma prop_of_Nil [simp]: "prop_of [] k = JUndef"
  by (simp add: prop_of_def)

section \<open>Normal forms\<close>

fun jnorm :: "json \<Rightarrow> json"
  and jnorm_elems :: "json list \<Rightarrow> json list"
  and jnorm_props :: "(string \<times> json) list \<Rightarrow> (string \<times> json) list" where
  "jnorm JUndef = JNull"
| "jnorm JNull = JNull"
| "jnorm (JBool b) = JBool b"
| "jnorm (JNum i) = JNum i"
| "jnorm (JFrac t) = JFrac t"
| "jnorm (JStr s) = JStr s"
| "jnorm (JArr vs) = JArr (jnorm_elems vs)"
| "jnorm (JObj ps) = JObj (obj_of (jnorm_props ps))"
| "jnorm_elems [] = []"
| "jnorm_elems (v # vs) = jnorm v # jnorm_elems vs"
| "jnorm_props [] = []"
| "jnorm_props ((k, v) # ps) = (if v = JUndef then jnorm_props ps else (k, jnorm v) # jnorm_props ps)"

text \<open>Values whose number tokens are well formed, and values in normal form.\<close>

fun jtok :: "json \<Rightarrow> bool"
  and jtok_elems :: "json list \<Rightarrow> bool"
  and jtok_props :: "(string \<times> json) list \<Rightarrow> bool" where
  "jtok (JFrac t) = frac_token t"
| "jtok (JArr vs) = jtok_elems vs"
| "jtok (JObj ps) = jtok_props ps"
| "jtok _ = True"
| "jtok_elems [] = True"
| "jtok_elems (v # vs) = (jtok v \<and> jtok_elems vs)"
| "jtok_props [] = True"
| "jtok_props ((k, v) # ps) = (jtok v \<and> jtok_props ps)"

fun jok :: "json \<Rightarrow> bool"
  and jok_elems :: "json list \<Rightarrow> bool"
  and jok_props :: "(string \<times> json) list \<Rightarrow> bool" where
  "jok JUndef = False"
| "jok (JFrac t) = frac_token t"
| "jok (JArr vs) = jok_elems vs"
| "jok (JObj ps) = (obj_ok ps \<and> jok_props ps)"
| "jok _ = True"
| "jok_elems [] = True"
| "jok_elems (v # vs) = (jok v \<and> jok_elems vs)"
| "jok_props [] = True"
| "jok_props ((k, v) # ps) = (jok v \<and> jok_props ps)"

lemma jok_imp_jtok:
  "jok v \<Longrightarrow> jtok v"
  "jok_elems vs \<Longrightarrow> jtok_elems vs"
  "jok_props ps \<Longrightarrow> jtok_props ps"
  by (induction v and vs and ps rule: jok_jok_elems_jok_props.induct) auto

lemma jok_imp_jnorm:
  "jok v \<Longrightarrow> jnorm v = v"
  "jok_elems vs \<Longrightarrow> jnorm_elems vs = vs"
  "jok_props ps \<Longrightarrow> jnorm_props ps = ps"
  by (induction v and vs and ps rule: jok_jok_elems_jok_props.induct) auto

lemma jok_elems_iff: "jok_elems vs \<longleftrightarrow> (\<forall>v \<in> set vs. jok v)"
  by (induction vs) auto

lemma jok_props_iff: "jok_props ps \<longleftrightarrow> (\<forall>(k, v) \<in> set ps. jok v)"
  by (induction ps) auto

lemma jok_props_put: "jok_props ps \<Longrightarrow> jok v \<Longrightarrow> jok_props (obj_put k v ps)"
  by (induction k v ps rule: obj_put.induct) auto

lemma jok_props_del: "jok_props ps \<Longrightarrow> jok_props (obj_del k ps)"
  by (auto simp: jok_props_iff obj_del_def)

lemma jok_props_puts: "jok_props ps \<Longrightarrow> jok_props ms \<Longrightarrow> jok_props (obj_puts ps ms)"
  by (induction ps ms rule: obj_puts.induct) (auto intro: jok_props_put)

lemma jok_props_obj_of: "jok_props ms \<Longrightarrow> jok_props (obj_of ms)"
  by (simp add: obj_of_def jok_props_puts)

lemma jok_jnorm:
  "jtok v \<Longrightarrow> jok (jnorm v)"
  "jtok_elems vs \<Longrightarrow> jok_elems (jnorm_elems vs)"
  "jtok_props ps \<Longrightarrow> jok_props (jnorm_props ps)"
  by (induction v and vs and ps rule: jnorm_jnorm_elems_jnorm_props.induct) (auto intro: jok_props_obj_of)

lemma jok_prop: "jok (JObj ps) \<Longrightarrow> map_of ps k = Some v \<Longrightarrow> jok v"
  by (auto simp: jok_props_iff dest: map_of_SomeD)

section \<open>Lexical parts\<close>

lemma skip_ws_append [simp]: "list_all is_ws w \<Longrightarrow> skip_ws (w @ s) = skip_ws s"
  by (auto simp: skip_ws_def list_all_iff dropWhile_append2)

lemma skip_ws_stop [simp]: "\<not> is_ws c \<Longrightarrow> skip_ws (c # s) = c # s"
  by (simp add: skip_ws_def)

lemma skip_ws_ws [simp]: "is_ws c \<Longrightarrow> skip_ws (c # s) = skip_ws s"
  by (simp add: skip_ws_def)

lemma skip_ws_Nil [simp]: "skip_ws [] = []"
  by (simp add: skip_ws_def)

lemma ws_brk [simp]: "list_all is_ws gap \<Longrightarrow> list_all is_ws ind \<Longrightarrow> list_all is_ws (brk gap ind)"
  by (simp add: brk_def is_ws_def)

lemma hex_val_digit: "d < 16 \<Longrightarrow> hex_val (hex_digit d) = Some d"
  by (auto simp: hex_val_def hex_digit_def Let_def)

lemma hex_val_0: "hex_val (CHR ''0'') = Some 0"
  by (simp add: hex_val_def code_def)

lemma p_str_control:
  "p_str (CHR 0x5C # CHR ''u'' # CHR ''0'' # CHR ''0'' # hex_digit (code c div 16) # hex_digit (code c mod 16) # s)
     = map_option (\<lambda>(t, r). (c # t, r)) (p_str s)"
proof -
  have "code c div 16 < 16" using code_less [of c] by linarith
  moreover have "code_unit (16 * (code c div 16) + code c mod 16) = c"
    by (simp add: code_unit_def)
  ultimately show ?thesis by (simp add: hex_val_digit hex_val_0)
qed

lemma p_str_plain:
  "c \<noteq> CHR 0x22 \<Longrightarrow> c \<noteq> CHR 0x5C \<Longrightarrow> \<not> code c < 32 \<Longrightarrow>
     p_str (c # s) = map_option (\<lambda>(t, r). (c # t, r)) (p_str s)"
  by simp

lemma p_str_escaped:
  "e \<noteq> CHR ''u'' \<Longrightarrow> unesc e = Some u \<Longrightarrow>
     p_str (CHR 0x5C # e # s) = map_option (\<lambda>(t, r). (u # t, r)) (p_str s)"
  by simp

lemma p_str_esc: "p_str (esc c @ s) = map_option (\<lambda>(t, r). (c # t, r)) (p_str s)"
proof -
  consider (named) u where "esc c = [CHR 0x5C, u]" "u \<noteq> CHR ''u''" "unesc u = Some c"
    | (control) "esc c = [CHR 0x5C, CHR ''u'', CHR ''0'', CHR ''0'', hex_digit (code c div 16), hex_digit (code c mod 16)]"
    | (plain) "esc c = [c]" "c \<noteq> CHR 0x22" "c \<noteq> CHR 0x5C" "\<not> code c < 32"
    by (cases "c \<in> {CHR 0x22, CHR 0x5C, CHR 0x08, CHR 0x0C, CHR 0x0A, CHR 0x0D, CHR 0x09}"; cases "code c < 32")
      (auto simp: esc_def unesc_def split: if_splits)
  then show ?thesis
  proof cases
    case named
    then show ?thesis using p_str_escaped [of u c s] by simp
  next
    case control
    then show ?thesis using p_str_control [of c s] by (simp del: p_str.simps)
  next
    case plain
    then show ?thesis using p_str_plain [of c s] by simp
  qed
qed

lemma p_str_quoted: "p_str (concat (map esc s) @ CHR 0x22 # r) = Some (s, r)"
  by (induction s) (simp_all add: p_str_esc del: p_str.simps(2), simp)

lemma p_str_shorter: "p_str s = Some (t, r) \<Longrightarrow> length r < length s"
  by (induction s arbitrary: t rule: p_str.induct)
    (fastforce split: if_splits list.splits option.splits prod.splits)+

definition stop :: "string \<Rightarrow> bool" where
  "stop r = (case r of [] \<Rightarrow> True | c # _ \<Rightarrow> \<not> num_char c)"

lemma stop_split:
  assumes "stop r" and "list_all num_char t"
  shows "takeWhile num_char (t @ r) = t" and "dropWhile num_char (t @ r) = r"
  using assms by (auto simp: stop_def list_all_iff takeWhile_append dropWhile_append split: list.splits)

lemma is_digit_not_minus [simp]: "is_digit c \<Longrightarrow> c \<noteq> CHR ''-''"
  by (auto simp: is_digit_def code_def)

lemma unsigned_digits [simp]: "s \<noteq> [] \<Longrightarrow> list_all is_digit s \<Longrightarrow> unsigned s = s"
  by (cases s) (auto simp: unsigned_def)

lemma int_part_nat_str: "int_part (nat_str n)"
proof -
  have "hd (nat_str n) = digit 0 \<Longrightarrow> length (nat_str n) = 1"
    by (simp add: hd_nat_str nat_str_zero)
  then show ?thesis by (auto simp: int_part_def list_all_iff)
qed

lemma nat_str_list_all [simp]: "list_all is_digit (nat_str n)"
  by (simp add: list_all_iff)

lemma int_str_token: "int_token (int_str i)" "token_int (int_str i) = i"
  by (auto simp: int_token_def token_int_def int_str_def int_part_nat_str) (auto simp: unsigned_def int_part_nat_str)

lemma num_char_digits: "list_all is_digit s \<Longrightarrow> list_all num_char s"
  by (auto simp: list_all_iff num_char_def)

lemma int_str_num_char: "list_all num_char (int_str i)"
  by (auto simp: int_str_def num_char_digits) (simp add: num_char_def)

lemma p_num_int: "stop r \<Longrightarrow> p_num (int_str i @ r) = Some (JNum i, r)"
  by (simp add: p_num_def stop_split int_str_num_char int_str_token Let_def)

lemma frac_not_int: "frac_token t \<Longrightarrow> \<not> int_token t"
  by (auto simp: frac_token_def int_token_def int_part_def Let_def list_all_iff)

lemma p_num_frac: "stop r \<Longrightarrow> frac_token t \<Longrightarrow> p_num (t @ r) = Some (JFrac t, r)"
  by (frule frac_not_int) (simp add: p_num_def stop_split frac_token_def Let_def)

lemma num_start: "int_part (takeWhile is_digit (unsigned t)) \<Longrightarrow> \<exists>c s. t = c # s \<and> (c = CHR ''-'' \<or> is_digit c)"
  by (cases t) (auto simp: int_part_def unsigned_def split: if_splits)

lemma int_str_start: "\<exists>c s. int_str i = c # s \<and> (c = CHR ''-'' \<or> is_digit c)"
proof (rule num_start)
  have *: "int_part (unsigned (int_str i))"
    using int_str_token(1) [of i] by (simp add: int_token_def)
  then have "takeWhile is_digit (unsigned (int_str i)) = unsigned (int_str i)"
    by (simp add: int_part_def list_all_iff takeWhile_eq_all_conv)
  with * show "int_part (takeWhile is_digit (unsigned (int_str i)))"
    by (simp only:)
qed

lemma frac_start: "frac_token t \<Longrightarrow> \<exists>c s. t = c # s \<and> (c = CHR ''-'' \<or> is_digit c)"
  by (rule num_start) (simp add: frac_token_def Let_def)

lemma num_start_plain:
  assumes "c = CHR ''-'' \<or> is_digit c"
  shows "\<not> is_ws c" "c \<noteq> CHR 0x7B" "c \<noteq> CHR 0x5B" "c \<noteq> CHR 0x5D" "c \<noteq> CHR 0x22"
  using assms by (auto simp: is_digit_def is_ws_def code_def)

section \<open>Values\<close>

lemma not_ws [simp]:
  "\<not> is_ws (CHR 0x22)" "\<not> is_ws (CHR '','')" "\<not> is_ws (CHR 0x5D)" "\<not> is_ws (CHR 0x7D)"
  by (simp_all add: is_ws_def)

lemma p_val_ws: "list_all is_ws w \<Longrightarrow> p_val (w @ s) = p_val s"
  by (simp add: p_val.simps)

lemma p_val_num:
  "t = c # s \<Longrightarrow> c = CHR ''-'' \<or> is_digit c \<Longrightarrow> p_val (t @ r) = p_num (t @ r)"
  by (frule num_start_plain) (simp add: p_val.simps num_start_plain)

lemma p_val_str: "p_val (quote s @ r) = Some (JStr s, r)"
  by (simp add: p_val.simps quote_def is_ws_def p_str_quoted)

lemma p_val_lits:
  "p_val (''null'' @ r) = Some (JNull, r)"
  "p_val (''true'' @ r) = Some (JBool True, r)"
  "p_val (''false'' @ r) = Some (JBool False, r)"
  by (simp_all add: p_val.simps is_ws_def is_digit_def code_def p_lit_def)

lemma ser_start:
  assumes "jtok v"
  shows "\<exists>c s. ser gap ind v = c # s \<and> \<not> is_ws c \<and> c \<noteq> CHR 0x5D"
proof (cases v)
  case (JNum i)
  then show ?thesis using int_str_start [of i] num_start_plain by fastforce
next
  case (JFrac t)
  with assms show ?thesis using frac_start [of t] num_start_plain by fastforce
qed (auto simp: is_ws_def quote_def Let_def)

lemma ser_not_Nil: "jtok v \<Longrightarrow> ser gap ind v \<noteq> []"
  using ser_start [of v gap ind] by auto

text \<open>Every successful parse consumes something, so the length guards of the parser never fail.\<close>

lemma p_num_shorter: "p_num s = Some (v, r) \<Longrightarrow> length r < length s"
proof -
  assume *: "p_num s = Some (v, r)"
  then have r: "r = dropWhile num_char s" and "takeWhile num_char s \<noteq> []"
    by (auto simp: p_num_def Let_def int_token_def frac_token_def int_part_def unsigned_def
        split: if_splits list.splits)
  then have "length s = length (takeWhile num_char s) + length r"
    by (metis length_append takeWhile_dropWhile_id)
  with \<open>takeWhile num_char s \<noteq> []\<close> show ?thesis by (cases "takeWhile num_char s") auto
qed

lemma p_lit_shorter: "p_lit w v s = Some (u, r) \<Longrightarrow> w \<noteq> [] \<Longrightarrow> length r < length s"
  by (cases s; cases w) (auto simp: p_lit_def split: if_splits)

lemma p_elems_SomeD:
  "p_elems s = Some (vs, r) \<Longrightarrow>
     \<exists>v r1 c r2. p_val s = Some (v, r1) \<and> length r1 < length s \<and> skip_ws r1 = c # r2 \<and>
       (c = CHR 0x5D \<and> vs = [v] \<and> r = r2 \<or> (\<exists>vs'. p_elems r2 = Some (vs', r) \<and> vs = v # vs'))"
  by (subst (asm) p_elems.simps) (auto split: if_splits list.splits option.splits prod.splits)

lemma p_props_SomeD:
  "p_props s = Some (ps, r) \<Longrightarrow>
     \<exists>k r1 c1 r2 v r3 c r4. length r1 < length s \<and> skip_ws r1 = c1 # r2 \<and> p_val r2 = Some (v, r3) \<and>
       length r3 < length s \<and> skip_ws r3 = c # r4 \<and>
       (c = CHR 0x7D \<and> ps = [(k, v)] \<and> r = r4 \<or> (\<exists>ps'. p_props r4 = Some (ps', r) \<and> ps = (k, v) # ps'))"
  by (subst (asm) p_props.simps) (clarsimp split: if_splits list.splits option.splits prod.splits; blast)

lemma p_elems_shorter: "p_elems s = Some (vs, r) \<Longrightarrow> length r < length s"
proof (induction "length s" arbitrary: s vs rule: less_induct)
  case less
  from p_elems_SomeD [OF less.prems] obtain v r1 c r2 where
    *: "length r1 < length s" "skip_ws r1 = c # r2" "r = r2 \<or> (\<exists>vs'. p_elems r2 = Some (vs', r))"
    by blast
  have "length r2 < length s" using * skip_ws_Cons_length by fastforce
  with * less.hyps show ?case by fastforce
qed

lemma p_props_shorter: "p_props s = Some (ps, r) \<Longrightarrow> length r < length s"
proof (induction "length s" arbitrary: s ps rule: less_induct)
  case less
  from p_props_SomeD [OF less.prems] obtain r3 c r4 where
    *: "length r3 < length s" "skip_ws r3 = c # r4" "r = r4 \<or> (\<exists>ps'. p_props r4 = Some (ps', r))"
    by blast
  have "length r4 < length s" using * skip_ws_Cons_length by fastforce
  with * less.hyps show ?case by fastforce
qed

lemma p_val_SomeD:
  assumes "p_val s = Some (v, r)"
  obtains (obj0) q where "v = JObj []" "skip_ws s = CHR 0x7B # q" "skip_ws q = CHR 0x7D # r"
    | (obj) q ps where "v = JObj (obj_of ps)" "skip_ws s = CHR 0x7B # q" "p_props q = Some (ps, r)"
    | (arr0) q where "v = JArr []" "skip_ws s = CHR 0x5B # q" "skip_ws q = CHR 0x5D # r"
    | (arr) q vs where "v = JArr vs" "skip_ws s = CHR 0x5B # q" "p_elems q = Some (vs, r)"
    | (str) q t where "v = JStr t" "skip_ws s = CHR 0x22 # q" "p_str q = Some (t, r)"
    | (num) "p_num (skip_ws s) = Some (v, r)"
    | (lit) w b where "p_lit w b (skip_ws s) = Some (v, r)" "w \<noteq> []" "b = JNull \<or> (\<exists>x. b = JBool x)"
proof (cases "skip_ws s")
  case Nil
  with assms show ?thesis by (simp add: p_val.simps [of s])
next
  case (Cons c q)
  note eq = p_val.simps [of s, unfolded Cons list.case]
  consider (brace) "c = CHR 0x7B" | (brack) "c = CHR 0x5B" | (quo) "c = CHR 0x22"
    | (other) "c \<noteq> CHR 0x7B" "c \<noteq> CHR 0x5B" "c \<noteq> CHR 0x22"
    by blast
  then show ?thesis
  proof cases
    case brace
    with assms eq Cons show ?thesis
      by (auto split: list.splits if_splits intro: obj0 obj)
  next
    case brack
    with assms eq Cons show ?thesis
      by (auto split: list.splits if_splits intro: arr0 arr)
  next
    case quo
    with assms eq Cons show ?thesis by (auto intro: str)
  next
    case other
    with assms eq Cons show ?thesis
      by (auto split: if_splits intro: num lit)
  qed
qed

lemma p_val_shorter: "p_val s = Some (v, r) \<Longrightarrow> length r < length s"
proof (erule p_val_SomeD)
  show "p_num (skip_ws s) = Some (v, r) \<Longrightarrow> length r < length s"
    using p_num_shorter skip_ws_length [of s] by fastforce
  show "p_lit w b (skip_ws s) = Some (v, r) \<Longrightarrow> w \<noteq> [] \<Longrightarrow> length r < length s" for w b
    using p_lit_shorter skip_ws_length [of s] by fastforce
qed (fastforce dest: skip_ws_Cons_length p_str_shorter p_elems_shorter p_props_shorter)+

lemma p_elems_last:
  "p_val s = Some (v, e @ CHR 0x5D # r) \<Longrightarrow> list_all is_ws e \<Longrightarrow> p_elems s = Some ([v], r)"
  using p_val_shorter [of s v "e @ CHR 0x5D # r"]
  by (simp add: p_elems.simps is_ws_def)

lemma p_elems_more:
  "p_val s = Some (v, CHR '','' # r) \<Longrightarrow> p_elems s = map_option (\<lambda>(vs, q). (v # vs, q)) (p_elems r)"
  using p_val_shorter [of s v "CHR '','' # r"]
  by (simp add: p_elems.simps [of s] is_ws_def)

lemma skip_ws_colon: "skip_ws (colon gap @ t) = CHR '':'' # tl (colon gap) @ t"
  by (simp add: colon_def is_ws_def)

lemma p_val_colon: "p_val (tl (colon gap) @ t) = p_val t"
  using p_val_ws [of "tl (colon gap)" t] by (simp add: colon_def is_ws_def)

lemma p_props_key:
  assumes "list_all is_ws w" and "p_val t = Some (v, r)"
  shows "p_props (w @ quote k @ colon gap @ t) =
    (case skip_ws r of
       [] \<Rightarrow> None
     | c # q \<Rightarrow>
         if c = CHR '','' then map_option (\<lambda>(ps, q). ((k, v) # ps, q)) (p_props q)
         else if c = CHR 0x7D then Some ([(k, v)], q)
         else None)"
proof -
  have "length r < length (w @ quote k @ colon gap @ t)"
    using p_val_shorter [OF assms(2)] by simp
  moreover have "skip_ws (quote k @ colon gap @ t) = CHR 0x22 # concat (map esc k) @ CHR 0x22 # colon gap @ t"
    by (simp add: quote_def is_ws_def)
  moreover have "quote k \<noteq> []" by (simp add: quote_def)
  ultimately show ?thesis
    using assms by (simp add: p_props.simps [of "w @ quote k @ colon gap @ t"] p_str_quoted
        skip_ws_colon p_val_colon)
qed

section \<open>The round trip\<close>

lemma stop_Cons [simp]: "stop (c # r) = (\<not> num_char c)"
  by (simp add: stop_def)

lemma stop_ws [simp]: "list_all is_ws e \<Longrightarrow> \<not> num_char c \<Longrightarrow> stop (e @ c # r)"
  by (cases e) (auto simp: stop_def is_ws_def num_char_def is_digit_def code_def)

lemma not_num_char [simp]:
  "\<not> num_char (CHR '','')" "\<not> num_char (CHR 0x5D)" "\<not> num_char (CHR 0x7D)"
  by (simp_all add: num_char_def is_digit_def code_def)

lemma p_val_arr:
  assumes "\<exists>c q. skip_ws s = c # q \<and> c \<noteq> CHR 0x5D" and "p_elems s = Some (vs, r)"
  shows "p_val (CHR 0x5B # s) = Some (JArr vs, r)"
  using assms by (auto simp: p_val.simps is_ws_def)

lemma p_val_obj:
  assumes "\<exists>c q. skip_ws s = c # q \<and> c \<noteq> CHR 0x7D" and "p_props s = Some (ps, r)"
  shows "p_val (CHR 0x7B # s) = Some (JObj (obj_of ps), r)"
  using assms by (auto simp: p_val.simps is_ws_def)

lemma p_val_empty:
  "p_val (''[]'' @ r) = Some (JArr [], r)"
  "p_val (CHR 0x7B # CHR 0x7D # r) = Some (JObj [], r)"
  by (simp_all add: p_val.simps is_ws_def)

lemma ser_elems_Nil [simp]: "ser_elems gap ind vs = [] \<longleftrightarrow> vs = []"
  by (cases vs) auto

lemma jnorm_props_Nil: "ser_props gap ind ps = [] \<Longrightarrow> jnorm_props ps = []"
  by (induction ps) (auto split: if_splits)

lemma skip_ws_ser:
  "list_all is_ws w \<Longrightarrow> jtok v \<Longrightarrow> \<exists>c q. skip_ws (w @ ser gap ind v @ r) = c # q \<and> c \<noteq> CHR 0x5D"
  using ser_start [of v gap ind] by auto

lemma join_Cons: "xs \<noteq> [] \<Longrightarrow> join sep (x # xs) = x @ sep @ join sep xs"
  by (cases xs) auto

lemma skip_ws_elems:
  "list_all is_ws w \<Longrightarrow> jtok_elems vs \<Longrightarrow> vs \<noteq> [] \<Longrightarrow>
     \<exists>c q. skip_ws (w @ join sep (ser_elems gap ind vs) @ r) = c # q \<and> c \<noteq> CHR 0x5D"
proof (cases vs)
  case (Cons v us)
  assume "list_all is_ws w" "jtok_elems vs"
  then show ?thesis
    using Cons skip_ws_ser [of w v gap ind r]
      skip_ws_ser [of w v gap ind "sep @ join sep (ser_elems gap ind us) @ r"]
    by (cases "us = []") (auto simp: join_Cons)
qed simp

lemma skip_ws_props:
  "list_all is_ws w \<Longrightarrow> ser_props gap ind ps \<noteq> [] \<Longrightarrow>
     \<exists>c q. skip_ws (w @ join sep (ser_props gap ind ps) @ r) = c # q \<and> c \<noteq> CHR 0x7D"
proof (induction ps)
  case (Cons p ps)
  then show ?case
    by (cases p; cases "ser_props gap ind ps = []")
      (auto simp: join_Cons quote_def split: if_splits)
qed simp

lemma p_val_ser:
  "list_all is_ws gap \<Longrightarrow> list_all is_ws ind \<Longrightarrow> jtok v \<Longrightarrow> stop r \<Longrightarrow>
     p_val (ser gap ind v @ r) = Some (jnorm v, r)"
  "list_all is_ws gap \<Longrightarrow> list_all is_ws ind \<Longrightarrow> jtok_elems vs \<Longrightarrow> vs \<noteq> [] \<Longrightarrow>
     list_all is_ws w \<Longrightarrow> list_all is_ws b \<Longrightarrow> list_all is_ws e \<Longrightarrow>
     p_elems (w @ join (CHR '','' # b) (ser_elems gap ind vs) @ e @ CHR 0x5D # r) = Some (jnorm_elems vs, r)"
  "list_all is_ws gap \<Longrightarrow> list_all is_ws ind \<Longrightarrow> jtok_props ps \<Longrightarrow> ser_props gap ind ps \<noteq> [] \<Longrightarrow>
     list_all is_ws w \<Longrightarrow> list_all is_ws b \<Longrightarrow> list_all is_ws e \<Longrightarrow>
     p_props (w @ join (CHR '','' # b) (ser_props gap ind ps) @ e @ CHR 0x7D # r) = Some (jnorm_props ps, r)"
proof (induction gap ind v and gap ind vs and gap ind ps arbitrary: r and w b e r and w b e r
    rule: ser_ser_elems_ser_props.induct)
  case (4 gap ind i)
  then show ?case
    using int_str_start [of i] p_val_num [of "int_str i" _ _ r] p_num_int [of r i] by fastforce
next
  case (5 gap ind t)
  then show ?case
    using frac_start [of t] p_val_num [of t _ _ r] p_num_frac [of r t] by fastforce
next
  case (7 gap ind vs)
  show ?case
  proof (cases "vs = []")
    case True
    then show ?thesis using p_val_empty(1) [of r] by simp
  next
    case False
    with 7 show ?thesis by (auto intro!: p_val_arr skip_ws_elems)
  qed
next
  case (8 gap ind ps)
  show ?case
  proof (cases "ser_props gap (ind @ gap) ps = []")
    case True
    then show ?thesis by (simp add: p_val_empty jnorm_props_Nil)
  next
    case False
    with 8 show ?thesis by (auto simp: Let_def intro!: p_val_obj skip_ws_props)
  qed
next
  case (10 gap ind v vs)
  show ?case
  proof (cases "vs = []")
    case True
    have "p_val (ser gap ind v @ e @ CHR 0x5D # r) = Some (jnorm v, e @ CHR 0x5D # r)"
      using 10 by (intro "10.IH"(1)) auto
    with True 10 show ?thesis by (simp add: p_elems_last p_val_ws)
  next
    case False
    let ?t = "b @ join (CHR '','' # b) (ser_elems gap ind vs) @ e @ CHR 0x5D # r"
    have "p_val (ser gap ind v @ CHR '','' # ?t) = Some (jnorm v, CHR '','' # ?t)"
      using 10 by (intro "10.IH"(1)) auto
    moreover have "p_elems ?t = Some (jnorm_elems vs, r)"
      using 10 False by (intro "10.IH"(2)) auto
    ultimately show ?thesis
      using False 10 by (simp add: join_Cons p_elems_more p_val_ws)
  qed
next
  case (12 gap ind k v ps)
  show ?case
  proof (cases "v = JUndef")
    case True
    with 12 show ?thesis by simp
  next
    case v: False
    show ?thesis
    proof (cases "ser_props gap ind ps = []")
      case True
      have "p_val (ser gap ind v @ e @ CHR 0x7D # r) = Some (jnorm v, e @ CHR 0x7D # r)"
        using 12 v by (intro "12.IH"(2)) auto
      with True v 12 show ?thesis
        by (simp add: p_props_key jnorm_props_Nil)
    next
      case False
      let ?t = "b @ join (CHR '','' # b) (ser_props gap ind ps) @ e @ CHR 0x7D # r"
      have "p_val (ser gap ind v @ CHR '','' # ?t) = Some (jnorm v, CHR '','' # ?t)"
        using 12 v by (intro "12.IH"(2)) auto
      moreover have "p_props ?t = Some (jnorm_props ps, r)"
        using 12 v False by (intro "12.IH"(3)) auto
      ultimately show ?thesis
        using False v 12 by (simp add: join_Cons p_props_key)
    qed
  qed
qed (simp_all add: p_val_lits [simplified] p_val_str)

lemma json_parse_ser:
  "list_all is_ws gap \<Longrightarrow> list_all is_ws w \<Longrightarrow> jtok v \<Longrightarrow> json_parse (ser gap [] v @ w) = Inr (jnorm v)"
proof -
  assume *: "list_all is_ws gap" "list_all is_ws w" "jtok v"
  then have "stop w" by (cases w) (auto simp: stop_def is_ws_def num_char_def is_digit_def code_def)
  with * have "p_val (ser gap [] v @ w) = Some (jnorm v, w)" by (intro p_val_ser) auto
  with * show ?thesis using skip_ws_append [of w "[]"] by (simp add: json_parse_def)
qed

lemma json_parse_text: "jtok v \<Longrightarrow> json_parse (json_text v) = Inr (jnorm v)"
  using json_parse_ser [of "[]" "[]" v] by (simp add: json_text_def)

lemma json_parse_pretty: "jtok v \<Longrightarrow> json_parse (json_pretty v @ ''\<newline>'') = Inr (jnorm v)"
  using json_parse_ser [of "''  ''" "''\<newline>''" v] by (simp add: json_pretty_def is_ws_def)

section \<open>What the parser returns is normal\<close>

lemma p_elems_ok:
  "(\<And>s' v r. length s' \<le> length s \<Longrightarrow> p_val s' = Some (v, r) \<Longrightarrow> jok v) \<Longrightarrow>
     p_elems s = Some (vs, r) \<Longrightarrow> jok_elems vs"
proof (induction "length s" arbitrary: s vs rule: less_induct)
  case less
  from p_elems_SomeD [OF less.prems(2)] obtain v r1 c r2 where
    *: "p_val s = Some (v, r1)" "length r1 < length s" "skip_ws r1 = c # r2"
      "vs = [v] \<or> (\<exists>vs'. p_elems r2 = Some (vs', r) \<and> vs = v # vs')"
    by blast
  have "length r2 < length s" using * skip_ws_Cons_length by fastforce
  moreover from this have "\<And>s' v r. length s' \<le> length r2 \<Longrightarrow> p_val s' = Some (v, r) \<Longrightarrow> jok v"
    using less.prems(1) by (meson le_trans less_imp_le_nat)
  moreover have "jok v" using less.prems(1) * by blast
  ultimately show ?case
    using * less.hyps [of r2] by (metis jok_elems.simps)
qed

lemma p_props_ok:
  "(\<And>s' v r. length s' \<le> length s \<Longrightarrow> p_val s' = Some (v, r) \<Longrightarrow> jok v) \<Longrightarrow>
     p_props s = Some (ps, r) \<Longrightarrow> jok_props ps"
proof (induction "length s" arbitrary: s ps rule: less_induct)
  case less
  from p_props_SomeD [OF less.prems(2)] obtain k r1 c1 r2 v r3 c r4 where
    *: "length r1 < length s" "skip_ws r1 = c1 # r2" "p_val r2 = Some (v, r3)" "length r3 < length s"
      "skip_ws r3 = c # r4" "ps = [(k, v)] \<or> (\<exists>ps'. p_props r4 = Some (ps', r) \<and> ps = (k, v) # ps')"
    by blast
  have "length r4 < length s" "length r2 < length s" using * skip_ws_Cons_length by fastforce+
  moreover from this have "jok v" using less.prems(1) * by (meson less_imp_le_nat)
  moreover have "\<And>s' v r. length s' \<le> length r4 \<Longrightarrow> p_val s' = Some (v, r) \<Longrightarrow> jok v"
    using less.prems(1) \<open>length r4 < length s\<close> by (meson le_trans less_imp_le_nat)
  ultimately show ?case
    using * less.hyps [of r4] by (metis jok_props.simps)
qed

lemma p_num_ok: "p_num s = Some (v, r) \<Longrightarrow> jok v"
  by (auto simp: p_num_def Let_def split: if_splits)

lemma p_val_ok: "p_val s = Some (v, r) \<Longrightarrow> jok v"
proof (induction "length s" arbitrary: s v r rule: less_induct)
  case less
  have shorter: "length q < length s" if "skip_ws s = c # q" for c q
    using skip_ws_Cons_length [OF that] .
  from less.prems show ?case
  proof (cases rule: p_val_SomeD)
    case (obj q ps)
    with less.hyps shorter have "jok_props ps"
      by (intro p_props_ok [of q]) (auto dest: le_less_trans)
    with obj show ?thesis by (simp add: jok_props_obj_of)
  next
    case (arr q vs)
    with less.hyps shorter have "jok_elems vs"
      by (intro p_elems_ok [of q]) (auto dest: le_less_trans)
    with arr show ?thesis by simp
  next
    case num
    then show ?thesis by (rule p_num_ok)
  qed (auto simp: p_lit_def split: if_splits)
qed

lemma json_parse_ok: "json_parse s = Inr v \<Longrightarrow> jok v"
  by (auto simp: json_parse_def split: option.splits if_splits dest: p_val_ok)

lemmas json_file_roundtrip = json_parse_pretty jok_imp_jtok jok_imp_jnorm

lemma json_parse_pretty_ok: "jok v \<Longrightarrow> json_parse (json_pretty v @ ''\<newline>'') = Inr v"
  by (simp add: json_file_roundtrip)

lemma json_parse_text_ok: "jok v \<Longrightarrow> json_parse (json_text v) = Inr v"
  by (simp add: json_parse_text jok_imp_jtok jok_imp_jnorm)

lemma json_text_inj: "jok v \<Longrightarrow> jok w \<Longrightarrow> json_text v = json_text w \<Longrightarrow> v = w"
  using json_parse_text_ok by (metis sum.inject(2))

end
