(* ===== verification/Host.thy ===== *)
theory Host
  imports Json_Roundtrip
begin

text \<open>
  The process the adapters run in, as far as they use it: the environment, the home directory and
  host name, and a file system of regular files with their permission bits. Writes succeed and
  \<open>mkdirSync(dir, { recursive: true })\<close> leaves the regular files alone, so it is not an operation
  of the model; the home directory is a normalized path without a trailing slash, so that
  \<open>path.join\<close> is concatenation with \<open>/\<close>.
\<close>

record dfile =
  content :: string
  mode :: nat

record host =
  env :: "string \<Rightarrow> string option"
  homedir :: string
  hostname :: string
  fs :: "string \<Rightarrow> dfile option"

definition default_mode :: nat where
  \<comment> \<open>\<open>0o666\<close> under the usual umask \<open>022\<close>\<close>
  "default_mode = 420"

definition private_mode :: nat where
  \<comment> \<open>\<open>0o600\<close>\<close>
  "private_mode = 384"

definition read_file :: "host \<Rightarrow> string \<Rightarrow> string result" where
  \<comment> \<open>\<open>readFileSync(path, 'utf8')\<close>\<close>
  "read_file h p = (case fs h p of None \<Rightarrow> Inl LibError | Some f \<Rightarrow> Inr (content f))"

definition write_file :: "string \<Rightarrow> string \<Rightarrow> nat \<Rightarrow> host \<Rightarrow> host" where
  \<comment> \<open>\<open>writeFileSync(path, data, { mode })\<close>: the mode counts only when the file is created\<close>
  "write_file p s m h =
     h\<lparr>fs := (fs h)(p \<mapsto> \<lparr>content = s, mode = (case fs h p of None \<Rightarrow> m | Some f \<Rightarrow> mode f)\<rparr>)\<rparr>"

definition chmod_file :: "string \<Rightarrow> nat \<Rightarrow> host \<Rightarrow> host" where
  "chmod_file p m h = h\<lparr>fs := (fs h)(p := map_option (\<lambda>f. f\<lparr>mode := m\<rparr>) (fs h p))\<rparr>"

definition env_var :: "host \<Rightarrow> string \<Rightarrow> json" where
  "env_var h k = (case env h k of None \<Rightarrow> JUndef | Some s \<Rightarrow> JStr s)"

definition path_join :: "string list \<Rightarrow> string" where
  "path_join ps = join ''/'' ps"

lemma read_write_same [simp]: "read_file (write_file p s m h) p = Inr s"
  by (simp add: read_file_def write_file_def)

lemma read_write_other [simp]: "q \<noteq> p \<Longrightarrow> read_file (write_file p s m h) q = read_file h q"
  by (simp add: read_file_def write_file_def)

lemma read_chmod [simp]: "read_file (chmod_file p m h) q = read_file h q"
  by (cases "fs h p") (auto simp: read_file_def chmod_file_def)

lemma write_file_fields [simp]:
  "env (write_file p s m h) = env h" "homedir (write_file p s m h) = homedir h"
  "hostname (write_file p s m h) = hostname h"
  by (simp_all add: write_file_def)

lemma chmod_file_fields [simp]:
  "env (chmod_file p m h) = env h" "homedir (chmod_file p m h) = homedir h"
  "hostname (chmod_file p m h) = hostname h"
  by (simp_all add: chmod_file_def)

lemma env_var_write [simp]: "env_var (write_file p s m h) = env_var h"
  by (simp add: env_var_def fun_eq_iff)

lemma write_mode_new: "fs h p = None \<Longrightarrow> map_option mode (fs (write_file p s m h) p) = Some m"
  by (simp add: write_file_def)

lemma write_mode_old: "fs h p = Some f \<Longrightarrow> map_option mode (fs (write_file p s m h) p) = Some (mode f)"
  by (simp add: write_file_def)

text \<open>
  A JSON document kept in a file: what is read back after a write is what was written, and other
  files are untouched. Both the config file and the channels file are such documents.
\<close>

definition read_json :: "host \<Rightarrow> string \<Rightarrow> json result" where
  \<comment> \<open>\<open>JSON.parse(readFileSync(file, 'utf8'))\<close>\<close>
  "read_json h p = bind_result (read_file h p) json_parse"

definition write_json :: "string \<Rightarrow> json \<Rightarrow> nat \<Rightarrow> host \<Rightarrow> host" where
  \<comment> \<open>\<open>writeFileSync(file, JSON.stringify(v, null, 2) + '\n', { mode })\<close>\<close>
  "write_json p v m h = write_file p (json_pretty v @ ''\<newline>'') m h"

lemma read_json_write: "jok v \<Longrightarrow> read_json (write_json p v m h) p = Inr v"
  by (simp add: read_json_def write_json_def json_parse_pretty_ok)

lemma read_json_write_other: "q \<noteq> p \<Longrightarrow> read_json (write_json p v m h) q = read_json h q"
  by (simp add: read_json_def write_json_def)

lemma read_json_ok: "read_json h p = Inr v \<Longrightarrow> jok v"
  by (auto simp: read_json_def bind_result_Inr_iff dest: json_parse_ok)

locale json_store =
  fixes load :: "'h \<Rightarrow> 'p \<Rightarrow> json result"
    and store :: "'p \<Rightarrow> json \<Rightarrow> nat \<Rightarrow> 'h \<Rightarrow> 'h"
    and good :: "json \<Rightarrow> bool"
  assumes load_store: "good v \<Longrightarrow> load (store p v m h) p = Inr v"
    and load_other: "q \<noteq> p \<Longrightarrow> load (store p v m h) q = load h q"
    and load_good: "load h p = Inr v \<Longrightarrow> good v"
begin

lemma store_overwrites: "good w \<Longrightarrow> load (store p w m (store p v n h)) p = Inr w"
  by (rule load_store)

lemma restore_is_noop: "load h p = Inr v \<Longrightarrow> load (store p v m h) = load h"
  using load_good [of h p v] load_store [of v p m h] load_other [of _ p v m h]
  by (metis ext)

end

interpretation json_file: json_store read_json write_json jok
  by unfold_locales (auto intro: read_json_write read_json_write_other read_json_ok)

section \<open>Iteration and spread of JSON values\<close>

definition index_props :: "json list \<Rightarrow> (string \<times> json) list" where
  "index_props vs = obj_of (map (\<lambda>i. (nat_str i, vs ! i)) [0..<length vs])"

definition chars :: "string \<Rightarrow> json list" where
  "chars s = map (\<lambda>c. JStr [c]) s"

definition own_props :: "json \<Rightarrow> (string \<times> json) list" where
  \<comment> \<open>the own enumerable properties: what \<open>{...v}\<close> copies\<close>
  "own_props v = (case v of
      JObj ps \<Rightarrow> ps | JArr vs \<Rightarrow> index_props vs | JStr s \<Rightarrow> index_props (chars s) | _ \<Rightarrow> [])"

definition object_entries :: "json \<Rightarrow> (string \<times> json) list result" where
  \<comment> \<open>\<open>Object.entries(v)\<close>\<close>
  "object_entries v = (if nullish v then Inl JsTypeError else Inr (own_props v))"

definition iterate :: "json \<Rightarrow> json list result" where
  \<comment> \<open>\<open>[...v]\<close>\<close>
  "iterate v = (case v of JArr vs \<Rightarrow> Inr vs | JStr s \<Rightarrow> Inr (chars s) | _ \<Rightarrow> Inl JsTypeError)"

definition is_array :: "json \<Rightarrow> bool" where
  "is_array v = (case v of JArr _ \<Rightarrow> True | _ \<Rightarrow> False)"

definition is_ref :: "json \<Rightarrow> bool" where
  "is_ref v = (case v of JArr _ \<Rightarrow> True | JObj _ \<Rightarrow> True | _ \<Rightarrow> False)"

text \<open>
  \<open>[...new Set(vs)]\<close> for freshly created values: primitives are compared by value, arrays and
  objects by identity, so no two of them are the same member.
\<close>

fun set_values :: "json list \<Rightarrow> json list \<Rightarrow> json list" where
  "set_values seen [] = []"
| "set_values seen (v # vs) =
     (if \<not> is_ref v \<and> v \<in> set seen then set_values seen vs
      else v # set_values (v # seen) vs)"

lemma set_set_values: "set seen \<union> set (set_values seen vs) = set seen \<union> set vs"
  by (induction seen vs rule: set_values.induct) auto

lemma set_values_unseen: "\<not> is_ref v \<Longrightarrow> v \<in> set seen \<Longrightarrow> v \<notin> set (set_values seen vs)"
  by (induction seen vs rule: set_values.induct) auto

lemma set_values_distinct: "distinct (filter (\<lambda>v. \<not> is_ref v) (set_values seen vs))"
  by (induction seen vs rule: set_values.induct) (auto simp: set_values_unseen)

lemma jok_index_props: "jok_elems vs \<Longrightarrow> obj_ok (index_props vs) \<and> jok_props (index_props vs)"
proof -
  assume "jok_elems vs"
  then have "jok_props (map (\<lambda>i. (nat_str i, vs ! i)) [0..<length vs])"
    by (auto simp: jok_props_iff jok_elems_iff)
  then show ?thesis by (simp add: index_props_def jok_props_obj_of)
qed

lemma jok_chars [simp]: "jok_elems (chars s)"
  by (auto simp: chars_def jok_elems_iff)

lemma jok_own_props: "jok v \<Longrightarrow> obj_ok (own_props v) \<and> jok_props (own_props v)"
  by (cases v) (auto simp: own_props_def jok_index_props)

end
