(* ===== verification/Config.thy ===== *)
theory Config
  imports Host
begin

text \<open>
  \<open>adapters/mcp-bridge/src/config.ts\<close>: the persisted configuration file and the resolution of
  the settings (explicit argument, then environment, then file, then default). The file's values
  are JSON nobody validated, so a setting is a \<^typ>\<open>json\<close> until it is used.
\<close>

record pending_invite =
  pi_name :: string
  pi_channel :: string

definition pending_json :: "pending_invite \<Rightarrow> json" where
  "pending_json p = JObj [(''name'', JStr (pi_name p)), (''channel'', JStr (pi_channel p))]"

definition DEFAULT_URL :: string where
  "DEFAULT_URL = ''ws://127.0.0.1:8787/ws''"

definition optStr :: "json \<Rightarrow> string option" where
  "optStr v = (case v of JStr s \<Rightarrow> if 0 < length s then Some s else None | _ \<Rightarrow> None)"

definition opt_json :: "string option \<Rightarrow> json" where
  "opt_json x = (case x of None \<Rightarrow> JUndef | Some s \<Rightarrow> JStr s)"

definition defaultConfigFile :: "host \<Rightarrow> string" where
  "defaultConfigFile h =
     (case optStr (env_var h ''DAP_CONFIG_FILE'') of
        Some p \<Rightarrow> p
      | None \<Rightarrow> path_join [homedir h, ''.dap'', ''config.json''])"

definition readDapConfig :: "host \<Rightarrow> string \<Rightarrow> (string \<times> json) list" where
  "readDapConfig h file =
     catch_result
       (bind_result (read_json h file) (\<lambda>cfg.
        bind_result (get_prop cfg ''invites'') (\<lambda>inv.
        Inr (obj_put ''invites'' (if is_array inv then inv else JArr []) (own_props cfg)))))
       [(''invites'', JArr [])]"

datatype secret_update = KeepSecret | PurgeSecret | SetSecret string

record config_update =
  up_url :: "string option"
  up_name :: "string option"
  up_channels :: "string list option"
  up_invites :: "json list option"  \<comment> \<open>\<open>PendingInvite\<close> values, of which some were read from the file unvalidated\<close>
  up_secret :: secret_update

definition no_update :: config_update where
  "no_update = \<lparr>up_url = None, up_name = None, up_channels = None, up_invites = None, up_secret = KeepSecret\<rparr>"

definition set_nonempty :: "string \<Rightarrow> string option \<Rightarrow> (string \<times> json) list \<Rightarrow> (string \<times> json) list" where
  \<comment> \<open>\<open>if (update.k) next.k = update.k\<close>\<close>
  "set_nonempty k x ps = (case x of Some s \<Rightarrow> if s \<noteq> [] then obj_put k (JStr s) ps else ps | None \<Rightarrow> ps)"

definition merge_channels ::
  "(string \<times> json) list \<Rightarrow> string list option \<Rightarrow> (string \<times> json) list \<Rightarrow> (string \<times> json) list result" where
  "merge_channels cur upd ps =
     (case upd of
        Some (c # cs) \<Rightarrow>
          bind_result (iterate (coalesce (prop_of cur ''channels'') (JArr []))) (\<lambda>old.
            Inr (obj_put ''channels'' (JArr (set_values [] (old @ map JStr (c # cs)))) ps))
      | _ \<Rightarrow> Inr ps)"

definition set_secret :: "secret_update \<Rightarrow> (string \<times> json) list \<Rightarrow> (string \<times> json) list" where
  "set_secret u ps =
     (case u of
        PurgeSecret \<Rightarrow> obj_del ''clientSecret'' ps
      | SetSecret s \<Rightarrow> if s \<noteq> [] then obj_put ''clientSecret'' (JStr s) ps else ps
      | KeepSecret \<Rightarrow> ps)"

definition set_invites :: "json list option \<Rightarrow> (string \<times> json) list \<Rightarrow> (string \<times> json) list" where
  "set_invites u ps =
     (case u of None \<Rightarrow> ps | Some is \<Rightarrow> obj_put ''invites'' (JArr is) ps)"

definition next_config :: "config_update \<Rightarrow> (string \<times> json) list \<Rightarrow> (string \<times> json) list result" where
  "next_config u cur =
     bind_result (merge_channels cur (up_channels u) (set_nonempty ''name'' (up_name u) (set_nonempty ''url'' (up_url u) cur)))
       (\<lambda>ps. Inr (set_secret (up_secret u) (set_invites (up_invites u) ps)))"

definition persistDapConfig :: "config_update \<Rightarrow> string \<Rightarrow> host \<Rightarrow> host result" where
  "persistDapConfig u file h =
     bind_result (next_config u (readDapConfig h file)) (\<lambda>ps.
       Inr (write_json file (JObj ps) private_mode h))"

definition safe_char :: "char \<Rightarrow> bool" where
  \<comment> \<open>\<open>[a-zA-Z0-9._-]\<close>\<close>
  "safe_char c =
     (97 \<le> code c \<and> code c \<le> 122 \<or> 65 \<le> code c \<and> code c \<le> 90 \<or> is_digit c
      \<or> c = CHR ''.'' \<or> c = CHR ''_'' \<or> c = CHR ''-'')"

definition sanitize :: "string \<Rightarrow> string" where
  "sanitize s = map (\<lambda>c. if safe_char c then c else CHR ''_'') s"

definition defaultKeyPath :: "host \<Rightarrow> json \<Rightarrow> string result" where
  "defaultKeyPath h name =
     (case coalesce name (JStr (hostname h)) of
        JStr s \<Rightarrow> Inr (path_join [homedir h, ''.dap'', ''keys'', ''mcp'', sanitize s @ ''.key''])
      | _ \<Rightarrow> Inl JsTypeError)"

record settings =
  st_url :: json
  st_keyPath :: json
  st_name :: json
  st_channelsFile :: json

text \<open>\<open>overrides.k ?? optStr(process.env.K) ?? file.k\<close>, before the default.\<close>

definition setting :: "host \<Rightarrow> (string \<times> json) list \<Rightarrow> (string \<times> json) list \<Rightarrow> string \<Rightarrow> string \<Rightarrow> json" where
  "setting h overrides file k envk =
     coalesce (prop_of overrides k) (coalesce (opt_json (optStr (env_var h envk))) (prop_of file k))"

definition resolveDapSettings :: "host \<Rightarrow> (string \<times> json) list \<Rightarrow> settings result" where
  "resolveDapSettings h overrides =
     (let file = readDapConfig h (defaultConfigFile h);
          name = setting h overrides file ''name'' ''DAP_AGENT_NAME'';
          url = coalesce (setting h overrides file ''url'' ''DAP_HUB_URL'') (JStr DEFAULT_URL);
          key = setting h overrides file ''keyPath'' ''DAP_KEY_PATH'';
          chf = coalesce (setting h overrides file ''channelsFile'' ''DAP_CHANNELS_FILE'')
                  (JStr (path_join [homedir h, ''.dap'', ''channels.json'']))
      in bind_result (if nullish key then map_sum id JStr (defaultKeyPath h name) else Inr key) (\<lambda>keyPath.
           Inr \<lparr>st_url = url, st_keyPath = keyPath, st_name = name, st_channelsFile = chf\<rparr>))"

section \<open>Reading and persisting\<close>

lemma obj_put_same: "obj_ok ps \<Longrightarrow> map_of ps k = Some v \<Longrightarrow> obj_put k v ps = ps"
proof (induction k v ps rule: obj_put.induct)
  case (2 k v k' v' ps)
  show ?case
  proof (cases "k = k'")
    case False
    with 2 have "(k, v) \<in> set ps" by (auto dest: map_of_SomeD)
    with 2(2) have "\<not> prop_rank k < prop_rank k'" by (fastforce simp: obj_ok_def)
    with False 2 show ?thesis by (auto simp: obj_ok_def)
  qed (use 2 in auto)
qed simp

definition good_props :: "(string \<times> json) list \<Rightarrow> bool" where
  "good_props ps = (obj_ok ps \<and> jok_props ps)"

lemma good_props_jok: "jok (JObj ps) = good_props ps"
  by (simp add: good_props_def)

lemma good_props_put [intro]: "good_props ps \<Longrightarrow> jok v \<Longrightarrow> good_props (obj_put k v ps)"
  by (simp add: good_props_def obj_ok_put jok_props_put)

lemma good_props_del [intro]: "good_props ps \<Longrightarrow> good_props (obj_del k ps)"
  by (simp add: good_props_def obj_ok_del jok_props_del)

lemma good_own_props: "jok v \<Longrightarrow> good_props (own_props v)"
  using jok_own_props by (simp add: good_props_def)

lemma prop_of_jok: "good_props ps \<Longrightarrow> prop_of ps k \<noteq> JUndef \<Longrightarrow> jok (prop_of ps k)"
  by (auto simp: prop_of_def good_props_def jok_props_iff split: option.splits dest: map_of_SomeD)

lemma get_prop_jok: "jok v \<Longrightarrow> get_prop v k = Inr x \<Longrightarrow> x \<noteq> JUndef \<Longrightarrow> jok x"
  by (cases v) (auto simp: get_prop_def prop_of_def jok_props_iff good_props_def
      split: option.splits dest: map_of_SomeD)

lemma is_array_simps [simp]: "is_array (JArr vs)" "\<not> is_array JUndef"
  by (simp_all add: is_array_def)

lemma readDapConfig_cases:
  obtains "readDapConfig h file = [(''invites'', JArr [])]"
    | cfg inv where "jok cfg" "get_prop cfg ''invites'' = Inr inv" "is_array inv"
        "readDapConfig h file = obj_put ''invites'' inv (own_props cfg)"
    | cfg where "jok cfg" "readDapConfig h file = obj_put ''invites'' (JArr []) (own_props cfg)"
proof (cases "read_json h file")
  case (Inl e)
  then show ?thesis by (simp add: readDapConfig_def that(1))
next
  case (Inr cfg)
  note ok = read_json_ok [OF Inr]
  show ?thesis
  proof (cases "get_prop cfg ''invites''")
    case (Inl e)
    with Inr show ?thesis by (simp add: readDapConfig_def that(1))
  next
    case i: (Inr inv)
    show ?thesis
    proof (cases "is_array inv")
      case True
      show ?thesis by (rule that(2) [OF ok i True]) (simp add: readDapConfig_def Inr i True)
    next
      case False
      show ?thesis by (rule that(3) [OF ok]) (simp add: readDapConfig_def Inr i False)
    qed
  qed
qed

lemma readDapConfig_good: "good_props (readDapConfig h file)"
proof (cases rule: readDapConfig_cases [of h "file"])
  case (2 cfg inv)
  then have "jok inv" using get_prop_jok [of cfg "''invites''" inv] by (cases "inv = JUndef") auto
  with 2 show ?thesis by (auto intro: good_own_props)
next
  case (3 cfg)
  then show ?thesis by (auto intro!: good_props_put good_own_props)
qed (simp add: good_props_def obj_ok_def)

lemma readDapConfig_invites: "is_array (prop_of (readDapConfig h file) ''invites'')"
  by (cases rule: readDapConfig_cases [of h "file"]) auto

text \<open>Reading the file back after writing an object whose \<open>invites\<close> is an array.\<close>

lemma readDapConfig_write:
  assumes "good_props ps" "is_array (prop_of ps ''invites'')"
  shows "readDapConfig (write_json file (JObj ps) m h) file = ps"
proof -
  from assms(2) obtain v where v: "map_of ps ''invites'' = Some v" "is_array v"
    by (auto simp: prop_of_def split: option.splits)
  then have "obj_put ''invites'' v ps = ps"
    using assms(1) by (intro obj_put_same) (simp_all add: good_props_def)
  moreover have "read_json (write_json file (JObj ps) m h) file = Inr (JObj ps)"
    using assms(1) by (intro read_json_write) (simp add: good_props_def)
  ultimately show ?thesis
    using v by (simp add: readDapConfig_def own_props_def prop_of_def)
qed

lemma readDapConfig_other:
  "f \<noteq> file \<Longrightarrow> readDapConfig (write_json file v m h) f = readDapConfig h f"
  by (simp add: readDapConfig_def read_json_write_other)

section \<open>The update\<close>

lemma set_nonempty_good: "good_props ps \<Longrightarrow> good_props (set_nonempty k x ps)"
  by (auto simp: set_nonempty_def split: option.splits)

lemma prop_of_set_nonempty:
  "prop_of (set_nonempty k x ps) k' =
     (if k' = k \<and> x \<noteq> None \<and> x \<noteq> Some [] then JStr (the x) else prop_of ps k')"
  by (auto simp: set_nonempty_def split: option.splits)

lemma iterate_jok: "jok v \<Longrightarrow> iterate v = Inr vs \<Longrightarrow> jok_elems vs"
  by (cases v) (auto simp: iterate_def)

lemma coalesce_jok: "good_props ps \<Longrightarrow> jok (coalesce (prop_of ps k) (JArr []))"
  using prop_of_jok [of ps k] by (auto simp: coalesce_def nullish_def)

lemma merge_channels_good:
  assumes "good_props cur" "good_props ps" "merge_channels cur u ps = Inr ps'"
  shows "good_props ps'"
proof -
  have "jok (JArr (set_values [] (old @ map JStr cs)))"
    if "iterate (coalesce (prop_of cur ''channels'') (JArr [])) = Inr old" for old cs
    using iterate_jok [OF coalesce_jok [OF assms(1)] that] set_set_values [of "[]" "old @ map JStr cs"]
    by (auto simp: jok_elems_iff)
  with assms show ?thesis
    by (auto simp: merge_channels_def bind_result_Inr_iff simp del: map_append list.map
        split: option.splits list.splits)
qed

lemma prop_of_merge_channels:
  assumes "merge_channels cur u ps = Inr ps'"
  shows "k \<noteq> ''channels'' \<Longrightarrow> prop_of ps' k = prop_of ps k"
    and "u = None \<or> u = Some [] \<Longrightarrow> prop_of ps' ''channels'' = prop_of ps ''channels''"
    and "u = Some cs \<Longrightarrow> cs \<noteq> [] \<Longrightarrow> iterate (coalesce (prop_of cur ''channels'') (JArr [])) = Inr old \<Longrightarrow>
      prop_of ps' ''channels'' = JArr (set_values [] (old @ map JStr cs))"
  using assms by (auto simp: merge_channels_def bind_result_Inr_iff split: option.splits list.splits)

lemma pending_json_jok [simp]: "jok (pending_json p)"
proof -
  have "prop_rank ''name'' \<le> prop_rank ''channel''"
    by (simp add: prop_rank_def arr_index_def is_digit_def code_def)
  then show ?thesis by (simp add: pending_json_def good_props_def obj_ok_def)
qed

lemma set_invites_good: "good_props ps \<Longrightarrow> (\<And>is. u = Some is \<Longrightarrow> jok_elems is) \<Longrightarrow> good_props (set_invites u ps)"
  by (auto simp: set_invites_def split: option.splits)

lemma prop_of_set_invites:
  "prop_of (set_invites u ps) k =
     (if k = ''invites'' \<and> u \<noteq> None then JArr (the u) else prop_of ps k)"
  by (auto simp: set_invites_def split: option.splits)

lemma set_secret_good: "good_props ps \<Longrightarrow> good_props (set_secret u ps)"
  by (auto simp: set_secret_def split: secret_update.splits)

lemma prop_of_set_secret:
  "prop_of (set_secret u ps) k =
     (if k = ''clientSecret'' then
        (case u of
           PurgeSecret \<Rightarrow> JUndef
         | SetSecret s \<Rightarrow> if s \<noteq> [] then JStr s else prop_of ps k
         | KeepSecret \<Rightarrow> prop_of ps k)
      else prop_of ps k)"
  by (auto simp: set_secret_def split: secret_update.splits)

lemmas next_config_props = prop_of_set_secret prop_of_set_invites prop_of_set_nonempty

definition update_jok :: "config_update \<Rightarrow> bool" where
  "update_jok u = (case up_invites u of None \<Rightarrow> True | Some is \<Rightarrow> jok_elems is)"

lemma next_config_good:
  assumes "good_props cur" "next_config u cur = Inr ps" "update_jok u"
  shows "good_props ps"
proof -
  from assms(2) obtain ps1 where m: "merge_channels cur (up_channels u)
      (set_nonempty ''name'' (up_name u) (set_nonempty ''url'' (up_url u) cur)) = Inr ps1"
    and ps: "ps = set_secret (up_secret u) (set_invites (up_invites u) ps1)"
    by (auto simp: next_config_def bind_result_Inr_iff)
  have "good_props ps1"
    by (rule merge_channels_good [OF assms(1) _ m]) (intro set_nonempty_good assms(1))
  then show ?thesis
    using assms(3) unfolding ps
    by (intro set_secret_good set_invites_good) (simp_all add: update_jok_def)
qed

lemma next_config_prop:
  assumes "next_config u cur = Inr ps"
  shows "k \<notin> {''url'', ''name'', ''channels'', ''invites'', ''clientSecret''} \<Longrightarrow> prop_of ps k = prop_of cur k"
    and "prop_of ps ''url'' = (if up_url u = None \<or> up_url u = Some [] then prop_of cur ''url'' else JStr (the (up_url u)))"
    and "prop_of ps ''name'' = (if up_name u = None \<or> up_name u = Some [] then prop_of cur ''name'' else JStr (the (up_name u)))"
    and "prop_of ps ''invites'' = (case up_invites u of None \<Rightarrow> prop_of cur ''invites'' | Some is \<Rightarrow> JArr is)"
    and "prop_of ps ''clientSecret'' =
      (case up_secret u of
         PurgeSecret \<Rightarrow> JUndef
       | SetSecret s \<Rightarrow> if s \<noteq> [] then JStr s else prop_of cur ''clientSecret''
       | KeepSecret \<Rightarrow> prop_of cur ''clientSecret'')"
    and "up_channels u = None \<or> up_channels u = Some [] \<Longrightarrow> prop_of ps ''channels'' = prop_of cur ''channels''"
    and "up_channels u = Some cs \<Longrightarrow> cs \<noteq> [] \<Longrightarrow> iterate (coalesce (prop_of cur ''channels'') (JArr [])) = Inr old \<Longrightarrow>
      prop_of ps ''channels'' = JArr (set_values [] (old @ map JStr cs))"
proof -
  from assms obtain ps1 where m: "merge_channels cur (up_channels u)
      (set_nonempty ''name'' (up_name u) (set_nonempty ''url'' (up_url u) cur)) = Inr ps1"
    and ps: "ps = set_secret (up_secret u) (set_invites (up_invites u) ps1)"
    by (auto simp: next_config_def bind_result_Inr_iff)
  note mp = prop_of_merge_channels [OF m]
  show "k \<notin> {''url'', ''name'', ''channels'', ''invites'', ''clientSecret''} \<Longrightarrow> prop_of ps k = prop_of cur k"
    "prop_of ps ''url'' = (if up_url u = None \<or> up_url u = Some [] then prop_of cur ''url'' else JStr (the (up_url u)))"
    "prop_of ps ''name'' = (if up_name u = None \<or> up_name u = Some [] then prop_of cur ''name'' else JStr (the (up_name u)))"
    "prop_of ps ''invites'' = (case up_invites u of None \<Rightarrow> prop_of cur ''invites'' | Some is \<Rightarrow> JArr is)"
    "prop_of ps ''clientSecret'' =
      (case up_secret u of
         PurgeSecret \<Rightarrow> JUndef
       | SetSecret s \<Rightarrow> if s \<noteq> [] then JStr s else prop_of cur ''clientSecret''
       | KeepSecret \<Rightarrow> prop_of cur ''clientSecret'')"
    unfolding ps by (auto simp: next_config_props mp(1) split: option.splits secret_update.splits)
  show "up_channels u = None \<or> up_channels u = Some [] \<Longrightarrow> prop_of ps ''channels'' = prop_of cur ''channels''"
    unfolding ps by (simp add: next_config_props mp(2))
  show "up_channels u = Some cs \<Longrightarrow> cs \<noteq> [] \<Longrightarrow> iterate (coalesce (prop_of cur ''channels'') (JArr [])) = Inr old \<Longrightarrow>
      prop_of ps ''channels'' = JArr (set_values [] (old @ map JStr cs))"
    unfolding ps by (simp add: next_config_props mp(3))
qed

lemma next_config_total:
  "up_channels u = None \<or> up_channels u = Some [] \<Longrightarrow> \<exists>ps. next_config u cur = Inr ps"
  by (auto simp: next_config_def merge_channels_def)

lemma persist_read:
  assumes "persistDapConfig u file h = Inr h'" "update_jok u"
  shows "next_config u (readDapConfig h file) = Inr (readDapConfig h' file)"
proof -
  from assms(1) obtain ps where ps: "next_config u (readDapConfig h file) = Inr ps"
    and h': "h' = write_json file (JObj ps) private_mode h"
    by (auto simp: persistDapConfig_def bind_result_Inr_iff)
  have "good_props ps" by (rule next_config_good [OF readDapConfig_good ps assms(2)])
  moreover have "is_array (prop_of ps ''invites'')"
    unfolding next_config_prop(4) [OF ps]
    by (cases "up_invites u") (simp_all add: readDapConfig_invites)
  ultimately show ?thesis unfolding h' by (simp add: ps readDapConfig_write)
qed

lemma persist_fields:
  "persistDapConfig u file h = Inr h' \<Longrightarrow> env h' = env h \<and> homedir h' = homedir h \<and> hostname h' = hostname h"
  by (auto simp: persistDapConfig_def bind_result_Inr_iff write_json_def)

lemma persist_config_path: "persistDapConfig u file h = Inr h' \<Longrightarrow> defaultConfigFile h' = defaultConfigFile h"
  using persist_fields [of u "file" h h'] by (auto simp: defaultConfigFile_def env_var_def split: option.split)

section \<open>The key path\<close>

lemma sanitize_safe: "list_all safe_char (sanitize s)"
proof -
  have "safe_char (CHR ''_'')" by (simp add: safe_char_def)
  then show ?thesis by (auto simp: sanitize_def list_all_iff)
qed

lemma sanitize_id: "list_all safe_char s \<Longrightarrow> sanitize s = s"
  by (induction s) (auto simp: sanitize_def)

lemma safe_char_no_slash: "\<not> safe_char (CHR ''/'')"
  by (simp add: safe_char_def is_digit_def code_def)

section \<open>Properties\<close>

lemma obj_props_const [simp]: "obj_del ''clientSecret'' [(''invites'', v)] = [(''invites'', v)]"
  by (simp add: obj_del_def)

text \<open>What \<open>readDapConfig\<close> returns after \<open>persistDapConfig\<close>: the non-empty \<open>url\<close> and \<open>name\<close> of the
  update, its \<open>invites\<close> as they are, its \<open>clientSecret\<close> set or purged, its channels joined to the
  stored ones without repetition of a name, and every other field of the file unchanged; every other
  file reads as before.\<close>

lemma config_persist_read:
  assumes "persistDapConfig u file h = Inr h'" "update_jok u"
  shows "let old = readDapConfig h file; new = readDapConfig h' file in
      (\<forall>k. k \<notin> {''url'', ''name'', ''channels'', ''invites'', ''clientSecret''} \<longrightarrow> prop_of new k = prop_of old k)
      \<and> prop_of new ''url'' = (case up_url u of Some (c # s) \<Rightarrow> JStr (c # s) | _ \<Rightarrow> prop_of old ''url'')
      \<and> prop_of new ''name'' = (case up_name u of Some (c # s) \<Rightarrow> JStr (c # s) | _ \<Rightarrow> prop_of old ''name'')
      \<and> prop_of new ''invites'' = (case up_invites u of Some is \<Rightarrow> JArr is | None \<Rightarrow> prop_of old ''invites'')
      \<and> prop_of new ''clientSecret'' =
          (case up_secret u of PurgeSecret \<Rightarrow> JUndef | SetSecret (c # s) \<Rightarrow> JStr (c # s) | _ \<Rightarrow> prop_of old ''clientSecret'')
      \<and> (case up_channels u of
            Some (c # cs) \<Rightarrow> \<exists>stored. iterate (coalesce (prop_of old ''channels'') (JArr [])) = Inr stored
              \<and> prop_of new ''channels'' = JArr (set_values [] (stored @ map JStr (c # cs)))
          | _ \<Rightarrow> prop_of new ''channels'' = prop_of old ''channels'')
      \<and> (\<forall>f. f \<noteq> file \<longrightarrow> read_file h' f = read_file h f)"
proof -
  note n = persist_read [OF assms]
  have "read_file h' f = read_file h f" if "f \<noteq> file" for f
    using assms(1) that by (auto simp: persistDapConfig_def bind_result_Inr_iff write_json_def)
  moreover have "\<exists>stored. iterate (coalesce (prop_of (readDapConfig h file) ''channels'') (JArr [])) = Inr stored"
    if "up_channels u = Some (c # cs)" for c cs
    using n that by (auto simp: next_config_def merge_channels_def bind_result_Inr_iff)
  ultimately show ?thesis
    using next_config_prop(1,6,7) [OF n]
    by (auto simp: Let_def next_config_prop(2-5) [OF n] split: option.splits list.splits secret_update.splits)
qed

definition sample_host :: host where
  "sample_host = \<lparr>env = (\<lambda>_. None), homedir = ''/h'', hostname = ''box'', fs = (\<lambda>_. None)\<rparr>"

lemma config_persist_read_witness:
  "\<exists>h'. persistDapConfig (no_update\<lparr>up_name := Some ''ada'', up_secret := SetSecret ''s''\<rparr>) ''f'' sample_host = Inr h'
     \<and> prop_of (readDapConfig h' ''f'') ''name'' = JStr ''ada''"
proof -
  obtain h' where "persistDapConfig (no_update\<lparr>up_name := Some ''ada'', up_secret := SetSecret ''s''\<rparr>) ''f'' sample_host = Inr h'"
    by (auto simp: persistDapConfig_def next_config_def merge_channels_def no_update_def)
  with config_persist_read [OF this] show ?thesis by (simp add: Let_def no_update_def update_jok_def)
qed

text \<open>The name an agent persisted is the name the next launch resolves, with the key path of that
  name, when neither the environment nor an explicit setting overrides them and the file keeps no
  \<open>keyPath\<close> of its own.\<close>

lemma persisted_name_resolved:
  assumes "persistDapConfig (no_update\<lparr>up_name := Some n\<rparr>) (defaultConfigFile h) h = Inr h'"
    and "n \<noteq> []" "optStr (env_var h ''DAP_AGENT_NAME'') = None" "optStr (env_var h ''DAP_KEY_PATH'') = None"
    and "nullish (prop_of (readDapConfig h (defaultConfigFile h)) ''keyPath'')"
  shows "\<exists>s. resolveDapSettings h' [] = Inr s \<and> st_name s = JStr n
    \<and> st_keyPath s = JStr (path_join [homedir h, ''.dap'', ''keys'', ''mcp'', sanitize n @ ''.key''])"
proof -
  note p = next_config_prop [OF persist_read [OF assms(1), unfolded update_jok_def no_update_def, simplified]]
  from assms(2) have name: "prop_of (readDapConfig h' (defaultConfigFile h)) ''name'' = JStr n"
    using p(3) by (simp add: no_update_def)
  have key: "prop_of (readDapConfig h' (defaultConfigFile h)) ''keyPath'' = prop_of (readDapConfig h (defaultConfigFile h)) ''keyPath''"
    using p(1) [of "''keyPath''"] by simp
  have e: "env_var h' = env_var h" "homedir h' = homedir h"
    using persist_fields [OF assms(1)] by (simp_all add: env_var_def fun_eq_iff)
  show ?thesis
    using assms(3-5)
    by (simp add: resolveDapSettings_def setting_def persist_config_path [OF assms(1)] name key e
        opt_json_def coalesce_def nullish_def defaultKeyPath_def Let_def)
qed

lemma persisted_name_resolved_witness:
  "\<exists>h' s. persistDapConfig (no_update\<lparr>up_name := Some ''ada''\<rparr>) (defaultConfigFile sample_host) sample_host = Inr h'
     \<and> resolveDapSettings h' [] = Inr s \<and> st_keyPath s = JStr ''/h/.dap/keys/mcp/ada.key''"
proof -
  obtain h' where h': "persistDapConfig (no_update\<lparr>up_name := Some ''ada''\<rparr>) (defaultConfigFile sample_host) sample_host = Inr h'"
    by (auto simp: persistDapConfig_def next_config_def merge_channels_def no_update_def)
  have "nullish (prop_of (readDapConfig sample_host (defaultConfigFile sample_host)) ''keyPath'')"
    by (simp add: readDapConfig_def read_json_def read_file_def sample_host_def nullish_def prop_of_def)
  with persisted_name_resolved [OF h'] h' show ?thesis
    by (auto simp: env_var_def sample_host_def optStr_def path_join_def join.simps sanitize_def safe_char_def is_digit_def code_def)
qed

text \<open>Two names share an identity file exactly when their sanitized forms agree; the file always
  lies in \<open>~/.dap/keys/mcp\<close>, since no separator survives the sanitizing.\<close>

lemma key_path_of_name:
  "(defaultKeyPath h (JStr a) = defaultKeyPath h (JStr b)) = (sanitize a = sanitize b)
    \<and> defaultKeyPath h (JStr a) = Inr (homedir h @ ''/.dap/keys/mcp/'' @ sanitize a @ ''.key'')
    \<and> CHR ''/'' \<notin> set (sanitize a) \<and> length (sanitize a) = length a"
proof -
  have "CHR ''/'' \<notin> set (sanitize a)"
    using sanitize_safe [of a] safe_char_no_slash by (auto simp: list_all_iff)
  then show ?thesis
    by (simp add: defaultKeyPath_def coalesce_def nullish_def path_join_def join.simps sanitize_def)
qed

lemma key_path_collision:
  "defaultKeyPath h (JStr ''team a'') = defaultKeyPath h (JStr ''team_a'')"
  by (simp add: defaultKeyPath_def coalesce_def nullish_def sanitize_def safe_char_def is_digit_def code_def)

end
