(* ===== verification/Bytes.thy ===== *)
theory Bytes
  imports Json_Roundtrip "HOL-Library.Word"
begin

text \<open>
  Byte strings and the encodings of \<open>crypto.ts\<close> that the language provides: UTF-8, base64 in
  the lenient form of \<open>Buffer.from(s, 'base64')\<close> and lower-case hexadecimal, each with its
  round trip.
\<close>

type_synonym byte = "8 word"
type_synonym bytes = "byte list"

definition byte :: "nat \<Rightarrow> byte" where
  "byte n = word_of_nat n"

lemma unat_byte [simp]: "n < 256 \<Longrightarrow> unat (byte n) = n"
  by (simp add: byte_def unat_of_nat)

lemma byte_unat [simp]: "byte (unat b) = b"
  by (simp add: byte_def)

lemma unat_less [simp]: "unat (b :: byte) < 256"
  using unsigned_less [of b] by simp

section \<open>UTF-8\<close>

definition utf8_char :: "char \<Rightarrow> bytes" where
  "utf8_char c =
     (if code c < 128 then [byte (code c)]
      else [byte (192 + code c div 64), byte (128 + code c mod 64)])"

definition utf8 :: "string \<Rightarrow> bytes" where
  \<comment> \<open>\<open>new TextEncoder().encode(s)\<close>\<close>
  "utf8 s = concat (map utf8_char s)"

text \<open>
  \<open>new TextDecoder().decode(b)\<close>: a byte below \<open>0x80\<close> and a two-byte sequence for a code point up
  to \<open>0xFF\<close> decode to their character. Everything else (a longer sequence, a malformed byte)
  decodes to code units above \<open>0xFF\<close>, each byte of which is the substitute \<open>0x1A\<close> here.
\<close>

fun utf8_decode :: "bytes \<Rightarrow> string" where
  "utf8_decode [] = []"
| "utf8_decode [b] = [if unat b < 128 then char_of (unat b) else CHR 0x1A]"
| "utf8_decode (b # c # bs) =
     (if unat b < 128 then char_of (unat b) # utf8_decode (c # bs)
      else if (unat b = 194 \<or> unat b = 195) \<and> 128 \<le> unat c \<and> unat c < 192
      then char_of (64 * (unat b - 192) + (unat c - 128)) # utf8_decode bs
      else CHR 0x1A # utf8_decode (c # bs))"

lemma utf8_decode_ascii: "unat b < 128 \<Longrightarrow> utf8_decode (b # bs) = char_of (unat b) # utf8_decode bs"
  by (cases bs) auto

lemma utf8_decode_char: "utf8_decode (utf8_char c @ bs) = c # utf8_decode bs"
proof (cases "code c < 128")
  case True
  then show ?thesis by (simp add: utf8_char_def utf8_decode_ascii)
next
  case False
  have "code c < 256" by simp
  then have *: "code c div 64 < 4" by linarith
  with False have hi: "192 + code c div 64 = 194 \<or> 192 + code c div 64 = 195" by linarith
  have un: "unat (byte (192 + code c div 64)) = 192 + code c div 64"
    "unat (byte (128 + code c mod 64)) = 128 + code c mod 64"
    using * by simp_all
  have "64 * (code c div 64) + code c mod 64 = code c" by simp
  with False hi un show ?thesis by (auto simp: utf8_char_def)
qed

lemma utf8_roundtrip [simp]: "utf8_decode (utf8 s) = s"
  by (induction s) (simp_all add: utf8_def utf8_decode_char)

lemma utf8_inj [simp]: "utf8 s = utf8 t \<longleftrightarrow> s = t"
  by (metis utf8_roundtrip)

section \<open>Base64\<close>

definition b64_char :: "nat \<Rightarrow> char" where
  "b64_char d =
     (if d < 26 then char_of (65 + d)
      else if d < 52 then char_of (71 + d)
      else if d < 62 then char_of (d - 4)
      else if d = 62 then CHR ''+'' else CHR ''/'')"

definition b64_val :: "char \<Rightarrow> nat option" where
  \<comment> \<open>both alphabets: \<open>+/\<close> and \<open>-_\<close>\<close>
  "b64_val c =
     (let n = code c
      in if 65 \<le> n \<and> n \<le> 90 then Some (n - 65)
         else if 97 \<le> n \<and> n \<le> 122 then Some (n - 71)
         else if 48 \<le> n \<and> n \<le> 57 then Some (n + 4)
         else if n = 43 \<or> n = 45 then Some 62
         else if n = 47 \<or> n = 95 then Some 63
         else None)"

fun b64e :: "bytes \<Rightarrow> string" where
  "b64e [] = []"
| "b64e [a] = [b64_char (unat a div 4), b64_char (unat a mod 4 * 16), CHR ''='', CHR ''='']"
| "b64e [a, b] =
     [b64_char (unat a div 4), b64_char (unat a mod 4 * 16 + unat b div 16),
      b64_char (unat b mod 16 * 4), CHR ''='']"
| "b64e (a # b # c # bs) =
     b64_char (unat a div 4) # b64_char (unat a mod 4 * 16 + unat b div 16) #
     b64_char (unat b mod 16 * 4 + unat c div 64) # b64_char (unat c mod 64) # b64e bs"

text \<open>
  \<open>Buffer.from(s, 'base64')\<close> reads up to the first \<open>=\<close>, skips characters of neither alphabet and
  drops a last group of a single digit.
\<close>

definition b64_digits :: "string \<Rightarrow> nat list" where
  "b64_digits s = List.map_filter b64_val (takeWhile (\<lambda>c. c \<noteq> CHR ''='') s)"

fun b64_bytes :: "nat list \<Rightarrow> bytes" where
  "b64_bytes (a # b # c # d # ds) =
     byte (a * 4 + b div 16) # byte (b mod 16 * 16 + c div 4) # byte (c mod 4 * 64 + d) # b64_bytes ds"
| "b64_bytes [a, b, c] = [byte (a * 4 + b div 16), byte (b mod 16 * 16 + c div 4)]"
| "b64_bytes [a, b] = [byte (a * 4 + b div 16)]"
| "b64_bytes ds = []"

definition b64d :: "string \<Rightarrow> bytes" where
  "b64d s = b64_bytes (b64_digits s)"

lemma b64_val_char [simp]: "d < 64 \<Longrightarrow> b64_val (b64_char d) = Some d"
proof -
  assume d: "d < 64"
  consider "d < 26" | "26 \<le> d" "d < 52" | "52 \<le> d" "d < 62" | "d = 62" | "d = 63"
    using d by linarith
  then show ?thesis by cases (auto simp: b64_char_def b64_val_def Let_def code_def)
qed

lemma b64_char_not_pad [simp]: "d < 64 \<Longrightarrow> b64_char d \<noteq> CHR ''=''"
  using b64_val_char [of d] by (auto simp: b64_val_def code_def)

lemma b64_digits_char [simp]: "d < 64 \<Longrightarrow> b64_digits (b64_char d # s) = d # b64_digits s"
  by (simp add: b64_digits_def List.map_filter_simps)

lemma b64_digits_pad [simp]: "b64_digits (CHR ''='' # s) = []" "b64_digits [] = []"
  by (simp_all add: b64_digits_def List.map_filter_simps)

lemma div_bounds:
  fixes x :: nat
  assumes "x < 256"
  shows "x div 4 < 64" "x div 16 < 16" "x div 64 < 4"
  using assms by (simp_all add: less_mult_imp_div_less)

lemma sextets [simp]:
  fixes a b c :: byte
  shows "unat a div 4 < 64" "unat a mod 4 * 16 < 64" "unat b mod 16 * 4 < 64"
    "unat a mod 4 * 16 + unat b div 16 < 64" "unat b mod 16 * 4 + unat c div 64 < 64" "unat c mod 64 < 64"
proof -
  have *: "unat a div 4 < 64" "unat b div 16 < 16" "unat c div 64 < 4" "unat a mod 4 < 4"
    "unat b mod 16 < 16" "unat c mod 64 < 64"
    by (simp_all add: div_bounds)
  show "unat a div 4 < 64" "unat c mod 64 < 64" using * by blast+
  show "unat a mod 4 * 16 < 64" "unat b mod 16 * 4 < 64"
    "unat a mod 4 * 16 + unat b div 16 < 64" "unat b mod 16 * 4 + unat c div 64 < 64"
    using * by linarith+
qed

lemma quot_rem:
  fixes k m n :: nat
  assumes "m < n"
  shows "(k * n + m) div n = k" "(k * n + m) mod n = m"
  using assms by simp_all

lemma regroup [simp]:
  fixes x y z :: nat
  assumes "y < 256" "z < 256"
  shows "x div 4 * 4 + (x mod 4 * 16 + y div 16) div 16 = x"
    "(x mod 4 * 16 + y div 16) mod 16 * 16 + (y mod 16 * 4 + z div 64) div 4 = y"
    "(y mod 16 * 4 + z div 64) mod 4 * 64 + z mod 64 = z"
  using quot_rem [OF div_bounds(2) [OF assms(1)], of "x mod 4"]
    quot_rem [OF div_bounds(3) [OF assms(2)], of "y mod 16"]
  by (simp_all add: div_mult_mod_eq)

lemma b64_digits_b64e: "b64_bytes (b64_digits (b64e bs)) = bs"
proof (induction bs rule: b64e.induct)
  case (2 a)
  show ?case by (simp add: div_mult_mod_eq)
next
  case (3 a b)
  show ?case using regroup(2) [of "unat b" 0 "unat a"] by simp
next
  case (4 a b c bs)
  then show ?case using regroup(1,2) [of "unat b" "unat c" "unat a"] regroup(3) [of "unat b" "unat c"] by simp
qed simp

lemma b64_roundtrip [simp]: "b64d (b64e bs) = bs"
  by (simp add: b64d_def b64_digits_b64e)

lemma b64e_inj [simp]: "b64e bs = b64e cs \<longleftrightarrow> bs = cs"
  by (metis b64_roundtrip)

lemma b64e_Nil [simp]: "b64e bs = [] \<longleftrightarrow> bs = []"
  using b64e_inj [of bs "[]"] by (simp del: b64e_inj)

section \<open>Hexadecimal\<close>

definition hex :: "bytes \<Rightarrow> string" where
  "hex bs = concat (map (\<lambda>b. [hex_digit (unat b div 16), hex_digit (unat b mod 16)]) bs)"

lemma length_hex [simp]: "length (hex bs) = 2 * length bs"
  by (induction bs) (simp_all add: hex_def)

lemma hex_digit_inj: "d < 16 \<Longrightarrow> e < 16 \<Longrightarrow> hex_digit d = hex_digit e \<longleftrightarrow> d = e"
  by (metis hex_val_digit option.inject)

definition hex_char :: "char \<Rightarrow> bool" where
  "hex_char c = (is_digit c \<or> 97 \<le> code c \<and> code c \<le> 102)"

lemma hex_chars: "list_all hex_char (hex bs)"
proof (induction bs)
  case (Cons b bs)
  have "hex_char (hex_digit d)" if "d < 16" for d
    using that by (auto simp: hex_char_def hex_digit_def is_digit_def)
  moreover have "unat b div 16 < 16" using unat_less [of b] by linarith
  ultimately show ?case using Cons by (simp add: hex_def)
qed (simp add: hex_def)

lemma hex_inj: "hex bs = hex cs \<longleftrightarrow> bs = cs"
proof (induction bs arbitrary: cs)
  case Nil
  then show ?case by (cases cs) (simp_all add: hex_def)
next
  case (Cons b bs)
  show ?case
  proof (cases cs)
    case (Cons c cs')
    have "unat b div 16 < 16" "unat c div 16 < 16" using unat_less [of b] unat_less [of c] by linarith+
    moreover have "unat b = unat c" if "unat b div 16 = unat c div 16" "unat b mod 16 = unat c mod 16"
      using that by (metis div_mult_mod_eq)
    moreover have "b = c" if "unat b = unat c" using that by (metis byte_unat)
    ultimately have "b = c \<longleftrightarrow> hex_digit (unat b div 16) = hex_digit (unat c div 16)
        \<and> hex_digit (unat b mod 16) = hex_digit (unat c mod 16)"
      by (auto simp: hex_digit_inj)
    moreover have "hex (b # bs) = hex_digit (unat b div 16) # hex_digit (unat b mod 16) # hex bs"
      "hex cs = hex_digit (unat c div 16) # hex_digit (unat c mod 16) # hex cs'"
      by (simp_all add: hex_def Cons)
    ultimately show ?thesis using Cons.IH [of cs'] Cons by auto
  qed (simp add: hex_def)
qed

end
