(* ===== verification/Crypto.thy ===== *)
theory Crypto
  imports Bytes
begin

text \<open>
  \<open>crypto.ts\<close> (identical in both adapters): canonical JSON, the signing payload, signed frames
  and the sealed payloads. The primitives of the noble libraries are the fields of a record
  \<open>crypto\<close>; \<^const>\<open>None\<close> is a throw. What is assumed of them is stated by the predicates
  \<open>ed_correct\<close>, \<open>dh_commutes\<close> and \<open>aead_correct\<close>.
\<close>

section \<open>The primitives\<close>

record crypto =
  sha256 :: "bytes \<Rightarrow> bytes"
  ed_sign :: "bytes \<Rightarrow> bytes \<Rightarrow> bytes option"  \<comment> \<open>message, private key\<close>
  ed_verify :: "bytes \<Rightarrow> bytes \<Rightarrow> bytes \<Rightarrow> bool option"  \<comment> \<open>signature, message, public key\<close>
  ed_public :: "bytes \<Rightarrow> bytes"
  x_shared :: "bytes \<Rightarrow> bytes \<Rightarrow> bytes option"  \<comment> \<open>private key, peer public key\<close>
  x_public :: "bytes \<Rightarrow> bytes"
  hkdf_sha256 :: "bytes \<Rightarrow> bytes \<Rightarrow> bytes \<Rightarrow> nat \<Rightarrow> bytes"  \<comment> \<open>input key, salt, info, length\<close>
  aead_enc :: "bytes \<Rightarrow> bytes \<Rightarrow> bytes \<Rightarrow> bytes \<Rightarrow> bytes"  \<comment> \<open>key, nonce, associated data, plaintext\<close>
  aead_dec :: "bytes \<Rightarrow> bytes \<Rightarrow> bytes \<Rightarrow> bytes \<Rightarrow> bytes option"

text \<open>A signature made with a private key verifies under its public key.\<close>

definition ed_correct :: "crypto \<Rightarrow> bool" where
  "ed_correct C = (\<forall>m k s. ed_sign C m k = Some s \<longrightarrow> ed_verify C s m (ed_public C k) = Some True)"

text \<open>Both sides of a Diffie-Hellman exchange compute the same secret.\<close>

definition dh_commutes :: "crypto \<Rightarrow> bool" where
  "dh_commutes C = (\<forall>a b. x_shared C a (x_public C b) = x_shared C b (x_public C a))"

text \<open>Decryption with the same key, nonce and associated data inverts encryption.\<close>

definition aead_correct :: "crypto \<Rightarrow> bool" where
  "aead_correct C = (\<forall>k n a p. aead_dec C k n a (aead_enc C k n a p) = Some p)"

section \<open>Canonical JSON\<close>

type_synonym frame = "(string \<times> json) list"

fun canonicalJson :: "json \<Rightarrow> string"
  and canonical_elems :: "json list \<Rightarrow> string list"
  and canonical_props :: "frame \<Rightarrow> (string \<times> string) list" where
  "canonicalJson (JArr vs) = ''['' @ join '','' (canonical_elems vs) @ '']''"
| "canonicalJson (JObj ps) =
     [CHR 0x7B] @ join '','' (map (\<lambda>(k, t). quote k @ '':'' @ t) (sort_key fst (canonical_props ps))) @ [CHR 0x7D]"
| "canonicalJson v = (case stringify v of None \<Rightarrow> ''null'' | Some t \<Rightarrow> t)"
| "canonical_elems [] = []"
| "canonical_elems (v # vs) = canonicalJson v # canonical_elems vs"
| "canonical_props [] = []"
| "canonical_props ((k, v) # ps) =
     (if k = ''sig'' \<or> v = JUndef then canonical_props ps
      else (k, canonicalJson v) # canonical_props ps)"

definition sha256Hex :: "crypto \<Rightarrow> bytes \<Rightarrow> string" where
  "sha256Hex C b = hex (sha256 C b)"

definition agentIdOf :: "crypto \<Rightarrow> bytes \<Rightarrow> string" where
  "agentIdOf C pubRaw = take 16 (sha256Hex C pubRaw)"

definition sigPayload :: "crypto \<Rightarrow> frame \<Rightarrow> string" where
  "sigPayload C f =
     ''dap1|'' @ js_String (prop_of f ''op'') @ ''|'' @ js_String (prop_of f ''ts'') @ ''|''
       @ sha256Hex C (utf8 (canonicalJson (JObj f)))"

definition signFrame :: "crypto \<Rightarrow> frame \<Rightarrow> bytes \<Rightarrow> string result" where
  "signFrame C f priv = of_option LibError (map_option b64e (ed_sign C (utf8 (sigPayload C f)) priv))"

definition verifyFrame :: "crypto \<Rightarrow> frame \<Rightarrow> bytes \<Rightarrow> bool result" where
  "verifyFrame C f pub =
     (case prop_of f ''sig'' of
        JStr s \<Rightarrow> of_option LibError (ed_verify C (b64d s) (utf8 (sigPayload C f)) pub)
      | _ \<Rightarrow> Inr False)"

text \<open>Key pairs from the random bytes of the secret key, private part first.\<close>

definition newEdKeypair :: "crypto \<Rightarrow> bytes \<Rightarrow> bytes \<times> bytes" where
  "newEdKeypair C rnd = (rnd, ed_public C rnd)"

definition newX25519Keypair :: "crypto \<Rightarrow> bytes \<Rightarrow> bytes \<times> bytes" where
  "newX25519Keypair C rnd = (rnd, x_public C rnd)"

definition deriveKey :: "crypto \<Rightarrow> bytes \<Rightarrow> string \<Rightarrow> bytes" where
  "deriveKey C secret frameId = hkdf_sha256 C secret (utf8 frameId) (utf8 ''dap1/v1'') 32"

definition aadOf :: "string \<Rightarrow> string \<Rightarrow> bytes" where
  "aadOf frameId peer = utf8 (''dap1|'' @ frameId @ ''|'' @ peer)"

text \<open>\<open>seal\<close> draws its 12-byte nonce from \<open>randomBytes\<close>; the model takes it as an argument.\<close>

definition seal :: "crypto \<Rightarrow> bytes \<Rightarrow> string \<Rightarrow> string \<Rightarrow> string \<Rightarrow> bytes \<Rightarrow> bytes \<Rightarrow> string result" where
  "seal C nonce plaintext frameId peer xPriv peerXPub =
     bind_result (of_option LibError (x_shared C xPriv peerXPub)) (\<lambda>secret.
       let key = deriveKey C secret frameId;
           ct = aead_enc C key nonce (aadOf frameId peer) (utf8 plaintext)
       in Inr (b64e (nonce @ ct)))"

definition open_sealed :: "crypto \<Rightarrow> string \<Rightarrow> string \<Rightarrow> string \<Rightarrow> bytes \<Rightarrow> bytes \<Rightarrow> string result" where
  "open_sealed C ciphertextB64 frameId peer xPriv peerXPub =
     (let raw = b64d ciphertextB64 in
      bind_result (of_option LibError (x_shared C xPriv peerXPub)) (\<lambda>secret.
        let key = deriveKey C secret frameId
        in bind_result (of_option LibError (aead_dec C key (take 12 raw) (aadOf frameId peer) (drop 12 raw)))
             (\<lambda>pt. Inr (utf8_decode pt))))"

section \<open>Canonical JSON is the JSON text of the sorted value\<close>

fun canon :: "json \<Rightarrow> json"
  and canon_elems :: "json list \<Rightarrow> json list"
  and canon_props :: "frame \<Rightarrow> frame" where
  "canon (JArr vs) = JArr (canon_elems vs)"
| "canon (JObj ps) = JObj (sort_key fst (canon_props ps))"
| "canon v = v"
| "canon_elems [] = []"
| "canon_elems (v # vs) = canon v # canon_elems vs"
| "canon_props [] = []"
| "canon_props ((k, v) # ps) =
     (if k = ''sig'' \<or> v = JUndef then canon_props ps else (k, canon v) # canon_props ps)"

lemma canon_undef [simp]: "canon v = JUndef \<longleftrightarrow> v = JUndef"
  by (cases v) auto

lemma undef_canon [simp]: "JUndef = canon v \<longleftrightarrow> v = JUndef"
  by (metis canon_undef)

lemma canon_props_defined: "(k, v) \<in> set (canon_props ps) \<Longrightarrow> v \<noteq> JUndef"
  by (induction ps) (auto split: if_splits)

lemma ser_props_defined:
  "\<forall>(k, v) \<in> set ps. v \<noteq> JUndef \<Longrightarrow>
     ser_props gap ind ps = map (\<lambda>(k, v). quote k @ colon gap @ ser gap ind v) ps"
  by (induction ps) auto

lemma sort_key_map_values:
  "sort_key fst (map (\<lambda>p. (fst p, f (snd p))) ps) = map (\<lambda>p. (fst p, f (snd p))) (sort_key fst ps)"
proof -
  have *: "insort_key fst (fst p, f (snd p)) (map (\<lambda>p. (fst p, f (snd p))) qs)
      = map (\<lambda>p. (fst p, f (snd p))) (insort_key fst p qs)" for p qs
    by (induction qs) auto
  show ?thesis by (induction ps) (simp_all add: *)
qed

lemma canonicalJson_text:
  "canonicalJson v = json_text (canon v)"
  "canonical_elems vs = ser_elems [] [] (canon_elems vs)"
  "canonical_props ps = map (\<lambda>(k, v). (k, json_text v)) (canon_props ps)"
proof (induction v and vs and ps rule: canonicalJson_canonical_elems_canonical_props.induct)
  case (2 ps)
  have "ser_props [] [] (sort_key fst (canon_props ps))
      = map (\<lambda>(k, v). quote k @ '':'' @ json_text v) (sort_key fst (canon_props ps))"
    by (subst ser_props_defined) (auto simp: colon_def json_text_def dest: canon_props_defined)
  then show ?case
    by (cases "sort_key fst (canon_props ps) = []")
      (simp_all add: 2 sort_key_map_values json_text_def brk_def Let_def comp_def case_prod_unfold)
qed (auto simp: json_text_def stringify_def brk_def)

section \<open>What the canonical form depends on\<close>

lemma jtok_props_iff: "jtok_props ps \<longleftrightarrow> (\<forall>(k, v) \<in> set ps. jtok v)"
  by (induction ps) auto

lemma jtok_canon:
  "jtok v \<Longrightarrow> jtok (canon v)"
  "jtok_elems vs \<Longrightarrow> jtok_elems (canon_elems vs)"
  "jtok_props ps \<Longrightarrow> jtok_props (canon_props ps)"
  by (induction v and vs and ps rule: canon_canon_elems_canon_props.induct) (auto simp: jtok_props_iff)

text \<open>Canonical text is JSON, and determines the value up to its normal form.\<close>

lemma canonicalJson_parse: "jtok v \<Longrightarrow> json_parse (canonicalJson v) = Inr (jnorm (canon v))"
  by (simp add: canonicalJson_text json_parse_text jtok_canon)

lemma canonicalJson_binds:
  "jtok v \<Longrightarrow> jtok w \<Longrightarrow> canonicalJson v = canonicalJson w \<Longrightarrow> jnorm (canon v) = jnorm (canon w)"
  by (metis canonicalJson_parse sum.inject(2))

lemma sort_key_unique:
  assumes "set xs = set ys" "distinct (map fst xs)" "distinct (map fst ys)"
  shows "sort_key fst xs = sort_key fst (ys :: ('k :: linorder \<times> 'v) list)"
proof (rule map_sorted_distinct_set_unique [where f = fst])
  show "inj_on fst (set (sort_key fst xs) \<union> set (sort_key fst ys))"
    using assms(1,2) by (simp add: distinct_map)
  show "set (sort_key fst xs) = set (sort_key fst ys)"
    using assms(1) by simp
  have "distinct (map fst (sort_key fst zs)) \<longleftrightarrow> distinct (map fst zs)" for zs :: "('k \<times> 'v) list"
    by (metis distinct_map distinct_sort length_sort set_sort)
  with assms show "distinct (map fst (sort_key fst xs))" "distinct (map fst (sort_key fst ys))"
    by simp_all
qed simp_all

text \<open>Objects whose keys are distinct at every level, as the properties of any object are.\<close>

fun jdist :: "json \<Rightarrow> bool"
  and jdist_elems :: "json list \<Rightarrow> bool"
  and jdist_props :: "frame \<Rightarrow> bool" where
  "jdist (JArr vs) = jdist_elems vs"
| "jdist (JObj ps) = (distinct (map fst ps) \<and> jdist_props ps)"
| "jdist _ = True"
| "jdist_elems [] = True"
| "jdist_elems (v # vs) = (jdist v \<and> jdist_elems vs)"
| "jdist_props [] = True"
| "jdist_props ((k, v) # ps) = (jdist v \<and> jdist_props ps)"

lemma jnorm_defined [simp]: "jnorm v \<noteq> JUndef"
  by (cases v) auto

lemma canonical_props_set:
  "set (canonical_props ps) = (\<lambda>(k, v). (k, canonicalJson v)) ` {(k, v) \<in> set ps. k \<noteq> ''sig'' \<and> v \<noteq> JUndef}"
proof (induction ps)
  case (Cons p ps)
  then show ?case by (cases p) (auto simp: image_iff)
qed simp

lemma canonical_props_keys: "fst ` set (canonical_props ps) \<subseteq> fst ` set ps"
  by (force simp: canonical_props_set)

lemma distinct_canonical_props: "distinct (map fst ps) \<Longrightarrow> distinct (map fst (canonical_props ps))"
proof (induction ps)
  case (Cons p ps)
  then show ?case using canonical_props_keys [of ps] by (cases p) auto
qed simp

lemma jnorm_props_keys: "fst ` set (jnorm_props ps) \<subseteq> fst ` set ps"
proof (induction ps)
  case (Cons p ps)
  then show ?case by (cases p) (force split: if_splits)
qed simp

lemma distinct_jnorm_props: "distinct (map fst ps) \<Longrightarrow> distinct (map fst (jnorm_props ps))"
proof (induction ps)
  case (Cons p ps)
  then show ?case using jnorm_props_keys [of ps] by (cases p) auto
qed simp

lemma set_obj_of: "distinct (map fst ms) \<Longrightarrow> set (obj_of ms) = set ms"
  using obj_ok_obj_of [of ms] by (simp add: map_of_inject_set [symmetric] map_of_obj_of obj_ok_def)

text \<open>The canonical form depends on the set of properties only, and ignores \<open>sig\<close>.\<close>

lemma canonical_same_set:
  assumes "distinct (map fst ps)" "distinct (map fst qs)"
    and "{(k, v) \<in> set ps. k \<noteq> ''sig'' \<and> v \<noteq> JUndef} = {(k, v) \<in> set qs. k \<noteq> ''sig'' \<and> v \<noteq> JUndef}"
  shows "canonicalJson (JObj ps) = canonicalJson (JObj qs)"
proof -
  have "sort_key fst (canonical_props ps) = sort_key fst (canonical_props qs)"
    using assms by (intro sort_key_unique) (simp_all add: canonical_props_set distinct_canonical_props)
  then show ?thesis by simp
qed

lemma canonicalJson_jnorm:
  "jdist v \<Longrightarrow> canonicalJson (jnorm v) = canonicalJson v"
  "jdist_elems vs \<Longrightarrow> canonical_elems (jnorm_elems vs) = canonical_elems vs"
  "jdist_props ps \<Longrightarrow> canonical_props (jnorm_props ps) = canonical_props ps"
proof (induction v and vs and ps rule: jdist_jdist_elems_jdist_props.induct)
  case (2 ps)
  then have d: "distinct (map fst (jnorm_props ps))" by (simp add: distinct_jnorm_props)
  then have "canonicalJson (JObj (obj_of (jnorm_props ps))) = canonicalJson (JObj (jnorm_props ps))"
    using obj_ok_obj_of [of "jnorm_props ps"]
    by (intro canonical_same_set) (simp_all add: set_obj_of obj_ok_def)
  then show ?case using 2 by simp
qed (auto simp: stringify_def)

lemma jnorm_elems_map: "jnorm_elems vs = map jnorm vs"
  by (induction vs) auto

lemma jnorm_nullish [simp]: "nullish (jnorm v) = nullish v"
  by (cases v) (auto simp: nullish_def)

lemma js_String_jnorm: "v \<noteq> JUndef \<Longrightarrow> js_String (jnorm v) = js_String v"
proof (induction v rule: js_String.induct)
  case (7 vs)
  have "map (\<lambda>v. if nullish (jnorm v) then [] else js_String (jnorm v)) vs
      = map (\<lambda>v. if nullish v then [] else js_String v) vs"
  proof (rule map_cong)
    fix v
    assume "v \<in> set vs"
    then show "(if nullish (jnorm v) then [] else js_String (jnorm v)) = (if nullish v then [] else js_String v)"
      using "7.IH" [of v] by (cases "nullish v") (simp_all, simp add: nullish_def)
  qed simp
  then show ?case by (simp add: jnorm_elems_map comp_def cong: map_cong)
qed auto

lemma map_of_jnorm_props:
  "distinct (map fst ps) \<Longrightarrow> map_of (jnorm_props ps) k =
     (case map_of ps k of None \<Rightarrow> None | Some v \<Rightarrow> if v = JUndef then None else Some (jnorm v))"
proof (induction ps)
  case (Cons p ps)
  then show ?case
    by (cases p) (auto simp: map_of_eq_None_iff image_iff split: option.splits)
qed simp

lemma prop_of_wire:
  assumes "distinct (map fst ps)"
  shows "prop_of (obj_of (jnorm_props ps)) k = (if prop_of ps k = JUndef then JUndef else jnorm (prop_of ps k))"
  using assms
  by (simp add: prop_of_def map_of_obj_of distinct_jnorm_props map_of_jnorm_props split: option.splits)

text \<open>The frame the receiver parses has the signing payload of the frame that was sent.\<close>

lemma sigPayload_wire:
  assumes "jdist (JObj f)"
  shows "sigPayload C (obj_of (jnorm_props f)) = sigPayload C f"
proof -
  from assms have d: "distinct (map fst f)" by simp
  have "canonicalJson (JObj (obj_of (jnorm_props f))) = canonicalJson (JObj f)"
    using canonicalJson_jnorm(1) [OF assms] by simp
  then show ?thesis
    unfolding sigPayload_def prop_of_wire [OF d] using js_String_jnorm by auto
qed

lemma canonical_ignores_sig: "canonical_props (obj_put ''sig'' v ps) = canonical_props ps"
  by (induction "''sig''" v ps rule: obj_put.induct) auto

lemma sigPayload_ignores_sig [simp]: "sigPayload C (obj_put ''sig'' v f) = sigPayload C f"
  by (simp add: sigPayload_def canonical_ignores_sig)

section \<open>Signatures\<close>

lemma verify_signed:
  assumes "ed_correct C" "signFrame C f priv = Inr s" "prop_of g ''sig'' = JStr s"
    and "sigPayload C g = sigPayload C f"
  shows "verifyFrame C g (ed_public C priv) = Inr True"
  using assms by (auto simp: signFrame_def verifyFrame_def ed_correct_def of_option_def split: option.splits)

lemma jdist_props_iff: "jdist_props ps \<longleftrightarrow> (\<forall>(k, v) \<in> set ps. jdist v)"
  by (induction ps) auto

lemma obj_put_subset: "set (obj_put k v ps) \<subseteq> insert (k, v) (set ps)"
  by (induction k v ps rule: obj_put.induct) auto

lemma jdist_put: "obj_ok f \<Longrightarrow> jdist_props f \<Longrightarrow> jdist v \<Longrightarrow> jdist (JObj (obj_put k v f))"
  using obj_ok_put [of f k v] obj_put_subset [of k v f] by (auto simp: obj_ok_def jdist_props_iff)

lemma jtok_put: "jtok_props f \<Longrightarrow> jtok v \<Longrightarrow> jtok (JObj (obj_put k v f))"
  using obj_put_subset [of k v f] by (auto simp: jtok_props_iff)

lemma signed_frame_verifies:
  assumes "ed_correct C" "signFrame C f priv = Inr s"
    and "obj_ok f" "jdist_props f" "jtok_props f"
  shows "\<exists>g. json_parse (json_text (JObj (obj_put ''sig'' (JStr s) f))) = Inr (JObj g)
    \<and> verifyFrame C g (ed_public C priv) = Inr True"
proof -
  let ?f = "obj_put ''sig'' (JStr s) f"
  have d: "jdist (JObj ?f)" by (rule jdist_put) (simp_all add: assms)
  have t: "jtok (JObj ?f)" by (rule jtok_put) (simp_all add: assms)
  have "json_parse (json_text (JObj ?f)) = Inr (JObj (obj_of (jnorm_props ?f)))"
    using json_parse_text [OF t] by simp
  moreover have "verifyFrame C (obj_of (jnorm_props ?f)) (ed_public C priv) = Inr True"
    using d by (intro verify_signed [OF assms(1,2)])
      (simp_all add: sigPayload_wire prop_of_wire del: jdist.simps, simp add: prop_of_wire)
  ultimately show ?thesis by blast
qed

section \<open>What a signature covers\<close>

lemma hex_no_bar: "CHR ''|'' \<notin> set (hex bs)"
  using hex_chars [of bs] by (auto simp: list_all_iff hex_char_def is_digit_def code_def)

lemma first_field: "c \<notin> set x \<Longrightarrow> c \<notin> set y \<Longrightarrow> x @ c # u = y @ c # v \<Longrightarrow> x = y \<and> u = v"
proof (induction x arbitrary: y)
  case Nil
  then show ?case by (cases y) auto
next
  case (Cons a x)
  then show ?case by (cases y) auto
qed

lemma last_field: "c \<notin> set x \<Longrightarrow> c \<notin> set y \<Longrightarrow> u @ c # x = v @ c # y \<Longrightarrow> x = y"
proof -
  assume *: "c \<notin> set x" "c \<notin> set y" "u @ c # x = v @ c # y"
  have "rev x @ c # rev u = rev y @ c # rev v"
    using arg_cong [OF *(3), of rev] by simp
  with * show "x = y" using first_field [of c "rev x" "rev y" "rev u" "rev v"] by simp
qed

lemma sigPayload_hash:
  assumes "sigPayload C f = sigPayload C g"
  shows "sha256 C (utf8 (canonicalJson (JObj f))) = sha256 C (utf8 (canonicalJson (JObj g)))"
proof -
  let ?u = "\<lambda>f. ''dap1|'' @ js_String (prop_of f ''op'') @ ''|'' @ js_String (prop_of f ''ts'')"
  let ?h = "\<lambda>f. sha256Hex C (utf8 (canonicalJson (JObj f)))"
  have split: "sigPayload C f = ?u f @ CHR ''|'' # ?h f" for f
    by (simp only: sigPayload_def append_assoc append_Cons append_Nil)
  have "?u f @ CHR ''|'' # ?h f = ?u g @ CHR ''|'' # ?h g"
    using assms unfolding split .
  then have "?h f = ?h g"
    by (rule last_field [rotated 2]) (simp_all only: sha256Hex_def hex_no_bar not_False_eq_True)
  then show ?thesis by (simp only: sha256Hex_def hex_inj)
qed

section \<open>Sealed payloads\<close>

lemma open_seal:
  assumes "dh_commutes C" "aead_correct C" "length nonce = 12"
    and "seal C nonce text frameId peer aPriv (x_public C bPriv) = Inr ct"
  shows "open_sealed C ct frameId peer bPriv (x_public C aPriv) = Inr text"
proof -
  from assms(4) obtain secret where s: "x_shared C aPriv (x_public C bPriv) = Some secret"
    and ct: "ct = b64e (nonce @ aead_enc C (deriveKey C secret frameId) nonce (aadOf frameId peer) (utf8 text))"
    by (auto simp: seal_def bind_result_Inr_iff of_option_def Let_def split: option.splits)
  from assms(1) s have "x_shared C bPriv (x_public C aPriv) = Some secret"
    by (metis dh_commutes_def)
  with ct assms(2,3) show ?thesis by (simp add: open_sealed_def Let_def aead_correct_def)
qed

lemma aadOf_inj:
  assumes "CHR ''|'' \<notin> set i" "CHR ''|'' \<notin> set j" "aadOf i p = aadOf j q"
  shows "i = j \<and> p = q"
  using assms first_field [of "CHR ''|''" i j p q] by (simp add: aadOf_def)

section \<open>Properties\<close>

text \<open>A concrete set of primitives with the assumed laws, for the concrete instances.\<close>

definition demo_crypto :: crypto where
  "demo_crypto =
     \<lparr>sha256 = (\<lambda>b. take 32 (b @ replicate 32 0)),
      ed_sign = (\<lambda>m k. Some (k @ m)),
      ed_verify = (\<lambda>s m p. Some (s = p @ m)),
      ed_public = (\<lambda>k. k),
      x_shared = (\<lambda>a b. Some [foldr (+) a 0 + foldr (+) b 0]),
      x_public = (\<lambda>k. k),
      hkdf_sha256 = (\<lambda>k s i n. take n (k @ s @ i @ replicate n 0)),
      aead_enc = (\<lambda>k n a p. a @ p),
      aead_dec = (\<lambda>k n a c. if take (length a) c = a then Some (drop (length a) c) else None)\<rparr>"

lemma demo_laws: "ed_correct demo_crypto" "dh_commutes demo_crypto" "aead_correct demo_crypto"
  by (simp_all add: ed_correct_def dh_commutes_def aead_correct_def demo_crypto_def add.commute)

text \<open>What \<open>seal\<close> encrypts for a frame id and a peer, \<open>open\<close> decrypts with the other side's keys.\<close>

lemma seal_open_roundtrip:
  assumes "dh_commutes C" "aead_correct C" "length nonce = 12"
    and "seal C nonce text frameId peer aPriv (x_public C bPriv) = Inr ct"
  shows "open_sealed C ct frameId peer bPriv (x_public C aPriv) = Inr text"
  by (rule open_seal [OF assms])

lemma seal_open_roundtrip_witness:
  "\<exists>ct. seal demo_crypto (replicate 12 7) ''hi'' ''id'' ''peer'' [1, 2] (x_public demo_crypto [3]) = Inr ct
     \<and> open_sealed demo_crypto ct ''id'' ''peer'' [3] (x_public demo_crypto [1, 2]) = Inr ''hi''"
proof -
  obtain ct where ct: "seal demo_crypto (replicate 12 7) ''hi'' ''id'' ''peer'' [1, 2] (x_public demo_crypto [3]) = Inr ct"
    by (simp add: seal_def demo_crypto_def Let_def)
  from seal_open_roundtrip [OF demo_laws(2,3) _ ct] ct show ?thesis by simp
qed

text \<open>A frame that was signed, given its \<open>sig\<close>, serialized and parsed again verifies under the
  signer's public key, whatever order its keys had and though \<open>undefined\<close> fields are gone.\<close>

lemma signed_frame_verifies_on_the_wire:
  assumes "ed_correct C" "signFrame C f priv = Inr s"
    and "obj_ok f" "jdist_props f" "jtok_props f"
  shows "\<exists>g. json_parse (json_text (JObj (obj_put ''sig'' (JStr s) f))) = Inr (JObj g)
    \<and> verifyFrame C g (ed_public C priv) = Inr True"
  by (rule signed_frame_verifies [OF assms])

lemma signed_frame_verifies_on_the_wire_witness:
  "\<exists>s g. signFrame demo_crypto [(''op'', JStr ''hello''), (''name'', JUndef), (''ts'', JNum 5)] [9] = Inr s
    \<and> json_parse (json_text (JObj (obj_put ''sig'' (JStr s) [(''op'', JStr ''hello''), (''name'', JUndef), (''ts'', JNum 5)]))) = Inr (JObj g)
    \<and> verifyFrame demo_crypto g (ed_public demo_crypto [9]) = Inr True"
proof -
  let ?f = "[(''op'', JStr ''hello''), (''name'', JUndef), (''ts'', JNum 5)]"
  obtain s where s: "signFrame demo_crypto ?f [9] = Inr s"
    by (simp add: signFrame_def demo_crypto_def)
  have "obj_ok ?f"
    by (simp add: obj_ok_def prop_rank_def arr_index_def is_digit_def code_def)
  with signed_frame_verifies_on_the_wire [OF demo_laws(1) s] s show ?thesis by auto
qed

text \<open>C34: two frames with the same signing payload carry the same content, up to their \<open>sig\<close> fields,
  the order of keys and \<open>undefined\<close> values, unless their two canonical texts differ and collide
  under SHA-256.\<close>

theorem signing_payload_binds:
  assumes "jtok (JObj f)" "jtok (JObj g)" "sigPayload C f = sigPayload C g"
  shows "jnorm (canon (JObj f)) = jnorm (canon (JObj g))
    \<or> (canonicalJson (JObj f) \<noteq> canonicalJson (JObj g)
       \<and> sha256 C (utf8 (canonicalJson (JObj f))) = sha256 C (utf8 (canonicalJson (JObj g))))"
proof (cases "canonicalJson (JObj f) = canonicalJson (JObj g)")
  case True
  with canonicalJson_binds assms show ?thesis by blast
next
  case False
  with sigPayload_hash [OF assms(3)] show ?thesis by blast
qed

lemma signing_payload_binds_witness:
  "jnorm (canon (JObj [(''op'', JStr ''x''), (''sig'', JStr ''a'')])) = jnorm (canon (JObj [(''op'', JStr ''x'')]))"
  using signing_payload_binds [of "[(''op'', JStr ''x''), (''sig'', JStr ''a'')]" "[(''op'', JStr ''x'')]" demo_crypto]
  by (simp add: sigPayload_def)

text \<open>A field named \<open>sig\<close> is dropped at every depth, so a signature does not cover it.\<close>

lemma nested_sig_not_covered:
  "sigPayload C [(''op'', JStr o'), (''body'', JObj [(''sig'', JStr a)])] = sigPayload C [(''op'', JStr o'), (''body'', JObj [(''sig'', JStr b)])]"
  by (simp add: sigPayload_def)

end
