(* ===== verification/Channels.thy ===== *)
theory Channels
  imports Host Crypto
begin

text \<open>
  \<open>adapters/mcp-bridge/src/channels.ts\<close>: the channels file, which maps a channel name to its
  x25519 key pair, and the invite payload that carries a key pair inside a direct message.
\<close>

record channel_keys =
  ck_pub :: string
  ck_priv :: string

definition newChannelKeypair :: "crypto \<Rightarrow> byte list \<Rightarrow> channel_keys" where
  "newChannelKeypair c rnd =
     (let (priv, pub) = newX25519Keypair c rnd in \<lparr>ck_pub = b64e pub, ck_priv = b64e priv\<rparr>)"

definition keys_json :: "channel_keys \<Rightarrow> json" where
  "keys_json k = JObj [(''pub'', JStr (ck_pub k)), (''priv'', JStr (ck_priv k))]"

definition entry_keys :: "json \<Rightarrow> channel_keys option" where
  \<comment> \<open>\<open>typeof keys?.pub === 'string' && typeof keys?.priv === 'string'\<close>\<close>
  "entry_keys v =
     (if nullish v then None
      else (case (get_prop v ''pub'', get_prop v ''priv'') of
              (Inr (JStr a), Inr (JStr b)) \<Rightarrow> Some \<lparr>ck_pub = a, ck_priv = b\<rparr>
            | _ \<Rightarrow> None))"

fun collect_keys :: "(string \<times> json) list \<Rightarrow> (string \<times> json) list \<Rightarrow> (string \<times> json) list" where
  "collect_keys out [] = out"
| "collect_keys out ((name, v) # es) =
     collect_keys (case entry_keys v of Some k \<Rightarrow> obj_assign name (keys_json k) out | None \<Rightarrow> out) es"

definition loadChannelKeys :: "string \<Rightarrow> host \<Rightarrow> (string \<times> json) list" where
  "loadChannelKeys file h =
     catch_result
       (bind_result (read_json h file) (\<lambda>raw.
        bind_result (object_entries raw) (\<lambda>es. Inr (collect_keys [] es))))
       []"

definition persistChannelKeys :: "string \<Rightarrow> string \<Rightarrow> channel_keys \<Rightarrow> host \<Rightarrow> host" where
  "persistChannelKeys file name k h =
     write_json file (JObj (obj_assign name (keys_json k) (loadChannelKeys file h))) default_mode h"

record chankey_invite = channel_keys +
  ci_channel :: string

definition str_prop :: "json \<Rightarrow> string \<Rightarrow> string option" where
  "str_prop v k = (case get_prop v k of Inr (JStr s) \<Rightarrow> Some s | _ \<Rightarrow> None)"

definition invite_of :: "json \<Rightarrow> chankey_invite option" where
  "invite_of v =
     (if str_prop v ''t'' \<noteq> Some ''chankey'' then None
      else (case (str_prop v ''channel'', str_prop v ''pub'', str_prop v ''priv'') of
              (Some ch, Some a, Some b) \<Rightarrow>
                if length (b64d a) \<noteq> 32 \<or> length (b64d b) \<noteq> 32 then None
                else Some \<lparr>ck_pub = a, ck_priv = b, ci_channel = ch\<rparr>
            | _ \<Rightarrow> None))"

definition parseChankeyInvite :: "string \<Rightarrow> chankey_invite option" where
  "parseChankeyInvite text =
     (case text of
        c # _ \<Rightarrow> if c \<noteq> CHR 0x7B then None
                 else (case json_parse text of Inr v \<Rightarrow> invite_of v | Inl _ \<Rightarrow> None)
      | [] \<Rightarrow> None)"

definition invite_payload :: "string \<Rightarrow> channel_keys \<Rightarrow> string" where
  \<comment> \<open>\<open>JSON.stringify({ t: 'chankey', channel, pub, priv })\<close>, as \<open>DapClient.invite\<close> sends it\<close>
  "invite_payload ch k =
     json_text (JObj [(''t'', JStr ''chankey''), (''channel'', JStr ch), (''pub'', JStr (ck_pub k)), (''priv'', JStr (ck_priv k))])"

section \<open>The channels file\<close>

lemma jok_keys_json [simp]: "jok (keys_json k)"
proof -
  have "prop_rank ''pub'' \<le> prop_rank ''priv''"
    by (simp add: prop_rank_def arr_index_def is_digit_def code_def)
  then show ?thesis by (simp add: keys_json_def obj_ok_def)
qed

lemma entry_keys_json [simp]: "entry_keys (keys_json k) = Some k"
  by (simp add: entry_keys_def keys_json_def nullish_def)

lemma obj_ok_assign: "obj_ok ps \<Longrightarrow> obj_ok (obj_assign k v ps)"
  by (simp add: obj_assign_def obj_ok_put)

definition keys_file :: "(string \<times> json) list \<Rightarrow> bool" where
  "keys_file ps = (obj_ok ps \<and> (\<forall>(name, v) \<in> set ps. name \<noteq> ''__proto__'' \<and> (\<exists>k. v = keys_json k)))"

lemma set_obj_put: "set (obj_put k v ps) \<subseteq> insert (k, v) (set ps)"
  by (induction k v ps rule: obj_put.induct) auto

lemma keys_file_assign: "keys_file ps \<Longrightarrow> keys_file (obj_assign name (keys_json k) ps)"
  using set_obj_put [of name "keys_json k" ps] by (auto simp: keys_file_def obj_assign_def obj_ok_put)

lemma collect_keys_file: "keys_file out \<Longrightarrow> keys_file (collect_keys out es)"
  by (induction out es rule: collect_keys.induct) (auto simp: keys_file_assign split: option.splits)

lemma collect_keys_clean:
  "list_all (\<lambda>(name, v). name \<noteq> ''__proto__'' \<and> (\<exists>k. v = keys_json k)) es \<Longrightarrow> collect_keys out es = obj_puts out es"
  by (induction out es rule: collect_keys.induct) (auto simp: obj_assign_def)

lemma keys_file_collect: "keys_file ps \<Longrightarrow> collect_keys [] ps = ps"
proof -
  assume k: "keys_file ps"
  then have "list_all (\<lambda>(name, v). name \<noteq> ''__proto__'' \<and> (\<exists>k. v = keys_json k)) ps"
    by (auto simp: keys_file_def list_all_iff)
  from collect_keys_clean [OF this] k show ?thesis
    by (simp add: keys_file_def obj_of_def [symmetric])
qed

lemma keys_file_load: "keys_file (loadChannelKeys file h)"
proof -
  have "keys_file []" by (simp add: keys_file_def)
  then show ?thesis
    by (auto simp: loadChannelKeys_def bind_result_def catch_result_def intro: collect_keys_file split: sum.splits)
qed

lemma keys_file_jok: "keys_file ps \<Longrightarrow> jok (JObj ps)"
  by (auto simp: keys_file_def jok_props_iff)

lemma persist_keys_load:
  "loadChannelKeys file (persistChannelKeys file name k h) = obj_assign name (keys_json k) (loadChannelKeys file h)"
proof -
  have f: "keys_file (obj_assign name (keys_json k) (loadChannelKeys file h))"
    by (intro keys_file_assign keys_file_load)
  then have "read_json (persistChannelKeys file name k h) file = Inr (JObj (obj_assign name (keys_json k) (loadChannelKeys file h)))"
    unfolding persistChannelKeys_def by (intro json_file.load_store keys_file_jok)
  with f show ?thesis
    by (simp add: loadChannelKeys_def [of _ "persistChannelKeys file name k h"] object_entries_def nullish_def own_props_def keys_file_collect)
qed

lemma persist_keys_other: "f \<noteq> file \<Longrightarrow> read_file (persistChannelKeys file name k h) f = read_file h f"
  by (simp add: persistChannelKeys_def write_json_def)

lemma persist_keys_fields [simp]:
  "env (persistChannelKeys file name k h) = env h" "homedir (persistChannelKeys file name k h) = homedir h"
  "hostname (persistChannelKeys file name k h) = hostname h"
  by (simp_all add: persistChannelKeys_def write_json_def)

definition stored_keys :: "host \<Rightarrow> string \<Rightarrow> string \<Rightarrow> channel_keys option" where
  "stored_keys h file name = Option.bind (map_of (loadChannelKeys file h) name) entry_keys"

text \<open>The channels file is a keyed store of key pairs, for every name but \<open>__proto__\<close>.\<close>

lemma stored_keys_persist:
  "stored_keys (persistChannelKeys file name k h) file =
     (if name = ''__proto__'' then stored_keys h file else (stored_keys h file)(name \<mapsto> k))"
  by (auto simp: fun_eq_iff stored_keys_def persist_keys_load obj_assign_def js_obj.get_put)

section \<open>Invites\<close>

lemma hd_json_obj: "\<exists>s. json_text (JObj ps) = CHR 0x7B # s"
  by (simp add: json_text_def stringify_def Let_def)

lemma invite_payload_parse:
  "parseChankeyInvite (invite_payload ch k) =
     (if length (b64d (ck_pub k)) = 32 \<and> length (b64d (ck_priv k)) = 32
      then Some \<lparr>ck_pub = ck_pub k, ck_priv = ck_priv k, ci_channel = ch\<rparr> else None)"
proof -
  let ?ps = "[(''t'', JStr ''chankey''), (''channel'', JStr ch), (''pub'', JStr (ck_pub k)), (''priv'', JStr (ck_priv k))]"
  have "obj_ok ?ps"
    by (simp add: obj_ok_def prop_rank_def arr_index_def is_digit_def code_def)
  then have p: "json_parse (invite_payload ch k) = Inr (JObj ?ps)"
    unfolding invite_payload_def by (intro json_parse_text_ok) simp
  from hd_json_obj [of ?ps] obtain s where "invite_payload ch k = CHR 0x7B # s"
    by (auto simp: invite_payload_def)
  with p show ?thesis
    by (simp add: parseChankeyInvite_def invite_of_def str_prop_def)
qed

lemma parse_invite_Some:
  assumes "parseChankeyInvite text = Some i"
  shows "\<exists>v. json_parse text = Inr v \<and> str_prop v ''t'' = Some ''chankey'' \<and> str_prop v ''channel'' = Some (ci_channel i)
    \<and> str_prop v ''pub'' = Some (ck_pub i) \<and> str_prop v ''priv'' = Some (ck_priv i)
    \<and> length (b64d (ck_pub i)) = 32 \<and> length (b64d (ck_priv i)) = 32"
  using assms by (auto simp: parseChankeyInvite_def invite_of_def split: list.splits sum.splits option.splits if_splits)

section \<open>Properties\<close>

text \<open>After \<open>persistChannelKeys\<close> the channels file holds the new key pair under its name and the
  old ones under the other names, and no other file changed. The name \<open>__proto__\<close> is the exception:
  nothing is stored under it.\<close>

lemma channels_file_store:
  "stored_keys (persistChannelKeys file name k h) file =
     (if name = ''__proto__'' then stored_keys h file else (stored_keys h file)(name \<mapsto> k))
   \<and> (\<forall>f. f = file \<or> read_file (persistChannelKeys file name k h) f = read_file h f)"
  by (metis stored_keys_persist persist_keys_other)

text \<open>The direct message of an invite is recognised as one, with the channel and key pair it was
  made from, exactly when both keys are base64 of 32 bytes, as those of a fresh key pair are.\<close>

lemma invite_roundtrip:
  "parseChankeyInvite (invite_payload ch k) =
     (if length (b64d (ck_pub k)) = 32 \<and> length (b64d (ck_priv k)) = 32
      then Some \<lparr>ck_pub = ck_pub k, ck_priv = ck_priv k, ci_channel = ch\<rparr> else None)"
  by (rule invite_payload_parse)

lemma new_keypair_lengths:
  "length (b64d (ck_priv (newChannelKeypair c rnd))) = length rnd"
  "length (b64d (ck_pub (newChannelKeypair c rnd))) = length (x_public c rnd)"
  by (simp_all add: newChannelKeypair_def newX25519Keypair_def)

end
