(* ===== verification/Client_State.thy ===== *)
theory Client_State
  imports Config Channels
begin

text \<open>
  The state of \<open>DapClient\<close> (\<open>adapters/mcp-bridge/src/client.ts\<close>) and of the world around it.

  Asynchronous code is written out as data. A suspended \<open>async\<close> call is the list of the
  continuations (\<open>kont\<close>) it is waiting in, innermost first. A promise somebody waits for is a
  \<open>pid\<close>: \<open>parked\<close> holds the continuations of the ones not settled yet, \<open>ptimers\<close> their timeouts, and
  \<open>micro\<close> the continuations that may run. The lists of waiters of the class hold \<open>pid\<close>s; settling a
  \<open>pid\<close> twice does nothing the second time, as with a promise.
\<close>

type_synonym pid = nat
type_synonym sock = nat

datatype sock_state = CONNECTING | OPEN | CLOSING | CLOSED

record identity =
  id_priv :: bytes
  id_pub :: bytes
  id_xpriv :: bytes
  id_xpub :: bytes

record hub_error =
  he_code :: string
  he_msg :: string
  he_ts :: nat
  he_from :: "string option"
  he_id :: "string option"

record channel_key =
  ch_name :: string
  ch_pub :: string
  ch_priv :: "string option"

record msg_event =
  me_dm :: bool
  me_channel :: "string option"
  me_from :: string
  me_text :: string
  me_ts :: json  \<comment> \<open>the argument of \<open>Number(frame.ts)\<close>\<close>
  me_invite :: "string option"

record whois_info =
  p_agentId :: string
  p_pubkey :: string
  p_x25519 :: string
  p_name :: json
  p_online :: json

record peer_info = whois_info +
  p_xPub :: bytes

record presence_agent =
  a_agentId :: string
  a_name :: json
  a_online :: json
  a_lastSeen :: json
  a_self :: bool

record send_result =
  sr_id :: string
  sr_from :: string
  sr_channel :: "string option"
  sr_to :: "string option"
  sr_created :: bool
  sr_chanPubkey :: "string option"

record armed_invite =
  ai_name :: string
  ai_channel :: string
  ai_connectLine :: string

datatype auth_source = AuthEnv | AuthConfig | AuthMaster

record auth_token =
  at_token :: string
  at_enroll :: bool
  at_source :: auth_source

text \<open>What a promise is fulfilled with.\<close>

datatype dap_value =
    VUnit
  | VPeer peer_info
  | VWhois whois_info
  | VAgents "presence_agent list"
  | VChan channel_key bool
  | VSent send_result
  | VArmed armed_invite

text \<open>
  The points at which the \<open>async\<close> methods wait, with the local variables the rest of the method
  uses. \<open>KTop n\<close> is the caller of the \<open>n\<close>-th public call, \<open>KSwallow\<close> is \<open>.catch(() => {})\<close>,
  \<open>KSurface\<close> is \<open>.catch((err) => this.surfaceInviteFailure(err))\<close>, and \<open>KNobody\<close> a promise whose
  rejection nobody handles.
\<close>

datatype kont =
    KTop nat
  | KSwallow
  | KSurface
  | KNobody
  | KJoinReady string string
  | KEnsure channel_key bool
  | KSendEns string string
  | KSendReady string string channel_key bool
  | KDmInfo string string
  | KDmReady string string peer_info
  | KInviteEns string string
  | KInviteDm string channel_key bool
  | KByName string string
  | KArm string string
  | KOnline
  | KWhois
  | KDeliver
  | KDelivered nat "presence_agent list" json
  | KMsg frame

datatype timer_kind = TReady | TJoin string | TWhois string | TPresence string

record ptimer =
  pt_pid :: pid
  pt_due :: nat
  pt_kind :: timer_kind

datatype p_waiter = PCall pid | PWarm nat

text \<open>The primitives a client is given: the crypto library, sources of randomness, its listeners.\<close>

record cenv =
  ce_crypto :: crypto
  ce_uuid :: "nat \<Rightarrow> string"  \<comment> \<open>the \<open>n\<close>-th \<open>randomUUID()\<close>\<close>
  ce_random :: "nat \<Rightarrow> nat \<Rightarrow> bytes"  \<comment> \<open>the \<open>n\<close>-th random bytes, of a given length\<close>
  ce_listeners :: "msg_event \<Rightarrow> exn option"  \<comment> \<open>what the registered callbacks throw\<close>
  ce_message :: "exn \<Rightarrow> string"  \<comment> \<open>the engine's text of its own exceptions\<close>
  ce_url_ok :: "string \<Rightarrow> bool"  \<comment> \<open>the urls \<open>new WebSocket(url)\<close> does not throw on\<close>

record ('k, 'v) world =
  w_host :: host
  now :: nat
  n_uuid :: nat
  n_random :: nat
  n_sock :: nat
  n_pid :: nat
  n_timer :: nat
  socks :: "(sock, sock_state) jsmap"  \<comment> \<open>the sockets made so far\<close>
  attached :: "sock list"  \<comment> \<open>those whose events reach the client\<close>
  dialed :: "(string \<times> string option) list"  \<comment> \<open>url and bearer token of each dial\<close>
  wire :: "(sock \<times> json) list"  \<comment> \<open>frames sent, in order\<close>
  retries :: "(nat \<times> nat) list"  \<comment> \<open>reconnect timers that were not cleared: handle and due time\<close>
  parked :: "(pid, 'k list) jsmap"
  ptimers :: "ptimer list"
  micro :: "((exn + 'v) \<times> 'k list) list"
  results :: "(nat \<times> (exn + 'v)) list"  \<comment> \<open>outcomes of public calls\<close>
  delivered :: "msg_event list"  \<comment> \<open>what the listeners were called with\<close>
  hooked :: "hub_error list"  \<comment> \<open>what \<open>onHubError\<close> was called with\<close>
  watching :: "sock option"  \<comment> \<open>the peer of the running watchdog\<close>
  crashed :: bool  \<comment> \<open>an exception nobody caught\<close>

record client = "(kont, dap_value) world" +
  ident :: identity
  o_url :: string
  o_name :: "string option"
  o_channelsFile :: "string option"
  o_invites :: bool
  whoisCalls :: nat
  lastError :: string
  errorRing :: "hub_error list"
  channels :: "(string, channel_key) jsmap"
  joined :: "string list"
  inboxMsgs :: "msg_event list"
  known :: "(string, peer_info) jsmap"
  whoisWaiters :: "(string, pid list) jsmap"
  hellos :: nat
  welcomes :: nat
  readyWaiters :: "pid list"
  presenceWaiters :: "(string, p_waiter list) jsmap"
  echoSeen :: bool
  joinWaiters :: "(string, pid list) jsmap"
  ws :: "sock option"
  retryTimer :: "nat option"
  inviteTimer :: bool
  pendingInvites :: "json list"
  deliveringInvites :: bool
  delay :: nat
  initialMs :: nat
  maxMs :: nat
  welcomed :: bool
  enrollPending :: bool
  dialSource :: "auth_source option"
  reEnrolled :: bool
  stopped :: bool

definition INBOX_CAP :: nat where "INBOX_CAP = 100"
definition ERRORS_CAP :: nat where "ERRORS_CAP = 20"
definition WAIT_MS :: nat where "WAIT_MS = 5000"

definition NOT_CONNECTED :: string where
  "NOT_CONNECTED = ''not connected to the hub (reconnecting with backoff '' @ [CHR 0x1A] @ '' retry in a moment)''"

definition DIAL_401_HELP :: string where
  "DIAL_401_HELP =
     ''hub rejected connection (HTTP 401): set DAP_MASTER_SECRET to enroll, or DAP_CLIENT_SECRET / config clientSecret to connect''"

section \<open>Strings\<close>

definition lower_char :: "char \<Rightarrow> char" where
  "lower_char c =
     (if 65 \<le> code c \<and> code c \<le> 90 \<or> 192 \<le> code c \<and> code c \<le> 222 \<and> code c \<noteq> 215
      then char_of (code c + 32) else c)"

definition toLowerCase :: "string \<Rightarrow> string" where
  "toLowerCase s = map lower_char s"

definition starts_with :: "string \<Rightarrow> string \<Rightarrow> bool" where
  "starts_with p s = (take (length p) s = p)"

definition ends_with :: "string \<Rightarrow> string \<Rightarrow> bool" where
  "ends_with p s = (length p \<le> length s \<and> drop (length s - length p) s = p)"

definition hostOf :: "string \<Rightarrow> string" where
  \<comment> \<open>\<open>url.replace(/^wss?:\/\//, '').replace(/\/ws$/, '')\<close>\<close>
  "hostOf url =
     (let u = (if starts_with ''wss://'' url then drop 6 url
               else if starts_with ''ws://'' url then drop 5 url else url)
      in if ends_with ''/ws'' u then take (length u - 3) u else u)"

definition is_agent_id :: "string \<Rightarrow> bool" where
  \<comment> \<open>\<open>/^[0-9a-f]{16}$/\<close>\<close>
  "is_agent_id s = (length s = 16 \<and> list_all hex_char s)"

definition lower_name :: "json \<Rightarrow> string option result" where
  \<comment> \<open>\<open>v?.toLowerCase()\<close>\<close>
  "lower_name v =
     (case v of JStr s \<Rightarrow> Inr (Some (toLowerCase s)) | JUndef \<Rightarrow> Inr None | JNull \<Rightarrow> Inr None | _ \<Rightarrow> Inl JsTypeError)"

definition exn_msg :: "cenv \<Rightarrow> exn \<Rightarrow> string" where
  "exn_msg W e = (case e of JsError m \<Rightarrow> m | _ \<Rightarrow> ce_message W e)"

end
