(* ===== verification/Client_Ops.thy ===== *)
theory Client_Ops
  imports Client_State
begin

text \<open>
  The methods of \<open>DapClient\<close>, in the order of their dependencies. Each takes the state of the client
  and its world and returns the new one; a method that can throw out of an event handler returns
  \<open>client result\<close> or says so in its result. An \<open>async\<close> method takes the continuations \<open>ks\<close> of its caller
  and runs up to its first \<open>await\<close>; the rest of its body is a case of \<open>resume\<close>.
\<close>

section \<open>Promises\<close>

definition schedule :: "exn + 'v \<Rightarrow> 'k list \<Rightarrow> ('k, 'v, 'm) world_scheme \<Rightarrow> ('k, 'v, 'm) world_scheme" where
  "schedule out ks s = s\<lparr>micro := micro s @ [(out, ks)]\<rparr>"

definition ret :: "'v \<Rightarrow> 'k list \<Rightarrow> ('k, 'v, 'm) world_scheme \<Rightarrow> ('k, 'v, 'm) world_scheme" where
  "ret v = schedule (Inr v)"

definition throw :: "exn \<Rightarrow> 'k list \<Rightarrow> ('k, 'v, 'm) world_scheme \<Rightarrow> ('k, 'v, 'm) world_scheme" where
  "throw e = schedule (Inl e)"

text \<open>\<open>Promise.withResolvers()\<close> with the timer that rejects it; the new promise is \<open>n_pid\<close>.\<close>

definition new_promise :: "nat \<Rightarrow> timer_kind \<Rightarrow> 'k list \<Rightarrow> ('k, 'v, 'm) world_scheme \<Rightarrow> ('k, 'v, 'm) world_scheme" where
  "new_promise ms kind ks s =
     s\<lparr>n_pid := n_pid s + 1, parked := jm_set (n_pid s) ks (parked s),
       ptimers := ptimers s @ [\<lparr>pt_pid = n_pid s, pt_due = now s + ms, pt_kind = kind\<rparr>]\<rparr>"

text \<open>\<open>done(err, value)\<close>: clear the timer, resolve or reject.\<close>

definition settle :: "exn + 'v \<Rightarrow> pid \<Rightarrow> ('k, 'v, 'm) world_scheme \<Rightarrow> ('k, 'v, 'm) world_scheme" where
  "settle out p s =
     (case jm_get (parked s) p of
        None \<Rightarrow> s
      | Some ks \<Rightarrow> schedule out ks
          (s\<lparr>parked := jm_del p (parked s), ptimers := filter (\<lambda>t. pt_pid t \<noteq> p) (ptimers s)\<rparr>))"

definition settle_all :: "exn + 'v \<Rightarrow> pid list \<Rightarrow> ('k, 'v, 'm) world_scheme \<Rightarrow> ('k, 'v, 'm) world_scheme" where
  "settle_all out ps s = fold (settle out) ps s"

definition waiters_of :: "(string, 'a list) jsmap \<Rightarrow> string \<Rightarrow> 'a list" where
  "waiters_of m k = (case jm_get m k of None \<Rightarrow> [] | Some ps \<Rightarrow> ps)"

definition crash :: "('k, 'v, 'm) world_scheme \<Rightarrow> ('k, 'v, 'm) world_scheme" where
  "crash s = s\<lparr>crashed := True\<rparr>"

section \<open>The socket\<close>

definition sock_of :: "sock \<Rightarrow> ('k, 'v, 'm) world_scheme \<Rightarrow> sock_state" where
  "sock_of i s = (case jm_get (socks s) i of None \<Rightarrow> CLOSED | Some st \<Rightarrow> st)"

definition ws_open :: "client \<Rightarrow> bool" where
  "ws_open s = (case ws s of None \<Rightarrow> False | Some i \<Rightarrow> sock_of i s = OPEN)"

definition is_connected :: "client \<Rightarrow> bool" where
  "is_connected s = (welcomed s \<and> ws_open s)"

definition push_frame :: "sock \<Rightarrow> json \<Rightarrow> ('k, 'v, 'm) world_scheme \<Rightarrow> ('k, 'v, 'm) world_scheme" where
  "push_frame i f s = s\<lparr>wire := wire s @ [(i, f)]\<rparr>"

definition sendFrame :: "json \<Rightarrow> client \<Rightarrow> client result" where
  "sendFrame f s =
     (case ws s of
        None \<Rightarrow> Inl (JsError ''not connected'')
      | Some i \<Rightarrow> if sock_of i s \<noteq> OPEN then Inl (JsError ''not connected'') else Inr (push_frame i f s))"

text \<open>\<open>this.ws?.send(...)\<close>: on a connecting socket the library throws, on a closing one it drops.\<close>

definition ws_send :: "json \<Rightarrow> client \<Rightarrow> client result" where
  "ws_send f s =
     (case ws s of
        None \<Rightarrow> Inr s
      | Some i \<Rightarrow> (case sock_of i s of
            CONNECTING \<Rightarrow> Inl LibError
          | OPEN \<Rightarrow> Inr (push_frame i f s)
          | _ \<Rightarrow> Inr s))"

definition close_sock :: "sock \<Rightarrow> ('k, 'v, 'm) world_scheme \<Rightarrow> ('k, 'v, 'm) world_scheme" where
  \<comment> \<open>\<open>close()\<close> and \<open>terminate()\<close>: the \<open>close\<close> event follows\<close>
  "close_sock i s = (if sock_of i s = CLOSED then s else s\<lparr>socks := jm_set i CLOSING (socks s)\<rparr>)"

definition close_ws :: "client \<Rightarrow> client" where
  "close_ws s = (case ws s of None \<Rightarrow> s | Some i \<Rightarrow> close_sock i s)"

definition new_agent_id :: "cenv \<Rightarrow> client \<Rightarrow> string" where
  \<comment> \<open>\<open>get agentId()\<close>\<close>
  "new_agent_id W s = agentIdOf (ce_crypto W) (id_pub (ident s))"

definition take_uuid :: "('k, 'v, 'm) world_scheme \<Rightarrow> ('k, 'v, 'm) world_scheme" where
  "take_uuid s = s\<lparr>n_uuid := n_uuid s + 1\<rparr>"

definition take_random :: "('k, 'v, 'm) world_scheme \<Rightarrow> ('k, 'v, 'm) world_scheme" where
  "take_random s = s\<lparr>n_random := n_random s + 1\<rparr>"

definition signAndSend :: "cenv \<Rightarrow> frame \<Rightarrow> client \<Rightarrow> client result" where
  "signAndSend W f s =
     bind_result (signFrame (ce_crypto W) f (id_priv (ident s))) (\<lambda>sig.
       sendFrame (JObj (obj_put ''sig'' (JStr sig) f)) s)"

section \<open>Errors and delivery\<close>

definition ringError :: "hub_error \<Rightarrow> client \<Rightarrow> client" where
  "ringError e s = s\<lparr>errorRing := ring_push ERRORS_CAP (errorRing s) e, hooked := hooked s @ [e]\<rparr>"

definition mk_error :: "string \<Rightarrow> string \<Rightarrow> ('k, 'v, 'm) world_scheme \<Rightarrow> hub_error" where
  "mk_error c m s = \<lparr>he_code = c, he_msg = m, he_ts = now s, he_from = None, he_id = None\<rparr>"

definition surfaceInviteFailure :: "cenv \<Rightarrow> exn \<Rightarrow> client \<Rightarrow> client" where
  "surfaceInviteFailure W e s =
     (let msg = ''pending invite check failed: '' @ exn_msg W e
      in ringError (mk_error ''invite_failed'' msg s) (s\<lparr>lastError := msg\<rparr>))"

definition deliver :: "msg_event \<Rightarrow> client \<Rightarrow> client" where
  "deliver ev s = s\<lparr>inboxMsgs := ring_push INBOX_CAP (inboxMsgs s) ev, delivered := delivered s @ [ev]\<rparr>"

definition drainInbox :: "client \<Rightarrow> msg_event list \<times> client" where
  "drainInbox s = (inboxMsgs s, s\<lparr>inboxMsgs := []\<rparr>)"

definition drainErrors :: "client \<Rightarrow> hub_error list \<times> client" where
  "drainErrors s = (errorRing s, s\<lparr>errorRing := []\<rparr>)"

section \<open>Joining\<close>

definition ready :: "nat \<Rightarrow> kont list \<Rightarrow> client \<Rightarrow> client" where
  "ready ms ks s =
     (if welcomed s \<and> ws_open s then ret VUnit ks s
      else (new_promise ms TReady ks s)\<lparr>readyWaiters := readyWaiters s @ [n_pid s]\<rparr>)"

definition join_channel :: "string \<Rightarrow> string \<Rightarrow> kont list \<Rightarrow> client \<Rightarrow> client" where
  \<comment> \<open>\<open>join\<close>, up to \<open>await this.ready()\<close>\<close>
  "join_channel name pub ks s = ready WAIT_MS (KJoinReady name pub # ks) s"

definition join_body :: "string \<Rightarrow> string \<Rightarrow> kont list \<Rightarrow> client \<Rightarrow> client" where
  "join_body name pub ks s =
     (if name \<in> set (joined s) then ret VUnit ks s
      else let p = n_pid s;
               s1 = (new_promise WAIT_MS (TJoin name) ks s)
                 \<lparr>joinWaiters := jm_set name (waiters_of (joinWaiters s) name @ [p]) (joinWaiters s)\<rparr>
           in case sendFrame (JObj [(''op'', JStr ''join''), (''channel'', JStr name), (''chanPubkey'', JStr pub)]) s1 of
                Inl e \<Rightarrow> settle (Inl e) p s1
              | Inr s2 \<Rightarrow> s2)"

definition channels_file :: "client \<Rightarrow> string option" where
  \<comment> \<open>\<open>if (this.opts.channelsFile)\<close>\<close>
  "channels_file s = (case o_channelsFile s of Some (c # f) \<Rightarrow> Some (c # f) | _ \<Rightarrow> None)"

definition persist_keys :: "string \<Rightarrow> channel_keys \<Rightarrow> client \<Rightarrow> client" where
  "persist_keys name k s =
     (case channels_file s of None \<Rightarrow> s | Some f \<Rightarrow> s\<lparr>w_host := persistChannelKeys f name k (w_host s)\<rparr>)"

definition addChannel :: "channel_key \<Rightarrow> client \<Rightarrow> client" where
  "addChannel ch s = s\<lparr>channels := jm_set (ch_name ch) ch (channels s)\<rparr>"

definition ensureChannelKeys :: "cenv \<Rightarrow> string \<Rightarrow> client \<Rightarrow> channel_key \<times> client" where
  "ensureChannelKeys W name s =
     (case jm_get (channels s) name of
        Some ch \<Rightarrow> (ch, s)
      | None \<Rightarrow>
          let keys = newChannelKeypair (ce_crypto W) (ce_random W (n_random s) 32);
              ch = \<lparr>ch_name = name, ch_pub = ck_pub keys, ch_priv = Some (ck_priv keys)\<rparr>
          in (ch, persist_keys name keys (take_random (s\<lparr>channels := jm_set name ch (channels s)\<rparr>))))"

definition ensureChannel :: "cenv \<Rightarrow> string \<Rightarrow> kont list \<Rightarrow> client \<Rightarrow> client" where
  "ensureChannel W name ks s =
     (case jm_get (channels s) name of
        Some ch \<Rightarrow> join_channel name (ch_pub ch) (KEnsure ch False # ks) s
      | None \<Rightarrow> let (ch, s1) = ensureChannelKeys W name s
                in join_channel name (ch_pub ch) (KEnsure ch True # ks) s1)"

section \<open>Sending\<close>

definition send :: "cenv \<Rightarrow> string \<Rightarrow> string \<Rightarrow> kont list \<Rightarrow> client \<Rightarrow> client" where
  "send W channel text ks s =
     (if \<not> is_connected s then throw (JsError NOT_CONNECTED) ks s
      else ensureChannel W channel (KSendEns channel text # ks) s)"

text \<open>The frame of a message to \<open>peer\<close>, a channel (\<open>fld\<close> is \<open>channel\<close>) or an agent (\<open>fld\<close> is \<open>to\<close>).\<close>

definition msg_frame :: "string \<Rightarrow> string \<Rightarrow> string \<Rightarrow> nat \<Rightarrow> string \<Rightarrow> frame" where
  "msg_frame fld peer i ts ct =
     [(''op'', JStr ''send''), (fld, JStr peer), (''id'', JStr i), (''ts'', JNum (int ts)), (''ciphertext'', JStr ct)]"

definition post :: "cenv \<Rightarrow> string \<Rightarrow> string \<Rightarrow> string \<Rightarrow> bytes \<Rightarrow> client \<Rightarrow> (string \<times> client) result" where
  \<comment> \<open>from \<open>randomUUID()\<close> to \<open>signAndSend(...)\<close>; the result is the id\<close>
  "post W fld peer text pub s =
     (let i = ce_uuid W (n_uuid s);
          nonce = ce_random W (n_random s) 12;
          s1 = take_random (take_uuid s)
      in bind_result (seal (ce_crypto W) nonce text i peer (id_xpriv (ident s)) pub) (\<lambda>ct.
         bind_result (signAndSend W (msg_frame fld peer i (now s) ct) s1) (\<lambda>s2. Inr (i, s2))))"

definition send_posted :: "cenv \<Rightarrow> string \<Rightarrow> string \<Rightarrow> channel_key \<Rightarrow> bool \<Rightarrow> kont list \<Rightarrow> client \<Rightarrow> client" where
  "send_posted W channel text ch created ks s =
     (case post W ''channel'' channel text (b64d (ch_pub ch)) s of
        Inl e \<Rightarrow> throw e ks (take_random (take_uuid s))
      | Inr (i, s1) \<Rightarrow> ret (VSent
          \<lparr>sr_id = i, sr_from = new_agent_id W s, sr_channel = Some channel, sr_to = None, sr_created = created,
           sr_chanPubkey = Some (ch_pub ch)\<rparr>) ks s1)"

definition dm_posted :: "cenv \<Rightarrow> string \<Rightarrow> string \<Rightarrow> peer_info \<Rightarrow> kont list \<Rightarrow> client \<Rightarrow> client" where
  "dm_posted W to text info ks s =
     (case post W ''to'' to text (p_xPub info) s of
        Inl e \<Rightarrow> throw e ks (take_random (take_uuid s))
      | Inr (i, s1) \<Rightarrow> ret (VSent
          \<lparr>sr_id = i, sr_from = new_agent_id W s, sr_channel = None, sr_to = Some to, sr_created = False,
           sr_chanPubkey = None\<rparr>) ks s1)"

definition agentInfo :: "string \<Rightarrow> kont list \<Rightarrow> client \<Rightarrow> client" where
  \<comment> \<open>when \<open>ws.send\<close> throws, the caller gets the exception and nobody the promise\<close>
  "agentInfo a ks s =
     (case jm_get (known s) a of
        Some info \<Rightarrow> ret (VPeer info) ks s
      | None \<Rightarrow>
          let p = n_pid s;
              parkd = (\<lambda>ks. (new_promise WAIT_MS (TWhois a) ks s)
                \<lparr>whoisWaiters := jm_set a (waiters_of (whoisWaiters s) a @ [p]) (whoisWaiters s),
                 whoisCalls := whoisCalls s + 1\<rparr>)
          in case ws_send (JObj [(''op'', JStr ''whois''), (''agentId'', JStr a)]) (parkd ks) of
               Inr s1 \<Rightarrow> s1
             | Inl e \<Rightarrow> throw e ks (parkd [KNobody]))"

definition dm :: "string \<Rightarrow> string \<Rightarrow> kont list \<Rightarrow> client \<Rightarrow> client" where
  "dm to text ks s =
     (if \<not> is_connected s then throw (JsError NOT_CONNECTED) ks s
      else agentInfo to (KDmInfo to text # ks) s)"

definition whois :: "string \<Rightarrow> kont list \<Rightarrow> client \<Rightarrow> client" where
  "whois a ks s = agentInfo a (KWhois # ks) s"

definition invite :: "cenv \<Rightarrow> string \<Rightarrow> string \<Rightarrow> kont list \<Rightarrow> client \<Rightarrow> client" where
  "invite W channel to ks s = ensureChannel W channel (KInviteEns channel to # ks) s"

end
