(* ===== verification/Client_Async.thy ===== *)
theory Client_Async
  imports Client_Ops
begin

text \<open>
  Presence queries, invites by name, inbound messages, and \<open>resume\<close>: what each suspended method of
  \<open>DapClient\<close> does when the promise it waits for is settled.
\<close>

section \<open>Presence\<close>

definition unparkPresenceWaiter :: "string \<Rightarrow> p_waiter \<Rightarrow> client \<Rightarrow> client" where
  "unparkPresenceWaiter i d s =
     (case jm_get (presenceWaiters s) i of
        None \<Rightarrow> s
      | Some ds \<Rightarrow>
          if d \<notin> set ds then s
          else let ds' = js_remove d ds
               in s\<lparr>presenceWaiters := (if ds' = [] then jm_del i (presenceWaiters s)
                                        else jm_set i ds' (presenceWaiters s))\<rparr>)"

definition parkPresenceWaiter :: "string \<Rightarrow> p_waiter \<Rightarrow> client \<Rightarrow> client" where
  "parkPresenceWaiter i d s =
     s\<lparr>presenceWaiters := jm_set i (js_add d (waiters_of (presenceWaiters s) i)) (presenceWaiters s)\<rparr>"

definition presence_query :: "string \<Rightarrow> json" where
  "presence_query i = JObj [(''op'', JStr ''presence_query''), (''id'', JStr i)]"

definition presence :: "cenv \<Rightarrow> kont list \<Rightarrow> client \<Rightarrow> client" where
  "presence W ks s =
     (if \<not> is_connected s then throw (JsError NOT_CONNECTED) ks s
      else let i = ce_uuid W (n_uuid s);
               p = n_pid s;
               s1 = parkPresenceWaiter i (PCall p) (new_promise WAIT_MS (TPresence i) (KOnline # ks) (take_uuid s))
           in case sendFrame (presence_query i) s1 of
                Inr s2 \<Rightarrow> s2
              | Inl e \<Rightarrow> settle (Inl e) p (unparkPresenceWaiter i (PCall p) s1))"

definition warmUpPresence :: "cenv \<Rightarrow> nat \<Rightarrow> client \<Rightarrow> client" where
  "warmUpPresence W attempt s =
     (if echoSeen s \<or> \<not> is_connected s then s
      else let i = ce_uuid W (n_uuid s);
               s1 = parkPresenceWaiter i (PWarm attempt) (take_uuid s)
           in case sendFrame (presence_query i) s1 of
                Inr s2 \<Rightarrow> s2
              | Inl e \<Rightarrow> unparkPresenceWaiter i (PWarm attempt) s1)"

text \<open>The waiter \<open>d\<close> of the query \<open>i\<close> is called with \<open>out\<close>.\<close>

definition presence_done :: "cenv \<Rightarrow> exn + presence_agent list \<Rightarrow> string \<Rightarrow> p_waiter \<Rightarrow> client \<Rightarrow> client" where
  "presence_done W out i d s =
     (let s1 = unparkPresenceWaiter i d s
      in case d of
           PCall p \<Rightarrow> settle (map_sum id VAgents out) p s1
         | PWarm attempt \<Rightarrow>
             if isl out \<or> echoSeen s1 \<or> \<not> attempt < 2 then s1 else warmUpPresence W (attempt + 1) s1)"

definition online_only :: "presence_agent list \<Rightarrow> presence_agent list" where
  "online_only as = filter (\<lambda>a. a_online a = JBool True) as"

section \<open>Invites by name\<close>

text \<open>\<open>agents.filter((a) => ok(a) && a.name?.toLowerCase() === wanted)\<close>\<close>

fun named :: "(presence_agent \<Rightarrow> bool) \<Rightarrow> string \<Rightarrow> presence_agent list \<Rightarrow> presence_agent list result" where
  "named ok wanted [] = Inr []"
| "named ok wanted (a # as) =
     (if \<not> ok a then named ok wanted as
      else bind_result (lower_name (a_name a)) (\<lambda>n.
           bind_result (named ok wanted as) (\<lambda>rest.
             Inr (if n = Some wanted then a # rest else rest))))"

definition pending_name :: "json \<Rightarrow> string result" where
  \<comment> \<open>\<open>p.name.toLowerCase()\<close>\<close>
  "pending_name p =
     bind_result (get_prop p ''name'') (\<lambda>n. case n of JStr s \<Rightarrow> Inr (toLowerCase s) | _ \<Rightarrow> Inl JsTypeError)"

definition pending_channel :: "json \<Rightarrow> json" where
  "pending_channel p = (case get_prop p ''channel'' of Inr v \<Rightarrow> v | Inl _ \<Rightarrow> JUndef)"

text \<open>\<open>pendingInvites.some((p) => p.name.toLowerCase() === name.toLowerCase() && p.channel === channel)\<close>\<close>

fun already_armed :: "string \<Rightarrow> string \<Rightarrow> json list \<Rightarrow> bool result" where
  "already_armed name channel [] = Inr False"
| "already_armed name channel (p # ps) =
     bind_result (pending_name p) (\<lambda>n.
       if n = toLowerCase name \<and> pending_channel p = JStr channel then Inr True
       else already_armed name channel ps)"

definition persist_config :: "config_update \<Rightarrow> client \<Rightarrow> client result" where
  "persist_config u s =
     bind_result (persistDapConfig u (defaultConfigFile (w_host s)) (w_host s)) (\<lambda>h. Inr (s\<lparr>w_host := h\<rparr>))"

definition store_invites :: "client \<Rightarrow> client result" where
  \<comment> \<open>\<open>persistDapConfig({ invites: [...this.pendingInvites] })\<close>\<close>
  "store_invites s = persist_config (no_update\<lparr>up_invites := Some (pendingInvites s)\<rparr>) s"

definition deliverPendingInvites :: "cenv \<Rightarrow> kont list \<Rightarrow> client \<Rightarrow> client" where
  "deliverPendingInvites W ks s =
     (if deliveringInvites s \<or> pendingInvites s = [] \<or> \<not> is_connected s then ret VUnit ks s
      else presence W (KDeliver # ks) (s\<lparr>deliveringInvites := True\<rparr>))"

definition end_delivery :: "exn + dap_value \<Rightarrow> kont list \<Rightarrow> client \<Rightarrow> client" where
  \<comment> \<open>the \<open>finally\<close>\<close>
  "end_delivery out ks s = schedule out ks (s\<lparr>deliveringInvites := False\<rparr>)"

fun drop_at :: "nat \<Rightarrow> 'a list \<Rightarrow> 'a list" where
  \<comment> \<open>\<open>splice(i, 1)\<close>\<close>
  "drop_at i [] = []"
| "drop_at 0 (x # xs) = xs"
| "drop_at (Suc i) (x # xs) = x # drop_at i xs"

text \<open>The loop over the pending invites from index \<open>n - 1\<close> down to 0.\<close>

fun deliver_loop :: "cenv \<Rightarrow> nat \<Rightarrow> presence_agent list \<Rightarrow> kont list \<Rightarrow> client \<Rightarrow> client" where
  "deliver_loop W 0 agents ks s = end_delivery (Inr VUnit) ks s"
| "deliver_loop W (Suc i) agents ks s =
     (let p = pendingInvites s ! i
      in case bind_result (if filter (\<lambda>a. a_agentId a \<noteq> new_agent_id W s) agents = [] then Inr [] else pending_name p) (\<lambda>wanted.
                named (\<lambda>a. a_agentId a \<noteq> new_agent_id W s) wanted agents) of
           Inl e \<Rightarrow> end_delivery (Inl e) ks s
         | Inr on \<Rightarrow>
             if length on \<noteq> 1 then deliver_loop W i agents ks s
             else invite W (js_String (pending_channel p)) (a_agentId (hd on)) (KDelivered i agents p # ks) s)"

definition notice :: "cenv \<Rightarrow> json \<Rightarrow> client \<Rightarrow> msg_event" where
  "notice W p s =
     (let ch = js_String (pending_channel p);
          who = (case get_prop p ''name'' of Inr v \<Rightarrow> js_String v | Inl _ \<Rightarrow> [])
      in \<lparr>me_dm = False, me_channel = Some ch, me_from = new_agent_id W s,
          me_text = ''[dap] invited '' @ who @ '' to #'' @ ch, me_ts = JNum (int (now s)), me_invite = Some ch\<rparr>)"

definition delivered_invite :: "cenv \<Rightarrow> nat \<Rightarrow> presence_agent list \<Rightarrow> json \<Rightarrow> kont list \<Rightarrow> client \<Rightarrow> client" where
  \<comment> \<open>the loop body after \<open>await this.invite(...)\<close> returned\<close>
  "delivered_invite W i agents p ks s =
     (case store_invites (s\<lparr>pendingInvites := drop_at i (pendingInvites s)\<rparr>) of
        Inl e \<Rightarrow> end_delivery (Inl e) ks (s\<lparr>pendingInvites := drop_at i (pendingInvites s)\<rparr>)
      | Inr s1 \<Rightarrow>
          let ev = notice W p s1; s2 = deliver ev s1
          in case ce_listeners W ev of
               Some e \<Rightarrow> end_delivery (Inl e) ks s2
             | None \<Rightarrow> deliver_loop W i agents ks s2)"

definition pollPendingInvites :: "cenv \<Rightarrow> client \<Rightarrow> client" where
  "pollPendingInvites W s = deliverPendingInvites W [KSurface] s"

definition startInvitePoller :: "cenv \<Rightarrow> client \<Rightarrow> client" where
  "startInvitePoller W s = pollPendingInvites W (s\<lparr>inviteTimer := True\<rparr>)"

definition arm_body :: "cenv \<Rightarrow> string \<Rightarrow> string \<Rightarrow> kont list \<Rightarrow> client \<Rightarrow> client" where
  \<comment> \<open>\<open>armInvite\<close>, after \<open>await this.ensureChannel(channel)\<close>\<close>
  "arm_body W name channel ks s =
     (case already_armed name channel (pendingInvites s) of
        Inl e \<Rightarrow> throw e ks s
      | Inr armed \<Rightarrow>
          let s1 = (if armed then s
                    else s\<lparr>pendingInvites := pendingInvites s @ [pending_json \<lparr>pi_name = name, pi_channel = channel\<rparr>]\<rparr>)
          in case (if armed then Inr s1 else store_invites s1) of
               Inl e \<Rightarrow> throw e ks s1
             | Inr s2 \<Rightarrow> ret (VArmed \<lparr>ai_name = name, ai_channel = channel,
                 ai_connectLine = ''send to '' @ name @ '':  /dap '' @ hostOf (o_url s) @ '' '' @ name\<rparr>)
                 ks (pollPendingInvites W s2))"

definition inviteByName :: "cenv \<Rightarrow> string \<Rightarrow> string \<Rightarrow> kont list \<Rightarrow> client \<Rightarrow> client" where
  "inviteByName W channel who ks s =
     (if \<not> is_connected s then throw (JsError NOT_CONNECTED) ks s
      else if is_agent_id who then invite W channel who ks s
      else presence W (KByName channel who # ks) s)"

definition by_name :: "cenv \<Rightarrow> string \<Rightarrow> string \<Rightarrow> presence_agent list \<Rightarrow> kont list \<Rightarrow> client \<Rightarrow> client" where
  "by_name W channel who agents ks s =
     (case named (\<lambda>_. True) (toLowerCase who) agents of
        Inl e \<Rightarrow> throw e ks s
      | Inr [a] \<Rightarrow> invite W channel (a_agentId a) ks s
      | Inr [] \<Rightarrow> ensureChannel W channel (KArm who channel # ks) s
      | Inr as \<Rightarrow> throw (JsError (CHR 0x22 # who @ CHR 0x22 # '' is ambiguous '' @ [CHR 0x1A] @ '' use an id: ''
          @ join '', '' (map a_agentId as))) ks s)"

section \<open>Inbound messages\<close>

definition opt_str_prop :: "frame \<Rightarrow> string \<Rightarrow> string option" where
  "opt_str_prop f k = (if prop_of f k = JUndef then None else Some (js_String (prop_of f k)))"

definition decryptMsg :: "cenv \<Rightarrow> frame \<Rightarrow> peer_info \<Rightarrow> client \<Rightarrow> msg_event result" where
  \<comment> \<open>\<open>decryptMsg\<close>, after \<open>await this.agentInfo(from)\<close>\<close>
  "decryptMsg W f sender s =
     (let i = js_String (prop_of f ''id''); from = js_String (prop_of f ''from''); ct = js_String (prop_of f ''ciphertext'')
      in case opt_str_prop f ''channel'' of
           Some c \<Rightarrow>
             (case jm_get (channels s) c of
                Some ch \<Rightarrow>
                  (case ch_priv ch of
                     Some (x # xs) \<Rightarrow>
                       bind_result (open_sealed (ce_crypto W) ct i c (b64d (x # xs)) (p_xPub sender)) (\<lambda>text.
                         Inr \<lparr>me_dm = False, me_channel = Some c, me_from = from, me_text = text,
                              me_ts = prop_of f ''ts'', me_invite = None\<rparr>)
                   | _ \<Rightarrow> Inl (JsError ''no channel private key''))
              | None \<Rightarrow> Inl (JsError ''no channel private key''))
         | None \<Rightarrow>
             if p_xPub sender = [] then Inl (JsError ''sender has no x25519 key'')
             else bind_result (open_sealed (ce_crypto W) ct i (js_String (prop_of f ''to'')) (id_xpriv (ident s)) (p_xPub sender)) (\<lambda>text.
               Inr \<lparr>me_dm = True, me_channel = None, me_from = from, me_text = text,
                    me_ts = prop_of f ''ts'', me_invite = None\<rparr>))"

definition msg_failed :: "cenv \<Rightarrow> frame \<Rightarrow> exn \<Rightarrow> client \<Rightarrow> client" where
  \<comment> \<open>the \<open>catch\<close> of \<open>onMsg\<close>\<close>
  "msg_failed W f e s =
     (let msg = ''undecryptable msg: '' @ exn_msg W e
      in ringError \<lparr>he_code = ''undecryptable'', he_msg = msg, he_ts = now s,
           he_from = opt_str_prop f ''from'', he_id = opt_str_prop f ''id''\<rparr> (s\<lparr>lastError := msg\<rparr>))"

definition surface_msg :: "cenv \<Rightarrow> frame \<Rightarrow> msg_event \<Rightarrow> client \<Rightarrow> client" where
  \<comment> \<open>\<open>this.deliver(ev)\<close> inside the \<open>try\<close>\<close>
  "surface_msg W f ev s =
     (case ce_listeners W ev of None \<Rightarrow> deliver ev s | Some e \<Rightarrow> msg_failed W f e (deliver ev s))"

definition accept_invite :: "chankey_invite \<Rightarrow> client \<Rightarrow> client" where
  "accept_invite i s =
     join_channel (ci_channel i) (ck_pub i) [KSwallow]
       (persist_keys (ci_channel i) \<lparr>ck_pub = ck_pub i, ck_priv = ck_priv i\<rparr>
         (addChannel \<lparr>ch_name = ci_channel i, ch_pub = ck_pub i, ch_priv = Some (ck_priv i)\<rparr> s))"

definition msg_decrypted :: "cenv \<Rightarrow> frame \<Rightarrow> msg_event \<Rightarrow> client \<Rightarrow> client" where
  "msg_decrypted W f ev s =
     (case (if me_dm ev then parseChankeyInvite (me_text ev) else None) of
        None \<Rightarrow> surface_msg W f ev s
      | Some i \<Rightarrow> surface_msg W f
          (ev\<lparr>me_invite := Some (ci_channel i), me_text := ''[dap] invited to #'' @ ci_channel i @ '' by '' @ me_from ev\<rparr>)
          (accept_invite i s))"

definition onMsg :: "frame \<Rightarrow> client \<Rightarrow> client" where
  "onMsg f s = agentInfo (js_String (prop_of f ''from'')) [KMsg f] s"

definition msg_resumed :: "cenv \<Rightarrow> frame \<Rightarrow> exn + dap_value \<Rightarrow> client \<Rightarrow> client" where
  "msg_resumed W f out s =
     (case out of
        Inl e \<Rightarrow> msg_failed W f e s
      | Inr (VPeer sender) \<Rightarrow>
          (case decryptMsg W f sender s of
             Inl e \<Rightarrow> msg_failed W f e s
           | Inr ev \<Rightarrow> msg_decrypted W f ev s)
      | Inr _ \<Rightarrow> s)"

section \<open>Continuing a suspended method\<close>

definition invite_ensured :: "cenv \<Rightarrow> string \<Rightarrow> string \<Rightarrow> channel_key \<Rightarrow> bool \<Rightarrow> kont list \<Rightarrow> client \<Rightarrow> client" where
  "invite_ensured W channel to ch created ks s =
     (case ch_priv ch of
        Some (c # cs) \<Rightarrow> dm to (invite_payload channel \<lparr>ck_pub = ch_pub ch, ck_priv = c # cs\<rparr>) (KInviteDm channel ch created # ks) s
      | _ \<Rightarrow> throw (JsError (''no private key for channel '' @ channel @ '' '' @ [CHR 0x1A] @ '' ask a member to invite you'')) ks s)"

fun resume_ok :: "cenv \<Rightarrow> kont \<Rightarrow> dap_value \<Rightarrow> kont list \<Rightarrow> client \<Rightarrow> client" where
  "resume_ok W (KJoinReady name pub) v ks s = join_body name pub ks s"
| "resume_ok W (KEnsure ch created) v ks s = ret (VChan ch created) ks s"
| "resume_ok W (KSendEns channel text) (VChan ch created) ks s = ready WAIT_MS (KSendReady channel text ch created # ks) s"
| "resume_ok W (KSendReady channel text ch created) v ks s = send_posted W channel text ch created ks s"
| "resume_ok W (KDmInfo to text) (VPeer info) ks s =
     (if p_xPub info = [] then throw (JsError (''agent '' @ to @ '' has no x25519 key'')) ks s
      else ready WAIT_MS (KDmReady to text info # ks) s)"
| "resume_ok W (KDmReady to text info) v ks s = dm_posted W to text info ks s"
| "resume_ok W (KInviteEns channel to) (VChan ch created) ks s = invite_ensured W channel to ch created ks s"
| "resume_ok W (KInviteDm channel ch created) (VSent r) ks s =
     ret (VSent (r\<lparr>sr_channel := Some channel, sr_chanPubkey := Some (ch_pub ch), sr_created := created\<rparr>)) ks s"
| "resume_ok W (KByName channel who) (VAgents as) ks s = by_name W channel who as ks s"
| "resume_ok W (KArm name channel) v ks s = arm_body W name channel ks s"
| "resume_ok W KOnline (VAgents as) ks s = ret (VAgents (online_only as)) ks s"
| "resume_ok W KWhois (VPeer info) ks s = ret (VWhois (whois_info.truncate info)) ks s"
| "resume_ok W KDeliver (VAgents as) ks s = deliver_loop W (length (pendingInvites s)) as ks s"
| "resume_ok W (KDelivered i agents p) v ks s = delivered_invite W i agents p ks s"
| "resume_ok W k v ks s = s"

fun resume_err :: "cenv \<Rightarrow> kont \<Rightarrow> exn \<Rightarrow> kont list \<Rightarrow> client \<Rightarrow> client" where
  "resume_err W KDeliver e ks s = end_delivery (Inl e) ks s"
| "resume_err W (KDelivered i agents p) e ks s = deliver_loop W i agents ks s"
| "resume_err W k e ks s = throw e ks s"

fun resume :: "cenv \<Rightarrow> exn + dap_value \<Rightarrow> kont list \<Rightarrow> client \<Rightarrow> client" where
  "resume W out [] s = s"
| "resume W out (KTop n # ks) s = s\<lparr>results := results s @ [(n, out)]\<rparr>"
| "resume W out (KSwallow # ks) s = s"
| "resume W out (KSurface # ks) s = (case out of Inl e \<Rightarrow> surfaceInviteFailure W e s | Inr _ \<Rightarrow> s)"
| "resume W out (KNobody # ks) s = (case out of Inl e \<Rightarrow> crash s | Inr _ \<Rightarrow> s)"
| "resume W out (KMsg f # ks) s = msg_resumed W f out s"
| "resume W out (k # ks) s = (case out of Inl e \<Rightarrow> resume_err W k e ks s | Inr v \<Rightarrow> resume_ok W k v ks s)"

end
