(* ===== verification/Client_Events.thy ===== *)
theory Client_Events
  imports Client_Async
begin

text \<open>
  The life of a connection: dialing and its authentication, the handshake, the frames of the hub, the
  reconnect, \<open>retarget\<close> and \<open>stop\<close>; the constructor and the identity file.
\<close>

section \<open>Identity\<close>

definition key_field :: "json \<Rightarrow> string \<Rightarrow> bytes result" where
  \<comment> \<open>\<open>dap.b64d(f.k)\<close>: \<open>Buffer.from\<close> of something that is not a string throws, or copies an array\<close>
  "key_field f k =
     bind_result (get_prop f k) (\<lambda>v. case v of JStr t \<Rightarrow> Inr (b64d t) | JArr vs \<Rightarrow> Inr (map (\<lambda>x. case x of JNum i \<Rightarrow> word_of_int i | _ \<Rightarrow> 0) vs) | _ \<Rightarrow> Inl JsTypeError)"

definition stored_identity :: "host \<Rightarrow> string \<Rightarrow> identity option result" where
  "stored_identity h keyPath =
     (if fs h keyPath = None then Inr None
      else bind_result (read_json h keyPath) (\<lambda>f.
           bind_result (key_field f ''priv'') (\<lambda>a. bind_result (key_field f ''pub'') (\<lambda>b.
           bind_result (key_field f ''xpriv'') (\<lambda>c. bind_result (key_field f ''xpub'') (\<lambda>d.
             Inr (if list_all (\<lambda>k. length k = 32) [a, b, c, d]
                  then Some \<lparr>id_priv = a, id_pub = b, id_xpriv = c, id_xpub = d\<rparr> else None)))))))"

definition identity_text :: "identity \<Rightarrow> string" where
  "identity_text i = json_text (JObj [(''priv'', JStr (b64e (id_priv i))), (''pub'', JStr (b64e (id_pub i))),
     (''xpriv'', JStr (b64e (id_xpriv i))), (''xpub'', JStr (b64e (id_xpub i)))])"

text \<open>\<open>rnd1\<close> and \<open>rnd2\<close> are the random secret keys drawn if a new identity is made.\<close>

definition loadIdentity :: "crypto \<Rightarrow> bytes \<Rightarrow> bytes \<Rightarrow> string \<Rightarrow> host \<Rightarrow> (identity \<times> host) result" where
  "loadIdentity C rnd1 rnd2 keyPath h =
     bind_result (stored_identity h keyPath) (\<lambda>found.
       case found of
         Some i \<Rightarrow> Inr (i, h)
       | None \<Rightarrow>
           let (epriv, epub) = newEdKeypair C rnd1; (xpriv, xpub) = newX25519Keypair C rnd2;
               i = \<lparr>id_priv = epriv, id_pub = epub, id_xpriv = xpriv, id_xpub = xpub\<rparr>
           in Inr (i, chmod_file keyPath private_mode (write_file keyPath (identity_text i) private_mode h)))"

section \<open>Dialing\<close>

definition resolveAuthToken :: "host \<Rightarrow> auth_token option" where
  "resolveAuthToken h =
     (case optStr (env_var h ''DAP_CLIENT_SECRET'') of
        Some t \<Rightarrow> Some \<lparr>at_token = t, at_enroll = False, at_source = AuthEnv\<rparr>
      | None \<Rightarrow>
          (case optStr (prop_of (readDapConfig h (defaultConfigFile h)) ''clientSecret'') of
             Some t \<Rightarrow> Some \<lparr>at_token = t, at_enroll = False, at_source = AuthConfig\<rparr>
           | None \<Rightarrow>
               (case optStr (env_var h ''DAP_MASTER_SECRET'') of
                  Some t \<Rightarrow> Some \<lparr>at_token = t, at_enroll = True, at_source = AuthMaster\<rparr>
                | None \<Rightarrow> None)))"

definition dial :: "cenv \<Rightarrow> string option \<Rightarrow> client \<Rightarrow> exn option \<times> client" where
  \<comment> \<open>\<open>new WebSocket(url, { headers })\<close> and its listeners\<close>
  "dial W tok s =
     (if \<not> ce_url_ok W (o_url s) then (Some JsSyntaxError, s)
      else let i = n_sock s
           in (None, s\<lparr>n_sock := i + 1, socks := jm_set i CONNECTING (socks s), attached := js_add i (attached s),
                       dialed := dialed s @ [(o_url s, tok)], ws := Some i\<rparr>))"

definition connect :: "cenv \<Rightarrow> client \<Rightarrow> exn option \<times> client" where
  "connect W s =
     (if stopped s then (None, s)
      else let auth = resolveAuthToken (w_host s)
           in dial W (map_option at_token auth)
                (s\<lparr>enrollPending := (case auth of Some a \<Rightarrow> at_enroll a | None \<Rightarrow> False),
                   dialSource := map_option at_source auth\<rparr>))"

definition start :: "cenv \<Rightarrow> client \<Rightarrow> exn option \<times> client" where
  "start W s = connect W (s\<lparr>stopped := False\<rparr>)"

definition clear_retry :: "client \<Rightarrow> client" where
  "clear_retry s =
     (case retryTimer s of
        None \<Rightarrow> s
      | Some h \<Rightarrow> s\<lparr>retries := filter (\<lambda>(k, _). k \<noteq> h) (retries s), retryTimer := None\<rparr>)"

definition stop :: "client \<Rightarrow> client" where
  "stop s = (close_ws ((clear_retry (s\<lparr>stopped := True, watching := None\<rparr>))\<lparr>inviteTimer := False\<rparr>))\<lparr>ws := None\<rparr>"

section \<open>Failing the waiters\<close>

fun presence_fail :: "cenv \<Rightarrow> exn \<Rightarrow> (string \<times> p_waiter) list \<Rightarrow> client \<Rightarrow> client" where
  "presence_fail W e [] s = s"
| "presence_fail W e ((i, d) # ds) s = presence_fail W e ds (presence_done W (Inl e) i d s)"

definition all_presence_waiters :: "client \<Rightarrow> (string \<times> p_waiter) list" where
  "all_presence_waiters s = concat (map (\<lambda>(i, ds). map (\<lambda>d. (i, d)) ds) (presenceWaiters s))"

definition failWaiters :: "cenv \<Rightarrow> exn \<Rightarrow> client \<Rightarrow> client" where
  "failWaiters W e s =
     (let s1 = (settle_all (Inl e) (concat (map snd (whoisWaiters s))) s)\<lparr>whoisWaiters := []\<rparr>;
          s2 = (presence_fail W e (all_presence_waiters s1) s1)\<lparr>presenceWaiters := []\<rparr>
      in settle_all (Inl e) (readyWaiters s2) (s2\<lparr>readyWaiters := []\<rparr>))"

record retarget_opts =
  rt_url :: "string option"
  rt_keys :: "identity option"
  rt_name :: "string option"

definition detach_ws :: "client \<Rightarrow> client" where
  \<comment> \<open>\<open>removeAllListeners()\<close>, \<open>close()\<close>, \<open>ws = null\<close>\<close>
  "detach_ws s =
     (case ws s of None \<Rightarrow> s | Some i \<Rightarrow> (close_sock i (s\<lparr>attached := js_remove i (attached s)\<rparr>))\<lparr>ws := None\<rparr>)"

definition RETARGETED :: exn where
  "RETARGETED = JsError (''retargeted '' @ [CHR 0x1A] @ '' in-flight hub call dropped, retry on the new connection'')"

definition swap_target :: "retarget_opts \<Rightarrow> client \<Rightarrow> client" where
  "swap_target next s =
     s\<lparr>welcomed := False, stopped := False,
       o_url := (case rt_url next of Some (c # u) \<Rightarrow> c # u | _ \<Rightarrow> o_url s),
       ident := (case rt_keys next of Some k \<Rightarrow> k | None \<Rightarrow> ident s),
       o_name := (case rt_name next of Some n \<Rightarrow> Some n | None \<Rightarrow> o_name s),
       known := [], joined := [], delay := initialMs s\<rparr>"

definition retarget :: "cenv \<Rightarrow> retarget_opts \<Rightarrow> client \<Rightarrow> exn option \<times> client" where
  "retarget W next s =
     connect W (swap_target next (failWaiters W RETARGETED (detach_ws ((clear_retry s)\<lparr>watching := None\<rparr>))))"

section \<open>The handshake\<close>

definition hello_frame :: "cenv \<Rightarrow> client \<Rightarrow> frame" where
  "hello_frame W s =
     [(''op'', JStr ''hello''), (''v'', JNum 1), (''pubkey'', JStr (b64e (id_pub (ident s)))),
      (''x25519'', JStr (b64e (id_xpub (ident s)))),
      (''name'', (case o_name s of None \<Rightarrow> JUndef | Some n \<Rightarrow> JStr n)),
      (''nonce'', JStr (hex (ce_random W (n_random s) 16))), (''ts'', JNum (int (now s)))]"

definition sendHello :: "cenv \<Rightarrow> client \<Rightarrow> client result" where
  "sendHello W s =
     (let f = hello_frame W s; s1 = take_random (s\<lparr>hellos := hellos s + 1\<rparr>)
      in bind_result (signFrame (ce_crypto W) f (id_priv (ident s))) (\<lambda>sig.
           ws_send (JObj (obj_put ''sig'' (JStr sig) f)) s1))"

text \<open>An exception out of an event handler is one nobody catches.\<close>

definition handler :: "client result \<Rightarrow> client \<Rightarrow> client" where
  "handler r s = (case r of Inr s' \<Rightarrow> s' | Inl _ \<Rightarrow> crash s)"

definition join_all :: "(string \<times> channel_key) list \<Rightarrow> client \<Rightarrow> client" where
  "join_all chs s = fold (\<lambda>(name, ch). join_channel name (ch_pub ch) [KSwallow]) chs s"

definition wake_ready :: "client \<Rightarrow> client" where
  "wake_ready s = settle_all (Inr VUnit) (readyWaiters s) (s\<lparr>readyWaiters := []\<rparr>)"

definition onWelcome :: "cenv \<Rightarrow> client \<Rightarrow> client result" where
  "onWelcome W s =
     bind_result (ws_send (JObj [(''op'', JStr ''flush'')])
         (warmUpPresence W 0 (s\<lparr>welcomed := True, welcomes := welcomes s + 1, delay := initialMs s, joined := []\<rparr>))) (\<lambda>s1.
     bind_result (if enrollPending s1 then ws_send (JObj [(''t'', JStr ''enroll'')]) s1 else Inr s1) (\<lambda>s2.
       let s3 = wake_ready s2; s4 = join_all (channels s3) s3
       in Inr (if o_invites s4 then startInvitePoller W s4 else s4)))"

definition onEnrolled :: "string \<Rightarrow> client \<Rightarrow> client result" where
  "onEnrolled secret s =
     (if \<not> enrollPending s \<or> secret = [] then Inr s
      else persist_config (no_update\<lparr>up_secret := SetSecret secret\<rparr>) (s\<lparr>enrollPending := False\<rparr>))"

section \<open>Frames of the hub\<close>

definition onJoined :: "string \<Rightarrow> client \<Rightarrow> client" where
  "onJoined channel s =
     (let s1 = s\<lparr>joined := js_add channel (joined s)\<rparr>
      in (settle_all (Inr VUnit) (waiters_of (joinWaiters s1) channel) s1)\<lparr>joinWaiters := jm_del channel (joinWaiters s1)\<rparr>)"

definition agent_of :: "cenv \<Rightarrow> client \<Rightarrow> json \<Rightarrow> presence_agent result" where
  "agent_of W s v =
     bind_result (get_prop v ''agentId'') (\<lambda>a. bind_result (get_prop v ''name'') (\<lambda>n.
     bind_result (get_prop v ''online'') (\<lambda>b. bind_result (get_prop v ''lastSeen'') (\<lambda>l.
       Inr \<lparr>a_agentId = js_String a, a_name = n, a_online = b, a_lastSeen = l,
            a_self = (js_String a = new_agent_id W s)\<rparr>))))"

fun map_result :: "('a \<Rightarrow> 'b result) \<Rightarrow> 'a list \<Rightarrow> 'b list result" where
  "map_result f [] = Inr []"
| "map_result f (x # xs) = bind_result (f x) (\<lambda>y. bind_result (map_result f xs) (\<lambda>ys. Inr (y # ys)))"

text \<open>
  The answer of a hub that echoes no ids completes every waiter. A warm-up that asks again adds a
  waiter behind the ones the loop has yet to visit, and the loop visits it too.
\<close>

definition warm_weight :: "p_waiter \<Rightarrow> nat" where
  "warm_weight d = (case d of PCall _ \<Rightarrow> 1 | PWarm a \<Rightarrow> 4 - min a 3)"

fun complete_all :: "nat \<Rightarrow> cenv \<Rightarrow> presence_agent list \<Rightarrow> client \<Rightarrow> client" where
  "complete_all 0 W agents s = s"
| "complete_all (Suc n) W agents s =
     (case all_presence_waiters s of
        [] \<Rightarrow> s
      | (i, d) # _ \<Rightarrow> complete_all n W agents (presence_done W (Inr agents) i d s))"

definition completion_fuel :: "client \<Rightarrow> nat" where
  "completion_fuel s = sum_list (map (\<lambda>(i, d). warm_weight d) (all_presence_waiters s))"

definition onPresence :: "cenv \<Rightarrow> frame \<Rightarrow> client \<Rightarrow> client result" where
  "onPresence W f s =
     bind_result (map_result (agent_of W s) (case prop_of f ''agents'' of JArr vs \<Rightarrow> vs | _ \<Rightarrow> [])) (\<lambda>agents.
       if prop_of f ''replyTo'' = JUndef then
         Inr (if echoSeen s then s else complete_all (completion_fuel s) W agents s)
       else let s1 = s\<lparr>echoSeen := True\<rparr>; i = js_String (prop_of f ''replyTo'')
            in Inr (fold (presence_done W (Inr agents) i) (waiters_of (presenceWaiters s1) i) s1))"

definition fail_joins :: "json \<Rightarrow> exn \<Rightarrow> client \<Rightarrow> client" where
  \<comment> \<open>the joins of the channel the error names, or all of them\<close>
  "fail_joins channel e s =
     (case channel of
        JStr (c # ch) \<Rightarrow> (settle_all (Inl e) (waiters_of (joinWaiters s) (c # ch)) s)\<lparr>joinWaiters := jm_del (c # ch) (joinWaiters s)\<rparr>
      | _ \<Rightarrow> (settle_all (Inl e) (concat (map snd (joinWaiters s))) s)\<lparr>joinWaiters := []\<rparr>)"

definition fail_whois :: "client \<Rightarrow> client" where
  "fail_whois s =
     (fold (\<lambda>(a, ps). settle_all (Inl (JsError (''unknown_agent: '' @ a))) ps) (whoisWaiters s) s)\<lparr>whoisWaiters := []\<rparr>"

definition onError :: "frame \<Rightarrow> client \<Rightarrow> client" where
  "onError f s =
     (let err = prop_of f ''code'';
          msg = ''hub error '' @ js_String err @ '': '' @ js_String (prop_of f ''msg'');
          s1 = ringError (mk_error (js_String err) (js_String (prop_of f ''msg'')) s) (s\<lparr>lastError := msg\<rparr>);
          s2 = (if err = JStr ''unknown_channel'' \<or> err = JStr ''access_denied''
                then fail_joins (prop_of f ''channel'') (JsError msg) s1 else s1)
      in if err = JStr ''unknown_agent'' then fail_whois s2 else s2)"

definition onAgentInfo :: "frame \<Rightarrow> client \<Rightarrow> client" where
  "onAgentInfo f s =
     (let a = js_String (prop_of f ''agentId'');
          x = (case prop_of f ''x25519'' of JStr t \<Rightarrow> t | _ \<Rightarrow> []);
          info = \<lparr>p_agentId = a, p_pubkey = js_String (prop_of f ''pubkey''), p_x25519 = x, p_name = prop_of f ''name'',
                  p_online = prop_of f ''online'', p_xPub = b64d x\<rparr>;
          s1 = s\<lparr>known := jm_set a info (known s)\<rparr>
      in (settle_all (Inr (VPeer info)) (waiters_of (whoisWaiters s1) a) s1)\<lparr>whoisWaiters := jm_del a (whoisWaiters s1)\<rparr>)"

definition onDisconnect :: "cenv \<Rightarrow> client \<Rightarrow> client" where
  "onDisconnect W s =
     (let s1 = s\<lparr>watching := None, welcomed := False\<rparr>
      in if stopped s1 then
           failWaiters W (JsError (''connection closed '' @ [CHR 0x1A] @ '' client stopped'')) s1
         else s1\<lparr>delay := min (delay s1 * 2) (maxMs s1), retries := retries s1 @ [(n_timer s1, now s1 + delay s1)],
                 retryTimer := Some (n_timer s1), n_timer := n_timer s1 + 1\<rparr>)"

definition dispatch :: "cenv \<Rightarrow> frame \<Rightarrow> client \<Rightarrow> client result" where
  "dispatch W f s =
     (case coalesce (prop_of f ''op'') (prop_of f ''t'') of
        JStr k \<Rightarrow>
          if k = ''welcome'' then onWelcome W s
          else if k = ''joined'' then Inr (onJoined (js_String (prop_of f ''channel'')) s)
          else if k = ''agent_info'' then Inr (onAgentInfo f s)
          else if k = ''presence'' then onPresence W f s
          else if k = ''msg'' then Inr (onMsg f s)
          else if k = ''error'' then Inr (onError f s)
          else if k = ''enrolled'' then onEnrolled (js_String (coalesce (prop_of f ''secret'') (JStr []))) s
          else Inr s
      | _ \<Rightarrow> Inr s)"

definition handleRaw :: "cenv \<Rightarrow> string \<Rightarrow> client \<Rightarrow> client result" where
  "handleRaw W raw s =
     (case json_parse raw of
        Inl _ \<Rightarrow> Inr (s\<lparr>lastError := ''bad frame (not JSON)''\<rparr>)
      | Inr v \<Rightarrow> if nullish v then Inl JsTypeError else dispatch W (case v of JObj ps \<Rightarrow> ps | _ \<Rightarrow> []) s)"

section \<open>Socket events\<close>

definition on_unexpected :: "cenv \<Rightarrow> nat \<Rightarrow> client \<Rightarrow> client" where
  \<comment> \<open>\<open>unexpected-response\<close> with this status code\<close>
  "on_unexpected W status s =
     (if status \<noteq> 401 then close_ws (s\<lparr>lastError := ''Unexpected server response: '' @ nat_str status\<rparr>)
      else let s1 = ringError (mk_error ''unauthorized'' DIAL_401_HELP s) (s\<lparr>lastError := DIAL_401_HELP\<rparr>)
           in if dialSource s1 = Some AuthConfig \<and> \<not> reEnrolled s1 \<and> optStr (env_var (w_host s1) ''DAP_MASTER_SECRET'') \<noteq> None
              then (case persist_config (no_update\<lparr>up_secret := PurgeSecret\<rparr>) (s1\<lparr>reEnrolled := True\<rparr>) of
                      Inr s2 \<Rightarrow> close_ws s2
                    | Inl _ \<Rightarrow> crash (s1\<lparr>reEnrolled := True\<rparr>))
              else close_ws s1)"

definition on_open :: "cenv \<Rightarrow> client \<Rightarrow> client" where
  "on_open W s = (let s1 = s\<lparr>watching := ws s\<rparr> in handler (sendHello W s1) s1)"

definition on_socket_error :: "string \<Rightarrow> client \<Rightarrow> client" where
  "on_socket_error err s = (if ws_open s then s\<lparr>lastError := err\<rparr> else s)"

definition set_sock :: "sock \<Rightarrow> sock_state \<Rightarrow> ('k, 'v, 'm) world_scheme \<Rightarrow> ('k, 'v, 'm) world_scheme" where
  "set_sock i st s = s\<lparr>socks := jm_set i st (socks s)\<rparr>"

definition detach :: "sock \<Rightarrow> ('k, 'v, 'm) world_scheme \<Rightarrow> ('k, 'v, 'm) world_scheme" where
  "detach i s = s\<lparr>attached := js_remove i (attached s)\<rparr>"

definition promise_timeout :: "cenv \<Rightarrow> ptimer \<Rightarrow> client \<Rightarrow> client" where
  "promise_timeout W t s =
     (let p = pt_pid t; s0 = s\<lparr>ptimers := filter (\<lambda>u. pt_pid u \<noteq> p) (ptimers s)\<rparr>
      in case pt_kind t of
           TReady \<Rightarrow> settle (Inl (JsError ''hub not ready'')) p (s0\<lparr>readyWaiters := remove1 p (readyWaiters s0)\<rparr>)
         | TJoin name \<Rightarrow> settle (Inl (JsError (''timeout joining '' @ name))) p s0
         | TWhois a \<Rightarrow> settle (Inl (JsError (''timeout whois '' @ a))) p s0
         | TPresence i \<Rightarrow> presence_done W (Inl (JsError ''timeout waiting for presence'')) i (PCall p) s0)"

definition retry_fires :: "cenv \<Rightarrow> nat \<Rightarrow> client \<Rightarrow> client" where
  "retry_fires W h s =
     (let (e, s1) = connect W (s\<lparr>retries := filter (\<lambda>(k, _). k \<noteq> h) (retries s)\<rparr>)
      in if e = None then s1 else crash s1)"

definition resume_nth :: "cenv \<Rightarrow> nat \<Rightarrow> client \<Rightarrow> client" where
  "resume_nth W n s = (let (out, ks) = micro s ! n in resume W out ks (s\<lparr>micro := drop_at n (micro s)\<rparr>))"

section \<open>The constructor\<close>

record client_opts =
  co_url :: string
  co_keyPath :: string
  co_name :: "string option"
  co_channels :: "channel_key list"
  co_channelsFile :: "string option"
  co_initialMs :: "nat option"
  co_maxMs :: "nat option"
  co_invites :: bool

definition file_channels :: "string option \<Rightarrow> host \<Rightarrow> (string, channel_key) jsmap" where
  "file_channels f h =
     (case f of
        Some (c # p) \<Rightarrow>
          fold (\<lambda>(name, v) m. case entry_keys v of
                  Some k \<Rightarrow> jm_set name \<lparr>ch_name = name, ch_pub = ck_pub k, ch_priv = Some (ck_priv k)\<rparr> m
                | None \<Rightarrow> m)
            (loadChannelKeys (c # p) h) []
      | _ \<Rightarrow> [])"

definition new_client :: "cenv \<Rightarrow> client_opts \<Rightarrow> host \<Rightarrow> client result" where
  "new_client W opts h =
     bind_result (loadIdentity (ce_crypto W) (ce_random W 0 32) (ce_random W 1 32) (co_keyPath opts) h) (\<lambda>(i, h1).
     bind_result (if co_invites opts then iterate (prop_of (readDapConfig h1 (defaultConfigFile h1)) ''invites'') else Inr []) (\<lambda>pend.
       Inr \<lparr>w_host = h1, now = 0, n_uuid = 0, n_random = 2, n_sock = 0, n_pid = 0, n_timer = 0, socks = [], attached = [],
            dialed = [], wire = [], retries = [], parked = [], ptimers = [], micro = [], results = [], delivered = [], hooked = [],
            watching = None, crashed = False,
            ident = i, o_url = co_url opts, o_name = co_name opts, o_channelsFile = co_channelsFile opts, o_invites = co_invites opts,
            whoisCalls = 0, lastError = [], errorRing = [],
            channels = fold (\<lambda>ch. jm_set (ch_name ch) ch) (co_channels opts) (file_channels (co_channelsFile opts) h1),
            joined = [], inboxMsgs = [], known = [], whoisWaiters = [], hellos = 0, welcomes = 0, readyWaiters = [],
            presenceWaiters = [], echoSeen = False, joinWaiters = [], ws = None, retryTimer = None, inviteTimer = False,
            pendingInvites = pend, deliveringInvites = False,
            delay = (case co_initialMs opts of Some n \<Rightarrow> n | None \<Rightarrow> 1000),
            initialMs = (case co_initialMs opts of Some n \<Rightarrow> n | None \<Rightarrow> 1000),
            maxMs = (case co_maxMs opts of Some n \<Rightarrow> n | None \<Rightarrow> 30000),
            welcomed = False, enrollPending = False, dialSource = None, reEnrolled = False, stopped = False\<rparr>))"

section \<open>Snapshots\<close>

record status_info =
  si_connected :: bool
  si_agentId :: string
  si_name :: "string option"
  si_url :: string
  si_channels :: "string list"
  si_welcomes :: nat
  si_hellos :: nat

definition client_status :: "cenv \<Rightarrow> client \<Rightarrow> status_info" where
  "client_status W s =
     \<lparr>si_connected = is_connected s, si_agentId = new_agent_id W s, si_name = o_name s, si_url = o_url s,
      si_channels = jm_keys (channels s), si_welcomes = welcomes s, si_hellos = hellos s\<rparr>"

definition joinedChannels :: "client \<Rightarrow> string list" where
  "joinedChannels s = joined s"

definition channel_of :: "string \<Rightarrow> client \<Rightarrow> channel_key option" where
  "channel_of name s = jm_get (channels s) name"

end
