(* ===== verification/Client_Run.thy ===== *)
theory Client_Run
  imports Client_Events
begin

text \<open>
  Runs of a client: what can happen next (\<open>enabled\<close>), and the state it leads to (\<open>exec\<close>). The
  continuations in \<open>micro\<close> run in any order and interleave with events, which covers the order of the
  engine's microtask queue. A timer fires at its due time: the clock does not pass a timer that is due.
  After an exception nobody caught the process is gone, and nothing happens any more. \<open>Outside\<close> is what
  the rest of the machine does: files change (the adapters of a machine share theirs), and other code of
  the process draws random bytes.
\<close>

datatype api =
    AJoin string string
  | AEnsure string
  | ASend string string
  | ADm string string
  | AInvite string string
  | AInviteByName string string
  | AWhois string
  | APresence
  | AReady nat

datatype label =
    Tick nat
  | SockOpen sock
  | SockMessage sock string
  | SockError sock string
  | SockClose sock
  | Unexpected sock nat
  | RetryFires nat
  | PromiseTimeout pid
  | InviteTick
  | WatchdogKills
  | Resume nat
  | Call nat api
  | StartCall
  | StopCall
  | RetargetCall retarget_opts
  | AddChannel channel_key
  | EnsureKeys string
  | DrainInbox
  | DrainErrors
  | Outside host nat

definition call :: "cenv \<Rightarrow> api \<Rightarrow> kont list \<Rightarrow> client \<Rightarrow> client" where
  "call W a ks s =
     (case a of
        AJoin name pub \<Rightarrow> join_channel name pub ks s
      | AEnsure name \<Rightarrow> ensureChannel W name ks s
      | ASend channel text \<Rightarrow> send W channel text ks s
      | ADm to text \<Rightarrow> dm to text ks s
      | AInvite channel to \<Rightarrow> invite W channel to ks s
      | AInviteByName channel who \<Rightarrow> inviteByName W channel who ks s
      | AWhois i \<Rightarrow> whois i ks s
      | APresence \<Rightarrow> presence W ks s
      | AReady ms \<Rightarrow> ready ms ks s)"

fun enabled :: "label \<Rightarrow> client \<Rightarrow> bool" where
  "enabled (Tick d) s =
     ((\<forall>t \<in> set (ptimers s). now s + d \<le> pt_due t) \<and> (\<forall>r \<in> set (retries s). now s + d \<le> snd r))"
| "enabled (SockOpen i) s = (i \<in> set (attached s) \<and> sock_of i s = CONNECTING)"
| "enabled (SockMessage i raw) s = (i \<in> set (attached s) \<and> (sock_of i s = OPEN \<or> sock_of i s = CLOSING))"
| "enabled (SockError i e) s = (i \<in> set (attached s))"
| "enabled (SockClose i) s = (i \<in> set (attached s) \<and> sock_of i s \<noteq> CLOSED)"
| "enabled (Unexpected i st) s = (i \<in> set (attached s) \<and> sock_of i s = CONNECTING)"
| "enabled (RetryFires h) s = (\<exists>r \<in> set (retries s). fst r = h \<and> snd r \<le> now s)"
| "enabled (PromiseTimeout p) s = (\<exists>t \<in> set (ptimers s). pt_pid t = p \<and> pt_due t \<le> now s)"
| "enabled InviteTick s = inviteTimer s"
| "enabled WatchdogKills s = (watching s \<noteq> None)"
| "enabled (Resume n) s = (n < length (micro s))"
| "enabled (Call n a) s = (case a of AReady ms \<Rightarrow> ms \<le> WAIT_MS | _ \<Rightarrow> True)"
| "enabled (Outside h k) s = (env h = env (w_host s) \<and> homedir h = homedir (w_host s) \<and> hostname h = hostname (w_host s))"
| "enabled _ s = True"

definition of_start :: "exn option \<times> client \<Rightarrow> client" where
  \<comment> \<open>the caller of \<open>start\<close> or \<open>retarget\<close> handles what it throws\<close>
  "of_start r = snd r"

definition timeout_fires :: "cenv \<Rightarrow> pid \<Rightarrow> client \<Rightarrow> client" where
  "timeout_fires W p s =
     (case filter (\<lambda>t. pt_pid t = p \<and> pt_due t \<le> now s) (ptimers s) of
        [] \<Rightarrow> s
      | t # _ \<Rightarrow> promise_timeout W t s)"

fun exec :: "cenv \<Rightarrow> label \<Rightarrow> client \<Rightarrow> client" where
  "exec W (Tick d) s = s\<lparr>now := now s + d\<rparr>"
| "exec W (SockOpen i) s = on_open W (set_sock i OPEN s)"
| "exec W (SockMessage i raw) s = handler (handleRaw W raw s) s"
| "exec W (SockError i e) s = on_socket_error e s"
| "exec W (SockClose i) s = onDisconnect W (detach i (set_sock i CLOSED s))"
| "exec W (Unexpected i st) s = on_unexpected W st s"
| "exec W (RetryFires h) s = retry_fires W h s"
| "exec W (PromiseTimeout p) s = timeout_fires W p s"
| "exec W InviteTick s = pollPendingInvites W s"
| "exec W WatchdogKills s = (case watching s of None \<Rightarrow> s | Some i \<Rightarrow> close_sock i (s\<lparr>watching := None\<rparr>))"
| "exec W (Resume n) s = resume_nth W n s"
| "exec W (Call n a) s = call W a [KTop n] s"
| "exec W StartCall s = of_start (start W s)"
| "exec W StopCall s = stop s"
| "exec W (RetargetCall r) s = of_start (retarget W r s)"
| "exec W (AddChannel ch) s = addChannel ch s"
| "exec W (EnsureKeys name) s = snd (ensureChannelKeys W name s)"
| "exec W DrainInbox s = snd (drainInbox s)"
| "exec W DrainErrors s = snd (drainErrors s)"
| "exec W (Outside h k) s = s\<lparr>w_host := h, n_random := n_random s + k\<rparr>"

inductive step :: "cenv \<Rightarrow> client \<Rightarrow> label \<Rightarrow> client \<Rightarrow> bool" for W where
  step: "\<not> crashed s \<Longrightarrow> enabled l s \<Longrightarrow> step W s l (exec W l s)"

inductive run :: "cenv \<Rightarrow> client \<Rightarrow> label list \<Rightarrow> client \<Rightarrow> bool" for W where
  refl: "run W s [] s"
| snoc: "run W s ls s' \<Longrightarrow> step W s' l s'' \<Longrightarrow> run W s (ls @ [l]) s''"

inductive_cases stepE: "step W s l s'"
inductive_simps run_Nil: "run W s [] s'"

fun steps :: "cenv \<Rightarrow> label list \<Rightarrow> client \<Rightarrow> client option" where
  \<comment> \<open>the run of these labels, if each is enabled in its turn\<close>
  "steps W [] s = Some s"
| "steps W (l # ls) s = (if crashed s \<or> \<not> enabled l s then None else steps W ls (exec W l s))"

lemma run_append: "run W s' ls' s'' \<Longrightarrow> run W s ls s' \<Longrightarrow> run W s (ls @ ls') s''"
  by (induction rule: run.induct) (auto intro: run.snoc simp flip: append_assoc)

lemma steps_run: "steps W ls s = Some s' \<Longrightarrow> run W s ls s'"
proof (induction ls arbitrary: s)
  case (Cons l ls)
  then have "step W s l (exec W l s)" "run W (exec W l s) ls s'"
    by (auto intro: step.step split: if_splits)
  with run_append [of W "exec W l s" ls s' s "[l]"] run.snoc [OF run.refl] show ?case by fastforce
qed (auto intro: run.refl)

lemma run_invariant:
  assumes "run W s ls s'" "P s" "\<And>s l s'. step W s l s' \<Longrightarrow> P s \<Longrightarrow> P s'"
  shows "P s'"
  using assms by (induction rule: run.induct) auto

end
