(* ===== verification/Gloss.thy ===== *)
theory Gloss
  imports Client_Run
begin

text \<open>
  The glossary layer (\<open>adapters/mcp-bridge/src/gloss.ts\<close>): abbreviations two agents agree on at run time,
  compaction of what is sent and expansion of what arrives.

  What comes out of a frame is not checked by the code, so terms and abbreviations are any values. As
  keys of a \<open>Map\<close> (\<open>gkey\<close>) arrays and objects are compared by identity: each value that is read from a
  frame gets a number of its own, and primitives the number 0. A sent payload is the call of the client
  that carries it (\<open>api\<close>); what the method does when the call has settled is a \<open>gkont\<close>.
\<close>

section \<open>Data\<close>

record chat_event =
  ce_dm :: bool
  ce_channel :: "string option"
  ce_from :: string
  ce_body :: string
  ce_ts :: json

type_synonym gkey = "nat \<times> json"

definition gkey_of :: "nat \<Rightarrow> json \<Rightarrow> gkey" where
  "gkey_of r v = (if is_ref v then Suc r else 0, v)"

abbreviation skey :: "string \<Rightarrow> gkey" where
  "skey s \<equiv> (0, JStr s)"

datatype pair_state = Proposed | Active

record gloss_pair =
  gp_term :: gkey
  gp_abbrev :: gkey
  gp_state :: pair_state

record conv =
  c_entries :: "(gkey, gloss_pair) jsmap"
  c_reverse :: "(gkey, gkey) jsmap"
  c_seen :: "(string, nat) jsmap"
  c_dropped :: "gkey list"
  c_reserved :: "gkey list"

datatype dest = ToChannel string | ToDm string

text \<open>What a method of the agent still does after the client has sent its payload; \<open>n\<close> is the call it is part of.\<close>

datatype gkont =
    GSay nat dest string string
  | GBody nat string
  | GDrop nat
  | GSwallow

record gloss =
  g_convs :: "(string, conv) jsmap"
  g_started :: bool
  g_refs :: nat
  g_calls :: nat
  g_sent :: "(nat \<times> api) list"
  g_wait :: "(nat, gkont) jsmap"
  g_results :: "(nat \<times> (exn + string)) list"
  g_chats :: "chat_event list"

definition MIN_TERM :: nat where "MIN_TERM = 8"
definition MIN_MSGS :: nat where "MIN_MSGS = 2"
definition MAX_NGRAM :: nat where "MAX_NGRAM = 3"
definition MAX_ABBREV :: nat where "MAX_ABBREV = 4"

section \<open>Abbreviations\<close>

definition is_vowel :: "char \<Rightarrow> bool" where
  "is_vowel c = (c \<in> {CHR ''a'', CHR ''e'', CHR ''i'', CHR ''o'', CHR ''u''})"

fun split_on :: "char \<Rightarrow> string \<Rightarrow> string list" where
  \<comment> \<open>\<open>s.split(c)\<close>\<close>
  "split_on d [] = [[]]"
| "split_on d (c # s) =
     (if c = d then [] # split_on d s
      else (case split_on d s of [] \<Rightarrow> [[c]] | w # vs \<Rightarrow> (c # w) # vs))"

definition abbrev_base :: "string \<Rightarrow> string" where
  "abbrev_base term =
     (let words = split_on (CHR '' '') term
      in take MAX_ABBREV
           (case words of
              [w] \<Rightarrow> (case w of [] \<Rightarrow> ''undefined'' | c # cs \<Rightarrow> c # filter (\<lambda>x. \<not> is_vowel x) cs)
            | _ \<Rightarrow> concat (map (take 1) words)))"

text \<open>\<open>for (let i = 2; reserved.has(abbrev); i++) abbrev = base + i\<close>\<close>

function gen_loop :: "string \<Rightarrow> gkey list \<Rightarrow> nat \<Rightarrow> string" where
  "gen_loop base reserved i =
     (if skey (base @ nat_str i) \<in> set reserved then gen_loop base reserved (i + 1) else base @ nat_str i)"
  by auto

termination gen_loop
proof (relation "measure (\<lambda>(base, reserved, i). card {j. i \<le> j \<and> skey (base @ nat_str j) \<in> set reserved})")
  fix base :: string and reserved :: "gkey list" and i :: nat
  let ?S = "\<lambda>i. {j. i \<le> j \<and> skey (base @ nat_str j) \<in> set reserved}"
  assume "skey (base @ nat_str i) \<in> set reserved"
  moreover have "finite (?S i)"
  proof (rule finite_imageD)
    show "finite ((\<lambda>j. skey (base @ nat_str j)) ` ?S i)"
      by (rule finite_subset [of _ "set reserved"]) auto
    show "inj_on (\<lambda>j. skey (base @ nat_str j)) (?S i)"
      by (rule inj_onI) simp
  qed
  moreover from calculation have "?S (i + 1) \<subset> ?S i"
    by (intro psubsetI) (auto simp: set_eq_iff intro!: exI [of _ i])
  ultimately have "card (?S (i + 1)) < card (?S i)"
    by (intro psubset_card_mono)
  then show "((base, reserved, i + 1), (base, reserved, i)) \<in> measure (\<lambda>(base, reserved, i). card {j. i \<le> j \<and> skey (base @ nat_str j) \<in> set reserved})"
    by simp
qed simp

declare gen_loop.simps [simp del]

definition genAbbrev :: "string \<Rightarrow> gkey list \<Rightarrow> string \<times> gkey list" where
  "genAbbrev term reserved =
     (let base = abbrev_base term;
          a = (if skey base \<in> set reserved then gen_loop base reserved 2 else base)
      in (a, js_add (skey a) reserved))"

section \<open>Observation\<close>

definition is_lower :: "char \<Rightarrow> bool" where
  "is_lower c = (97 \<le> code c \<and> code c \<le> 122)"

text \<open>The runs of characters of \<open>text\<close> that satisfy \<open>P\<close>, in order.\<close>

function runs :: "(char \<Rightarrow> bool) \<Rightarrow> string \<Rightarrow> string list" where
  "runs P [] = []"
| "runs P (c # s) =
     (if P c then takeWhile P (c # s) # runs P (dropWhile P (c # s)) else runs P s)"
  by pat_completeness auto

termination runs
  by (relation "measure (\<lambda>(P, s). length s)") (auto intro: le_imp_less_Suc length_dropWhile_le)

definition words_of :: "string \<Rightarrow> string list" where
  \<comment> \<open>\<open>text.toLowerCase().match(/[a-z]{4,}/g) ?? []\<close>\<close>
  "words_of text = filter (\<lambda>w. 4 \<le> length w) (runs is_lower (toLowerCase text))"

definition ngrams :: "string \<Rightarrow> string list" where
  "ngrams text =
     (let vs = words_of text
      in concat (map (\<lambda>n. map (\<lambda>i. join '' '' (take n (drop i vs))) [0..<length vs + 1 - n]) [1..<MAX_NGRAM + 1]))"

section \<open>Compaction\<close>

definition is_alnum :: "char \<Rightarrow> bool" where
  \<comment> \<open>\<open>[a-z0-9]\<close>\<close>
  "is_alnum c = (is_lower c \<or> is_digit c)"

text \<open>A replacement string: \<open>$$\<close>, \<open>$&\<close>, \<open>$`\<close> and \<open>$'\<close> stand for the dollar, the match and what is around it.\<close>

fun replacement :: "string \<Rightarrow> string \<Rightarrow> string \<Rightarrow> string \<Rightarrow> string" where
  "replacement before m after [] = []"
| "replacement before m after [c] = [c]"
| "replacement before m after (c # d # r) =
     (if c = CHR ''$'' \<and> d = CHR ''$'' then CHR ''$'' # replacement before m after r
      else if c = CHR ''$'' \<and> d = CHR ''&'' then m @ replacement before m after r
      else if c = CHR ''$'' \<and> d = CHR 0x60 then before @ replacement before m after r
      else if c = CHR ''$'' \<and> d = CHR 0x27 then after @ replacement before m after r
      else c # replacement before m after (d # r))"

definition no_alnum_at :: "string \<Rightarrow> bool" where
  "no_alnum_at s = (case s of [] \<Rightarrow> True | c # _ \<Rightarrow> \<not> is_alnum c)"

definition term_at :: "string \<Rightarrow> string \<Rightarrow> string \<Rightarrow> bool" where
  \<comment> \<open>\<open>(?<![a-z0-9])term(?![a-z0-9])\<close> matches between \<open>pre\<close> (reversed) and \<open>s\<close>\<close>
  "term_at term pre s =
     (no_alnum_at pre \<and> take (length term) s = term \<and> no_alnum_at (drop (length term) s))"

text \<open>\<open>s.replace(re, tpl)\<close> with the flag \<open>g\<close>, from a position on; after an empty match one character is copied.\<close>

function replace_term :: "string \<Rightarrow> string \<Rightarrow> string \<Rightarrow> string \<Rightarrow> string" where
  "replace_term term tpl pre [] =
     (if term_at term pre [] then replacement (rev pre) [] [] tpl else [])"
| "replace_term term tpl pre (c # s) =
     (if term_at term pre (c # s) then
        replacement (rev pre) term (drop (length term) (c # s)) tpl @
        (if term = [] then c # replace_term term tpl (c # pre) s
         else replace_term term tpl (rev term @ pre) (drop (length term) (c # s)))
      else c # replace_term term tpl (c # pre) s)"
  by pat_completeness auto

termination replace_term
  by (relation "measure (\<lambda>(term, tpl, pre, s). length s)") auto

definition str_of :: "gkey \<Rightarrow> string" where
  "str_of k = (case snd k of JStr s \<Rightarrow> s | _ \<Rightarrow> [])"

definition is_str :: "gkey \<Rightarrow> bool" where
  "is_str k = (case snd k of JStr s \<Rightarrow> True | _ \<Rightarrow> False)"

definition active_pairs :: "conv \<Rightarrow> gloss_pair list" where
  "active_pairs c = filter (\<lambda>e. gp_state e = Active) (map snd (c_entries c))"

definition longest_first :: "gloss_pair list \<Rightarrow> gloss_pair list" where
  "longest_first es = sort_key (\<lambda>e. - int (length (str_of (gp_term e)))) es"

definition compact_with :: "gloss_pair list \<Rightarrow> string \<Rightarrow> string" where
  "compact_with es text =
     fold (\<lambda>e out. replace_term (str_of (gp_term e)) (CHR ''~'' # js_String (snd (gp_abbrev e))) [] out) es text"

definition compact_conv :: "conv \<Rightarrow> string \<Rightarrow> string result" where
  \<comment> \<open>an active term that is not a string has no \<open>replace\<close>, and \<open>escapeRe\<close> throws\<close>
  "compact_conv c text =
     (if list_all (\<lambda>e. is_str (gp_term e)) (active_pairs c)
      then Inr (compact_with (longest_first (active_pairs c)) text) else Inl JsTypeError)"

section \<open>Expansion\<close>

text \<open>\<open>body.replace(/~([a-z0-9]+)/g, (tok, abbrev) => look(abbrev) ?? tok)\<close>\<close>

function expand_with :: "(string \<Rightarrow> json) \<Rightarrow> string \<Rightarrow> string" where
  "expand_with look [] = []"
| "expand_with look (c # s) =
     (if c = CHR ''~'' \<and> takeWhile is_alnum s \<noteq> [] then
        (let a = takeWhile is_alnum s
         in js_String (coalesce (look a) (JStr (CHR ''~'' # a)))) @ expand_with look (dropWhile is_alnum s)
      else c # expand_with look s)"
  by pat_completeness auto

termination expand_with
  by (relation "measure (\<lambda>(look, s). length s)") (auto intro: le_imp_less_Suc length_dropWhile_le)

definition meaning :: "conv \<Rightarrow> string \<Rightarrow> json" where
  \<comment> \<open>\<open>c.reverse.get(abbrev)\<close>\<close>
  "meaning c a = (case jm_get (c_reverse c) (skey a) of None \<Rightarrow> JUndef | Some k \<Rightarrow> snd k)"

definition expand_conv :: "conv \<Rightarrow> string \<Rightarrow> string" where
  "expand_conv c body = expand_with (meaning c) body"

section \<open>Conversations\<close>

definition empty_conv :: conv where
  "empty_conv = \<lparr>c_entries = [], c_reverse = [], c_seen = [], c_dropped = [], c_reserved = []\<rparr>"

definition conv_of :: "string \<Rightarrow> gloss \<Rightarrow> conv" where
  "conv_of key g = (case jm_get (g_convs g) key of Some c \<Rightarrow> c | None \<Rightarrow> empty_conv)"

definition put_conv :: "string \<Rightarrow> conv \<Rightarrow> gloss \<Rightarrow> gloss" where
  "put_conv key c g = g\<lparr>g_convs := jm_set key c (g_convs g)\<rparr>"

definition touch :: "string \<Rightarrow> gloss \<Rightarrow> gloss" where
  \<comment> \<open>\<open>this.conv(key)\<close> makes the conversation if there is none\<close>
  "touch key g = put_conv key (conv_of key g) g"

definition set_active :: "gkey \<Rightarrow> gkey \<Rightarrow> conv \<Rightarrow> conv" where
  "set_active term abbrev c =
     c\<lparr>c_entries := jm_set term \<lparr>gp_term = term, gp_abbrev = abbrev, gp_state = Active\<rparr> (c_entries c),
       c_reverse := jm_set abbrev term (c_reverse c),
       c_reserved := js_add abbrev (c_reserved c)\<rparr>"

definition active :: "string \<Rightarrow> gloss \<Rightarrow> (json \<times> json) list \<times> gloss" where
  "active key g = (map (\<lambda>e. (snd (gp_term e), snd (gp_abbrev e))) (active_pairs (conv_of key g)), touch key g)"

definition compact :: "string \<Rightarrow> string \<Rightarrow> gloss \<Rightarrow> string result \<times> gloss" where
  "compact key text g = (compact_conv (conv_of key g) text, touch key g)"

definition expand :: "string \<Rightarrow> string \<Rightarrow> gloss \<Rightarrow> string \<times> gloss" where
  "expand key body g = (expand_conv (conv_of key g) body, touch key g)"

definition deactivate_one :: "gkey \<Rightarrow> conv \<Rightarrow> conv" where
  "deactivate_one abbrev c =
     (case jm_get (c_reverse c) abbrev of
        None \<Rightarrow> c
      | Some term \<Rightarrow>
          if snd term = JUndef then c
          else c\<lparr>c_entries := jm_del term (c_entries c), c_reverse := jm_del abbrev (c_reverse c),
                 c_dropped := js_add term (c_dropped c)\<rparr>)"

fun deactivate :: "gkey list \<Rightarrow> conv \<Rightarrow> conv" where
  "deactivate [] c = c"
| "deactivate (a # as) c = deactivate as (deactivate_one a c)"

section \<open>Sending\<close>

definition send_call :: "dest \<Rightarrow> json \<Rightarrow> api" where
  "send_call d payload =
     (case d of ToChannel c \<Rightarrow> ASend c (json_text payload) | ToDm p \<Rightarrow> ADm p (json_text payload))"

definition gloss_send :: "dest \<Rightarrow> json \<Rightarrow> gkont \<Rightarrow> gloss \<Rightarrow> gloss" where
  "gloss_send d payload k g =
     g\<lparr>g_calls := g_calls g + 1, g_sent := g_sent g @ [(g_calls g, send_call d payload)],
       g_wait := jm_set (g_calls g) k (g_wait g)\<rparr>"

definition gloss_result :: "nat \<Rightarrow> exn + string \<Rightarrow> gloss \<Rightarrow> gloss" where
  "gloss_result n out g = g\<lparr>g_results := g_results g @ [(n, out)]\<rparr>"

definition pairs_json :: "(gkey \<times> gkey) list \<Rightarrow> json" where
  "pairs_json ps = JArr (map (\<lambda>(a, b). JArr [snd a, snd b]) ps)"

definition gloss_frame :: "string \<Rightarrow> (gkey \<times> gkey) list \<Rightarrow> json" where
  "gloss_frame act ps = JObj [(''t'', JStr ''gloss''), (''act'', JStr act), (''entries'', pairs_json ps)]"

definition body_frame :: "string \<Rightarrow> json" where
  "body_frame body = JObj [(''t'', JStr ''msg''), (''body'', JStr body)]"

definition count_seen :: "string \<Rightarrow> conv \<Rightarrow> conv" where
  "count_seen t c = c\<lparr>c_seen := jm_set t ((case jm_get (c_seen c) t of Some n \<Rightarrow> n | None \<Rightarrow> 0) + 1) (c_seen c)\<rparr>"

definition observe :: "string \<Rightarrow> conv \<Rightarrow> conv" where
  "observe text c = fold count_seen (js_set_of [] (ngrams text)) c"

definition candidates :: "conv \<Rightarrow> string list" where
  "candidates c =
     map fst (filter (\<lambda>(t, n). MIN_MSGS \<le> n \<and> MIN_TERM \<le> length t \<and> \<not> jm_has (c_entries c) (skey t) \<and> skey t \<notin> set (c_dropped c))
       (c_seen c))"

fun gen_all :: "string list \<Rightarrow> gkey list \<Rightarrow> (gkey \<times> gkey) list \<times> gkey list" where
  "gen_all [] reserved = ([], reserved)"
| "gen_all (t # ts) reserved =
     (let (a, r1) = genAbbrev t reserved; (ps, r2) = gen_all ts r1 in ((skey t, skey a) # ps, r2))"

definition set_proposed :: "gkey \<times> gkey \<Rightarrow> conv \<Rightarrow> conv" where
  "set_proposed p c =
     c\<lparr>c_entries := jm_set (fst p) \<lparr>gp_term = fst p, gp_abbrev = snd p, gp_state = Proposed\<rparr> (c_entries c)\<rparr>"

definition propose_terms :: "conv \<Rightarrow> (gkey \<times> gkey) list \<times> conv" where
  "propose_terms c =
     (let (ps, r) = gen_all (candidates c) (c_reserved c) in (ps, fold set_proposed ps (c\<lparr>c_reserved := r\<rparr>)))"

definition say_body :: "nat \<Rightarrow> dest \<Rightarrow> string \<Rightarrow> string \<Rightarrow> gloss \<Rightarrow> gloss" where
  "say_body n d key text g =
     (case compact key text g of
        (Inl e, g1) \<Rightarrow> gloss_result n (Inl e) g1
      | (Inr body, g1) \<Rightarrow> gloss_send d (body_frame body) (GBody n body) g1)"

definition sayTo :: "nat \<Rightarrow> dest \<Rightarrow> string \<Rightarrow> string \<Rightarrow> gloss \<Rightarrow> gloss" where
  "sayTo n d key text g =
     (let (ps, c) = propose_terms (observe text (conv_of key g)); g1 = put_conv key c g
      in if ps \<noteq> [] then gloss_send d (gloss_frame ''propose'' ps) (GSay n d key text) g1
         else say_body n d key text g1)"

definition chan_key :: "string \<Rightarrow> string" where
  "chan_key channel = ''chan:'' @ channel"

definition dm_key :: "string \<Rightarrow> string" where
  "dm_key peer = ''dm:'' @ peer"

definition say :: "nat \<Rightarrow> string \<Rightarrow> string \<Rightarrow> gloss \<Rightarrow> gloss" where
  "say n channel text g = sayTo n (ToChannel channel) (chan_key channel) text g"

definition sayDm :: "nat \<Rightarrow> string \<Rightarrow> string \<Rightarrow> gloss \<Rightarrow> gloss" where
  "sayDm n peer text g = sayTo n (ToDm peer) (dm_key peer) text g"

definition drop_term :: "nat \<Rightarrow> string \<Rightarrow> string \<Rightarrow> gloss \<Rightarrow> gloss" where
  "drop_term n channel abbrev g =
     (let key = chan_key channel
      in gloss_send (ToChannel channel)
           (JObj [(''t'', JStr ''gloss''), (''act'', JStr ''drop''), (''terms'', JArr [JStr abbrev])]) (GDrop n)
           (put_conv key (deactivate [skey abbrev] (conv_of key g)) g))"

text \<open>The call \<open>i\<close> of the client has settled.\<close>

definition gloss_settled :: "nat \<Rightarrow> exn option \<Rightarrow> gloss \<Rightarrow> gloss" where
  "gloss_settled i err g =
     (case jm_get (g_wait g) i of
        None \<Rightarrow> g
      | Some k \<Rightarrow>
          let g1 = g\<lparr>g_wait := jm_del i (g_wait g)\<rparr>
          in (case (k, err) of
                (GSay n d key text, None) \<Rightarrow> say_body n d key text g1
              | (GSay n d key text, Some e) \<Rightarrow> gloss_result n (Inl e) g1
              | (GBody n body, None) \<Rightarrow> gloss_result n (Inr body) g1
              | (GBody n body, Some e) \<Rightarrow> gloss_result n (Inl e) g1
              | (GDrop n, None) \<Rightarrow> gloss_result n (Inr []) g1
              | (GDrop n, Some e) \<Rightarrow> gloss_result n (Inl e) g1
              | (GSwallow, _) \<Rightarrow> g1))"

section \<open>Frames of the peer\<close>

definition elem :: "json list \<Rightarrow> nat \<Rightarrow> json" where
  \<comment> \<open>one variable of a destructuring\<close>
  "elem vs i = (if i < length vs then vs ! i else JUndef)"

definition state_at :: "conv \<Rightarrow> gkey \<Rightarrow> pair_state option" where
  \<comment> \<open>\<open>c.entries.get(term)?.state\<close>\<close>
  "state_at c term = map_option gp_state (jm_get (c_entries c) term)"

text \<open>The loop over the entries of a proposal: what it threw, the conversation and the ack so far.\<close>

fun propose_loop :: "json list \<Rightarrow> nat \<Rightarrow> conv \<Rightarrow> (gkey \<times> gkey) list \<Rightarrow> exn option \<times> nat \<times> conv \<times> (gkey \<times> gkey) list" where
  "propose_loop [] r c ack = (None, r, c, ack)"
| "propose_loop (e # es) r c ack =
     (case iterate e of
        Inl x \<Rightarrow> (Some x, r, c, ack)
      | Inr vs \<Rightarrow>
          let term = gkey_of r (elem vs 0); abbrev = gkey_of (r + 1) (elem vs 1)
          in if state_at c term = Some Active
             then propose_loop es (r + 2) c (ack @ [(term, gp_abbrev (the (jm_get (c_entries c) term)))])
             else propose_loop es (r + 2) (set_active term abbrev c) (ack @ [(term, abbrev)]))"

fun ack_loop :: "json list \<Rightarrow> nat \<Rightarrow> conv \<Rightarrow> exn option \<times> nat \<times> conv" where
  "ack_loop [] r c = (None, r, c)"
| "ack_loop (e # es) r c =
     (case iterate e of
        Inl x \<Rightarrow> (Some x, r, c)
      | Inr vs \<Rightarrow>
          let term = gkey_of r (elem vs 0); abbrev = gkey_of (r + 1) (elem vs 1)
          in ack_loop es (r + 2) (if state_at c term = Some Proposed then set_active term abbrev c else c))"

fun gkeys_of :: "nat \<Rightarrow> json list \<Rightarrow> gkey list" where
  "gkeys_of r [] = []"
| "gkeys_of r (v # vs) = gkey_of r v # gkeys_of (r + 1) vs"

text \<open>\<open>handleGloss\<close>, up to its \<open>await\<close>; what it throws is swallowed by its caller.\<close>

definition handleGloss :: "string \<Rightarrow> dest \<Rightarrow> frame \<Rightarrow> gloss \<Rightarrow> gloss" where
  "handleGloss key d f g =
     (if prop_of f ''act'' = JStr ''propose'' then
        (case iterate (coalesce (prop_of f ''entries'') (JArr [])) of
           Inl _ \<Rightarrow> touch key g
         | Inr es \<Rightarrow>
             (case propose_loop es (g_refs g) (conv_of key g) [] of
                (Some _, r, c, ack) \<Rightarrow> (put_conv key c g)\<lparr>g_refs := r\<rparr>
              | (None, r, c, ack) \<Rightarrow> gloss_send d (gloss_frame ''ack'' ack) GSwallow ((put_conv key c g)\<lparr>g_refs := r\<rparr>)))
      else if prop_of f ''act'' = JStr ''ack'' then
        (case iterate (coalesce (prop_of f ''entries'') (JArr [])) of
           Inl _ \<Rightarrow> touch key g
         | Inr es \<Rightarrow> (case ack_loop es (g_refs g) (conv_of key g) of (_, r, c) \<Rightarrow> (put_conv key c g)\<lparr>g_refs := r\<rparr>))
      else if prop_of f ''act'' = JStr ''drop'' then
        (case iterate (coalesce (prop_of f ''terms'') (JArr [])) of
           Inl _ \<Rightarrow> touch key g
         | Inr vs \<Rightarrow> (put_conv key (deactivate (gkeys_of (g_refs g) vs) (conv_of key g)) g)\<lparr>g_refs := g_refs g + length vs\<rparr>)
      else g)"

text \<open>\<open>handleInbound\<close>: what it throws to the client that calls it. \<open>listeners\<close> says what the chat callbacks throw.\<close>

definition handleInbound :: "(chat_event \<Rightarrow> exn option) \<Rightarrow> string \<Rightarrow> msg_event \<Rightarrow> gloss \<Rightarrow> exn option \<times> gloss" where
  "handleInbound listeners own m g =
     (if me_from m = own then (None, g)
      else case json_parse (me_text m) of
        Inl _ \<Rightarrow> (None, g)
      | Inr v \<Rightarrow>
          (case get_prop v ''t'' of
             Inl e \<Rightarrow> (Some e, g)
           | Inr t \<Rightarrow>
               let f = (case v of JObj ps \<Rightarrow> ps | _ \<Rightarrow> []);
                   (key, d) = (case me_channel m of
                       Some (x # xs) \<Rightarrow> (chan_key (x # xs), ToChannel (x # xs))
                     | _ \<Rightarrow> (dm_key (me_from m), ToDm (me_from m)))
               in if t = JStr ''gloss'' then (None, handleGloss key d f g)
                  else if t = JStr ''msg'' then
                    (let (body, g1) = expand key (js_String (prop_of f ''body'')) g;
                         ev = \<lparr>ce_dm = me_dm m, ce_channel = me_channel m, ce_from = me_from m, ce_body = body, ce_ts = me_ts m\<rparr>
                     in (listeners ev, g1\<lparr>g_chats := g_chats g1 @ [ev]\<rparr>))
                  else (None, g)))"

section \<open>Persistence\<close>

definition active_object :: "conv \<Rightarrow> (string \<times> json) list" where
  "active_object c =
     fold (\<lambda>e. obj_assign (js_String (snd (gp_term e))) (snd (gp_abbrev e))) (active_pairs c) []"

definition serialize :: "gloss \<Rightarrow> string" where
  "serialize g =
     json_text (JObj (fold (\<lambda>(key, c) out.
       if active_object c \<noteq> [] then obj_assign key (JObj (active_object c)) out else out) (g_convs g) []))"

fun load_terms :: "(string \<times> json) list \<Rightarrow> nat \<Rightarrow> conv \<Rightarrow> conv" where
  "load_terms [] r c = c"
| "load_terms ((t, a) # ts) r c = load_terms ts (r + 1) (set_active (skey t) (gkey_of r a) c)"

fun load_convs :: "(string \<times> json) list \<Rightarrow> gloss \<Rightarrow> exn option \<times> gloss" where
  "load_convs [] g = (None, g)"
| "load_convs ((key, v) # cs) g =
     (case object_entries v of
        Inl e \<Rightarrow> (Some e, touch key g)
      | Inr ts \<Rightarrow> load_convs cs ((put_conv key (load_terms ts (g_refs g) (conv_of key g)) g)\<lparr>g_refs := g_refs g + length ts\<rparr>))"

definition load :: "string \<Rightarrow> gloss \<Rightarrow> exn option \<times> gloss" where
  "load txt g =
     (case bind_result (json_parse txt) object_entries of
        Inl e \<Rightarrow> (Some e, g)
      | Inr cs \<Rightarrow> load_convs cs g)"

section \<open>The agent and its client\<close>

definition new_gloss :: gloss where
  "new_gloss = \<lparr>g_convs = [], g_started = False, g_refs = 0, g_calls = 0, g_sent = [], g_wait = [], g_results = [], g_chats = []\<rparr>"

definition gloss_start :: "cenv \<Rightarrow> gloss \<times> client \<Rightarrow> exn option \<times> gloss \<times> client" where
  \<comment> \<open>that \<open>handleInbound\<close> is among the listeners from now on is the hypothesis of who uses it\<close>
  "gloss_start W gs =
     (if g_started (fst gs) then (None, gs)
      else case start W (snd gs) of (e, s) \<Rightarrow> (e, (fst gs)\<lparr>g_started := True\<rparr>, s))"

definition gloss_stop :: "gloss \<times> client \<Rightarrow> gloss \<times> client" where
  "gloss_stop gs = (fst gs, stop (snd gs))"

end
