(* ===== verification/Gloss_Fidelity.thy ===== *)
theory Gloss_Fidelity
  imports Gloss
begin

text \<open>
  Compaction and expansion are inverse, the abbreviations are fresh, and the observation counts what it
  is meant to count.
\<close>

section \<open>Fresh abbreviations\<close>

lemma gen_loop_spec:
  "\<exists>j \<ge> i. gen_loop base r i = base @ nat_str j \<and> skey (base @ nat_str j) \<notin> set r
     \<and> (\<forall>k. i \<le> k \<and> k < j \<longrightarrow> skey (base @ nat_str k) \<in> set r)"
proof (induction base r i rule: gen_loop.induct)
  case (1 base r i)
  show ?case
  proof (cases "skey (base @ nat_str i) \<in> set r")
    case True
    from 1 [OF this] obtain j where j: "i + 1 \<le> j" "gen_loop base r (i + 1) = base @ nat_str j"
      "skey (base @ nat_str j) \<notin> set r" "\<forall>k. i + 1 \<le> k \<and> k < j \<longrightarrow> skey (base @ nat_str k) \<in> set r" by blast
    moreover from True have "gen_loop base r i = gen_loop base r (i + 1)" by (subst gen_loop.simps) simp
    moreover have "skey (base @ nat_str k) \<in> set r" if "i \<le> k" "k < j" for k
      using j(4) True that by (cases "k = i") auto
    ultimately show ?thesis by (intro exI [of _ j]) simp
  next
    case False
    then show ?thesis by (intro exI [of _ i]) (auto simp: gen_loop.simps [of base r i])
  qed
qed

lemma genAbbrev_spec:
  "let (a, r') = genAbbrev t r; b = abbrev_base t in
     skey a \<notin> set r \<and> set r' = insert (skey a) (set r)
     \<and> (a = b \<or> skey b \<in> set r \<and> (\<exists>i \<ge> 2. a = b @ nat_str i \<and> (\<forall>k. 2 \<le> k \<and> k < i \<longrightarrow> skey (b @ nat_str k) \<in> set r)))"
proof -
  obtain j where "2 \<le> j" "gen_loop (abbrev_base t) r 2 = abbrev_base t @ nat_str j"
    "skey (abbrev_base t @ nat_str j) \<notin> set r" "\<forall>k. 2 \<le> k \<and> k < j \<longrightarrow> skey (abbrev_base t @ nat_str k) \<in> set r"
    using gen_loop_spec [of 2 "abbrev_base t" r] by blast
  then show ?thesis
    by (auto simp: genAbbrev_def Let_def)
qed

section \<open>Scanning\<close>

lemma no_alnum_simps [simp]: "no_alnum_at []" "no_alnum_at (c # s) = (\<not> is_alnum c)"
  by (simp_all add: no_alnum_at_def)

lemma no_alnum_dropWhile: "no_alnum_at (dropWhile is_alnum s)"
  by (induction s) simp_all

lemma takeWhile_no_alnum: "no_alnum_at s \<Longrightarrow> takeWhile is_alnum s = []"
  by (cases s) auto

lemma takeWhile_append_run: "list_all is_alnum a \<Longrightarrow> no_alnum_at x \<Longrightarrow> takeWhile is_alnum (a @ x) = a \<and> dropWhile is_alnum (a @ x) = x"
  by (cases x) (auto simp: list_all_iff)

lemma tilde_no_alnum [simp]: "\<not> is_alnum (CHR ''~'')"
  by (simp add: is_alnum_def is_lower_def is_digit_def code_def)

definition good_term :: "string \<Rightarrow> bool" where
  "good_term t = (t \<noteq> [] \<and> is_alnum (hd t) \<and> CHR ''~'' \<notin> set t)"

definition good_abbrev :: "string \<Rightarrow> bool" where
  "good_abbrev a = (a \<noteq> [] \<and> list_all is_alnum a)"

definition first_run :: "string \<Rightarrow> string" where
  "first_run t = takeWhile is_alnum t"

text \<open>No \<open>~\<close> of \<open>s\<close> is followed by the first word of \<open>t\<close>.\<close>

fun tilde_ok :: "string \<Rightarrow> string \<Rightarrow> bool" where
  "tilde_ok t [] = True"
| "tilde_ok t (c # s) = ((c = CHR ''~'' \<longrightarrow> takeWhile is_alnum s \<noteq> first_run t) \<and> tilde_ok t s)"

lemma tilde_ok_append: "tilde_ok t (u @ v) \<Longrightarrow> tilde_ok t v"
  by (induction u) auto

lemma tilde_ok_plain: "CHR ''~'' \<notin> set s \<Longrightarrow> tilde_ok t (s @ v) = tilde_ok t v"
  by (induction s) auto

lemma tilde_ok_none: "CHR ''~'' \<notin> set s \<Longrightarrow> tilde_ok t s"
  using tilde_ok_plain [of s t "[]"] by simp

lemma good_abbrev_plain: "list_all is_alnum a \<Longrightarrow> CHR ''~'' \<notin> set a \<and> CHR ''$'' \<notin> set a"
proof -
  have "\<not> is_alnum (CHR ''$'')" by (simp add: is_alnum_def is_lower_def is_digit_def code_def)
  then show "list_all is_alnum a \<Longrightarrow> ?thesis" by (metis list_all_iff tilde_no_alnum)
qed

lemma replacement_plain: "CHR ''$'' \<notin> set tpl \<Longrightarrow> replacement before m after tpl = tpl"
  by (induction before m after tpl rule: replacement.induct) auto

lemma template_plain: "good_abbrev a \<Longrightarrow> replacement before m after (CHR ''~'' # a) = CHR ''~'' # a"
  using good_abbrev_plain by (intro replacement_plain) (auto simp: good_abbrev_def)

lemma expand_plain: "CHR ''~'' \<notin> set t \<Longrightarrow> expand_with look (t @ s) = t @ expand_with look s"
  by (induction t) auto

lemma term_at_split: "term_at t pre s \<Longrightarrow> s = t @ drop (length t) s \<and> no_alnum_at (drop (length t) s)"
  by (metis append_take_drop_id term_at_def)

lemma term_at_nil [simp]: "t \<noteq> [] \<Longrightarrow> \<not> term_at t pre []"
  by (simp add: term_at_def)

lemma replace_in_word:
  assumes "t \<noteq> []" "pre \<noteq> []" "is_alnum (hd pre)"
  shows "replace_term t tpl pre s =
     takeWhile is_alnum s @ replace_term t tpl (rev (takeWhile is_alnum s) @ pre) (dropWhile is_alnum s)"
  using assms(2,3)
proof (induction s arbitrary: pre)
  case (Cons c s)
  then have "\<not> term_at t pre (c # s)" by (cases pre) (simp_all add: term_at_def)
  with Cons show ?case by simp
qed simp

lemma replace_after_tilde:
  assumes "good_term t" "takeWhile is_alnum s \<noteq> first_run t"
  shows "replace_term t tpl (CHR ''~'' # pre) s =
     takeWhile is_alnum s @ replace_term t tpl (rev (takeWhile is_alnum s) @ CHR ''~'' # pre) (dropWhile is_alnum s)"
proof (cases s)
  case (Cons c s')
  have "\<not> term_at t (CHR ''~'' # pre) s"
  proof
    assume "term_at t (CHR ''~'' # pre) s"
    from term_at_split [OF this] have "s = t @ drop (length t) s" "takeWhile is_alnum (drop (length t) s) = []"
      by (auto intro: takeWhile_no_alnum)
    then have "takeWhile is_alnum s = takeWhile is_alnum t"
      by (metis append_Nil2 takeWhile_append takeWhile_eq_all_conv)
    with assms(2) show False by (simp add: first_run_def)
  qed
  with Cons replace_in_word [of t "c # CHR ''~'' # pre" tpl s'] assms(1) show ?thesis
    by (cases "is_alnum c") (simp_all add: good_term_def)
qed simp

lemma replace_no_alnum: "good_term t \<Longrightarrow> no_alnum_at s \<Longrightarrow> no_alnum_at (replace_term t tpl pre s)"
proof (cases s)
  case (Cons c s')
  assume g: "good_term t" "no_alnum_at s"
  have "\<not> term_at t pre s"
  proof
    assume "term_at t pre s"
    from term_at_split [OF this] g Cons show False by (cases t) (auto simp: good_term_def)
  qed
  with g Cons show ?thesis by simp
qed (simp add: good_term_def term_at_nil)

section \<open>One term\<close>

lemma replace_step:
  assumes "good_term t" "good_abbrev a" "tilde_ok t s"
  shows "(\<forall>look. look a = JStr t \<longrightarrow> expand_with look (replace_term t (CHR ''~'' # a) pre s) = expand_with look s)
    \<and> (\<forall>u. tilde_ok u s \<and> a \<noteq> first_run u \<longrightarrow> tilde_ok u (replace_term t (CHR ''~'' # a) pre s))"
  using assms(3)
proof (induction s arbitrary: pre rule: length_induct)
  case (1 s)
  let ?R = "replace_term t (CHR ''~'' # a)"
  have a: "a \<noteq> []" "list_all is_alnum a" "CHR ''~'' \<notin> set a" and t: "t \<noteq> []" "CHR ''~'' \<notin> set t"
    using assms(1,2) good_abbrev_plain by (auto simp: good_abbrev_def good_term_def)
  show ?case
  proof (cases s)
    case Nil
    then show ?thesis using t by (simp add: term_at_nil)
  next
    case (Cons c s')
    show ?thesis
    proof (cases "term_at t pre s")
      case True
      define rest where "rest = drop (length t) s"
      from term_at_split [OF True] have s: "s = t @ rest" and n: "no_alnum_at rest" by (simp_all add: rest_def)
      let ?X = "?R (rev t @ pre) rest"
      from True Cons t have R: "?R pre s = CHR ''~'' # a @ ?X"
        by (simp add: template_plain [OF assms(2)] rest_def del: replacement.simps)
      have X: "takeWhile is_alnum (a @ ?X) = a" "dropWhile is_alnum (a @ ?X) = ?X"
        using takeWhile_append_run [OF a(2) replace_no_alnum [OF assms(1) n]] by auto
      have IH: "(\<forall>look. look a = JStr t \<longrightarrow> expand_with look ?X = expand_with look rest)
          \<and> (\<forall>u. tilde_ok u rest \<and> a \<noteq> first_run u \<longrightarrow> tilde_ok u ?X)"
        using "1.IH" "1.prems" s t tilde_ok_append by auto
      show ?thesis
        unfolding R using IH X a t
        by (auto simp: s expand_plain tilde_ok_plain coalesce_def nullish_def Let_def dest: tilde_ok_append)
    next
      case False
      have R: "?R pre s = c # ?R (c # pre) s'" using False Cons by simp
      show ?thesis
      proof (cases "c = CHR ''~''")
        case True
        define w d where "w = takeWhile is_alnum s'" and "d = dropWhile is_alnum s'"
        define Y where "Y = ?R (rev w @ c # pre) d"
        from "1.prems" Cons True have nt: "w \<noteq> first_run t" and ok: "tilde_ok t s'" by (simp_all add: w_def)
        have R': "?R pre s = c # w @ Y"
          unfolding R True Y_def w_def d_def by (subst replace_after_tilde [OF assms(1)]) (use nt w_def in auto)
        have s': "s' = w @ d" by (simp add: w_def d_def)
        have w: "list_all is_alnum w" "CHR ''~'' \<notin> set w"
          by (auto simp: list_all_iff w_def dest: set_takeWhileD)
        have n: "no_alnum_at d" "no_alnum_at Y"
          using no_alnum_dropWhile replace_no_alnum [OF assms(1)] by (auto simp: d_def Y_def)
        have runs: "takeWhile is_alnum (w @ x) = w" "dropWhile is_alnum (w @ x) = x" if "no_alnum_at x" for x
          using takeWhile_append_run [OF w(1) that] by auto
        have "length d < length s" using length_dropWhile_le [of is_alnum s'] by (simp add: d_def Cons)
        moreover have "tilde_ok t d" using ok s' tilde_ok_append by metis
        ultimately have IH: "(\<forall>look. look a = JStr t \<longrightarrow> expand_with look Y = expand_with look d)
            \<and> (\<forall>u. tilde_ok u d \<and> a \<noteq> first_run u \<longrightarrow> tilde_ok u Y)"
          using "1.IH" unfolding Y_def by blast
        have E: "expand_with look (c # w @ x) =
            (if w = [] then [c] else js_String (coalesce (look w) (JStr (CHR ''~'' # w)))) @ expand_with look x"
          if "no_alnum_at x" for look x
          using True runs [OF that] by (cases "w = []") (simp_all add: Let_def)
        show ?thesis
        proof (intro conjI allI impI)
          fix look assume "look a = JStr t"
          with IH have e: "expand_with look Y = expand_with look d" by blast
          show "expand_with look (?R pre s) = expand_with look s"
            unfolding R' E [OF n(2)] e by (simp only: Cons s' E [OF n(1)])
        next
          fix u assume u: "tilde_ok u s \<and> a \<noteq> first_run u"
          then have "tilde_ok u d" "w \<noteq> first_run u"
            using Cons True s' runs(1) [OF n(1)] by (auto dest: tilde_ok_append)
          with IH u w runs(1) [OF n(2)] True show "tilde_ok u (?R pre s)"
            unfolding R' by (simp add: tilde_ok_plain)
        qed
      next
        case False
        have IH: "(\<forall>look. look a = JStr t \<longrightarrow> expand_with look (?R (c # pre) s') = expand_with look s')
            \<and> (\<forall>u. tilde_ok u s' \<and> a \<noteq> first_run u \<longrightarrow> tilde_ok u (?R (c # pre) s'))"
          using "1.IH" "1.prems" Cons by simp
        with False R Cons show ?thesis by simp
      qed
    qed
  qed
qed

section \<open>All terms\<close>

definition good_pair :: "gloss_pair \<Rightarrow> bool" where
  "good_pair e = (gp_term e = skey (str_of (gp_term e)) \<and> gp_abbrev e = skey (str_of (gp_abbrev e))
     \<and> good_term (str_of (gp_term e)) \<and> good_abbrev (str_of (gp_abbrev e)))"

definition no_clash :: "gloss_pair list \<Rightarrow> bool" where
  \<comment> \<open>no abbreviation is the first word of a term\<close>
  "no_clash es = (\<forall>e \<in> set es. \<forall>e' \<in> set es. str_of (gp_abbrev e) \<noteq> first_run (str_of (gp_term e')))"

lemma str_of_skey [simp]: "str_of (skey s) = s" "is_str (skey s)"
  by (simp_all add: str_of_def is_str_def)

lemma compact_with_Cons:
  "gp_abbrev e = skey a \<Longrightarrow>
     compact_with (e # es) text = compact_with es (replace_term (str_of (gp_term e)) (CHR ''~'' # a) [] text)"
  by (simp add: compact_with_def)

lemma compact_with_expand:
  assumes "list_all good_pair es" "no_clash es" "\<forall>e \<in> set es. tilde_ok (str_of (gp_term e)) text"
    and "\<forall>e \<in> set es. look (str_of (gp_abbrev e)) = JStr (str_of (gp_term e))"
  shows "expand_with look (compact_with es text) = expand_with look text"
  using assms
proof (induction es arbitrary: "text")
  case (Cons e es)
  let ?t = "str_of (gp_term e)" and ?a = "str_of (gp_abbrev e)"
  from Cons.prems(1) have g: "good_term ?t" "good_abbrev ?a" "gp_abbrev e = skey ?a" by (simp_all add: good_pair_def)
  let ?s = "replace_term ?t (CHR ''~'' # ?a) [] text"
  have st: "(\<forall>look. look ?a = JStr ?t \<longrightarrow> expand_with look ?s = expand_with look text)
      \<and> (\<forall>u. tilde_ok u text \<and> ?a \<noteq> first_run u \<longrightarrow> tilde_ok u ?s)"
    using replace_step [OF g(1,2), of "text" "[]"] Cons.prems(3) by simp
  have "no_clash es" using Cons.prems(2) by (simp add: no_clash_def)
  moreover have "\<forall>e' \<in> set es. tilde_ok (str_of (gp_term e')) ?s"
    using st Cons.prems(2,3) by (simp add: no_clash_def)
  ultimately have "expand_with look (compact_with es ?s) = expand_with look ?s"
    using Cons.prems(1,4) by (intro Cons.IH) simp_all
  also have "\<dots> = expand_with look text" using st Cons.prems(4) by simp
  finally show ?case by (simp add: compact_with_Cons [OF g(3)])
qed (simp add: compact_with_def)

lemma set_longest_first [simp]: "set (longest_first es) = set es"
  by (simp add: longest_first_def)

lemma longest_first_sorted: "sorted_wrt (\<lambda>e e'. length (str_of (gp_term e')) \<le> length (str_of (gp_term e))) (longest_first es)"
proof -
  have "sorted (map (\<lambda>e. - int (length (str_of (gp_term e)))) (longest_first es))"
    by (simp add: longest_first_def)
  then show ?thesis by (simp add: sorted_map)
qed

definition agrees :: "conv \<Rightarrow> conv \<Rightarrow> bool" where
  \<comment> \<open>what is active in \<open>c\<close>, \<open>d\<close> can expand\<close>
  "agrees c d = (\<forall>e \<in> set (active_pairs c). jm_get (c_reverse d) (gp_abbrev e) = Some (gp_term e))"

lemma meaning_agrees:
  assumes "agrees c d" "e \<in> set (active_pairs c)" "good_pair e"
  shows "meaning d (str_of (gp_abbrev e)) = JStr (str_of (gp_term e))"
proof -
  from assms(3) have k: "gp_term e = skey (str_of (gp_term e))" "gp_abbrev e = skey (str_of (gp_abbrev e))"
    by (simp_all add: good_pair_def)
  from assms(1,2) have "jm_get (c_reverse d) (gp_abbrev e) = Some (gp_term e)" by (simp add: agrees_def)
  then have "jm_get (c_reverse d) (skey (str_of (gp_abbrev e))) = Some (skey (str_of (gp_term e)))"
    by (simp only: k [symmetric])
  then show ?thesis by (simp add: meaning_def)
qed

lemma compact_conv_Inr: "list_all good_pair (active_pairs c) \<Longrightarrow> compact_conv c text = Inr (compact_with (longest_first (active_pairs c)) text)"
  by (auto simp: compact_conv_def list_all_iff good_pair_def) (metis str_of_skey(2))

section \<open>Counting\<close>

definition times_seen :: "conv \<Rightarrow> string \<Rightarrow> nat" where
  "times_seen c t = (case jm_get (c_seen c) t of Some n \<Rightarrow> n | None \<Rightarrow> 0)"

lemma times_seen_count: "times_seen (count_seen u c) t = times_seen c t + (if t = u then 1 else 0)"
  by (simp add: times_seen_def count_seen_def)

lemma times_seen_fold: "distinct us \<Longrightarrow> times_seen (fold count_seen us c) t = times_seen c t + (if t \<in> set us then 1 else 0)"
  by (induction us arbitrary: c) (auto simp: times_seen_count)

lemma times_seen_observe: "times_seen (observe text c) t = times_seen c t + (if t \<in> set (ngrams text) then 1 else 0)"
  by (simp add: observe_def times_seen_fold)

lemma seen_keys_count: "distinct (jm_keys (c_seen c)) \<Longrightarrow> distinct (jm_keys (c_seen (fold count_seen us c)))"
  by (induction us arbitrary: c) (simp_all add: count_seen_def js_map.ok_put)

lemma candidates_iff:
  assumes "distinct (jm_keys (c_seen c))"
  shows "t \<in> set (candidates c) \<longleftrightarrow> MIN_MSGS \<le> times_seen c t \<and> MIN_TERM \<le> length t
    \<and> \<not> jm_has (c_entries c) (skey t) \<and> skey t \<notin> set (c_dropped c)"
proof -
  have "(t, n) \<in> set (c_seen c) \<longleftrightarrow> jm_get (c_seen c) t = Some n" for n
    using assms by (simp add: map_of_eq_Some_iff)
  then show ?thesis
    by (auto simp: candidates_def times_seen_def image_iff MIN_MSGS_def split: option.splits)
qed

section \<open>What is proposed\<close>

lemma runs_good: "w \<in> set (runs P s) \<Longrightarrow> w \<noteq> [] \<and> list_all P w"
proof (induction P s rule: runs.induct)
  case (2 P c s)
  show ?case
  proof (cases "P c")
    case True
    with 2 have "w = takeWhile P (c # s) \<or> w \<noteq> [] \<and> list_all P w" by auto
    with True show ?thesis by (auto simp: list_all_iff dest: set_takeWhileD)
  qed (use 2 in auto)
qed simp

lemma words_good: "w \<in> set (words_of txt) \<Longrightarrow> w \<noteq> [] \<and> list_all is_lower w"
  using runs_good by (auto simp: words_of_def)

lemma join_chars: "set (join sep vs) \<subseteq> set sep \<union> \<Union> (set ` set vs)"
  by (induction sep vs rule: join.induct) auto

lemma join_hd: "w \<noteq> [] \<Longrightarrow> join sep (w # vs) \<noteq> [] \<and> hd (join sep (w # vs)) = hd w"
  by (cases vs) auto

definition worded :: "string \<Rightarrow> bool" where
  "worded t = (t \<noteq> [] \<and> is_lower (hd t) \<and> (\<forall>c \<in> set t. is_lower c \<or> c = CHR '' ''))"

lemma ngrams_words:
  assumes "t \<in> set (ngrams txt)"
  obtains w vs where "t = join '' '' (w # vs)" "set (w # vs) \<subseteq> set (words_of txt)"
proof -
  let ?v = "words_of txt"
  from assms obtain n i where ni: "n \<in> set [1..<MAX_NGRAM + 1]" "i < length ?v + 1 - n" and t: "t = join '' '' (take n (drop i ?v))"
    unfolding ngrams_def Let_def by fastforce
  then obtain w vs where wv: "take n (drop i ?v) = w # vs" by (cases "take n (drop i ?v)") auto
  have "set (w # vs) \<subseteq> set ?v" using wv by (metis set_drop_subset set_take_subset subset_trans)
  with that t wv show thesis by metis
qed

lemma ngrams_worded: "t \<in> set (ngrams txt) \<Longrightarrow> worded t"
proof (elim ngrams_words)
  fix w vs assume t: "t = join '' '' (w # vs)" and sub: "set (w # vs) \<subseteq> set (words_of txt)"
  have w: "u \<noteq> [] \<and> list_all is_lower u" if "u \<in> set (w # vs)" for u using sub that words_good by blast
  then have h: "w \<noteq> []" "is_lower (hd w)" using w [of w] by (cases w; simp)+
  have "is_lower c \<or> c = CHR '' ''" if c: "c \<in> set t" for c
  proof -
    from c join_chars [of "'' ''" "w # vs"] have "c = CHR '' '' \<or> (\<exists>u \<in> set (w # vs). c \<in> set u)"
      unfolding t by auto
    with w show ?thesis by (metis list_all_iff)
  qed
  with h join_hd [of w "'' ''" vs] show "worded t" by (simp add: worded_def t)
qed

lemma split_on_chars: "w \<in> set (split_on d s) \<Longrightarrow> set w \<subseteq> set s - {d}"
proof (induction d s arbitrary: w rule: split_on.induct)
  case (2 d c s)
  show ?case
  proof (cases "c = d")
    case False
    with 2 have "w \<in> set (split_on d s) \<or> (\<exists>u. u \<in> set (split_on d s) \<and> w = c # u) \<or> w = [c]"
      by (cases "split_on d s") auto
    moreover have "set u \<subseteq> set s - {d}" if "u \<in> set (split_on d s)" for u using 2(2) [OF False that] .
    ultimately show ?thesis using False by fastforce
  qed (use 2 in \<open>auto simp: subset_iff\<close>)
qed simp

lemma split_on_hd: "c \<noteq> d \<Longrightarrow> \<exists>w vs. split_on d (c # s) = (c # w) # vs"
  by (cases "split_on d s") auto

lemma abbrev_base_good: "worded t \<Longrightarrow> good_abbrev (abbrev_base t)"
proof -
  assume t: "worded t"
  then obtain c s where cs: "t = c # s" "is_lower c" by (cases t) (auto simp: worded_def)
  have low: "is_lower x" if "w \<in> set (split_on (CHR '' '') t)" "x \<in> set w" for w x
    using split_on_chars [OF that(1)] that(2) t by (auto simp: worded_def)
  from cs(2) have "c \<noteq> CHR '' ''" by (auto simp: is_lower_def code_def)
  with split_on_hd [of c "CHR '' ''" s] cs obtain w vs where sp: "split_on (CHR '' '') t = (c # w) # vs" by auto
  let ?b = "case (c # w) # vs of [u] \<Rightarrow> (case u of [] \<Rightarrow> ''undefined'' | c # cs \<Rightarrow> c # filter (\<lambda>x. \<not> is_vowel x) cs)
      | _ \<Rightarrow> concat (map (take 1) ((c # w) # vs))"
  have b: "?b \<noteq> [] \<and> (\<forall>x \<in> set ?b. is_lower x)"
    using low cs(2) unfolding sp by (cases vs) (auto dest!: in_set_takeD)
  have "abbrev_base t = take MAX_ABBREV ?b" by (simp add: abbrev_base_def sp Let_def)
  with b show ?thesis
    by (auto simp: good_abbrev_def list_all_iff is_alnum_def MAX_ABBREV_def dest: in_set_takeD)
qed

lemma ngrams_good: "t \<in> set (ngrams txt) \<Longrightarrow> good_term t"
proof -
  assume "t \<in> set (ngrams txt)"
  then have w: "worded t" by (rule ngrams_worded)
  moreover have "\<not> is_lower (CHR ''~'')" by (simp add: is_lower_def code_def)
  ultimately show ?thesis by (auto simp: worded_def good_term_def is_alnum_def)
qed

lemma genAbbrev_good: "t \<in> set (ngrams txt) \<Longrightarrow> genAbbrev t r = (a, r') \<Longrightarrow> good_abbrev a"
proof -
  assume "t \<in> set (ngrams txt)" "genAbbrev t r = (a, r')"
  moreover from this obtain j where "a = abbrev_base t \<or> a = abbrev_base t @ nat_str j"
    using gen_loop_spec [of 2 "abbrev_base t" r] by (auto simp: genAbbrev_def Let_def split: if_splits)
  moreover have "list_all is_alnum (nat_str j)" for j
    using nat_str_digits by (simp add: list_all_iff is_alnum_def)
  ultimately show ?thesis
    using abbrev_base_good [OF ngrams_worded] by (auto simp: good_abbrev_def)
qed

section \<open>Properties\<close>

text \<open>C37: what the glossary compacts, a peer that agrees expands to exactly what was said: for every text
  without a tilde, if the active pairs are words as the agent makes them, no abbreviation is the first
  word of a term, and the peer's reverse map has them.\<close>

theorem compact_expand:
  assumes "list_all good_pair (active_pairs c)" "no_clash (active_pairs c)" "agrees c d" "CHR ''~'' \<notin> set txt"
  shows "\<exists>body. compact_conv c txt = Inr body \<and> expand_conv d body = txt"
proof -
  let ?es = "longest_first (active_pairs c)"
  have "expand_with (meaning d) (compact_with ?es txt) = expand_with (meaning d) txt"
  proof (rule compact_with_expand)
    show "list_all good_pair ?es" "no_clash ?es" using assms(1,2) by (simp_all add: list_all_iff no_clash_def)
    show "\<forall>e \<in> set ?es. tilde_ok (str_of (gp_term e)) txt" using tilde_ok_none [OF assms(4)] by simp
    show "\<forall>e \<in> set ?es. meaning d (str_of (gp_abbrev e)) = JStr (str_of (gp_term e))"
      using meaning_agrees [OF assms(3)] assms(1) by (simp add: list_all_iff)
  qed
  also have "\<dots> = txt" using expand_plain [OF assms(4), of "meaning d" "[]"] by simp
  finally show ?thesis by (simp add: compact_conv_Inr [OF assms(1)] expand_conv_def)
qed

text \<open>C39: an abbreviation is never used twice: the search of \<open>genAbbrev\<close> ends, with an abbreviation that is not
  reserved, the first of \<open>base\<close>, \<open>base2\<close>, \<open>base3\<close>, ... that is free, and reserves it.\<close>

theorem genAbbrev_fresh:
  "let (a, r') = genAbbrev t r; b = abbrev_base t in
     skey a \<notin> set r \<and> set r' = insert (skey a) (set r)
     \<and> (a = b \<or> skey b \<in> set r \<and> (\<exists>i \<ge> 2. a = b @ nat_str i \<and> (\<lambda>k. skey (b @ nat_str k)) ` {2..<i} \<subseteq> set r))"
  using genAbbrev_spec [of t r] by (auto simp: Let_def image_subset_iff split: prod.splits)

text \<open>C40: a term is proposed exactly when it is due: after any series of own messages the count of a term is
  the number of messages that contain it, and the terms proposed next are those with at least 2 messages
  and 8 characters that are neither in the glossary nor dropped.\<close>

theorem proposals_due:
  "times_seen (fold observe texts empty_conv) t = length (filter (\<lambda>x. t \<in> set (ngrams x)) texts)
   \<and> t \<in> set (candidates ((fold observe texts empty_conv)\<lparr>c_entries := es, c_dropped := ds\<rparr>)) =
      (2 \<le> length (filter (\<lambda>x. t \<in> set (ngrams x)) texts) \<and> 8 \<le> length t \<and> \<not> jm_has es (skey t) \<and> skey t \<notin> set ds)"
proof -
  have gen: "times_seen (fold observe texts c) t = times_seen c t + length (filter (\<lambda>x. t \<in> set (ngrams x)) texts)" for c
    by (induction texts arbitrary: c) (simp_all add: times_seen_observe)
  have n: "times_seen (fold observe texts empty_conv) t = length (filter (\<lambda>x. t \<in> set (ngrams x)) texts)"
    by (simp add: gen) (simp add: times_seen_def empty_conv_def)
  have "distinct (jm_keys (c_seen (fold observe texts c)))" if "distinct (jm_keys (c_seen c))" for c
    using that by (induction texts arbitrary: c) (simp_all add: observe_def seen_keys_count)
  then have "distinct (jm_keys (c_seen (fold observe texts empty_conv)))" by (simp add: empty_conv_def)
  then have "t \<in> set (candidates ((fold observe texts empty_conv)\<lparr>c_entries := es, c_dropped := ds\<rparr>)) =
      (2 \<le> length (filter (\<lambda>x. t \<in> set (ngrams x)) texts) \<and> 8 \<le> length t \<and> \<not> jm_has es (skey t) \<and> skey t \<notin> set ds)"
    using n by (subst candidates_iff) (simp_all add: times_seen_def MIN_MSGS_def MIN_TERM_def)
  with n show ?thesis by blast
qed

text \<open>what the agent proposes is fit for compaction: every proposed pair is a term of lower-case words and
  an abbreviation of lower-case letters and digits, so that \<open>compact_expand\<close> applies to it, and no two of
  the proposed abbreviations are the same or in use.\<close>

lemma proposals_good:
  assumes "\<forall>t \<in> set (jm_keys (c_seen c)). \<exists>txt. t \<in> set (ngrams txt)" "propose_terms c = (ps, c')"
  shows "list_all (\<lambda>(k, a). k = skey (str_of k) \<and> a = skey (str_of a) \<and> good_term (str_of k) \<and> good_abbrev (str_of a)
      \<and> a \<notin> set (c_reserved c)) ps
    \<and> distinct (map snd ps) \<and> map fst ps = map skey (candidates c) \<and> set (c_reserved c') = set (c_reserved c) \<union> snd ` set ps"
proof -
  have gen: "list_all (\<lambda>(k, a). k = skey (str_of k) \<and> a = skey (str_of a) \<and> good_term (str_of k) \<and> good_abbrev (str_of a)
        \<and> a \<notin> set r) qs
      \<and> distinct (map snd qs) \<and> map fst qs = map skey ts \<and> set r' = set r \<union> snd ` set qs"
    if "gen_all ts r = (qs, r')" "\<forall>t \<in> set ts. \<exists>txt. t \<in> set (ngrams txt)" for ts r qs r'
    using that
  proof (induction ts arbitrary: r qs r')
    case (Cons t ts)
    obtain a r1 where g: "genAbbrev t r = (a, r1)" by (cases "genAbbrev t r")
    obtain qs' where q: "gen_all ts r1 = (qs', r')" "qs = (skey t, skey a) # qs'"
      using Cons.prems(1) by (auto simp: g Let_def split: prod.splits)
    from Cons.prems(2) have gt: "good_term t" "good_abbrev a"
      using ngrams_good genAbbrev_good [OF _ g] by auto
    from genAbbrev_spec [of t r] have f: "skey a \<notin> set r" "set r1 = insert (skey a) (set r)"
      by (simp_all add: g Let_def)
    from Cons.IH [OF q(1)] Cons.prems(2) f gt show ?case
      by (auto simp: q(2) list_all_iff image_iff)
  qed simp
  obtain qs r where g: "gen_all (candidates c) (c_reserved c) = (qs, r)" by (cases "gen_all (candidates c) (c_reserved c)")
  have keep: "c_reserved (fold set_proposed qs d) = c_reserved d" for d :: conv and qs
    by (induction qs arbitrary: d) (simp_all add: set_proposed_def)
  have "\<forall>t \<in> set (candidates c). \<exists>txt. t \<in> set (ngrams txt)" using assms(1) by (auto simp: candidates_def)
  from gen [OF g this] assms(2) show ?thesis by (auto simp: propose_terms_def g keep)
qed

section \<open>Concrete conversations\<close>

definition demo_conv :: conv where
  "demo_conv = set_active (skey ''negotiation'') (skey ''ngtt'') (set_active (skey ''round trip'') (skey ''rt'') empty_conv)"

lemma demo_pairs: "active_pairs demo_conv =
    [\<lparr>gp_term = skey ''round trip'', gp_abbrev = skey ''rt'', gp_state = Active\<rparr>,
     \<lparr>gp_term = skey ''negotiation'', gp_abbrev = skey ''ngtt'', gp_state = Active\<rparr>]"
  by (simp add: demo_conv_def active_pairs_def set_active_def empty_conv_def)

lemma compact_expand_witness:
  "\<exists>body. compact_conv demo_conv ''the negotiation: a round trip'' = Inr body
     \<and> expand_conv demo_conv body = ''the negotiation: a round trip''"
proof (rule compact_expand)
  show "list_all good_pair (active_pairs demo_conv)" "no_clash (active_pairs demo_conv)"
    by (simp_all add: demo_pairs good_pair_def good_term_def good_abbrev_def no_clash_def first_run_def
        is_alnum_def is_lower_def is_digit_def code_def)
  show "agrees demo_conv demo_conv" unfolding agrees_def demo_pairs
    by (simp add: demo_conv_def set_active_def empty_conv_def)
qed simp

lemma proposals_good_witness:
  "distinct (map snd (fst (propose_terms (observe ''again negotiation'' (observe ''negotiation'' empty_conv)))))"
proof -
  let ?c = "observe ''again negotiation'' (observe ''negotiation'' empty_conv)"
  have keys: "set (jm_keys (c_seen (observe x c))) = set (jm_keys (c_seen c)) \<union> set (ngrams x)" for x c
  proof -
    have "set (jm_keys (c_seen (fold count_seen us d))) = set (jm_keys (c_seen d)) \<union> set us" for us d
      by (induction us arbitrary: d) (simp_all add: count_seen_def js_map.keys_put del: set_map)
    then show ?thesis by (simp add: observe_def)
  qed
  obtain ps c' where p: "propose_terms ?c = (ps, c')" by (cases "propose_terms ?c")
  have "\<forall>t \<in> set (jm_keys (c_seen ?c)). \<exists>txt. t \<in> set (ngrams txt)"
    unfolding keys by (auto simp: empty_conv_def simp del: set_map)
  from proposals_good [OF this p] show ?thesis by (simp add: p)
qed

end
