(* ===== verification/Gloss_Negotiate.thy ===== *)
theory Gloss_Negotiate
  imports Gloss_Fidelity
begin

text \<open>
  The negotiation: what a proposal and its ack leave behind on both sides, dropped terms, glossaries that
  are saved and loaded, and where two agents come apart.
\<close>

section \<open>Proposals and acks\<close>

definition entry_at :: "conv \<Rightarrow> string \<Rightarrow> (string \<times> pair_state) option" where
  "entry_at c t = map_option (\<lambda>e. (str_of (gp_abbrev e), gp_state e)) (jm_get (c_entries c) (skey t))"

definition wire_pairs :: "(string \<times> string) list \<Rightarrow> json list" where
  "wire_pairs ps = map (\<lambda>(t, a). JArr [JStr t, JStr a]) ps"

text \<open>The abbreviations of the terms are strings, and an active one leads back to its term.\<close>

definition conv_ok :: "conv \<Rightarrow> bool" where
  "conv_ok c = (\<forall>t e. jm_get (c_entries c) (skey t) = Some e \<longrightarrow>
     gp_term e = skey t \<and> gp_abbrev e = skey (str_of (gp_abbrev e))
     \<and> (gp_state e = Active \<longrightarrow> jm_get (c_reverse c) (gp_abbrev e) = Some (skey t)))"

lemma gkey_of_str [simp]: "gkey_of r (JStr s) = skey s"
  by (simp add: gkey_of_def is_ref_def)

lemma elem_pair [simp]: "elem [a, b] 0 = a" "elem [a, b] (Suc 0) = b"
  by (simp_all add: elem_def)

lemma iterate_arr [simp]: "iterate (JArr vs) = Inr vs"
  by (simp add: iterate_def)

definition answer :: "conv \<Rightarrow> string \<times> string \<Rightarrow> string \<times> string" where
  \<comment> \<open>what the peer acks a proposed pair with\<close>
  "answer c p = (case entry_at c (fst p) of Some (b, Active) \<Rightarrow> (fst p, b) | _ \<Rightarrow> p)"

definition skeys :: "string \<times> string \<Rightarrow> gkey \<times> gkey" where
  "skeys p = (skey (fst p), skey (snd p))"

lemma state_at_entry: "state_at c (skey t) = map_option snd (entry_at c t)"
  by (simp add: state_at_def entry_at_def option.map_comp comp_def)

lemma entry_set_active: "entry_at (set_active (skey t) (skey a) c) u = (if u = t then Some (a, Active) else entry_at c u)"
  by (simp add: entry_at_def set_active_def)

definition free_for :: "conv \<Rightarrow> string \<times> string \<Rightarrow> bool" where
  \<comment> \<open>no other term is active under the abbreviation of the pair\<close>
  "free_for c p = (\<forall>u. entry_at c u = Some (snd p, Active) \<longrightarrow> u = fst p)"

lemma conv_ok_set_active:
  assumes "conv_ok c" "free_for c (t, a)"
  shows "conv_ok (set_active (skey t) (skey a) c)"
  unfolding conv_ok_def
proof (intro allI impI)
  fix u e assume g: "jm_get (c_entries (set_active (skey t) (skey a) c)) (skey u) = Some e"
  show "gp_term e = skey u \<and> gp_abbrev e = skey (str_of (gp_abbrev e))
     \<and> (gp_state e = Active \<longrightarrow> jm_get (c_reverse (set_active (skey t) (skey a) c)) (gp_abbrev e) = Some (skey u))"
  proof (cases "u = t")
    case True
    with g show ?thesis by (auto simp: set_active_def)
  next
    case False
    with g have e: "jm_get (c_entries c) (skey u) = Some e" by (simp add: set_active_def split: if_splits)
    with assms(1) have ok: "gp_term e = skey u" "gp_abbrev e = skey (str_of (gp_abbrev e))"
      "gp_state e = Active \<longrightarrow> jm_get (c_reverse c) (gp_abbrev e) = Some (skey u)"
      by (simp_all add: conv_ok_def)
    have "gp_abbrev e \<noteq> skey a" if "gp_state e = Active"
      using assms(2) e that False by (auto simp: free_for_def entry_at_def)
    with ok show ?thesis by (simp add: set_active_def)
  qed
qed

definition accept :: "string \<times> string \<Rightarrow> conv \<Rightarrow> conv" where
  "accept p d = (case entry_at d (fst p) of Some (b, Active) \<Rightarrow> d | _ \<Rightarrow> set_active (skey (fst p)) (skey (snd p)) d)"

definition adopt :: "string \<times> string \<Rightarrow> conv \<Rightarrow> conv" where
  "adopt p c = (case entry_at c (fst p) of Some (b, Proposed) \<Rightarrow> set_active (skey (fst p)) (skey (snd p)) c | _ \<Rightarrow> c)"

lemma entry_accept: "entry_at (accept p d) u = (if u = fst p then Some (snd (answer d p), Active) else entry_at d u)"
  by (auto simp: accept_def answer_def entry_set_active split: option.splits pair_state.splits)

lemma entry_adopt:
  "entry_at (adopt p c) u = (if u = fst p \<and> map_option snd (entry_at c u) = Some Proposed then Some (snd p, Active) else entry_at c u)"
  by (auto simp: adopt_def entry_set_active split: option.splits pair_state.splits)

lemma conv_ok_accept: "conv_ok d \<Longrightarrow> free_for d (answer d p) \<Longrightarrow> conv_ok (accept p d)"
  using conv_ok_set_active [of d "fst p" "snd p"]
  by (auto simp: accept_def answer_def split: option.splits pair_state.splits)

lemma conv_ok_adopt: "conv_ok c \<Longrightarrow> free_for c p \<Longrightarrow> conv_ok (adopt p c)"
  using conv_ok_set_active [of c "fst p" "snd p"] by (auto simp: adopt_def split: option.splits pair_state.splits)

lemma answer_abbrev:
  "conv_ok d \<Longrightarrow> state_at d (skey t) = Some Active
     \<Longrightarrow> (skey t, gp_abbrev (the (jm_get (c_entries d) (skey t)))) = skeys (answer d (t, a)) \<and> accept (t, a) d = d"
  by (auto simp: state_at_def conv_ok_def answer_def entry_at_def skeys_def accept_def)

lemma answer_other:
  "state_at d (skey t) \<noteq> Some Active \<Longrightarrow> answer d (t, a) = (t, a) \<and> accept (t, a) d = set_active (skey t) (skey a) d"
  by (auto simp: state_at_entry answer_def accept_def split: option.splits pair_state.splits)

lemma answer_accept: "fst q \<noteq> fst p \<Longrightarrow> answer (accept p d) q = answer d q"
  by (simp add: answer_def entry_accept)

lemma free_accept: "free_for d q \<Longrightarrow> fst q \<noteq> fst p \<Longrightarrow> snd q \<noteq> snd (answer d p) \<Longrightarrow> free_for (accept p d) q"
  by (auto simp: free_for_def entry_accept)

lemma fst_answer [simp]: "fst (answer d p) = fst p"
  by (auto simp: answer_def split: option.splits pair_state.splits)

lemma distinct_map_hd: "distinct (map f (x # xs)) \<Longrightarrow> y \<in> set xs \<Longrightarrow> f y \<noteq> f x"
  by (metis distinct.simps(2) image_eqI list.set_map list.simps(9))

lemma propose_loop_pairs:
  assumes "distinct (map fst ps)" "distinct (map (\<lambda>p. snd (answer d p)) ps)" "conv_ok d" "\<forall>p \<in> set ps. free_for d (answer d p)"
  shows "propose_loop (wire_pairs ps) r d ack = (None, r + 2 * length ps, fold accept ps d, ack @ map (skeys \<circ> answer d) ps)
    \<and> conv_ok (fold accept ps d)
    \<and> (\<forall>p \<in> set ps. entry_at (fold accept ps d) (fst p) = Some (snd (answer d p), Active))
    \<and> (\<forall>u. u \<notin> fst ` set ps \<longrightarrow> entry_at (fold accept ps d) u = entry_at d u)"
  using assms
proof (induction ps arbitrary: r d ack)
  case (Cons p ps)
  obtain t a where p: "p = (t, a)" by (cases p)
  have other: "answer (accept p d) q = answer d q" if "q \<in> set ps" for q
    using Cons.prems(1) that by (intro answer_accept) (auto simp: image_iff)
  have step: "propose_loop (wire_pairs (p # ps)) r d ack = propose_loop (wire_pairs ps) (r + 2) (accept p d) (ack @ [skeys (answer d p)])"
    using answer_abbrev [OF Cons.prems(3), of t a] answer_other [of d t a]
    by (auto simp: p wire_pairs_def Let_def skeys_def)
  have "distinct (map fst ps)" using Cons.prems(1) by simp
  moreover have "map (\<lambda>q. snd (answer (accept p d) q)) ps = map (\<lambda>q. snd (answer d q)) ps"
    using other by simp
  then have "distinct (map (\<lambda>q. snd (answer (accept p d) q)) ps)" using Cons.prems(2) by (simp only: list.map distinct.simps)
  moreover have "conv_ok (accept p d)" using Cons.prems(3,4) by (simp add: conv_ok_accept)
  moreover have "free_for (accept p d) (answer (accept p d) q)" if q: "q \<in> set ps" for q
  proof -
    have "fst q \<noteq> fst p" "snd (answer d q) \<noteq> snd (answer d p)"
      using distinct_map_hd [OF Cons.prems(1) q] distinct_map_hd [OF Cons.prems(2) q] by auto
    with free_accept [of d "answer d q" p] Cons.prems(4) q other [OF q] show ?thesis by simp
  qed
  ultimately have IH: "propose_loop (wire_pairs ps) (r + 2) (accept p d) (ack @ [skeys (answer d p)])
        = (None, r + 2 + 2 * length ps, fold accept ps (accept p d), (ack @ [skeys (answer d p)]) @ map (skeys \<circ> answer (accept p d)) ps)"
      "conv_ok (fold accept ps (accept p d))"
      "\<forall>q \<in> set ps. entry_at (fold accept ps (accept p d)) (fst q) = Some (snd (answer (accept p d) q), Active)"
      "\<forall>u. u \<notin> fst ` set ps \<longrightarrow> entry_at (fold accept ps (accept p d)) u = entry_at (accept p d) u"
    using Cons.IH [of "accept p d" "r + 2" "ack @ [skeys (answer d p)]"] by blast+
  show ?case
    using IH other Cons.prems(1) by (auto simp: step entry_accept)
qed (simp add: wire_pairs_def)

lemma ack_loop_pairs:
  assumes "distinct (map fst qs)" "distinct (map snd qs)" "conv_ok c" "\<forall>q \<in> set qs. free_for c q"
  shows "ack_loop (wire_pairs qs) r c = (None, r + 2 * length qs, fold adopt qs c) \<and> conv_ok (fold adopt qs c)
    \<and> (\<forall>q \<in> set qs. map_option snd (entry_at c (fst q)) = Some Proposed \<longrightarrow> entry_at (fold adopt qs c) (fst q) = Some (snd q, Active))
    \<and> (\<forall>u. u \<notin> fst ` set qs \<or> map_option snd (entry_at c u) \<noteq> Some Proposed \<longrightarrow> entry_at (fold adopt qs c) u = entry_at c u)"
  using assms
proof (induction qs arbitrary: r c)
  case (Cons q qs)
  obtain t a where q: "q = (t, a)" by (cases q)
  have step: "ack_loop (wire_pairs (q # qs)) r c = ack_loop (wire_pairs qs) (r + 2) (adopt q c)"
    by (auto simp: q wire_pairs_def Let_def adopt_def state_at_entry split: option.splits pair_state.splits)
  have "conv_ok (adopt q c)" using Cons.prems by (simp add: conv_ok_adopt)
  moreover have "\<forall>q' \<in> set qs. free_for (adopt q c) q'"
    using Cons.prems(1,2,4) by (auto simp: free_for_def entry_adopt image_iff split: if_splits)
  ultimately have IH: "ack_loop (wire_pairs qs) (r + 2) (adopt q c) = (None, r + 2 + 2 * length qs, fold adopt qs (adopt q c))"
      "conv_ok (fold adopt qs (adopt q c))"
      "\<forall>q' \<in> set qs. map_option snd (entry_at (adopt q c) (fst q')) = Some Proposed
         \<longrightarrow> entry_at (fold adopt qs (adopt q c)) (fst q') = Some (snd q', Active)"
      "\<forall>u. u \<notin> fst ` set qs \<or> map_option snd (entry_at (adopt q c) u) \<noteq> Some Proposed
         \<longrightarrow> entry_at (fold adopt qs (adopt q c)) u = entry_at (adopt q c) u"
    using Cons.IH [of "adopt q c" "r + 2"] Cons.prems(1,2) by simp_all
  have u: "u \<noteq> fst q" if "u \<in> fst ` set qs" for u using distinct_map_hd [OF Cons.prems(1)] that by auto
  have "entry_at (fold adopt qs (adopt q c)) (fst q') = Some (snd q', Active)"
    if "q' \<in> set (q # qs)" "map_option snd (entry_at c (fst q')) = Some Proposed" for q'
    using that IH(3,4) u [of "fst q'"] u [of "fst q"] by (cases "q' = q") (auto simp: entry_adopt)
  moreover have "entry_at (fold adopt qs (adopt q c)) v = entry_at c v"
    if "v \<notin> fst ` set (q # qs) \<or> map_option snd (entry_at c v) \<noteq> Some Proposed" for v
    using that IH(4) u [of v] by (auto simp: entry_adopt split: if_splits)
  ultimately show ?case using IH(1,2) by (simp add: step)
qed (simp add: wire_pairs_def)

lemma pairs_on_the_wire: "pairs_json (map skeys ps) = JArr (wire_pairs ps)"
  by (auto simp: pairs_json_def wire_pairs_def skeys_def)

lemma meaning_ok: "conv_ok c \<Longrightarrow> entry_at c t = Some (b, Active) \<Longrightarrow> meaning c b = JStr t"
  by (auto simp: conv_ok_def entry_at_def meaning_def)

section \<open>Saving\<close>

text \<open>A conversation whose active pairs are strings, under the names of its entries.\<close>

definition savable :: "conv \<Rightarrow> bool" where
  "savable c = (distinct (jm_keys (c_entries c)) \<and> (\<forall>(k, e) \<in> set (c_entries c). gp_state e = Active \<longrightarrow>
     gp_term e = k \<and> k = skey (str_of k) \<and> gp_abbrev e = skey (str_of (gp_abbrev e)) \<and> str_of k \<noteq> ''__proto__''))"

definition bound :: "conv \<Rightarrow> string \<Rightarrow> string option" where
  \<comment> \<open>the abbreviation a term is active under\<close>
  "bound c t = (case entry_at c t of Some (b, Active) \<Rightarrow> Some b | _ \<Rightarrow> None)"

lemma fold_assign:
  assumes "\<forall>e \<in> set es. f e \<noteq> ''__proto__''" "distinct (map f es)"
  shows "map_of (fold (\<lambda>e. obj_assign (f e) (h e)) es ps) t =
      (case find (\<lambda>e. f e = t) es of Some e \<Rightarrow> Some (h e) | None \<Rightarrow> map_of ps t)"
    and "obj_ok ps \<Longrightarrow> jok_props ps \<Longrightarrow> \<forall>e \<in> set es. jok (h e) \<Longrightarrow>
      obj_ok (fold (\<lambda>e. obj_assign (f e) (h e)) es ps) \<and> jok_props (fold (\<lambda>e. obj_assign (f e) (h e)) es ps)"
proof -
  show "map_of (fold (\<lambda>e. obj_assign (f e) (h e)) es ps) t =
      (case find (\<lambda>e. f e = t) es of Some e \<Rightarrow> Some (h e) | None \<Rightarrow> map_of ps t)"
    using assms
  proof (induction es arbitrary: ps)
    case (Cons e es)
    have "find (\<lambda>e. f e = t) es = None" if "f e = t"
      using Cons.prems(2) that by (auto simp: find_None_iff image_iff)
    with Cons show ?case by (auto simp: obj_assign_def split: option.splits)
  qed simp
  show "obj_ok (fold (\<lambda>e. obj_assign (f e) (h e)) es ps) \<and> jok_props (fold (\<lambda>e. obj_assign (f e) (h e)) es ps)"
    if "obj_ok ps" "jok_props ps" "\<forall>e \<in> set es. jok (h e)"
    using that by (induction es arbitrary: ps) (simp_all add: obj_assign_def obj_ok_put jok_props_put)
qed

lemma active_pairs_iff: "e \<in> set (active_pairs c) \<longleftrightarrow> e \<in> snd ` set (c_entries c) \<and> gp_state e = Active"
  by (simp add: active_pairs_def)

lemma active_pairs_terms:
  "\<forall>p \<in> set m. gp_state (snd p) = Active \<longrightarrow> gp_term (snd p) = fst p \<Longrightarrow>
     map gp_term (filter (\<lambda>e. gp_state e = Active) (map snd m)) = map fst (filter (\<lambda>p. gp_state (snd p) = Active) m)"
  by (induction m) auto

lemma active_object_savable:
  assumes "savable c"
  shows "map_of (active_object c) t = map_option JStr (bound c t)" "obj_ok (active_object c)" "jok_props (active_object c)"
proof -
  let ?es = "active_pairs c" and ?f = "\<lambda>e. js_String (snd (gp_term e))" and ?h = "\<lambda>e. snd (gp_abbrev e)"
  have e: "gp_term e = skey (?f e) \<and> gp_abbrev e = skey (str_of (gp_abbrev e)) \<and> ?f e \<noteq> ''__proto__'' \<and> (skey (?f e), e) \<in> set (c_entries c)"
    if "e \<in> set ?es" for e
  proof -
    from that obtain p where "p \<in> set (c_entries c)" "e = snd p" "gp_state e = Active" by (auto simp: active_pairs_iff)
    moreover define k where "k = fst p"
    ultimately have k: "(k, e) \<in> set (c_entries c)" "gp_state e = Active" by simp_all
    with assms have s: "gp_term e = k" "k = skey (str_of k)" "gp_abbrev e = skey (str_of (gp_abbrev e))" "str_of k \<noteq> ''__proto__''"
      by (auto simp: savable_def)
    from s(1,2) have "gp_term e = skey (str_of k)" by simp
    then have "?f e = str_of k" by simp
    with s k(1) show ?thesis by simp
  qed
  have "map gp_term ?es = map fst (filter (\<lambda>p. gp_state (snd p) = Active) (c_entries c))"
    unfolding active_pairs_def using assms by (intro active_pairs_terms) (auto simp: savable_def)
  then have "distinct (map gp_term ?es)" using assms by (simp add: savable_def distinct_map_filter)
  then have inj: "distinct ?es" "inj_on gp_term (set ?es)" by (simp_all add: distinct_map)
  have "inj_on ?f (set ?es)"
  proof (rule inj_onI)
    fix x y assume xy: "x \<in> set ?es" "y \<in> set ?es" "?f x = ?f y"
    have "gp_term x = skey (?f x)" "gp_term y = skey (?f y)" using e [OF xy(1)] e [OF xy(2)] by blast+
    then have "gp_term x = gp_term y" unfolding xy(3) by (rule trans [OF _ sym])
    with inj(2) xy(1,2) show "x = y" by (simp add: inj_on_eq_iff)
  qed
  with inj(1) have d: "distinct (map ?f ?es)" by (simp add: distinct_map)
  have np: "\<forall>e \<in> set ?es. ?f e \<noteq> ''__proto__''" using e by blast
  have h: "?h x = JStr (str_of (gp_abbrev x))" if "x \<in> set ?es" for x
  proof -
    from e [OF that] have "gp_abbrev x = skey (str_of (gp_abbrev x))" by blast
    from arg_cong [OF this, of snd] show ?thesis by simp
  qed
  have jk: "\<forall>e \<in> set ?es. jok (?h e)" by (simp add: h)
  show "obj_ok (active_object c)" "jok_props (active_object c)"
    using fold_assign(2) [OF np d, of "[]" ?h] jk by (simp_all add: active_object_def)
  have get: "jm_get (c_entries c) k = Some e \<longleftrightarrow> (k, e) \<in> set (c_entries c)" for k e
    using assms by (simp add: savable_def)
  show "map_of (active_object c) t = map_option JStr (bound c t)"
  proof (cases "find (\<lambda>e. ?f e = t) ?es")
    case None
    have "bound c t = None"
    proof (rule ccontr)
      assume "bound c t \<noteq> None"
      then obtain x where x: "jm_get (c_entries c) (skey t) = Some x" "gp_state x = Active"
        by (auto simp: bound_def entry_at_def split: option.splits pair_state.splits)
      from x have "x \<in> set ?es" unfolding get active_pairs_iff by force
      moreover have "gp_term x = skey t" using x get assms by (auto simp: savable_def)
      ultimately show False using None by (auto simp: find_None_iff)
    qed
    with None show ?thesis by (simp add: active_object_def fold_assign(1) [OF np d])
  next
    case (Some x)
    then have x: "x \<in> set ?es" "?f x = t" by (auto simp: find_Some_iff)
    then have "(skey t, x) \<in> set (c_entries c)" using e [of x] by simp
    then have "jm_get (c_entries c) (skey t) = Some x" by (simp only: get)
    moreover note h [OF x(1)]
    moreover have "gp_state x = Active" using x(1) by (simp only: active_pairs_iff)
    ultimately show ?thesis
      using Some by (simp add: active_object_def fold_assign(1) [OF np d] bound_def entry_at_def)
  qed
qed

lemma bound_set_active: "bound (set_active (skey t) a c) u = (if u = t then Some (str_of a) else bound c u)"
  by (simp add: bound_def entry_at_def set_active_def)

lemma bound_load_terms:
  assumes "distinct (map fst ts)" "\<forall>(t, a) \<in> set ts. \<exists>s. a = JStr s"
  shows "bound (load_terms ts r c) u = (case map_of ts u of Some a \<Rightarrow> Some (str_of (0, a)) | None \<Rightarrow> bound c u)"
  using assms
proof (induction ts arbitrary: r c)
  case (Cons p ts)
  obtain t a where p: "p = (t, a)" by (cases p)
  with Cons.prems obtain s where a: "a = JStr s" by auto
  have "map_of ts t = None" using Cons.prems(1) by (auto simp: p map_of_eq_None_iff)
  with Cons show ?case by (auto simp: p a bound_set_active split: option.splits)
qed simp

lemma conv_of_put: "conv_of key (put_conv k c g) = (if key = k then c else conv_of key g)"
  by (simp add: conv_of_def put_conv_def)

lemma conv_of_refs [simp]: "conv_of key (g\<lparr>g_refs := r\<rparr>) = conv_of key g"
  by (simp add: conv_of_def)

lemma load_convs_objects:
  assumes "distinct (map fst cs)" "\<forall>(key, v) \<in> set cs. \<exists>ts. v = JObj ts"
  shows "\<exists>g'. load_convs cs g = (None, g') \<and> (\<forall>key. case map_of cs key of
      Some (JObj ts) \<Rightarrow> \<exists>r. conv_of key g' = load_terms ts r (conv_of key g) | _ \<Rightarrow> conv_of key g' = conv_of key g)"
  using assms
proof (induction cs arbitrary: g)
  case (Cons p cs)
  obtain k v where p: "p = (k, v)" by (cases p)
  with Cons.prems obtain ts where v: "v = JObj ts" by auto
  have oe: "object_entries v = Inr ts" by (simp add: v object_entries_def nullish_def own_props_def)
  let ?g = "(put_conv k (load_terms ts (g_refs g) (conv_of k g)) g)\<lparr>g_refs := g_refs g + length ts\<rparr>"
  from Cons.IH [of ?g] Cons.prems obtain g' where g': "load_convs cs ?g = (None, g')"
      "\<And>key. case map_of cs key of Some (JObj ts) \<Rightarrow> \<exists>r. conv_of key g' = load_terms ts r (conv_of key ?g) | _ \<Rightarrow> conv_of key g' = conv_of key ?g"
    by auto
  have none: "map_of cs k = None" using Cons.prems(1) by (auto simp: p map_of_eq_None_iff)
  have "case map_of (p # cs) key of Some (JObj ts) \<Rightarrow> \<exists>r. conv_of key g' = load_terms ts r (conv_of key g) | _ \<Rightarrow> conv_of key g' = conv_of key g" for key
    using g'(2) [of key] none by (cases "key = k") (auto simp: p v conv_of_put split: option.splits json.splits)
  with g'(1) oe show ?case by (auto simp: p)
qed (simp split: option.splits)

definition saved :: "gloss \<Rightarrow> (string \<times> json) list" where
  \<comment> \<open>the object \<open>serialize\<close> prints\<close>
  "saved g = fold (\<lambda>(key, c) out. if active_object c \<noteq> [] then obj_assign key (JObj (active_object c)) out else out) (g_convs g) []"

lemma saved_get:
  assumes "distinct (jm_keys m)" "\<forall>(key, c) \<in> set m. key \<noteq> ''__proto__'' \<and> savable c"
  shows "map_of (fold (\<lambda>(key, c) out. if active_object c \<noteq> [] then obj_assign key (JObj (active_object c)) out else out) m ps) key =
      (case map_of m key of Some c \<Rightarrow> if active_object c \<noteq> [] then Some (JObj (active_object c)) else map_of ps key | None \<Rightarrow> map_of ps key)"
    and "obj_ok ps \<Longrightarrow> jok_props ps \<Longrightarrow>
      jok (JObj (fold (\<lambda>(key, c) out. if active_object c \<noteq> [] then obj_assign key (JObj (active_object c)) out else out) m ps))"
proof -
  let ?f = "\<lambda>(key, c) out. if active_object c \<noteq> [] then obj_assign key (JObj (active_object c)) out else out"
  show "map_of (fold ?f m ps) key =
      (case map_of m key of Some c \<Rightarrow> if active_object c \<noteq> [] then Some (JObj (active_object c)) else map_of ps key | None \<Rightarrow> map_of ps key)"
    using assms
  proof (induction m arbitrary: ps)
    case (Cons p m)
    obtain k c where p: "p = (k, c)" by (cases p)
    have "map_of m k = None" using Cons.prems(1) by (auto simp: p map_of_eq_None_iff)
    with Cons show ?case by (auto simp: p obj_assign_def split: option.splits)
  qed simp
  show "jok (JObj (fold ?f m ps))" if "obj_ok ps" "jok_props ps"
    using that assms(2) by (induction m arbitrary: ps) (auto simp: obj_assign_def obj_ok_put jok_props_put active_object_savable)
qed

lemma bound_empty [simp]: "bound empty_conv t = None"
  by (simp add: bound_def entry_at_def empty_conv_def)

section \<open>Properties\<close>

text \<open>C38: a proposal and its ack make both sides agree: after the peer has handled the proposal and the
  proposer the peer's ack, every proposed term is active on both sides under the same abbreviation, the
  peer's own if it had one, and either side expands that abbreviation to the term, unless some other term
  was already active under it.\<close>

theorem negotiation_agrees:
  assumes "conv_ok c" "conv_ok d" "distinct (map fst ps)" "distinct (map (\<lambda>p. snd (answer d p)) ps)"
    and "\<forall>p \<in> set ps. map_option snd (entry_at c (fst p)) = Some Proposed"
    and "\<forall>p \<in> set ps. free_for c (answer d p) \<and> free_for d (answer d p)"
    and "propose_loop (wire_pairs ps) r d [] = (x, r', d', ack)" "pairs_json ack = JArr es" "ack_loop es r2 c = (y, r3, c')"
  shows "x = None \<and> y = None \<and> conv_ok c' \<and> conv_ok d'
    \<and> (\<forall>p \<in> set ps. \<exists>b. b = snd (answer d p) \<and> entry_at c' (fst p) = Some (b, Active) \<and> entry_at d' (fst p) = Some (b, Active)
         \<and> meaning c' b = JStr (fst p) \<and> meaning d' b = JStr (fst p))"
proof -
  have P: "x = None" "ack = map skeys (map (answer d) ps)" "conv_ok d'"
      "\<forall>p \<in> set ps. entry_at d' (fst p) = Some (snd (answer d p), Active)"
    using propose_loop_pairs [of ps d r "[]"] assms(2-4,6,7) by auto
  from assms(8) have es: "es = wire_pairs (map (answer d) ps)" unfolding P(2) pairs_on_the_wire by simp
  have "distinct (map fst (map (answer d) ps))" "distinct (map snd (map (answer d) ps))"
    using assms(3,4) by (simp_all add: comp_def)
  from ack_loop_pairs [OF this assms(1), of r2] assms(5,6,9) es
  have A: "y = None" "conv_ok c'" "\<forall>p \<in> set ps. entry_at c' (fst p) = Some (snd (answer d p), Active)"
    by auto
  from P A show ?thesis by (auto intro: meaning_ok)
qed

text \<open>A saved glossary comes back: what \<open>serialize\<close> prints, \<open>load\<close> restores in a new agent without an
  error, each active term of each conversation under the abbreviation it had, and nothing else active.\<close>

lemma load_serialize:
  assumes "distinct (jm_keys (g_convs g))" "\<forall>(key, c) \<in> set (g_convs g). key \<noteq> ''__proto__'' \<and> savable c"
  shows "\<exists>g'. load (serialize g) new_gloss = (None, g') \<and> (\<forall>key t. bound (conv_of key g') t = bound (conv_of key g) t)"
proof -
  let ?o = "saved g"
  have jo: "jok (JObj ?o)" using saved_get(2) [OF assms, of "[]"] by (simp add: saved_def)
  have get: "map_of ?o key = (case map_of (g_convs g) key of
      Some c \<Rightarrow> if active_object c \<noteq> [] then Some (JObj (active_object c)) else None | None \<Rightarrow> None)" for key
    using saved_get(1) [OF assms, of "[]" key] by (simp add: saved_def split: option.splits)
  have d: "distinct (map fst ?o)" using jo by (simp add: obj_ok_def)
  have objs: "\<forall>(key, v) \<in> set ?o. \<exists>ts. v = JObj ts"
  proof (clarify)
    fix key v assume "(key, v) \<in> set ?o"
    from map_of_is_SomeI [OF d this] show "\<exists>ts. v = JObj ts"
      by (auto simp add: get split: option.splits if_splits)
  qed
  have s: "serialize g = json_text (JObj ?o)" by (simp add: serialize_def saved_def)
  have "bind_result (json_parse (serialize g)) object_entries = Inr ?o"
    unfolding s json_parse_text_ok [OF jo] by (simp add: object_entries_def nullish_def own_props_def)
  then have l: "load (serialize g) new_gloss = load_convs ?o new_gloss" by (simp add: load_def)
  from load_convs_objects [OF d objs, of new_gloss] obtain g' where g': "load_convs ?o new_gloss = (None, g')"
      "\<And>key. case map_of ?o key of Some (JObj ts) \<Rightarrow> \<exists>r. conv_of key g' = load_terms ts r (conv_of key new_gloss)
        | _ \<Rightarrow> conv_of key g' = conv_of key new_gloss" by auto
  have new: "conv_of key new_gloss = empty_conv" for key by (simp add: conv_of_def new_gloss_def)
  have "bound (conv_of key g') t = bound (conv_of key g) t" for key t
  proof (cases "map_of (g_convs g) key")
    case None
    then show ?thesis using g'(2) [of key] by (simp add: get new conv_of_def [of key g])
  next
    case (Some c)
    then have c: "savable c" "conv_of key g = c" using assms(2) by (auto simp: conv_of_def dest: map_of_SomeD)
    note a = active_object_savable [OF c(1)]
    show ?thesis
    proof (cases "active_object c = []")
      case True
      with a(1) [of t] have "bound c t = None" by simp
      with True Some c g'(2) [of key] show ?thesis by (simp add: get new)
    next
      case False
      with Some g'(2) [of key] obtain r where r: "conv_of key g' = load_terms (active_object c) r empty_conv"
        by (auto simp: get new)
      have dd: "distinct (map fst (active_object c))" using a(2) by (simp add: obj_ok_def)
      have strs: "\<forall>(t, v) \<in> set (active_object c). \<exists>s. v = JStr s"
      proof (clarify)
        fix u v assume "(u, v) \<in> set (active_object c)"
        from map_of_is_SomeI [OF dd this] show "\<exists>s. v = JStr s" by (auto simp: a(1))
      qed
      show ?thesis
        unfolding r bound_load_terms [OF dd strs] c(2) a(1) by (cases "bound c t") (simp_all add: str_of_def)
    qed
  qed
  with l g'(1) show ?thesis by auto
qed

text \<open>A dropped term is gone for good on the side that drops it: it is no longer active nor expanded, and
  however often it is said afterwards it is never proposed again.\<close>

lemma dropped_for_good:
  assumes "conv_ok c" "entry_at c t = Some (a, Active)"
  shows "let c' = deactivate [skey a] c in
     entry_at c' t = None \<and> meaning c' a = JUndef \<and> t \<notin> set (candidates (fold observe texts c'))
     \<and> (\<forall>u. u \<noteq> t \<longrightarrow> entry_at c' u = entry_at c u)"
proof -
  from assms obtain e where e: "jm_get (c_entries c) (skey t) = Some e" "gp_state e = Active" "str_of (gp_abbrev e) = a"
    by (auto simp: entry_at_def)
  with assms(1) have "gp_abbrev e = skey a" "jm_get (c_reverse c) (gp_abbrev e) = Some (skey t)"
    by (auto simp: conv_ok_def)
  then have r: "jm_get (c_reverse c) (skey a) = Some (skey t)" by simp
  have seen: "c_dropped (fold count_seen us d) = c_dropped d" for us d
    by (induction us arbitrary: d) (simp_all add: count_seen_def)
  have "c_dropped (fold observe texts d) = c_dropped d" for d
    by (induction texts arbitrary: d) (simp_all add: observe_def seen)
  moreover have "t \<notin> set (candidates d)" if "skey t \<in> set (c_dropped d)" for d
    using that by (auto simp: candidates_def)
  ultimately show ?thesis
    using r by (auto simp: Let_def deactivate_one_def entry_at_def meaning_def)
qed

text \<open>whatever a peer sends, the glossary layer throws into the client that calls it for one payload only,
  the literal \<open>null\<close>, unless a chat listener throws; an own message, and one that is not JSON, leaves it
  as it was.\<close>

lemma inbound_errors:
  shows "(fst (handleInbound ls own m g) = Some e \<longrightarrow>
      me_from m \<noteq> own \<and> (json_parse (me_text m) = Inr JNull \<and> e = JsTypeError \<and> snd (handleInbound ls own m g) = g
        \<or> (\<exists>ev. ls ev = Some e)))
    \<and> (me_from m = own \<or> (\<exists>x. json_parse (me_text m) = Inl x) \<longrightarrow> handleInbound ls own m g = (None, g))"
proof (cases "me_from m = own")
  case False
  show ?thesis
  proof (cases "json_parse (me_text m)")
    case (Inr v)
    show ?thesis
    proof (cases "get_prop v ''t''")
      case (Inl x)
      moreover from \<open>json_parse (me_text m) = Inr v\<close> have "jok v" by (rule json_parse_ok)
      ultimately have "v = JNull" "x = JsTypeError" by (cases v; simp add: get_prop_def)+
      with False Inl Inr show ?thesis by (auto simp: handleInbound_def)
    next
      case (Inr t)
      with False \<open>json_parse (me_text m) = Inr v\<close> show ?thesis
        by (auto simp: handleInbound_def Let_def split: prod.splits if_splits)
    qed
  qed (simp add: handleInbound_def)
qed (simp add: handleInbound_def)

text \<open>a message goes out after the proposal it gave rise to: \<open>sayTo\<close> sends the new terms first and nothing
  else; when the client has sent them the body follows, compacted with what is active then; when it could
  not, the caller gets the error and the body is never sent.\<close>

lemma say_in_order:
  assumes "propose_terms (observe txt (conv_of key g)) = (ps, c)" "ps \<noteq> []"
  shows "let g1 = sayTo n d key txt g; i = g_calls g in
     g_sent g1 = g_sent g @ [(i, send_call d (gloss_frame ''propose'' ps))] \<and> g_results g1 = g_results g
     \<and> g_sent (gloss_settled i (Some e) g1) = g_sent g1 \<and> g_results (gloss_settled i (Some e) g1) = g_results g @ [(n, Inl e)]
     \<and> (\<forall>body. compact_conv c txt = Inr body \<longrightarrow>
          g_sent (gloss_settled i None g1) = g_sent g1 @ [(i + 1, send_call d (body_frame body))]
          \<and> g_results (gloss_settled (i + 1) None (gloss_settled i None g1)) = g_results g @ [(n, Inr body)])"
proof -
  have "conv_of key (g\<lparr>g_convs := m, g_calls := i, g_sent := x, g_wait := w\<rparr>) = conv_of key (g\<lparr>g_convs := m\<rparr>)" for m i x w
    by (simp add: conv_of_def)
  moreover have "conv_of key (g\<lparr>g_convs := jm_set key c m\<rparr>) = c" for m by (simp add: conv_of_def)
  ultimately show ?thesis
    using assms
    by (simp add: sayTo_def gloss_send_def gloss_settled_def gloss_result_def say_body_def compact_def put_conv_def touch_def Let_def)
qed

section \<open>Where two agents come apart\<close>

text \<open>Two proposals for one term that cross: each side ends up with the other's abbreviation, and neither can
  expand what it receives.\<close>

lemma crossing_proposals_diverge:
  assumes "a \<noteq> b" "c = set_proposed (skey t, skey a) empty_conv" "d = set_proposed (skey t, skey b) empty_conv"
    and "propose_loop (wire_pairs [(t, b)]) 0 c [] = (None, r1, c1, ack1)"
    and "propose_loop (wire_pairs [(t, a)]) 0 d [] = (None, r2, d1, ack2)"
    and "ack_loop (wire_pairs [(t, a)]) r1 c1 = (None, r3, c2)" "ack_loop (wire_pairs [(t, b)]) r2 d1 = (None, r4, d2)"
  shows "ack1 = map skeys [(t, b)] \<and> ack2 = map skeys [(t, a)]
    \<and> entry_at c2 t = Some (b, Active) \<and> entry_at d2 t = Some (a, Active) \<and> meaning d2 b = JUndef \<and> meaning c2 a = JUndef"
proof -
  have "ack1 = map skeys [(t, b)]" "c1 = set_active (skey t) (skey b) c"
    "ack2 = map skeys [(t, a)]" "d1 = set_active (skey t) (skey a) d"
    using assms(4,5) by (auto simp: Let_def wire_pairs_def assms(2,3) state_at_def set_proposed_def empty_conv_def skeys_def)
  moreover from this have "c2 = c1" "d2 = d1"
    using assms(6,7) by (auto simp: Let_def wire_pairs_def state_at_def set_active_def)
  ultimately show ?thesis
    using assms(1) by (simp add: entry_at_def meaning_def set_active_def assms(2,3) set_proposed_def empty_conv_def)
qed

text \<open>A proposal may bind two terms to one abbreviation: both become active, and the first expands to the second.\<close>

lemma colliding_proposal_accepted:
  assumes "t \<noteq> u" "propose_loop (wire_pairs [(t, a), (u, a)]) 0 empty_conv [] = (x, r, c, ack)"
  shows "entry_at c t = Some (a, Active) \<and> entry_at c u = Some (a, Active) \<and> meaning c a = JStr u"
  using assms
  by (auto simp: Let_def wire_pairs_def state_at_def empty_conv_def set_active_def entry_at_def meaning_def)

text \<open>A tilde and an active abbreviation in what is said are expanded as if the agent had written them.\<close>

lemma literal_tilde_expands:
  "compact_conv demo_conv ''see ~rt'' = Inr ''see ~rt'' \<and> expand_conv demo_conv ''see ~rt'' = ''see round trip''"
proof -
  have al: "\<not> is_alnum (CHR '' '')" "is_alnum (CHR ''r'')" "is_alnum (CHR ''t'')" "is_alnum (CHR ''e'')" "is_alnum (CHR ''s'')"
    by (simp_all add: is_alnum_def is_lower_def is_digit_def code_def)
  have m: "meaning demo_conv ''rt'' = JStr ''round trip''"
    by (simp add: meaning_def demo_conv_def set_active_def empty_conv_def)
  have "longest_first (active_pairs demo_conv) =
      [\<lparr>gp_term = skey ''negotiation'', gp_abbrev = skey ''ngtt'', gp_state = Active\<rparr>,
       \<lparr>gp_term = skey ''round trip'', gp_abbrev = skey ''rt'', gp_state = Active\<rparr>]"
    by (simp add: longest_first_def demo_pairs)
  then show ?thesis
    by (simp add: compact_conv_def demo_pairs compact_with_def term_at_def expand_conv_def al m coalesce_def nullish_def)
qed

text \<open>After the send of a proposal has failed, the term stays proposed, and is never proposed again.\<close>

lemma failed_proposal_stuck:
  assumes "entry_at c t = Some (a, Proposed)"
  shows "t \<notin> set (candidates (fold observe texts c))"
proof -
  have seen: "c_entries (fold count_seen us d) = c_entries d" for us d
    by (induction us arbitrary: d) (simp_all add: count_seen_def)
  have e: "c_entries (fold observe texts d) = c_entries d" for d
    by (induction texts arbitrary: d) (simp_all add: observe_def seen)
  have "jm_has (c_entries c) (skey t)" using assms by (auto simp: entry_at_def jm_has_def)
  then show ?thesis by (auto simp: candidates_def e)
qed

text \<open>The payload \<open>null\<close>: the client delivers the message, and then reports it as undecryptable.\<close>

lemma null_payload_reported:
  assumes "me_text ev = ''null''" "me_from ev \<noteq> own" "ce_listeners W ev = fst (handleInbound ls own ev g)"
  shows "delivered (surface_msg W f ev s) = delivered s @ [ev]
    \<and> (\<exists>e. errorRing (surface_msg W f ev s) = ring_push ERRORS_CAP (errorRing s) e \<and> he_code e = ''undecryptable'')"
proof -
  have "json_parse ''null'' = Inr JNull"
    using json_parse_text_ok [of JNull] by (simp add: json_text_def)
  then have "fst (handleInbound ls own ev g) = Some JsTypeError"
    using assms(1,2) by (simp add: handleInbound_def get_prop_def)
  with assms(3) show ?thesis
    by (auto simp: surface_msg_def msg_failed_def Let_def ringError_def deliver_def
        intro!: exI [of _ "\<lparr>he_code = ''undecryptable'', he_msg = ''undecryptable msg: '' @ exn_msg W JsTypeError,
          he_ts = now s, he_from = opt_str_prop f ''from'', he_id = opt_str_prop f ''id''\<rparr>"])
qed

section \<open>Concrete conversations\<close>

definition demo_proposer :: conv where
  "demo_proposer = set_proposed (skey ''protocol'', skey ''prtc'') empty_conv"

lemma demo_proposer_ok: "conv_ok demo_proposer" "entry_at demo_proposer u = (if u = ''protocol'' then Some (''prtc'', Proposed) else None)"
  by (auto simp: conv_ok_def demo_proposer_def set_proposed_def empty_conv_def entry_at_def)

lemma demo_conv_ok: "conv_ok demo_conv"
  "entry_at demo_conv u = (if u = ''negotiation'' then Some (''ngtt'', Active) else if u = ''round trip'' then Some (''rt'', Active) else None)"
proof -
  show e: "entry_at demo_conv u = (if u = ''negotiation'' then Some (''ngtt'', Active) else if u = ''round trip'' then Some (''rt'', Active) else None)" for u
    by (simp add: demo_conv_def entry_set_active) (simp add: entry_at_def empty_conv_def)
  have "conv_ok empty_conv" by (simp add: conv_ok_def empty_conv_def)
  moreover have "entry_at empty_conv u = None" for u by (simp add: entry_at_def empty_conv_def)
  ultimately show "conv_ok demo_conv"
    unfolding demo_conv_def by (intro conv_ok_set_active) (auto simp: free_for_def entry_set_active)
qed

lemma negotiation_agrees_witness:
  "\<exists>c' d'. meaning c' ''prtc'' = JStr ''protocol'' \<and> meaning d' ''prtc'' = JStr ''protocol''
     \<and> entry_at c' ''protocol'' = Some (''prtc'', Active) \<and> entry_at d' ''protocol'' = Some (''prtc'', Active)"
proof -
  let ?ps = "[(''protocol'', ''prtc'')]"
  have a: "answer demo_conv (''protocol'', ''prtc'') = (''protocol'', ''prtc'')"
    by (simp add: answer_def demo_conv_ok)
  obtain x r' d' ack where p: "propose_loop (wire_pairs ?ps) 0 demo_conv [] = (x, r', d', ack)"
    by (metis prod_cases4)
  obtain es where es: "pairs_json ack = JArr es" by (simp add: pairs_json_def)
  obtain y r3 c' where k: "ack_loop es 0 demo_proposer = (y, r3, c')" by (metis prod_cases3)
  have "free_for demo_proposer (''protocol'', ''prtc'')" "free_for demo_conv (''protocol'', ''prtc'')"
    by (auto simp: free_for_def demo_proposer_ok demo_conv_ok split: if_splits)
  with negotiation_agrees [OF demo_proposer_ok(1) demo_conv_ok(1) _ _ _ _ p es k]
  show ?thesis by (auto simp: a demo_proposer_ok)
qed

lemma load_serialize_witness:
  "\<exists>g'. load (serialize (new_gloss\<lparr>g_convs := [(''chan:room'', demo_conv)]\<rparr>)) new_gloss = (None, g')
     \<and> bound (conv_of ''chan:room'' g') ''round trip'' = Some ''rt''"
proof -
  let ?g = "new_gloss\<lparr>g_convs := [(''chan:room'', demo_conv)]\<rparr>"
  have "savable demo_conv"
    by (simp add: savable_def demo_conv_def set_active_def empty_conv_def)
  with load_serialize [of ?g] obtain g' where
    "load (serialize ?g) new_gloss = (None, g')" "bound (conv_of ''chan:room'' g') ''round trip'' = bound (conv_of ''chan:room'' ?g) ''round trip''"
    by auto
  then show ?thesis by (auto simp: conv_of_def bound_def demo_conv_ok)
qed

lemma dropped_for_good_witness:
  "entry_at (deactivate [skey ''rt''] demo_conv) ''round trip'' = None
     \<and> ''round trip'' \<notin> set (candidates (fold observe [''round trip'', ''round trip''] (deactivate [skey ''rt''] demo_conv)))"
  using dropped_for_good [OF demo_conv_ok(1), of "''round trip''" "''rt''" "[''round trip'', ''round trip'']"]
  by (simp add: demo_conv_ok Let_def)

lemma inbound_errors_witness:
  "\<exists>m. me_text m = ''null'' \<and> fst (handleInbound (\<lambda>_. None) ''me'' m new_gloss) = Some JsTypeError
     \<and> snd (handleInbound (\<lambda>_. None) ''me'' m new_gloss) = new_gloss"
proof -
  let ?m = "\<lparr>me_dm = True, me_channel = None, me_from = ''bob'', me_text = ''null'', me_ts = JNum 1, me_invite = None\<rparr>"
  have "json_parse ''null'' = Inr JNull"
    using json_parse_text_ok [of JNull] by (simp add: json_text_def)
  then have "fst (handleInbound (\<lambda>_. None) ''me'' ?m new_gloss) = Some JsTypeError"
    by (simp add: handleInbound_def get_prop_def)
  with inbound_errors [of "\<lambda>_. None" "''me''" ?m new_gloss JsTypeError] show ?thesis
    by (intro exI [of _ ?m]) simp
qed

lemma say_in_order_witness:
  "\<exists>ps. length (g_sent (sayTo 1 (ToDm ''bob'') (dm_key ''bob'') ''negotiation''
     (new_gloss\<lparr>g_convs := [(dm_key ''bob'', empty_conv\<lparr>c_seen := [(''negotiation'', 1)]\<rparr>)]\<rparr>))) = 1 \<and> ps \<noteq> []
     \<and> fst (propose_terms (observe ''negotiation'' (empty_conv\<lparr>c_seen := [(''negotiation'', 1)]\<rparr>))) = ps"
proof -
  let ?g = "new_gloss\<lparr>g_convs := [(dm_key ''bob'', empty_conv\<lparr>c_seen := [(''negotiation'', 1)]\<rparr>)]\<rparr>"
  have c: "conv_of (dm_key ''bob'') ?g = empty_conv\<lparr>c_seen := [(''negotiation'', 1)]\<rparr>" by (simp add: conv_of_def)
  have ng: "ngrams ''negotiation'' = [''negotiation'']" by code_simp
  obtain ps d where p: "propose_terms (observe ''negotiation'' (conv_of (dm_key ''bob'') ?g)) = (ps, d)"
    by (cases "propose_terms (observe ''negotiation'' (conv_of (dm_key ''bob'') ?g))")
  have "ps \<noteq> []"
    using p [unfolded c] by (auto simp: propose_terms_def observe_def ng js_add_def count_seen_def candidates_def MIN_MSGS_def MIN_TERM_def
        empty_conv_def jm_has_def Let_def split: prod.splits)
  moreover have "fst (propose_terms (observe ''negotiation'' (empty_conv\<lparr>c_seen := [(''negotiation'', 1)]\<rparr>))) = ps"
    using p [unfolded c] by simp
  moreover have "length (g_sent (sayTo 1 (ToDm ''bob'') (dm_key ''bob'') ''negotiation'' ?g)) = 1"
    using say_in_order [OF p \<open>ps \<noteq> []\<close>, of 1 "ToDm ''bob''"] by (simp add: Let_def new_gloss_def)
  ultimately show ?thesis by blast
qed

end
