(* ===== verification/Client_Async_Ok.thy ===== *)
theory Client_Async_Ok
  imports Client_Run
begin

text \<open>
  The asynchronous machinery is sound: the value a promise is fulfilled with always suits the method
  that waits for it, every promise somebody waits for has exactly one timer that will reject it in time,
  and no public call is lost or answered twice. A continuation is accounted for by its weight in the
  locale \<open>kont_count\<close>; the theory of the invites uses the same accounting.
\<close>

datatype vty = TyUnit | TyPeer | TyWhois | TyAgents | TyChan | TySent | TyArmed

fun vtype :: "dap_value \<Rightarrow> vty" where
  "vtype VUnit = TyUnit"
| "vtype (VPeer _) = TyPeer"
| "vtype (VWhois _) = TyWhois"
| "vtype (VAgents _) = TyAgents"
| "vtype (VChan _ _) = TyChan"
| "vtype (VSent _) = TySent"
| "vtype (VArmed _) = TyArmed"

text \<open>What a continuation may be resumed with, and what the rest of its method may return.\<close>

fun takes :: "kont \<Rightarrow> vty \<Rightarrow> bool" where
  "takes (KJoinReady _ _) t = (t = TyUnit)"
| "takes (KEnsure _ _) t = (t = TyUnit)"
| "takes (KSendEns _ _) t = (t = TyChan)"
| "takes (KSendReady _ _ _ _) t = (t = TyUnit)"
| "takes (KDmInfo _ _) t = (t = TyPeer)"
| "takes (KDmReady _ _ _) t = (t = TyUnit)"
| "takes (KInviteEns _ _) t = (t = TyChan)"
| "takes (KInviteDm _ _ _) t = (t = TySent)"
| "takes (KByName _ _) t = (t = TyAgents)"
| "takes (KArm _ _) t = (t = TyChan)"
| "takes KOnline t = (t = TyAgents)"
| "takes KWhois t = (t = TyPeer)"
| "takes KDeliver t = (t = TyAgents)"
| "takes (KDelivered _ _ _) t = (t = TySent)"
| "takes (KMsg _) t = (t = TyPeer)"
| "takes _ t = True"

fun gives :: "kont \<Rightarrow> vty list" where
  \<comment> \<open>none: the end of a chain\<close>
  "gives (KJoinReady _ _) = [TyUnit]"
| "gives (KEnsure _ _) = [TyChan]"
| "gives (KSendEns _ _) = [TySent]"
| "gives (KSendReady _ _ _ _) = [TySent]"
| "gives (KDmInfo _ _) = [TySent]"
| "gives (KDmReady _ _ _) = [TySent]"
| "gives (KInviteEns _ _) = [TySent]"
| "gives (KInviteDm _ _ _) = [TySent]"
| "gives (KByName _ _) = [TySent, TyArmed]"
| "gives (KArm _ _) = [TyArmed]"
| "gives KOnline = [TyAgents]"
| "gives KWhois = [TyWhois]"
| "gives KDeliver = [TyUnit]"
| "gives (KDelivered _ _ _) = [TyUnit]"
| "gives _ = []"

fun stack_ok :: "vty \<Rightarrow> kont list \<Rightarrow> bool" where
  "stack_ok t [] = False"
| "stack_ok t (k # ks) =
     (takes k t \<and> (if gives k = [] then ks = [] else list_all (\<lambda>t'. stack_ok t' ks) (gives k)))"

definition suits :: "exn + dap_value \<Rightarrow> kont list \<Rightarrow> bool" where
  "suits out ks = (case out of Inl _ \<Rightarrow> (\<exists>t. stack_ok t ks) | Inr v \<Rightarrow> stack_ok (vtype v) ks)"

lemma suits_simps [simp]:
  "suits (Inl e) ks = (\<exists>t. stack_ok t ks)"
  "suits (Inr v) ks = stack_ok (vtype v) ks"
  by (simp_all add: suits_def)

text \<open>Which promises the waiter lists hold, and the type of value they promise.\<close>

definition waits :: "client \<Rightarrow> (pid \<times> vty) set" where
  "waits s =
     {(p, TyPeer) |p. p \<in> set (concat (map snd (whoisWaiters s)))}
     \<union> {(p, TyUnit) |p. p \<in> set (concat (map snd (joinWaiters s)))}
     \<union> {(p, TyUnit) |p. p \<in> set (readyWaiters s)}
     \<union> {(p, TyAgents) |p. PCall p \<in> set (concat (map snd (presenceWaiters s)))}"

definition timers_ok :: "ptimer list \<Rightarrow> pid set \<Rightarrow> nat \<Rightarrow> bool" where
  "timers_ok ts ps t0 =
     (distinct (map pt_pid ts) \<and> pt_pid ` set ts = ps
      \<and> (\<forall>t \<in> set ts. t0 \<le> pt_due t \<and> pt_due t \<le> t0 + WAIT_MS))"

definition parked_ok :: "(pid, kont list) jsmap \<Rightarrow> nat \<Rightarrow> bool" where
  "parked_ok pk n = (distinct (jm_keys pk) \<and> (\<forall>p ks. map_of pk p = Some ks \<longrightarrow> p < n \<and> (\<exists>t. stack_ok t ks)))"

definition waits_ok :: "(pid \<times> vty) set \<Rightarrow> (pid, kont list) jsmap \<Rightarrow> nat \<Rightarrow> bool" where
  "waits_ok wt pk n = (\<forall>p t. (p, t) \<in> wt \<longrightarrow> p < n \<and> (\<forall>ks. map_of pk p = Some ks \<longrightarrow> stack_ok t ks))"

definition micro_ok :: "((exn + dap_value) \<times> kont list) list \<Rightarrow> bool" where
  "micro_ok ms = list_all (\<lambda>(out, ks). suits out ks) ms"

definition async_ok :: "client \<Rightarrow> bool" where
  "async_ok s =
     (parked_ok (parked s) (n_pid s) \<and> timers_ok (ptimers s) (fst ` set (parked s)) (now s)
      \<and> micro_ok (micro s) \<and> waits_ok (waits s) (parked s) (n_pid s))"

lemma async_okI:
  "parked_ok (parked s) (n_pid s) \<Longrightarrow> timers_ok (ptimers s) (fst ` set (parked s)) (now s) \<Longrightarrow>
   micro_ok (micro s) \<Longrightarrow> waits_ok (waits s) (parked s) (n_pid s) \<Longrightarrow> async_ok s"
  by (simp add: async_ok_def)

lemma waits_other [simp]:
  "waits (s\<lparr>micro := a\<rparr>) = waits s" "waits (s\<lparr>parked := b\<rparr>) = waits s"
  "waits (s\<lparr>ptimers := c\<rparr>) = waits s" "waits (s\<lparr>n_pid := n\<rparr>) = waits s"
  by (simp_all add: waits_def)

lemma waits_ok_mono: "waits_ok wt pk n \<Longrightarrow> wt' \<subseteq> wt \<Longrightarrow> waits_ok wt' pk n"
  by (auto simp: waits_ok_def)

definition core :: "client \<Rightarrow> _" where
  "core s = (parked s, micro s, n_pid s, ptimers s, now s, results s, deliveringInvites s)"

lemma async_ok_core: "core s' = core s \<Longrightarrow> waits s' \<subseteq> waits s \<Longrightarrow> async_ok s \<Longrightarrow> async_ok s'"
  by (auto simp: async_ok_def core_def intro: waits_ok_mono)

lemma parked_ok_del: "parked_ok pk n \<Longrightarrow> parked_ok (jm_del p pk) n"
  by (auto simp: parked_ok_def jm_del_def distinct_map_filter map_of_jm_del [unfolded jm_del_def] split: if_splits)

lemma waits_ok_del: "waits_ok wt pk n \<Longrightarrow> waits_ok wt (jm_del p pk) n"
  by (auto simp: waits_ok_def split: if_splits)

lemma parked_keys_del: "fst ` set (jm_del p pk) = fst ` set pk - {p}"
  by (force simp: jm_del_def)

lemma timers_ok_del: "timers_ok ts ps t0 \<Longrightarrow> timers_ok (filter (\<lambda>t. pt_pid t \<noteq> p) ts) (ps - {p}) t0"
  by (auto simp: timers_ok_def distinct_map_filter)

lemma async_ok_del:
  "async_ok s \<Longrightarrow> async_ok (s\<lparr>parked := jm_del p (parked s), ptimers := filter (\<lambda>t. pt_pid t \<noteq> p) (ptimers s)\<rparr>)"
  by (simp add: async_ok_def parked_ok_del waits_ok_del timers_ok_del parked_keys_del)

lemma async_ok_schedule: "async_ok s \<Longrightarrow> suits out ks \<Longrightarrow> async_ok (schedule out ks s)"
  by (simp add: async_ok_def schedule_def micro_ok_def)

text \<open>A new promise, with a continuation that takes values of type \<open>t\<close>.\<close>

lemma async_ok_promise:
  assumes "async_ok s" "stack_ok t ks" "ms \<le> WAIT_MS" "waits s' \<subseteq> insert (n_pid s, t) (waits s)"
    and "core s' = core (new_promise ms k ks s)"
  shows "async_ok s'"
proof -
  have fresh: "map_of (parked s) (n_pid s) = None"
    using assms(1) by (auto simp: async_ok_def parked_ok_def intro: ccontr)
  have s': "parked s' = jm_set (n_pid s) ks (parked s)" "n_pid s' = n_pid s + 1" "micro s' = micro s"
    "ptimers s' = ptimers s @ [\<lparr>pt_pid = n_pid s, pt_due = now s + ms, pt_kind = k\<rparr>]" "now s' = now s"
    using assms(5) by (simp_all add: core_def new_promise_def)
  have keys: "fst ` set (jm_set (n_pid s) ks (parked s)) = insert (n_pid s) (fst ` set (parked s))"
    using js_map.keys_put [of "n_pid s" ks "parked s"] by simp
  have "n_pid s \<notin> fst ` set (parked s)"
    using fresh by (simp add: map_of_eq_None_iff)
  show ?thesis
  proof (rule async_okI)
    show "parked_ok (parked s') (n_pid s')"
      using assms(1,2) js_map.ok_put [of "parked s" "n_pid s" ks] by (auto simp: s' async_ok_def parked_ok_def less_Suc_eq)
    show "timers_ok (ptimers s') (fst ` set (parked s')) (now s')"
      using assms(1,3) \<open>n_pid s \<notin> _\<close> by (auto simp: s' keys async_ok_def timers_ok_def)
    show "micro_ok (micro s')" using assms(1) by (simp add: s' async_ok_def)
    have "p < n_pid s + 1 \<and> (\<forall>ks'. map_of (jm_set (n_pid s) ks (parked s)) p = Some ks' \<longrightarrow> stack_ok ty ks')"
      if "(p, ty) \<in> insert (n_pid s, t) (waits s)" for p ty
      using that assms(1,2) unfolding async_ok_def waits_ok_def by (auto simp: less_Suc_eq)
    with assms(4) show "waits_ok (waits s') (parked s') (n_pid s')"
      unfolding waits_ok_def s' by blast
  qed
qed

text \<open>Old promises keep their timers.\<close>

definition ages :: "client \<Rightarrow> client \<Rightarrow> bool" where
  "ages s s' = (n_pid s \<le> n_pid s' \<and> (\<forall>t \<in> set (ptimers s'). pt_pid t < n_pid s \<longrightarrow> t \<in> set (ptimers s)))"

lemma ages_refl [simp]: "ages s s"
  by (simp add: ages_def)

lemma ages_trans: "ages s s1 \<Longrightarrow> ages s1 s2 \<Longrightarrow> ages s s2"
  by (auto simp: ages_def)

lemma ages_core: "core s' = core s \<Longrightarrow> ages s s'"
  by (simp add: ages_def core_def)

lemma sum_values_del:
  "distinct (jm_keys m) \<Longrightarrow> map_of m p = Some v \<Longrightarrow>
     sum_list (map (\<lambda>(p, v). f v) m) = (f v + sum_list (map (\<lambda>(p, v). f v) (jm_del p m)) :: nat)"
proof (induction m)
  case (Cons x m)
  show ?case
  proof (cases "fst x = p")
    case True
    with Cons.prems have "jm_del p m = m"
      by (cases x) (force simp: jm_del_def filter_id_conv)
    with True Cons.prems show ?thesis by (cases x) simp
  next
    case False
    with Cons show ?thesis by (cases x) auto
  qed
qed simp

section \<open>Weights\<close>

text \<open>
  \<open>mu\<close> weighs continuations: the end of the \<open>n\<close>-th public call weighs \<open>r n\<close>, a pass of the pending
  invites weighs \<open>d\<close>, nothing else weighs anything. A finished call leaves its weight in \<open>results\<close>, and
  the flag \<open>deliveringInvites\<close> holds the weight of the pass when none is on its way.
\<close>

locale kont_count =
  fixes mu :: "kont \<Rightarrow> nat" and r :: "nat \<Rightarrow> nat" and d :: nat
  assumes mu_simps:
    "mu (KTop n) = r n" "mu KSwallow = 0" "mu KSurface = 0" "mu KNobody = 0" "mu (KJoinReady a b) = 0"
    "mu (KEnsure ch c) = 0" "mu (KSendEns a b) = 0" "mu (KSendReady a b ch c) = 0" "mu (KDmInfo a b) = 0"
    "mu (KDmReady a b info) = 0" "mu (KInviteEns a b) = 0" "mu (KInviteDm a ch c) = 0" "mu (KByName a b) = 0"
    "mu (KArm a b) = 0" "mu KOnline = 0" "mu KWhois = 0" "mu KDeliver = d" "mu (KDelivered i as p) = d"
    "mu (KMsg f) = 0"
begin

definition mus :: "kont list \<Rightarrow> nat" where
  "mus ks = sum_list (map mu ks)"

lemma mus_simps [simp]: "mus [] = 0" "mus (k # ks) = mu k + mus ks"
  by (simp_all add: mus_def)

definition total :: "client \<Rightarrow> nat" where
  "total s = sum_list (map (\<lambda>(p, ks). mus ks) (parked s)) + sum_list (map (\<lambda>(out, ks). mus ks) (micro s))
     + sum_list (map (\<lambda>(n, out). r n) (results s)) + (if deliveringInvites s then 0 else d)"

lemma total_core: "core s' = core s \<Longrightarrow> total s' = total s"
  by (simp add: total_def core_def)

text \<open>
  \<open>adds m s s'\<close>: an operation from \<open>s\<close> to \<open>s'\<close> keeps the invariant, adds the weight \<open>m\<close>, and does not
  touch the timers of the promises that are there already, except to clear them.
\<close>

definition adds :: "nat \<Rightarrow> client \<Rightarrow> client \<Rightarrow> bool" where
  "adds m s s' = (async_ok s \<longrightarrow> async_ok s' \<and> total s' = total s + m \<and> ages s s')"

lemma adds_refl [simp]: "adds 0 s s"
  by (simp add: adds_def)

lemma adds_trans: "adds m s s1 \<Longrightarrow> adds n s1 s2 \<Longrightarrow> adds (m + n) s s2"
  by (auto simp: adds_def intro: ages_trans)

lemma adds_then: "adds 0 s s1 \<Longrightarrow> adds m s1 s2 \<Longrightarrow> adds m s s2"
  using adds_trans by fastforce

lemma adds_after: "adds m s s1 \<Longrightarrow> adds 0 s1 s2 \<Longrightarrow> adds m s s2"
  using adds_trans by fastforce

lemma adds_frame: "core s' = core s \<Longrightarrow> waits s' \<subseteq> waits s \<Longrightarrow> adds 0 s s'"
  unfolding adds_def using async_ok_core [of s' s] total_core [of s' s] ages_core [of s' s] by simp

lemma adds_schedule: "suits out ks \<Longrightarrow> adds (mus ks) s (schedule out ks s)"
  by (simp add: adds_def async_ok_schedule, simp add: total_def schedule_def ages_def)

lemma adds_ret: "stack_ok (vtype v) ks \<Longrightarrow> adds (mus ks) s (ret v ks s)"
  by (simp add: ret_def adds_schedule)

lemma adds_throw: "stack_ok t ks \<Longrightarrow> adds (mus ks) s (throw e ks s)"
  by (auto simp: throw_def intro!: adds_schedule)

lemma adds_settle:
  assumes "\<And>ks. map_of (parked s) p = Some ks \<Longrightarrow> async_ok s \<Longrightarrow> suits out ks"
  shows "adds 0 s (settle out p s)"
proof (cases "map_of (parked s) p")
  case None
  then show ?thesis by (simp add: settle_def)
next
  case (Some ks)
  show ?thesis
    unfolding adds_def
  proof (intro impI conjI)
    assume ok: "async_ok s"
    show "async_ok (settle out p s)"
      using assms [OF Some ok] async_ok_del [OF ok] by (simp add: settle_def Some async_ok_schedule)
    show "total (settle out p s) = total s + 0"
      using ok sum_values_del [of "parked s" p ks mus] Some
      by (simp add: settle_def total_def schedule_def async_ok_def parked_ok_def)
    show "ages s (settle out p s)"
      by (simp add: settle_def schedule_def ages_def Some)
  qed
qed

lemma adds_settle_err: "adds 0 s (settle (Inl e) p s)"
  by (rule adds_settle) (auto simp: async_ok_def parked_ok_def)

lemma adds_settle_val: "(p, vtype v) \<in> waits s \<Longrightarrow> adds 0 s (settle (Inr v) p s)"
  by (rule adds_settle) (auto simp: async_ok_def waits_ok_def)

lemma waits_settle [simp]: "waits (settle out p s) = waits s"
  by (simp add: settle_def schedule_def waits_def split: option.splits)

lemma waits_settle_all [simp]: "waits (settle_all out ps s) = waits s"
  unfolding settle_all_def by (induction ps arbitrary: s) simp_all

lemma adds_settle_all_err: "adds 0 s (settle_all (Inl e) ps s)"
  unfolding settle_all_def
  by (induction ps arbitrary: s) (auto intro: adds_then adds_settle_err)

lemma adds_settle_all_val: "\<forall>p \<in> set ps. (p, vtype v) \<in> waits s \<Longrightarrow> adds 0 s (settle_all (Inr v) ps s)"
  unfolding settle_all_def
  by (induction ps arbitrary: s) (auto intro: adds_then adds_settle_val)

lemma adds_promise:
  assumes "stack_ok t ks" "ms \<le> WAIT_MS" "waits s' \<subseteq> insert (n_pid s, t) (waits s)"
    and "core s' = core (new_promise ms k ks s)"
  shows "adds (mus ks) s s'"
  unfolding adds_def
proof (intro impI conjI)
  assume ok: "async_ok s"
  show "async_ok s'" by (rule async_ok_promise [OF ok assms])
  have "map_of (parked s) (n_pid s) = None"
    using ok by (auto simp: async_ok_def parked_ok_def intro: ccontr)
  then have "n_pid s \<notin> fst ` set (parked s)"
    by (simp add: map_of_eq_None_iff)
  then have "jm_set (n_pid s) ks (parked s) = parked s @ [(n_pid s, ks)]"
    by (rule jm_set_fresh)
  with total_core [OF assms(4)] show "total s' = total s + mus ks"
    by (simp add: total_def new_promise_def)
  show "ages s s'" using assms(4) by (auto simp: ages_def core_def new_promise_def)
qed

end

end
