(* ===== verification/Client_Sound.thy ===== *)
theory Client_Sound
  imports Client_Async_Ok
begin

text \<open>
  Every operation of the client keeps the invariant \<open>async_ok\<close>, and adds to the weight of the state
  the weight of the continuations it was given.
\<close>

lemma vals_jm_set: "set (concat (map snd (jm_set k v m))) \<subseteq> set v \<union> set (concat (map snd m))"
  by (induction k v m rule: jm_set.induct) auto

lemma vals_jm_del: "set (concat (map snd (jm_del k m))) \<subseteq> set (concat (map snd m))"
  by (auto simp: jm_del_def)

lemma vals_waiters_of: "set (waiters_of m k) \<subseteq> set (concat (map snd m))"
  by (cases "map_of m k") (force simp: waiters_of_def dest: map_of_SomeD)+

lemma waits_mem:
  "(p, t) \<in> waits s \<longleftrightarrow>
     t = TyPeer \<and> p \<in> set (concat (map snd (whoisWaiters s)))
     \<or> t = TyUnit \<and> p \<in> set (concat (map snd (joinWaiters s)))
     \<or> t = TyUnit \<and> p \<in> set (readyWaiters s)
     \<or> t = TyAgents \<and> PCall p \<in> set (concat (map snd (presenceWaiters s)))"
  unfolding waits_def by blast

lemma waits_sub:
  assumes "set (concat (map snd (whoisWaiters s'))) \<subseteq> set (concat (map snd (whoisWaiters s)))"
    and "set (concat (map snd (joinWaiters s'))) \<subseteq> set (concat (map snd (joinWaiters s)))"
    and "set (readyWaiters s') \<subseteq> set (readyWaiters s)"
    and "set (concat (map snd (presenceWaiters s'))) \<subseteq> set (concat (map snd (presenceWaiters s)))"
  shows "waits s' \<subseteq> waits s"
  using assms unfolding subset_iff [of "waits s'"] by (simp only: waits_mem split_paired_All) blast

text \<open>The state is changed in fields the accounting does not look at.\<close>

definition same :: "client \<Rightarrow> client \<Rightarrow> bool" where
  "same s s' = (core s' = core s \<and> whoisWaiters s' = whoisWaiters s \<and> joinWaiters s' = joinWaiters s
     \<and> readyWaiters s' = readyWaiters s \<and> presenceWaiters s' = presenceWaiters s)"

lemma same_refl [simp]: "same s s"
  by (simp add: same_def)

lemma same_trans: "same s s1 \<Longrightarrow> same s1 s2 \<Longrightarrow> same s s2"
  by (simp add: same_def)

lemma same_waits: "same s s' \<Longrightarrow> waits s' = waits s"
  by (simp add: same_def waits_def)

lemma same_sendFrame: "sendFrame f s = Inr s' \<Longrightarrow> same s s'"
  by (auto simp: sendFrame_def push_frame_def same_def core_def split: option.splits if_splits)

lemma same_ws_send: "ws_send f s = Inr s' \<Longrightarrow> same s s'"
  by (auto simp: ws_send_def push_frame_def same_def core_def split: option.splits sock_state.splits)

lemma same_take: "same s (take_random s)" "same s (take_uuid s)"
  by (simp_all add: take_random_def take_uuid_def same_def core_def)

lemma same_post: "post W fld peer text pub s = Inr (i, s') \<Longrightarrow> same s s'"
  unfolding post_def signAndSend_def Let_def bind_result_Inr_iff
  by (auto dest!: same_sendFrame intro: same_trans [OF same_trans [OF same_take(2) same_take(1)]])

lemma same_persist_config: "persist_config u s = Inr s' \<Longrightarrow> same s s'"
  by (auto simp: persist_config_def bind_result_Inr_iff same_def core_def)

lemma same_store_invites: "store_invites s = Inr s' \<Longrightarrow> same s s'"
  unfolding store_invites_def by (rule same_persist_config)

lemma same_persist_keys: "same s (persist_keys name k s)"
  by (simp add: persist_keys_def same_def core_def split: option.splits)

lemma same_ringError: "same s (ringError e s)"
  by (simp add: ringError_def same_def core_def)

lemma same_deliver: "same s (deliver ev s)"
  by (simp add: deliver_def same_def core_def)

lemma same_addChannel: "same s (addChannel ch s)"
  by (simp add: addChannel_def same_def core_def)

lemma same_ensureChannelKeys: "same s (snd (ensureChannelKeys W name s))"
  by (auto simp: ensureChannelKeys_def Let_def same_def core_def persist_keys_def take_random_def split: option.splits)

lemma same_surface: "same s (surfaceInviteFailure W e s)"
  by (simp add: surfaceInviteFailure_def ringError_def same_def core_def Let_def)

lemma same_msg_failed: "same s (msg_failed W f e s)"
  by (simp add: msg_failed_def ringError_def same_def core_def Let_def)

lemma same_surface_msg: "same s (surface_msg W f ev s)"
  by (simp add: surface_msg_def same_deliver same_trans [OF same_deliver same_msg_failed] split: option.splits)

lemma same_close_sock: "same s (close_sock i s)"
  by (simp add: close_sock_def same_def core_def)

lemma same_close_ws: "same s (close_ws s)"
  by (simp add: close_ws_def same_close_sock split: option.splits)

lemma same_dial: "same s (snd (dial W tok s))"
  by (simp add: dial_def same_def core_def Let_def)

lemma same_connect: "same s (snd (connect W s))"
  by (simp add: connect_def dial_def same_def core_def Let_def)

lemma same_clear_retry: "same s (clear_retry s)"
  by (simp add: clear_retry_def same_def core_def split: option.splits)

lemma same_sendHello:
  assumes "sendHello W s = Inr s'"
  shows "same s s'"
proof -
  have "same s (take_random (s\<lparr>hellos := hellos s + 1\<rparr>))"
    by (simp add: take_random_def same_def core_def)
  moreover from assms obtain f where "ws_send f (take_random (s\<lparr>hellos := hellos s + 1\<rparr>)) = Inr s'"
    by (auto simp: sendHello_def Let_def bind_result_Inr_iff)
  ultimately show ?thesis using same_ws_send same_trans by blast
qed

context kont_count
begin

lemma adds_same: "same s s' \<Longrightarrow> adds 0 s s'"
  using same_waits [of s s'] by (intro adds_frame) (simp_all add: same_def)

lemmas adds_same_then = adds_then [OF adds_same]
lemmas adds_same_after = adds_after [OF _ adds_same]

lemma adds_ready: "stack_ok TyUnit ks \<Longrightarrow> ms \<le> WAIT_MS \<Longrightarrow> adds (mus ks) s (ready ms ks s)"
  unfolding ready_def
  by (auto intro!: adds_ret adds_promise [of TyUnit] simp: core_def waits_def new_promise_def)

lemma adds_join_channel: "stack_ok TyUnit ks \<Longrightarrow> adds (mus ks) s (join_channel name pub ks s)"
  using adds_ready [of "KJoinReady name pub # ks" WAIT_MS s] by (simp add: join_channel_def mu_simps)

lemma adds_join_body:
  assumes "stack_ok TyUnit ks"
  shows "adds (mus ks) s (join_body name pub ks s)"
proof -
  let ?s1 = "(new_promise WAIT_MS (TJoin name) ks s)
    \<lparr>joinWaiters := jm_set name (waiters_of (joinWaiters s) name @ [n_pid s]) (joinWaiters s)\<rparr>"
  have "adds (mus ks) s ?s1"
  proof (rule adds_promise [OF assms])
    show "waits ?s1 \<subseteq> insert (n_pid s, TyUnit) (waits s)"
      using vals_jm_set [of name "waiters_of (joinWaiters s) name @ [n_pid s]" "joinWaiters s"]
        vals_waiters_of [of "joinWaiters s" name]
      unfolding subset_iff [of "waits ?s1"] by (auto simp: waits_mem new_promise_def)
  qed (simp_all add: core_def)
  then show ?thesis
    using assms unfolding join_body_def Let_def
    by (auto intro: adds_ret adds_after adds_settle_err adds_same dest: same_sendFrame split: sum.splits)
qed

lemma adds_ensureChannel:
  assumes "stack_ok TyChan ks"
  shows "adds (mus ks) s (ensureChannel W name ks s)"
proof (cases "jm_get (channels s) name")
  case (Some ch)
  then show ?thesis
    using adds_join_channel [of "KEnsure ch False # ks" s] assms by (simp add: ensureChannel_def mu_simps)
next
  case None
  obtain ch s1 where e: "ensureChannelKeys W name s = (ch, s1)" by fastforce
  have "same s s1" using same_ensureChannelKeys [of s W name] by (simp add: e)
  moreover have "adds (mus ks) s1 (join_channel name (ch_pub ch) (KEnsure ch True # ks) s1)"
    using adds_join_channel [of "KEnsure ch True # ks" s1] assms by (simp add: mu_simps)
  ultimately show ?thesis
    using None e by (simp add: ensureChannel_def adds_same_then)
qed

lemma adds_send: "stack_ok TySent ks \<Longrightarrow> adds (mus ks) s (send W channel text ks s)"
  using adds_ensureChannel [of "KSendEns channel text # ks" s] by (auto simp: send_def mu_simps intro: adds_throw)

lemma adds_agentInfo:
  assumes "stack_ok TyPeer ks"
  shows "adds (mus ks) s (agentInfo a ks s)"
proof -
  let ?parkd = "\<lambda>ks. (new_promise WAIT_MS (TWhois a) ks s)
    \<lparr>whoisWaiters := jm_set a (waiters_of (whoisWaiters s) a @ [n_pid s]) (whoisWaiters s), whoisCalls := whoisCalls s + 1\<rparr>"
  have park: "adds (mus ks) s (?parkd ks)" if "stack_ok TyPeer ks" for ks
  proof (rule adds_promise [OF that])
    show "waits (?parkd ks) \<subseteq> insert (n_pid s, TyPeer) (waits s)"
      using vals_jm_set [of a "waiters_of (whoisWaiters s) a @ [n_pid s]" "whoisWaiters s"]
        vals_waiters_of [of "whoisWaiters s" a]
      unfolding subset_iff [of "waits (?parkd ks)"] by (auto simp: waits_mem new_promise_def)
  qed (simp_all add: core_def)
  have "adds (0 + mus ks) s (throw e ks (?parkd [KNobody]))" for e
    using park [of "[KNobody]"] adds_throw [OF assms] by (intro adds_trans) (auto simp: mu_simps)
  then show ?thesis
    using assms park unfolding agentInfo_def Let_def
    by (auto intro: adds_ret adds_same_after dest: same_ws_send split: option.splits sum.splits)
qed

lemma adds_dm: "stack_ok TySent ks \<Longrightarrow> adds (mus ks) s (dm to text ks s)"
  using adds_agentInfo [of "KDmInfo to text # ks" s] by (auto simp: dm_def mu_simps intro: adds_throw)

lemma adds_whois: "stack_ok TyWhois ks \<Longrightarrow> adds (mus ks) s (whois a ks s)"
  using adds_agentInfo [of "KWhois # ks" s] by (simp add: whois_def mu_simps)

lemma adds_invite: "stack_ok TySent ks \<Longrightarrow> adds (mus ks) s (invite W channel to ks s)"
  using adds_ensureChannel [of "KInviteEns channel to # ks" s] by (simp add: invite_def mu_simps)

lemma adds_take2: "adds m (take_random (take_uuid s)) s' \<Longrightarrow> adds m s s'"
  by (rule adds_same_then [OF same_trans [OF same_take(2) same_take(1)]])

lemma adds_send_posted:
  assumes "stack_ok TySent ks"
  shows "adds (mus ks) s (send_posted W channel text ch created ks s)"
proof (cases "post W ''channel'' channel text (b64d (ch_pub ch)) s")
  case (Inl e)
  then show ?thesis using assms by (simp add: send_posted_def adds_take2 adds_throw)
next
  case (Inr a)
  then obtain i s1 where a: "post W ''channel'' channel text (b64d (ch_pub ch)) s = Inr (i, s1)" by (cases a) auto
  show ?thesis using assms by (simp add: send_posted_def a adds_same_then [OF same_post [OF a]] adds_ret)
qed

lemma adds_dm_posted:
  assumes "stack_ok TySent ks"
  shows "adds (mus ks) s (dm_posted W to text info ks s)"
proof (cases "post W ''to'' to text (p_xPub info) s")
  case (Inl e)
  then show ?thesis using assms by (simp add: dm_posted_def adds_take2 adds_throw)
next
  case (Inr a)
  then obtain i s1 where a: "post W ''to'' to text (p_xPub info) s = Inr (i, s1)" by (cases a) auto
  show ?thesis using assms by (simp add: dm_posted_def a adds_same_then [OF same_post [OF a]] adds_ret)
qed

section \<open>Presence and invites\<close>

lemma core_unpark [simp]: "core (unparkPresenceWaiter i w s) = core s"
  by (simp add: unparkPresenceWaiter_def core_def Let_def split: option.splits)

lemma fields_unpark [simp]:
  "parked (unparkPresenceWaiter i w s) = parked s" "deliveringInvites (unparkPresenceWaiter i w s) = deliveringInvites s"
  "echoSeen (unparkPresenceWaiter i w s) = echoSeen s"
  by (simp_all add: unparkPresenceWaiter_def Let_def split: option.splits)

lemma waits_unpark: "waits (unparkPresenceWaiter i w s) \<subseteq> waits s"
proof (rule waits_sub)
  show "set (concat (map snd (presenceWaiters (unparkPresenceWaiter i w s)))) \<subseteq> set (concat (map snd (presenceWaiters s)))"
  proof (cases "jm_get (presenceWaiters s) i")
    case (Some ds)
    have "set (js_remove w ds) \<subseteq> set (concat (map snd (presenceWaiters s)))"
      using map_of_SomeD [OF Some] by (force simp: js_remove_def)
    then show ?thesis
      using vals_jm_set [of i "js_remove w ds" "presenceWaiters s"] vals_jm_del [of i "presenceWaiters s"] Some
      by (auto simp: unparkPresenceWaiter_def Let_def)
  qed (simp add: unparkPresenceWaiter_def)
qed (simp_all add: unparkPresenceWaiter_def Let_def split: option.splits)

lemma adds_unpark: "adds 0 s (unparkPresenceWaiter i w s)"
  by (rule adds_frame) (simp_all add: waits_unpark)

lemma vals_park:
  "set (concat (map snd (presenceWaiters (parkPresenceWaiter i w s)))) \<subseteq> insert w (set (concat (map snd (presenceWaiters s))))"
  using vals_jm_set [of i "js_add w (waiters_of (presenceWaiters s) i)" "presenceWaiters s"]
    vals_waiters_of [of "presenceWaiters s" i]
  by (auto simp: parkPresenceWaiter_def)

lemma adds_presence:
  assumes "stack_ok TyAgents ks"
  shows "adds (mus ks) s (presence W ks s)"
proof -
  let ?i = "ce_uuid W (n_uuid s)" and ?p = "n_pid s"
  let ?s0 = "new_promise WAIT_MS (TPresence ?i) (KOnline # ks) (take_uuid s)"
  let ?s1 = "parkPresenceWaiter ?i (PCall ?p) ?s0"
  have "adds (mus (KOnline # ks)) s ?s1"
  proof (rule adds_promise [of TyAgents])
    show "waits ?s1 \<subseteq> insert (n_pid s, TyAgents) (waits s)"
      using vals_park [of ?i "PCall ?p" ?s0]
      unfolding subset_iff [of "waits ?s1"]
      by (auto simp: waits_mem parkPresenceWaiter_def new_promise_def take_uuid_def)
  qed (use assms in \<open>simp_all add: core_def parkPresenceWaiter_def new_promise_def take_uuid_def\<close>)
  then have s1: "adds (mus ks) s ?s1" by (simp add: mu_simps)
  show ?thesis
  proof (cases "is_connected s")
    case True
    have "adds (mus ks) s (settle (Inl e) ?p (unparkPresenceWaiter ?i (PCall ?p) ?s1))" for e
      by (rule adds_after [OF adds_after [OF s1 adds_unpark] adds_settle_err])
    moreover have "adds (mus ks) s s2" if "sendFrame (presence_query ?i) ?s1 = Inr s2" for s2
      using s1 by (rule adds_same_after) (rule same_sendFrame [OF that])
    ultimately show ?thesis using True by (simp add: presence_def Let_def split: sum.splits)
  qed (use assms in \<open>simp add: presence_def adds_throw\<close>)
qed

lemma adds_warmUp: "adds 0 s (warmUpPresence W attempt s)"
proof -
  let ?i = "ce_uuid W (n_uuid s)"
  let ?s1 = "parkPresenceWaiter ?i (PWarm attempt) (take_uuid s)"
  have s1: "adds 0 s ?s1"
  proof (rule adds_frame)
    show "waits ?s1 \<subseteq> waits s"
      using vals_park [of ?i "PWarm attempt" "take_uuid s"]
      unfolding subset_iff [of "waits ?s1"]
      by (auto simp: waits_mem parkPresenceWaiter_def take_uuid_def)
  qed (simp add: core_def parkPresenceWaiter_def take_uuid_def)
  have "adds 0 s s2" if "sendFrame (presence_query ?i) ?s1 = Inr s2" for s2
    using s1 by (rule adds_same_after) (rule same_sendFrame [OF that])
  moreover have "adds 0 s (unparkPresenceWaiter ?i (PWarm attempt) ?s1)"
    using s1 by (rule adds_after) (rule adds_unpark)
  ultimately show ?thesis by (simp add: warmUpPresence_def Let_def split: sum.splits)
qed

lemma adds_presence_done:
  assumes "isl out \<or> (\<forall>p. w = PCall p \<longrightarrow> (p, TyAgents) \<in> waits s)"
  shows "adds 0 s (presence_done W out i w s)"
proof (cases w)
  case (PWarm a)
  then show ?thesis
    by (simp add: presence_done_def Let_def adds_unpark adds_then [OF adds_unpark adds_warmUp])
next
  case (PCall p)
  let ?s1 = "unparkPresenceWaiter i w s"
  show ?thesis
  proof (cases out)
    case (Inl e)
    have "adds 0 ?s1 (settle (Inl e) p ?s1)" by (rule adds_settle_err)
    with PCall Inl show ?thesis by (simp add: presence_done_def Let_def adds_then [OF adds_unpark])
  next
    case (Inr as)
    have w: "(p, TyAgents) \<in> waits s" using assms PCall Inr by simp
    show ?thesis
      unfolding adds_def
    proof (intro impI)
      assume ok: "async_ok s"
      have "adds 0 ?s1 (settle (Inr (VAgents as)) p ?s1)"
        by (rule adds_settle) (use ok w in \<open>auto simp: async_ok_def waits_ok_def\<close>)
      with adds_unpark [of s i w] ok PCall Inr
      show "async_ok (presence_done W out i w s) \<and> total (presence_done W out i w s) = total s + 0
          \<and> ages s (presence_done W out i w s)"
        by (auto simp: presence_done_def Let_def adds_def intro: ages_trans)
    qed
  qed
qed

lemma adds_deliverPending:
  assumes "stack_ok TyUnit ks"
  shows "adds (mus ks) s (deliverPendingInvites W ks s)"
proof (cases "deliveringInvites s \<or> pendingInvites s = [] \<or> \<not> is_connected s")
  case True
  with assms show ?thesis by (simp add: deliverPendingInvites_def adds_ret)
next
  case False
  let ?s = "s\<lparr>deliveringInvites := True\<rparr>"
  have p: "adds (mus (KDeliver # ks)) ?s (presence W (KDeliver # ks) ?s)"
    using assms by (intro adds_presence) simp
  have "waits ?s = waits s" by (simp add: waits_def)
  then have "async_ok ?s = async_ok s" by (simp add: async_ok_def)
  moreover have "total s = total ?s + d" using False by (simp add: total_def)
  ultimately show ?thesis
    using p False by (simp add: deliverPendingInvites_def adds_def mu_simps ages_def)
qed

lemma adds_poll: "adds 0 s (pollPendingInvites W s)"
  using adds_deliverPending [of "[KSurface]" s W] by (simp add: pollPendingInvites_def mu_simps)

lemma adds_end_delivery:
  assumes "d = 0 \<or> deliveringInvites s" "suits out ks"
  shows "adds (d + mus ks) s (end_delivery out ks s)"
proof -
  let ?s = "s\<lparr>deliveringInvites := False\<rparr>"
  have "waits ?s = waits s" by (simp add: waits_def)
  then have "async_ok ?s = async_ok s" by (simp add: async_ok_def)
  moreover have "total ?s = total s + d" using assms(1) by (auto simp: total_def)
  ultimately show ?thesis
    using adds_schedule [OF assms(2), of ?s] by (simp add: end_delivery_def adds_def ages_def)
qed

lemma adds_deliver_loop:
  assumes "d = 0 \<or> deliveringInvites s" "stack_ok TyUnit ks"
  shows "adds (d + mus ks) s (deliver_loop W i agents ks s)"
proof (induction i)
  case 0
  then show ?case using assms by (simp add: adds_end_delivery)
next
  case (Suc i)
  have "adds (d + mus ks) s (invite W ch to (KDelivered i agents p # ks) s)" for ch to p
    using adds_invite [of "KDelivered i agents p # ks" s W ch to] assms by (simp add: mu_simps)
  moreover have "adds (d + mus ks) s (end_delivery (Inl e) ks s)" for e
    using assms by (intro adds_end_delivery) auto
  ultimately show ?case using Suc by (auto simp: Let_def split: sum.splits)
qed

lemma same_delivering: "same s s' \<Longrightarrow> deliveringInvites s' = deliveringInvites s"
  by (simp add: same_def core_def)

lemma adds_delivered_invite:
  assumes "d = 0 \<or> deliveringInvites s" "stack_ok TyUnit ks"
  shows "adds (d + mus ks) s (delivered_invite W i agents p ks s)"
proof -
  let ?s = "s\<lparr>pendingInvites := drop_at i (pendingInvites s)\<rparr>"
  have s: "same s ?s" by (simp add: same_def core_def)
  have fin: "adds (d + mus ks) s (end_delivery (Inl e) ks s')" if "same s s'" for s' e
    using assms same_delivering [OF that] by (intro adds_same_then [OF that] adds_end_delivery) auto
  have loop: "adds (d + mus ks) s (deliver_loop W i agents ks s')" if "same s s'" for s'
    using assms same_delivering [OF that] by (intro adds_same_then [OF that] adds_deliver_loop) auto
  have dv: "same s (deliver ev s1)" if "store_invites ?s = Inr s1" for s1 ev
    using same_trans [OF same_trans [OF s same_store_invites [OF that]] same_deliver] .
  show ?thesis
    using fin [OF s] fin [OF dv] loop [OF dv]
    by (simp add: delivered_invite_def Let_def split: sum.splits option.splits)
qed

lemma adds_arm_body:
  assumes "stack_ok TyArmed ks"
  shows "adds (mus ks) s (arm_body W name channel ks s)"
proof -
  let ?s = "s\<lparr>pendingInvites := pendingInvites s @ [pending_json \<lparr>pi_name = name, pi_channel = channel\<rparr>]\<rparr>"
  have s: "same s ?s" by (simp add: same_def core_def)
  have fine: "adds (mus ks) s (ret (VArmed a) ks (pollPendingInvites W s'))" if "same s s'" for a s'
    by (rule adds_same_then [OF that adds_then [OF adds_poll adds_ret]]) (simp add: assms)
  have err: "adds (mus ks) s (throw e ks s')" if "same s s'" for e s'
    by (rule adds_same_then [OF that adds_throw [OF assms]])
  show ?thesis
    using fine [OF same_refl] fine [OF same_trans [OF s same_store_invites]] err [OF same_refl] err [OF s]
    by (auto simp: arm_body_def Let_def split: sum.splits if_splits)
qed

lemma adds_inviteByName:
  assumes "stack_ok TySent ks" "stack_ok TyArmed ks"
  shows "adds (mus ks) s (inviteByName W channel who ks s)"
  using assms adds_presence [of "KByName channel who # ks" s W]
  by (auto simp: inviteByName_def mu_simps intro: adds_throw adds_invite)

lemma adds_by_name:
  assumes "stack_ok TySent ks" "stack_ok TyArmed ks"
  shows "adds (mus ks) s (by_name W channel who as ks s)"
  using assms adds_ensureChannel [of "KArm who channel # ks" s W channel]
  by (auto simp: by_name_def mu_simps intro: adds_throw adds_invite split: sum.splits list.splits)

end

end
