(* ===== verification/Client_Steps.thy ===== *)
theory Client_Steps
  imports Client_Sound
begin

text \<open>
  The accounting of \<open>Client_Sound\<close> carried to the continuations, the events and the runs.
\<close>

fun call_weight :: "(nat \<Rightarrow> nat) \<Rightarrow> label \<Rightarrow> nat" where
  "call_weight r (Call n a) = r n"
| "call_weight r l = 0"

lemma sum_drop_at: "n < length xs \<Longrightarrow> sum_list (map f xs) = f (xs ! n) + (sum_list (map f (drop_at n xs)) :: nat)"
proof (induction n xs rule: drop_at.induct)
  case (3 i x xs)
  then show ?case by simp
qed simp_all

lemma set_drop_at: "set (drop_at n xs) \<subseteq> set xs"
  by (induction n xs rule: drop_at.induct) auto

context kont_count
begin

lemma adds_onMsg: "adds 0 s (onMsg f s)"
  using adds_agentInfo [of "[KMsg f]" s] by (simp add: onMsg_def mu_simps)

lemma adds_accept_invite: "adds 0 s (accept_invite i s)"
proof -
  have "adds 0 s' (join_channel ch pub [KSwallow] s')" for s' ch pub
    using adds_join_channel [of "[KSwallow]" s'] by (simp add: mu_simps)
  then show ?thesis
    unfolding accept_invite_def
    by (rule adds_same_then [OF same_trans [OF same_addChannel same_persist_keys]])
qed

lemma adds_msg_resumed: "adds 0 s (msg_resumed W f out s)"
proof -
  have "adds 0 s (msg_decrypted W f ev s)" for ev
    using adds_same [OF same_surface_msg] adds_then [OF adds_accept_invite adds_same [OF same_surface_msg]]
    by (simp add: msg_decrypted_def split: option.splits)
  then show ?thesis
    using adds_same [OF same_msg_failed] by (simp add: msg_resumed_def split: sum.splits dap_value.splits)
qed

lemma adds_invite_ensured:
  assumes "stack_ok TySent ks"
  shows "adds (mus ks) s (invite_ensured W channel to ch created ks s)"
proof -
  have "adds (mus ks) s (dm to msg (KInviteDm channel ch created # ks) s)" for msg
    using adds_dm [of "KInviteDm channel ch created # ks" s to msg] assms by (simp add: mu_simps)
  then show ?thesis
    using adds_throw [OF assms] by (simp add: invite_ensured_def split: option.splits list.splits)
qed

lemma adds_resume_ok:
  assumes "gives k \<noteq> []" "stack_ok (vtype v) (k # ks)" "mu k = 0 \<or> d = 0 \<or> deliveringInvites s"
  shows "adds (mu k + mus ks) s (resume_ok W k v ks s)"
proof -
  have dm: "adds (mus ks) s (ready WAIT_MS (KDmReady to msg info # ks) s)"
    and snd: "adds (mus ks) s (ready WAIT_MS (KSendReady to msg ch c # ks) s)"
    if "stack_ok TySent ks" for to msg info ch c
    using that adds_ready [of "KDmReady to msg info # ks" WAIT_MS s]
      adds_ready [of "KSendReady to msg ch c # ks" WAIT_MS s] by (simp_all add: mu_simps)
  consider "k = KDeliver" | i agents p where "k = KDelivered i agents p" | "mu k = 0" "k \<noteq> KDeliver" "\<nexists>i agents p. k = KDelivered i agents p"
    by (cases k) (use assms(1) in \<open>auto simp: mu_simps\<close>)
  then show ?thesis
  proof cases
    case 1
    then have "d = 0 \<or> deliveringInvites s" using assms(3) by (auto simp: mu_simps)
    with 1 assms(2) show ?thesis by (cases v) (simp_all add: mu_simps adds_deliver_loop)
  next
    case 2
    then have "d = 0 \<or> deliveringInvites s" using assms(3) by (auto simp: mu_simps)
    with 2 assms(2) show ?thesis by (cases v) (simp_all add: mu_simps adds_delivered_invite)
  next
    case 3
    with assms(1,2) show ?thesis
      by (cases k; cases v)
        (simp_all add: adds_join_body adds_ret adds_throw adds_send_posted adds_dm_posted adds_invite_ensured
          adds_by_name adds_arm_body dm snd)
  qed
qed

lemma adds_resume_err:
  assumes "gives k \<noteq> []" "stack_ok t (k # ks)" "mu k = 0 \<or> d = 0 \<or> deliveringInvites s"
  shows "adds (mu k + mus ks) s (resume_err W k e ks s)"
proof -
  from assms(1,2) obtain t' where t': "stack_ok t' ks"
    by (cases "gives k") auto
  consider "k = KDeliver" | i agents p where "k = KDelivered i agents p" | "mu k = 0" "k \<noteq> KDeliver" "\<nexists>i agents p. k = KDelivered i agents p"
    by (cases k) (use assms(1) in \<open>auto simp: mu_simps\<close>)
  then show ?thesis
  proof cases
    case 1
    then have "d = 0 \<or> deliveringInvites s" using assms(3) by (auto simp: mu_simps)
    moreover have "suits (Inl e) ks" using t' by auto
    ultimately show ?thesis by (simp only: 1 resume_err.simps mu_simps adds_end_delivery)
  next
    case 2
    then have "d = 0 \<or> deliveringInvites s" using assms(3) by (auto simp: mu_simps)
    with 2 assms(2) show ?thesis by (simp add: mu_simps adds_deliver_loop)
  next
    case 3
    then have "resume_err W k e ks s = throw e ks s" by (cases k) auto
    with 3 t' show ?thesis by (simp add: adds_throw)
  qed
qed

lemma adds_resume:
  assumes "suits out ks" "\<forall>k \<in> set (take 1 ks). mu k = 0 \<or> gives k = [] \<or> d = 0 \<or> deliveringInvites s"
  shows "adds (mus ks) s (resume W out ks s)"
proof (cases ks)
  case Nil
  with assms show ?thesis by (auto simp: suits_def split: sum.splits)
next
  case (Cons k ks')
  show ?thesis
  proof (cases "gives k = []")
    case False
    then have "resume W out ks s = (case out of Inl e \<Rightarrow> resume_err W k e ks' s | Inr v \<Rightarrow> resume_ok W k v ks' s)"
      by (cases k) (simp_all add: Cons split: sum.splits)
    moreover have "mu k = 0 \<or> d = 0 \<or> deliveringInvites s" using assms(2) Cons False by simp
    ultimately show ?thesis
      using assms(1) Cons False adds_resume_err [of k _ ks' s] adds_resume_ok [of k _ ks' s]
      by (cases out) (auto simp: suits_def)
  next
    case True
    with assms(1) Cons have "ks' = []" by (auto simp: suits_def split: sum.splits)
    have res: "adds (r n) s (s\<lparr>results := results s @ [(n, out)]\<rparr>)" for n
      by (simp add: adds_def async_ok_def waits_def total_def ages_def)
    have cr: "adds 0 s (crash s)"
      by (rule adds_same) (simp add: crash_def same_def core_def)
    show ?thesis
      using True \<open>ks' = []\<close> res cr adds_same [OF same_surface] adds_msg_resumed
      by (cases k) (auto simp: Cons mu_simps split: sum.splits)
  qed
qed

lemma adds_resume_nth:
  assumes "n < length (micro s)" "d = 0 \<or> total s = d"
  shows "adds 0 s (resume_nth W n s)"
proof -
  obtain out ks where m: "micro s ! n = (out, ks)" by fastforce
  let ?s = "s\<lparr>micro := drop_at n (micro s)\<rparr>"
  have t: "total s = total ?s + mus ks"
    using sum_drop_at [OF assms(1), of "\<lambda>(out, ks). mus ks"] by (simp add: total_def m)
  have flag: "mu k = 0 \<or> gives k = [] \<or> d = 0 \<or> deliveringInvites s" if "k \<in> set (take 1 ks)" for k
  proof (cases "d = 0 \<or> deliveringInvites s")
    case False
    then have "total ?s \<ge> d" "total s = d" "0 < d" using assms(2) by (simp_all add: total_def)
    with t have "mus ks = 0" by simp
    with that have "mu k = 0" by (cases ks) auto
    then show ?thesis ..
  qed auto
  show ?thesis
    unfolding adds_def
  proof (intro impI)
    assume ok: "async_ok s"
    then have ok': "async_ok ?s"
      using set_drop_at [of n "micro s"] by (auto simp: async_ok_def micro_ok_def list_all_iff)
    have "suits out ks"
      using ok nth_mem [OF assms(1)] by (auto simp: async_ok_def micro_ok_def list_all_iff m)
    then have "adds (mus ks) ?s (resume W out ks ?s)"
      using flag by (intro adds_resume) auto
    with ok' t show "async_ok (resume_nth W n s) \<and> total (resume_nth W n s) = total s + 0 \<and> ages s (resume_nth W n s)"
      by (simp add: resume_nth_def m adds_def ages_def)
  qed
qed

section \<open>Frames of the hub\<close>

lemma adds_settle_all_frame:
  assumes "adds 0 s (settle_all out ps s)" "core s' = core (settle_all out ps s)" "waits s' \<subseteq> waits s"
  shows "adds 0 s s'"
  by (rule adds_after [OF assms(1) adds_frame [OF assms(2)]]) (simp add: assms(3))

lemma settle_ready [simp]: "settle out p (s\<lparr>readyWaiters := x\<rparr>) = (settle out p s)\<lparr>readyWaiters := x\<rparr>"
  by (simp add: settle_def schedule_def split: option.splits)

lemma settle_all_ready [simp]: "settle_all out ps (s\<lparr>readyWaiters := x\<rparr>) = (settle_all out ps s)\<lparr>readyWaiters := x\<rparr>"
  unfolding settle_all_def by (induction ps arbitrary: s) simp_all

lemma lists_settle [simp]:
  "whoisWaiters (settle out p s) = whoisWaiters s" "joinWaiters (settle out p s) = joinWaiters s"
  "readyWaiters (settle out p s) = readyWaiters s" "presenceWaiters (settle out p s) = presenceWaiters s"
  by (simp_all add: settle_def schedule_def split: option.splits)

lemma lists_settle_all [simp]:
  "whoisWaiters (settle_all out ps s) = whoisWaiters s" "joinWaiters (settle_all out ps s) = joinWaiters s"
  "readyWaiters (settle_all out ps s) = readyWaiters s" "presenceWaiters (settle_all out ps s) = presenceWaiters s"
  unfolding settle_all_def by (induction ps arbitrary: s) simp_all

lemma core_lists [simp]:
  "core (s\<lparr>readyWaiters := a\<rparr>) = core s" "core (s\<lparr>joinWaiters := b\<rparr>) = core s"
  "core (s\<lparr>whoisWaiters := c\<rparr>) = core s" "core (s\<lparr>presenceWaiters := e\<rparr>) = core s"
  "core (s\<lparr>joined := f\<rparr>) = core s" "core (s\<lparr>known := g\<rparr>) = core s"
  by (simp_all add: core_def)

lemma waits_drop:
  "waits (s\<lparr>readyWaiters := []\<rparr>) \<subseteq> waits s" "waits (s\<lparr>joinWaiters := []\<rparr>) \<subseteq> waits s"
  "waits (s\<lparr>whoisWaiters := []\<rparr>) \<subseteq> waits s" "waits (s\<lparr>presenceWaiters := []\<rparr>) \<subseteq> waits s"
  "waits (s\<lparr>joinWaiters := jm_del c (joinWaiters s)\<rparr>) \<subseteq> waits s"
  "waits (s\<lparr>whoisWaiters := jm_del c (whoisWaiters s)\<rparr>) \<subseteq> waits s"
  using vals_jm_del [of c "joinWaiters s"] vals_jm_del [of c "whoisWaiters s"]
  by (intro waits_sub; simp)+

lemma adds_wake_ready: "adds 0 s (wake_ready s)"
  unfolding wake_ready_def
  by (rule adds_settle_all_frame [of s "Inr VUnit" "readyWaiters s"])
    (auto simp: waits_mem intro!: adds_settle_all_val subset_trans [OF waits_drop(1)])

lemma adds_onJoined: "adds 0 s (onJoined c s)"
proof -
  let ?s = "s\<lparr>joined := js_add c (joined s)\<rparr>"
  have s: "same s ?s" by (simp add: same_def)
  have "adds 0 ?s (settle_all (Inr VUnit) (waiters_of (joinWaiters ?s) c) ?s)"
    using vals_waiters_of [of "joinWaiters ?s" c]
    by (intro adds_settle_all_val) (auto simp: waits_mem)
  then have "adds 0 ?s ((settle_all (Inr VUnit) (waiters_of (joinWaiters ?s) c) ?s)\<lparr>joinWaiters := jm_del c (joinWaiters ?s)\<rparr>)"
    by (rule adds_settle_all_frame)
      (use waits_drop(5) [where s = "settle_all (Inr VUnit) (waiters_of (joinWaiters ?s) c) ?s" and c = c] in simp_all)
  then show ?thesis
    unfolding onJoined_def Let_def by (rule adds_same_then [OF s])
qed

lemma adds_onAgentInfo: "adds 0 s (onAgentInfo f s)"
proof -
  have gen: "adds 0 s ((settle_all (Inr (VPeer info)) (waiters_of (whoisWaiters s1) a) s1)\<lparr>whoisWaiters := jm_del a (whoisWaiters s1)\<rparr>)"
    if s1: "same s s1" for s1 a info
  proof -
    have "adds 0 s1 (settle_all (Inr (VPeer info)) (waiters_of (whoisWaiters s1) a) s1)"
      using vals_waiters_of [of "whoisWaiters s1" a]
      by (intro adds_settle_all_val) (auto simp: waits_mem)
    then have "adds 0 s1 ((settle_all (Inr (VPeer info)) (waiters_of (whoisWaiters s1) a) s1)\<lparr>whoisWaiters := jm_del a (whoisWaiters s1)\<rparr>)"
      by (rule adds_settle_all_frame)
        (use waits_drop(6) [where s = "settle_all (Inr (VPeer info)) (waiters_of (whoisWaiters s1) a) s1" and c = a] in simp_all)
    then show ?thesis by (rule adds_same_then [OF s1])
  qed
  show ?thesis
    unfolding onAgentInfo_def Let_def by (rule gen) (simp add: same_def)
qed

lemma adds_fail_joins: "adds 0 s (fail_joins channel e s)"
proof -
  have "adds 0 s ((settle_all (Inl e) ps s)\<lparr>joinWaiters := jm_del c (joinWaiters s)\<rparr>)" for ps c
    by (rule adds_settle_all_frame [OF adds_settle_all_err])
      (use waits_drop(5) [where s = "settle_all (Inl e) ps s" and c = c] in simp_all)
  moreover have "adds 0 s ((settle_all (Inl e) ps s)\<lparr>joinWaiters := []\<rparr>)" for ps
    by (rule adds_settle_all_frame [OF adds_settle_all_err])
      (use waits_drop(2) [where s = "settle_all (Inl e) ps s"] in simp_all)
  ultimately show ?thesis
    by (simp add: fail_joins_def split: json.splits list.splits)
qed

lemma adds_fail_whois: "adds 0 s (fail_whois s)"
proof -
  let ?f = "\<lambda>(a, ps). settle_all (Inl (JsError (''unknown_agent: '' @ a))) ps"
  have whois: "adds 0 s (fold ?f qs s)" for qs
    by (induction qs arbitrary: s) (auto intro: adds_then adds_settle_all_err)
  have "adds 0 (fold ?f (whoisWaiters s) s) ((fold ?f (whoisWaiters s) s)\<lparr>whoisWaiters := []\<rparr>)"
    by (rule adds_frame) (simp, rule waits_drop(3))
  with whois show ?thesis
    unfolding fail_whois_def by (rule adds_after)
qed

lemma adds_onError: "adds 0 s (onError f s)"
proof -
  have r: "adds 0 s (ringError e (s\<lparr>lastError := m\<rparr>))" for e m
    by (rule adds_same) (simp add: ringError_def same_def core_def)
  show ?thesis
    unfolding onError_def Let_def
    by (simp add: r adds_then [OF r adds_fail_joins] adds_then [OF r adds_fail_whois]
        adds_then [OF adds_then [OF r adds_fail_joins] adds_fail_whois])
qed

text \<open>What is parked for a promise takes a list of agents, if it is still parked.\<close>

definition expects :: "client \<Rightarrow> pid \<Rightarrow> bool" where
  "expects s p = (\<forall>ks. map_of (parked s) p = Some ks \<longrightarrow> stack_ok TyAgents ks)"

lemma waits_expects: "async_ok s \<Longrightarrow> (p, TyAgents) \<in> waits s \<Longrightarrow> expects s p"
  by (auto simp: async_ok_def waits_ok_def expects_def)

lemma expects_settle: "expects s q \<Longrightarrow> expects (settle out p s) q"
  by (auto simp: expects_def settle_def schedule_def split: option.splits if_splits)

lemma parked_warmUp [simp]: "parked (warmUpPresence W a s) = parked s"
  by (auto simp: warmUpPresence_def Let_def sendFrame_def push_frame_def parkPresenceWaiter_def take_uuid_def
      split: sum.splits option.splits if_splits)

lemma expects_presence_done:
  assumes "expects s q"
  shows "expects (presence_done W out i w s) q"
proof -
  have u: "expects (unparkPresenceWaiter i w s) q" using assms by (simp add: expects_def)
  then have "expects (warmUpPresence W a (unparkPresenceWaiter i w s)) q" for a
    by (simp add: expects_def)
  with u expects_settle [OF u] show ?thesis
    by (cases w) (simp_all add: presence_done_def Let_def)
qed

lemma adds_done_expected:
  assumes "\<And>p. w = PCall p \<Longrightarrow> async_ok s \<Longrightarrow> expects s p"
  shows "adds 0 s (presence_done W (Inr as) i w s)"
proof (cases w)
  case (PWarm a)
  then show ?thesis by (intro adds_presence_done) simp
next
  case (PCall p)
  let ?s1 = "unparkPresenceWaiter i w s"
  show ?thesis
    unfolding adds_def
  proof (intro impI)
    assume ok: "async_ok s"
    have "adds 0 ?s1 (settle (Inr (VAgents as)) p ?s1)"
      by (rule adds_settle) (use assms [OF PCall ok] in \<open>auto simp: expects_def\<close>)
    with adds_unpark [of s i w] ok PCall
    show "async_ok (presence_done W (Inr as) i w s) \<and> total (presence_done W (Inr as) i w s) = total s + 0
        \<and> ages s (presence_done W (Inr as) i w s)"
      by (auto simp: presence_done_def Let_def adds_def intro: ages_trans)
  qed
qed

lemma adds_fold_done:
  assumes "\<And>p. PCall p \<in> set ds \<Longrightarrow> async_ok s \<Longrightarrow> expects s p"
  shows "adds 0 s (fold (presence_done W (Inr as) i) ds s)"
proof -
  have "async_ok s \<longrightarrow> adds 0 s (fold (presence_done W (Inr as) i) ds s)"
    using assms
  proof (induction ds arbitrary: s)
    case (Cons w ds)
    show ?case
    proof
      assume ok: "async_ok s"
      have st: "adds 0 s (presence_done W (Inr as) i w s)"
        using Cons.prems by (intro adds_done_expected) simp
      have "\<And>p. PCall p \<in> set ds \<Longrightarrow> expects (presence_done W (Inr as) i w s) p"
        using Cons.prems ok by (intro expects_presence_done) simp
      then have "adds 0 (presence_done W (Inr as) i w s) (fold (presence_done W (Inr as) i) ds (presence_done W (Inr as) i w s))"
        using Cons.IH st ok by (simp add: adds_def)
      with st show "adds 0 s (fold (presence_done W (Inr as) i) (w # ds) s)"
        using adds_then by simp
    qed
  qed simp
  then show ?thesis by (simp add: adds_def)
qed

lemma all_presence_waits:
  "(i, PCall p) \<in> set (all_presence_waiters s) \<Longrightarrow> (p, TyAgents) \<in> waits s"
  by (force simp: all_presence_waiters_def waits_mem)

lemma adds_complete_all: "adds 0 s (complete_all n W agents s)"
proof (induction n arbitrary: s)
  case (Suc n)
  show ?case
  proof (cases "all_presence_waiters s")
    case (Cons x xs)
    obtain i w where x: "x = (i, w)" by fastforce
    have "(i, w) \<in> set (all_presence_waiters s)" using Cons x by simp
    then have "adds 0 s (presence_done W (Inr agents) i w s)"
      by (intro adds_done_expected waits_expects all_presence_waits) simp_all
    with Suc show ?thesis by (simp add: Cons x adds_then)
  qed simp
qed simp

lemma adds_onPresence: "onPresence W f s = Inr s' \<Longrightarrow> adds 0 s s'"
proof -
  have latch: "adds 0 s (fold (presence_done W (Inr as) i) (waiters_of (presenceWaiters s) i) (s\<lparr>echoSeen := True\<rparr>))" for as i
  proof -
    have "same s (s\<lparr>echoSeen := True\<rparr>)" by (simp add: same_def core_def)
    moreover have "adds 0 (s\<lparr>echoSeen := True\<rparr>) (fold (presence_done W (Inr as) i) (waiters_of (presenceWaiters s) i) (s\<lparr>echoSeen := True\<rparr>))"
      using vals_waiters_of [of "presenceWaiters s" i]
      by (intro adds_fold_done waits_expects) (auto simp: waits_mem)
    ultimately show ?thesis by (rule adds_same_then)
  qed
  show "onPresence W f s = Inr s' \<Longrightarrow> adds 0 s s'"
    unfolding onPresence_def bind_result_Inr_iff
    using latch by (auto simp: Let_def adds_complete_all split: if_splits)
qed

section \<open>Connection events\<close>

lemma adds_presence_fail: "adds 0 s (presence_fail W e ds s)"
proof (induction W e ds s rule: presence_fail.induct)
  case (2 W e i w ds s)
  have "adds 0 s (presence_done W (Inl e) i w s)" by (rule adds_presence_done) simp
  from adds_then [OF this 2] show ?case by simp
qed simp

lemma adds_failWaiters: "adds 0 s (failWaiters W e s)"
proof -
  let ?s1 = "(settle_all (Inl e) (concat (map snd (whoisWaiters s))) s)\<lparr>whoisWaiters := []\<rparr>"
  let ?s2 = "(presence_fail W e (all_presence_waiters ?s1) ?s1)\<lparr>presenceWaiters := []\<rparr>"
  have 1: "adds 0 s ?s1"
    by (rule adds_settle_all_frame [OF adds_settle_all_err])
      (use waits_drop(3) [where s = "settle_all (Inl e) (concat (map snd (whoisWaiters s))) s"] in simp_all)
  have 2: "adds 0 ?s1 ?s2"
    by (rule adds_after [OF adds_presence_fail adds_frame]) (simp, rule waits_drop(4))
  have 3: "adds 0 ?s2 (settle_all (Inl e) (readyWaiters ?s2) (?s2\<lparr>readyWaiters := []\<rparr>))"
    by (rule adds_then [OF adds_frame adds_settle_all_err]) (simp, rule waits_drop(1))
  show ?thesis
    unfolding failWaiters_def Let_def by (rule adds_then [OF 1 adds_then [OF 2 3]])
qed

lemma adds_stop: "adds 0 s (stop s)"
proof (rule adds_same)
  have "same s ((clear_retry (s\<lparr>stopped := True, watching := None\<rparr>))\<lparr>inviteTimer := False\<rparr>)"
    by (simp add: clear_retry_def same_def core_def split: option.splits)
  from same_trans [OF this same_close_ws] show "same s (stop s)"
    by (simp add: stop_def same_def core_def)
qed

lemma adds_retarget: "adds 0 s (of_start (retarget W next s))"
proof -
  have d: "same s (detach_ws ((clear_retry s)\<lparr>watching := None\<rparr>))"
    by (simp add: detach_ws_def clear_retry_def close_sock_def sock_of_def same_def core_def split: option.splits)
  have u: "same s1 (s1\<lparr>welcomed := False, stopped := False, o_url := a, ident := b, o_name := c, known := [], joined := [], delay := e\<rparr>)"
    for s1 :: client and a b c e
    by (simp add: same_def core_def)
  show ?thesis
    unfolding retarget_def swap_target_def of_start_def
    by (rule adds_then [OF adds_same [OF d] adds_then [OF adds_failWaiters adds_same [OF same_trans [OF u same_connect]]]])
qed

lemma adds_onDisconnect: "adds 0 s (onDisconnect W s)"
proof -
  have "same s (s\<lparr>watching := None, welcomed := False\<rparr>)"
    by (simp add: same_def core_def)
  then have 1: "adds 0 s (failWaiters W e (s\<lparr>watching := None, welcomed := False\<rparr>))" for e
    by (rule adds_same_then [OF _ adds_failWaiters])
  have 2: "adds 0 s (s\<lparr>watching := None, welcomed := False, delay := a, retries := b, retryTimer := c, n_timer := e\<rparr>)" for a b c e
    by (rule adds_same) (simp add: same_def core_def)
  show ?thesis
    using 1 2 by (simp add: onDisconnect_def Let_def)
qed

lemma adds_join_all: "adds 0 s (join_all chs s)"
proof (induction chs arbitrary: s)
  case (Cons x chs)
  have "adds 0 s (join_channel name pub [KSwallow] s)" for name pub
    using adds_join_channel [of "[KSwallow]" s name pub] by (simp add: mu_simps)
  from adds_then [OF this Cons.IH] show ?case by (cases x) (simp add: join_all_def)
qed (simp add: join_all_def)

lemma adds_onWelcome: "onWelcome W s = Inr s' \<Longrightarrow> adds 0 s s'"
proof -
  assume w: "onWelcome W s = Inr s'"
  let ?s0 = "s\<lparr>welcomed := True, welcomes := welcomes s + 1, delay := initialMs s, joined := []\<rparr>"
  from w obtain s1 s2 where s1: "ws_send (JObj [(''op'', JStr ''flush'')]) (warmUpPresence W 0 ?s0) = Inr s1"
    and s2: "(if enrollPending s1 then ws_send (JObj [(''t'', JStr ''enroll'')]) s1 else Inr s1) = Inr s2"
    and s': "s' = (if o_invites (join_all (channels (wake_ready s2)) (wake_ready s2))
      then startInvitePoller W (join_all (channels (wake_ready s2)) (wake_ready s2))
      else join_all (channels (wake_ready s2)) (wake_ready s2))"
    unfolding onWelcome_def bind_result_Inr_iff by (auto simp: Let_def)
  have 0: "adds 0 s (warmUpPresence W 0 ?s0)"
    by (rule adds_same_then [OF _ adds_warmUp]) (simp add: same_def core_def)
  have 1: "adds 0 s s1" by (rule adds_same_after [OF 0 same_ws_send [OF s1]])
  have "same s1 s2" using s2 same_ws_send by (auto split: if_splits)
  with 1 have 2: "adds 0 s s2" by (rule adds_same_after)
  have poller: "adds 0 t (startInvitePoller W t)" for t
    unfolding startInvitePoller_def
    by (rule adds_same_then [OF _ adds_poll]) (simp add: same_def core_def)
  show ?thesis
    unfolding s' by (simp add: adds_then [OF 2 adds_then [OF adds_wake_ready adds_join_all]]
        adds_then [OF 2 adds_then [OF adds_wake_ready adds_then [OF adds_join_all poller]]])
qed

lemma adds_onEnrolled: "onEnrolled secret s = Inr s' \<Longrightarrow> adds 0 s s'"
proof -
  have "same s (s\<lparr>enrollPending := False\<rparr>)" by (simp add: same_def core_def)
  then show "onEnrolled secret s = Inr s' \<Longrightarrow> adds 0 s s'"
    by (auto simp: onEnrolled_def split: if_splits dest!: same_persist_config intro!: adds_same intro: same_trans)
qed

lemma adds_crash: "adds 0 s (crash s)"
  by (rule adds_same) (simp add: crash_def same_def core_def)

lemma adds_handler: "(\<And>s'. x = Inr s' \<Longrightarrow> adds 0 s s') \<Longrightarrow> adds 0 s (handler x s)"
  by (simp add: handler_def adds_crash split: sum.splits)

lemma adds_handleRaw: "handleRaw W raw s = Inr s' \<Longrightarrow> adds 0 s s'"
proof -
  have d: "dispatch W f s = Inr s' \<Longrightarrow> adds 0 s s'" for f
    by (auto simp: dispatch_def split: json.splits if_splits
        intro: adds_onWelcome adds_onJoined adds_onAgentInfo adds_onPresence adds_onMsg adds_onError adds_onEnrolled)
  have l: "adds 0 s (s\<lparr>lastError := m\<rparr>)" for m
    by (rule adds_same) (simp add: same_def core_def)
  show "handleRaw W raw s = Inr s' \<Longrightarrow> adds 0 s s'"
    using d l by (auto simp: handleRaw_def split: sum.splits if_splits)
qed

lemma same_set: "same s (set_sock i st s)" "same s (detach i s)"
  by (simp_all add: set_sock_def detach_def same_def core_def)

lemma same_lastError: "same s (s\<lparr>lastError := m\<rparr>)"
  by (simp add: same_def core_def)

lemma adds_on_unexpected: "adds 0 s (on_unexpected W st s)"
proof -
  have u: "same s (ringError e (s\<lparr>lastError := m\<rparr>))" for e m
    by (rule same_trans [OF same_lastError same_ringError])
  have p: "same s s2" if "persist_config up ((ringError e (s\<lparr>lastError := m\<rparr>))\<lparr>reEnrolled := True\<rparr>) = Inr s2" for up e m s2
    using same_persist_config [OF that] u [of e m] by (auto simp: same_def core_def)
  have c: "same s (crash ((ringError e (s\<lparr>lastError := m\<rparr>))\<lparr>reEnrolled := True\<rparr>))" for e m
    using u [of e m] by (simp add: crash_def same_def core_def)
  show ?thesis
    unfolding on_unexpected_def Let_def
    by (auto intro!: adds_same intro: same_trans [OF same_lastError same_close_ws] same_trans [OF u same_close_ws]
        same_trans [OF p same_close_ws] c split: sum.splits)
qed

lemma adds_on_open: "adds 0 s (on_open W s)"
proof -
  have w: "same s (s\<lparr>watching := x\<rparr>)" for x
    by (simp add: same_def core_def)
  have "adds 0 (s\<lparr>watching := ws s\<rparr>) (handler (sendHello W (s\<lparr>watching := ws s\<rparr>)) (s\<lparr>watching := ws s\<rparr>))"
    by (rule adds_handler) (rule adds_same [OF same_sendHello])
  then show ?thesis
    unfolding on_open_def Let_def by (rule adds_same_then [OF w])
qed

lemma drop_timer_settle:
  assumes "t \<in> set (ptimers s)" "async_ok s"
  shows "settle out (pt_pid t) (s\<lparr>ptimers := filter (\<lambda>u. pt_pid u \<noteq> pt_pid t) (ptimers s)\<rparr>) = settle out (pt_pid t) s"
proof -
  have "pt_pid t \<in> fst ` set (parked s)"
    using assms by (auto simp: async_ok_def timers_ok_def)
  then obtain ks where "map_of (parked s) (pt_pid t) = Some ks"
    by (metis map_of_eq_None_iff not_None_eq)
  then show ?thesis by (simp add: settle_def schedule_def)
qed

lemma adds_promise_timeout:
  assumes t: "t \<in> set (ptimers s)"
  shows "adds 0 s (promise_timeout W t s)"
proof -
  have gen: "adds 0 s (promise_timeout W t s)"
    if "async_ok s \<Longrightarrow> promise_timeout W t s = settle (Inl e) (pt_pid t) s'" "adds 0 s s'" for s' e
    using adds_then [OF that(2) adds_settle_err] that(1) by (simp add: adds_def)
  note drop = drop_timer_settle [OF t]
  show ?thesis
  proof (cases "pt_kind t")
    case TReady
    have "adds 0 s (s\<lparr>readyWaiters := remove1 (pt_pid t) (readyWaiters s)\<rparr>)"
      by (rule adds_frame) (auto simp: waits_mem dest: set_remove1_subset [THEN subsetD])
    moreover have "promise_timeout W t s = settle (Inl (JsError ''hub not ready'')) (pt_pid t)
        (s\<lparr>readyWaiters := remove1 (pt_pid t) (readyWaiters s)\<rparr>)" if "async_ok s"
      using drop [OF that] by (simp add: promise_timeout_def Let_def TReady)
    ultimately show ?thesis using gen by blast
  next
    case (TJoin name)
    have "promise_timeout W t s = settle (Inl (JsError (''timeout joining '' @ name))) (pt_pid t) s" if "async_ok s"
      using drop [OF that] by (simp add: promise_timeout_def Let_def TJoin)
    then show ?thesis using gen adds_refl by blast
  next
    case (TWhois a)
    have "promise_timeout W t s = settle (Inl (JsError (''timeout whois '' @ a))) (pt_pid t) s" if "async_ok s"
      using drop [OF that] by (simp add: promise_timeout_def Let_def TWhois)
    then show ?thesis using gen adds_refl by blast
  next
    case (TPresence i)
    let ?s1 = "unparkPresenceWaiter i (PCall (pt_pid t)) s"
    have comm: "unparkPresenceWaiter i w (s\<lparr>ptimers := x\<rparr>) = (unparkPresenceWaiter i w s)\<lparr>ptimers := x\<rparr>" for w x
      by (simp add: unparkPresenceWaiter_def Let_def split: option.splits)
    have pt: "ptimers ?s1 = ptimers s" by (simp add: unparkPresenceWaiter_def Let_def split: option.splits)
    have "promise_timeout W t s = settle (Inl (JsError ''timeout waiting for presence'')) (pt_pid t) ?s1" if ok: "async_ok s"
    proof -
      have "async_ok ?s1" using adds_unpark [of s i "PCall (pt_pid t)"] ok by (simp add: adds_def)
      from drop_timer_settle [OF _ this] t pt show ?thesis
        by (simp add: promise_timeout_def presence_done_def Let_def TPresence comm)
    qed
    with adds_unpark show ?thesis using gen by blast
  qed
qed

lemma adds_call:
  assumes "enabled (Call n a) s"
  shows "adds (r n) s (call W a [KTop n] s)"
proof -
  have top: "stack_ok t [KTop n]" for t by simp
  have m: "mus [KTop n] = r n" by (simp add: mu_simps)
  show ?thesis
  proof (cases a)
    case (AReady ms)
    with assms have "ms \<le> WAIT_MS" by simp
    from adds_ready [OF top this] show ?thesis by (simp add: call_def AReady m del: mus_simps)
  qed (use adds_join_channel [OF top] adds_ensureChannel [OF top] adds_send [OF top] adds_dm [OF top] adds_invite [OF top]
    adds_inviteByName [OF top top] adds_whois [OF top] adds_presence [OF top] in \<open>simp_all add: call_def m del: mus_simps\<close>)
qed

lemma adds_tick:
  assumes "enabled (Tick t) s"
  shows "adds 0 s (s\<lparr>now := now s + t\<rparr>)"
proof -
  have w: "waits (s\<lparr>now := now s + t\<rparr>) = waits s" by (simp add: waits_def)
  have "timers_ok (ptimers s) ps (now s + t)" if "timers_ok (ptimers s) ps (now s)" for ps
    using that assms by (auto simp: timers_ok_def)
  then show ?thesis by (simp add: adds_def async_ok_def w total_def ages_def)
qed

lemma adds_retry_fires: "adds 0 s (retry_fires W h s)"
proof -
  let ?s = "s\<lparr>retries := filter (\<lambda>(k, _). k \<noteq> h) (retries s)\<rparr>"
  have "same s ?s" by (simp add: same_def core_def)
  from same_trans [OF this same_connect [of ?s W]]
  have "same s (snd (connect W ?s))" .
  then show ?thesis
    by (auto simp: retry_fires_def split_beta Let_def intro: adds_same adds_same_then [OF _ adds_crash])
qed

lemma adds_exec:
  assumes "enabled l s" "d = 0 \<or> total s = d"
  shows "adds (call_weight r l) s (exec W l s)"
proof (cases l)
  case (Tick t)
  with assms show ?thesis using adds_tick by simp
next
  case (SockOpen i)
  then show ?thesis using adds_same_then [OF same_set(1) adds_on_open] by simp
next
  case (SockMessage i raw)
  then show ?thesis by (simp add: adds_handler adds_handleRaw)
next
  case (SockError i e)
  then show ?thesis using adds_same [OF same_lastError] by (simp add: on_socket_error_def)
next
  case (SockClose i)
  then show ?thesis using adds_same_then [OF same_trans [OF same_set(1) same_set(2)] adds_onDisconnect] by simp
next
  case (PromiseTimeout p)
  then show ?thesis
    by (auto simp: timeout_fires_def split: list.splits intro!: adds_promise_timeout dest!: filter_eq_ConsD)
next
  case WatchdogKills
  have "same s (s\<lparr>watching := x\<rparr>)" for x by (simp add: same_def core_def)
  then show ?thesis using adds_same [OF same_trans [OF _ same_close_sock]] WatchdogKills by (simp split: option.splits)
next
  case (Resume n)
  with assms show ?thesis using adds_resume_nth by simp
next
  case (Call n a)
  with assms show ?thesis using adds_call by simp
next
  case StartCall
  have "same s (s\<lparr>stopped := False\<rparr>)" by (simp add: same_def core_def)
  from same_trans [OF this same_connect] show ?thesis using StartCall
    by (simp add: of_start_def start_def adds_same)
next
  case DrainInbox
  then show ?thesis by (simp add: drainInbox_def adds_same same_def core_def)
next
  case DrainErrors
  then show ?thesis by (simp add: drainErrors_def adds_same same_def core_def)
next
  case (Outside h k)
  then show ?thesis by (simp add: adds_same same_def core_def)
qed (simp_all add: adds_on_unexpected adds_retry_fires adds_poll adds_stop adds_retarget adds_same same_addChannel same_ensureChannelKeys)

end

end
