(* ===== verification/Client_Calls.thy ===== *)
theory Client_Calls
  imports Client_Steps
begin

text \<open>
  What the accounting shows of every run of a client: the public calls are each answered once, in
  bounded time, and at most one pass over the pending invites is on its way.
\<close>

fun top_weight :: "nat \<Rightarrow> kont \<Rightarrow> nat" where
  "top_weight n (KTop m) = (if m = n then 1 else 0)"
| "top_weight n k = 0"

fun pass_weight :: "kont \<Rightarrow> nat" where
  "pass_weight KDeliver = 1"
| "pass_weight (KDelivered i agents p) = 1"
| "pass_weight k = 0"

interpretation tops: kont_count "top_weight n" "\<lambda>m. if m = n then 1 else 0" 0 for n
  by unfold_locales simp_all

interpretation passes: kont_count pass_weight "\<lambda>_. 0" "Suc 0"
  by unfold_locales simp_all

lemma new_client_fields:
  assumes "new_client W opts h = Inr s"
  shows "parked s = []" "micro s = []" "ptimers s = []" "results s = []" "waits s = {}" "deliveringInvites s = False"
    "inboxMsgs s = []" "errorRing s = []" "crashed s = False" "echoSeen s = False" "retries s = []"
    "delay s = initialMs s" "delivered s = []" "hooked s = []" "presenceWaiters s = []" "welcomed s = False"
    "ws s = None" "n_pid s = 0" "now s = 0" "attached s = []" "socks s = []" "wire s = []" "dialed s = []"
    "joined s = []" "known s = []" "stopped s = False" "reEnrolled s = False" "watching s = None"
  using assms by (auto simp: new_client_def bind_result_Inr_iff waits_def split: prod.splits)

lemma new_client_ok: "new_client W opts h = Inr s \<Longrightarrow> async_ok s"
  using new_client_fields [of W opts h s]
  by (simp add: async_ok_def parked_ok_def timers_ok_def micro_ok_def waits_ok_def)

lemma step_adds:
  assumes "step W s l s'"
  shows "tops.adds n (call_weight (\<lambda>m. if m = n then 1 else 0) l) s s'"
    and "passes.total s = Suc 0 \<Longrightarrow> passes.adds (call_weight (\<lambda>_. 0) l) s s'"
  using assms by (auto elim!: stepE intro: tops.adds_exec passes.adds_exec)

lemma call_weight_0: "call_weight (\<lambda>_. 0) l = 0"
  by (cases l) simp_all

lemma run_async_ok: "run W s ls s' \<Longrightarrow> async_ok s \<Longrightarrow> async_ok s'"
  by (erule (1) run_invariant) (use step_adds(1) in \<open>auto simp: tops.adds_def\<close>)

lemma run_ages: "run W s ls s' \<Longrightarrow> async_ok s \<Longrightarrow> ages s s'"
proof (induction rule: run.induct)
  case (snoc s ls s' l s'')
  then have "async_ok s'" using run_async_ok by blast
  with step_adds(1) [OF snoc(2)] have "ages s' s''" by (simp add: tops.adds_def)
  with snoc show ?case using ages_trans by blast
qed simp

lemma run_tops:
  "run W s ls s' \<Longrightarrow> async_ok s \<Longrightarrow>
     tops.total n s' = tops.total n s + sum_list (map (call_weight (\<lambda>m. if m = n then 1 else 0)) ls)"
proof (induction rule: run.induct)
  case (snoc s ls s' l s'')
  then have "async_ok s'" using run_async_ok by blast
  with step_adds(1) [OF snoc(2), of n] snoc show ?case by (simp add: tops.adds_def)
qed simp

lemma run_passes: "run W s ls s' \<Longrightarrow> async_ok s \<Longrightarrow> passes.total s = Suc 0 \<Longrightarrow> passes.total s' = Suc 0"
proof (induction rule: run.induct)
  case (snoc s ls s' l s'')
  then have "async_ok s'" using run_async_ok by blast
  with step_adds(2) [OF snoc(2)] snoc show ?case by (simp add: passes.adds_def call_weight_0)
qed simp

lemma calls_weight: "sum_list (map (call_weight (\<lambda>m. if m = n then 1 else 0)) ls) = length (filter (\<lambda>l. \<exists>a. l = Call n a) ls)"
proof (induction ls)
  case (Cons l ls)
  then show ?case by (cases l) auto
qed simp

lemma parked_timer:
  assumes "async_ok s" "p \<in> fst ` set (parked s)"
  shows "\<exists>t \<in> set (ptimers s). pt_pid t = p \<and> now s \<le> pt_due t \<and> pt_due t \<le> now s + WAIT_MS"
proof -
  have "timers_ok (ptimers s) (fst ` set (parked s)) (now s)" using assms(1) by (simp add: async_ok_def)
  moreover from this assms(2) have "p \<in> pt_pid ` set (ptimers s)" by (simp add: timers_ok_def)
  then obtain t where "t \<in> set (ptimers s)" "pt_pid t = p" by blast
  ultimately show ?thesis by (auto simp: timers_ok_def)
qed

section \<open>Properties\<close>

text \<open>How often the \<open>n\<close>-th public call is waiting, or ready to go on, or has returned.\<close>

definition pending_calls :: "nat \<Rightarrow> client \<Rightarrow> nat" where
  "pending_calls n s =
     sum_list (map (\<lambda>(p, ks). count_list ks (KTop n)) (parked s)) + sum_list (map (\<lambda>(out, ks). count_list ks (KTop n)) (micro s))"

definition returned_calls :: "nat \<Rightarrow> client \<Rightarrow> nat" where
  "returned_calls n s = count_list (map fst (results s)) n"

lemma tops_mus: "tops.mus n ks = count_list ks (KTop n)"
proof (induction ks)
  case (Cons k ks)
  then show ?case by (cases k) auto
qed simp

lemma tops_total: "tops.total n s = pending_calls n s + returned_calls n s"
proof -
  have "sum_list (map (\<lambda>(m, out). if m = n then 1 else 0) rs) = count_list (map fst rs) n" for rs :: "(nat \<times> 'b) list"
    by (induction rs) auto
  then show ?thesis by (simp add: tops.total_def pending_calls_def returned_calls_def tops_mus)
qed


text \<open>C8: no promise waits longer than \<open>WAIT_MS\<close>: every promise somebody waits for has a timer that is
  due at most \<open>WAIT_MS\<close> from now, and once the clock is more than \<open>WAIT_MS\<close> past a moment at which it
  was waiting, it no longer is, whatever the hub did or did not send.\<close>

theorem no_promise_hangs:
  assumes "new_client W opts h = Inr s0" "run W s0 ls s" "p \<in> fst ` set (parked s)"
  shows "(\<exists>t \<in> set (ptimers s). pt_pid t = p \<and> pt_due t \<le> now s + WAIT_MS)
    \<and> (\<forall>ls' s'. run W s ls' s' \<and> now s + WAIT_MS < now s' \<longrightarrow> p \<notin> fst ` set (parked s'))"
proof -
  have ok: "async_ok s" by (rule run_async_ok [OF assms(2) new_client_ok [OF assms(1)]])
  then have pn: "p < n_pid s"
    using assms(3) by (auto simp: async_ok_def parked_ok_def dest: weak_map_of_SomeI)
  have due: "\<exists>t \<in> set (ptimers s). pt_pid t = p \<and> pt_due t \<le> now s + WAIT_MS"
    using parked_timer [OF ok assms(3)] by blast
  moreover have "p \<notin> fst ` set (parked s')" if r: "run W s ls' s'" and late: "now s + WAIT_MS < now s'" for ls' s'
  proof
    assume "p \<in> fst ` set (parked s')"
    then obtain t where t: "t \<in> set (ptimers s')" "pt_pid t = p" "now s' \<le> pt_due t"
      using parked_timer [OF run_async_ok [OF r ok]] by blast
    with run_ages [OF r ok] pn have "t \<in> set (ptimers s)" by (auto simp: ages_def)
    with ok have "pt_due t \<le> now s + WAIT_MS" by (simp add: async_ok_def timers_ok_def)
    with t late show False by simp
  qed
  ultimately show ?thesis by blast
qed


definition delivery_passes :: "client \<Rightarrow> nat" where
  "delivery_passes s =
     sum_list (map (\<lambda>(p, ks). sum_list (map pass_weight ks)) (parked s))
     + sum_list (map (\<lambda>(out, ks). sum_list (map pass_weight ks)) (micro s))"

text \<open>C22: at most one pass over the pending invites is on its way at any time, and one is exactly while
  \<open>deliveringInvites\<close> is set: no failure leaves the flag behind.\<close>

theorem one_delivery_pass:
  assumes "new_client W opts h = Inr s0" "run W s0 ls s"
  shows "delivery_passes s = (if deliveringInvites s then 1 else 0)"
proof -
  have z: "sum_list (map (\<lambda>(n, out). 0::nat) rs) = 0" for rs :: "(nat \<times> (exn + dap_value)) list"
    by (induction rs) auto
  have "passes.total s0 = Suc 0"
    using new_client_fields [OF assms(1)] by (simp add: passes.total_def)
  from run_passes [OF assms(2) new_client_ok [OF assms(1)] this] show ?thesis
    by (simp add: passes.total_def passes.mus_def delivery_passes_def z split: if_splits)
qed

section \<open>A concrete client\<close>

definition demo_env :: cenv where
  "demo_env = \<lparr>ce_crypto = demo_crypto, ce_uuid = (\<lambda>n. CHR ''u'' # nat_str n), ce_random = (\<lambda>n len. replicate len (of_nat n + 1)),
     ce_listeners = (\<lambda>_. None), ce_message = (\<lambda>_. ''error''), ce_url_ok = (\<lambda>_. True)\<rparr>"

definition demo_copts :: client_opts where
  "demo_copts = \<lparr>co_url = ''ws://hub/ws'', co_keyPath = ''/h/key'', co_name = Some ''ada'', co_channels = [], co_channelsFile = None,
     co_initialMs = None, co_maxMs = None, co_invites = False\<rparr>"

definition demo_client :: client where
  "demo_client = projr (new_client demo_env demo_copts sample_host)"

lemma demo_new: "new_client demo_env demo_copts sample_host = Inr demo_client"
proof -
  have "\<exists>s. new_client demo_env demo_copts sample_host = Inr s"
    by (simp add: new_client_def loadIdentity_def stored_identity_def sample_host_def demo_copts_def split_beta Let_def)
  then show ?thesis by (auto simp: demo_client_def)
qed

lemmas demo_fields = new_client_fields [OF demo_new]

definition demo_ready :: client where
  "demo_ready = exec demo_env (Call 7 (AReady 5000)) demo_client"

lemma demo_ready_run: "run demo_env demo_client [Call 7 (AReady 5000)] demo_ready"
  by (rule steps_run) (simp add: demo_fields demo_ready_def WAIT_MS_def)

lemma demo_ready_parked: "parked demo_ready = [(0, [KTop 7])]" "now demo_ready = 0"
  by (simp_all add: demo_ready_def call_def ready_def ws_open_def new_promise_def demo_fields)


lemma no_promise_hangs_witness: "\<exists>t \<in> set (ptimers demo_ready). pt_pid t = 0 \<and> pt_due t \<le> 5000"
  using no_promise_hangs [OF demo_new demo_ready_run, of 0] by (simp add: demo_ready_parked WAIT_MS_def)


lemma one_delivery_pass_witness: "delivery_passes demo_ready = 0"
  using one_delivery_pass [OF demo_new demo_ready_run]
  by (simp add: demo_ready_def call_def ready_def ws_open_def new_promise_def demo_fields)

end
