(* ===== verification/Client_Frame.thy ===== *)
theory Client_Frame
  imports Client_Calls
begin

text \<open>
  Which operations leave the observable bookkeeping of the client alone: what was delivered and
  reported, the latches, the backoff and the list of pending invites.
\<close>

definition vis :: "client \<Rightarrow> _" where
  "vis s = (delivered s, inboxMsgs s, hooked s, errorRing s, echoSeen s, reEnrolled s, initialMs s, maxMs s, delay s,
     retries s, pendingInvites s, stopped s)"

lemma vis_schedule [frame_simps]: "vis (schedule out ks s) = vis s"
  by (simp add: vis_def schedule_def)

lemma vis_ret [frame_simps]: "vis (ret v ks s) = vis s"
  by (simp add: ret_def vis_schedule)

lemma vis_throw [frame_simps]: "vis (throw e ks s) = vis s"
  by (simp add: throw_def vis_schedule)

lemma vis_new_promise [frame_simps]: "vis (new_promise ms k ks s) = vis s"
  by (simp add: vis_def new_promise_def)

lemma vis_settle [frame_simps]: "vis (settle out p s) = vis s"
  by (simp add: vis_def settle_def schedule_def split: option.splits)

lemma vis_settle_all [frame_simps]: "vis (settle_all out ps s) = vis s"
  unfolding settle_all_def by (induction ps arbitrary: s) (simp_all add: vis_settle)

lemma vis_fields [frame_simps]:
  "vis (s\<lparr>readyWaiters := a\<rparr>) = vis s" "vis (s\<lparr>joinWaiters := b\<rparr>) = vis s" "vis (s\<lparr>whoisWaiters := c\<rparr>) = vis s"
  "vis (s\<lparr>presenceWaiters := d\<rparr>) = vis s" "vis (s\<lparr>joined := e\<rparr>) = vis s" "vis (s\<lparr>known := f\<rparr>) = vis s"
  "vis (s\<lparr>whoisCalls := g\<rparr>) = vis s" "vis (s\<lparr>channels := h\<rparr>) = vis s" "vis (s\<lparr>w_host := i\<rparr>) = vis s"
  "vis (s\<lparr>lastError := j\<rparr>) = vis s" "vis (s\<lparr>deliveringInvites := k\<rparr>) = vis s" "vis (s\<lparr>watching := l\<rparr>) = vis s"
  "vis (s\<lparr>inviteTimer := m\<rparr>) = vis s" "vis (s\<lparr>enrollPending := n\<rparr>) = vis s" "vis (s\<lparr>ptimers := q\<rparr>) = vis s"
  "vis (s\<lparr>micro := r\<rparr>) = vis s" "vis (s\<lparr>results := t\<rparr>) = vis s" "vis (s\<lparr>now := u\<rparr>) = vis s"
  "vis (s\<lparr>n_uuid := v\<rparr>) = vis s" "vis (s\<lparr>n_random := w\<rparr>) = vis s" "vis (s\<lparr>hellos := x\<rparr>) = vis s"
  "vis (s\<lparr>dialSource := y\<rparr>) = vis s" "vis (s\<lparr>socks := z\<rparr>) = vis s" "vis (s\<lparr>ws := a1\<rparr>) = vis s"
  "vis (s\<lparr>attached := a2\<rparr>) = vis s" "vis (s\<lparr>welcomed := a3\<rparr>) = vis s" "vis (s\<lparr>crashed := a4\<rparr>) = vis s"
  "vis (s\<lparr>wire := a5\<rparr>) = vis s"
  by (simp_all add: vis_def)

lemma vis_sendFrame [frame_simps]: "sendFrame f s = Inr s' \<Longrightarrow> vis s' = vis s"
  by (auto simp: sendFrame_def push_frame_def vis_def split: option.splits if_splits)

lemma vis_ws_send: "ws_send f s = Inr s' \<Longrightarrow> vis s' = vis s"
  by (auto simp: ws_send_def push_frame_def vis_def split: option.splits sock_state.splits)

lemma vis_take [frame_simps]: "vis (take_random s) = vis s" "vis (take_uuid s) = vis s"
  by (simp_all add: take_random_def take_uuid_def vis_def)

lemma vis_post: "post W fld peer text pub s = Inr (i, s') \<Longrightarrow> vis s' = vis s"
  by (auto simp: post_def signAndSend_def Let_def bind_result_Inr_iff frame_simps)

lemma vis_persist_config: "persist_config u s = Inr s' \<Longrightarrow> vis s' = vis s"
  by (auto simp: persist_config_def bind_result_Inr_iff frame_simps)

lemma vis_persist_keys [frame_simps]: "vis (persist_keys n k s) = vis s"
  by (simp add: persist_keys_def frame_simps split: option.splits)

lemma vis_addChannel [frame_simps]: "vis (addChannel ch s) = vis s"
  by (simp add: addChannel_def frame_simps)

lemma vis_crash [frame_simps]: "vis (crash s) = vis s"
  by (simp add: crash_def frame_simps)

lemma vis_ready [frame_simps]: "vis (ready ms ks s) = vis s"
  by (simp add: ready_def frame_simps)

lemma vis_join_channel [frame_simps]: "vis (join_channel n p ks s) = vis s"
  by (simp add: join_channel_def frame_simps)

lemma vis_join_body [frame_simps]: "vis (join_body n p ks s) = vis s"
  by (auto simp: join_body_def Let_def frame_simps split: sum.splits)

lemma vis_ensureChannelKeys [frame_simps]: "vis (snd (ensureChannelKeys W n s)) = vis s"
  by (simp add: ensureChannelKeys_def Let_def frame_simps split: option.splits)

lemma vis_ensureChannel [frame_simps]: "vis (ensureChannel W n ks s) = vis s"
  by (auto simp: ensureChannel_def frame_simps split: option.splits prod.splits) (metis snd_conv vis_ensureChannelKeys)

lemma vis_send [frame_simps]: "vis (send W c t ks s) = vis s"
  by (simp add: send_def frame_simps)

lemma vis_agentInfo [frame_simps]: "vis (agentInfo a ks s) = vis s"
  by (auto simp: agentInfo_def Let_def frame_simps dest!: vis_ws_send split: option.splits sum.splits)

lemma vis_calls [frame_simps]:
  "vis (dm to t ks s) = vis s" "vis (whois a ks s) = vis s" "vis (invite W c to ks s) = vis s"
  by (simp_all add: dm_def whois_def invite_def frame_simps)

lemma vis_posted [frame_simps]:
  "vis (send_posted W c t ch b ks s) = vis s" "vis (dm_posted W to t info ks s) = vis s"
  by (auto simp: send_posted_def dm_posted_def frame_simps dest!: vis_post split: sum.splits)

lemma vis_unpark [frame_simps]: "vis (unparkPresenceWaiter i w s) = vis s"
  by (simp add: unparkPresenceWaiter_def Let_def frame_simps split: option.splits)

lemma vis_park [frame_simps]: "vis (parkPresenceWaiter i w s) = vis s"
  by (simp add: parkPresenceWaiter_def frame_simps)

lemma vis_presence [frame_simps]: "vis (presence W ks s) = vis s"
  by (auto simp: presence_def Let_def frame_simps split: sum.splits)

lemma vis_warmUp [frame_simps]: "vis (warmUpPresence W a s) = vis s"
  by (auto simp: warmUpPresence_def Let_def frame_simps split: sum.splits)

lemma vis_presence_done [frame_simps]: "vis (presence_done W out i w s) = vis s"
  by (simp add: presence_done_def Let_def frame_simps split: p_waiter.splits)

lemma vis_fold_done [frame_simps]: "vis (fold (presence_done W out i) ds s) = vis s"
  by (induction ds arbitrary: s) (simp_all add: frame_simps)

lemma vis_presence_fail [frame_simps]: "vis (presence_fail W e ds s) = vis s"
  by (induction W e ds s rule: presence_fail.induct) (simp_all add: frame_simps)

lemma vis_complete_all [frame_simps]: "vis (complete_all n W as s) = vis s"
  by (induction n arbitrary: s) (simp_all add: frame_simps split: list.splits)

lemma vis_deliverPending [frame_simps]: "vis (deliverPendingInvites W ks s) = vis s"
  by (simp add: deliverPendingInvites_def frame_simps)

lemma vis_poll [frame_simps]: "vis (pollPendingInvites W s) = vis s"
  by (simp add: pollPendingInvites_def frame_simps)

lemma vis_startInvitePoller [frame_simps]: "vis (startInvitePoller W s) = vis s"
  by (simp add: startInvitePoller_def frame_simps)

lemma vis_end_delivery [frame_simps]: "vis (end_delivery out ks s) = vis s"
  by (simp add: end_delivery_def frame_simps)

lemma vis_deliver_loop [frame_simps]: "vis (deliver_loop W i as ks s) = vis s"
  by (induction i) (simp_all add: Let_def frame_simps split: sum.splits)

lemma vis_inviteByName [frame_simps]: "vis (inviteByName W c who ks s) = vis s"
  by (simp add: inviteByName_def frame_simps)

lemma vis_by_name [frame_simps]: "vis (by_name W c who as ks s) = vis s"
  by (auto simp: by_name_def frame_simps split: sum.splits list.splits)

lemma vis_invite_ensured [frame_simps]: "vis (invite_ensured W c to ch b ks s) = vis s"
  by (simp add: invite_ensured_def frame_simps split: option.splits list.splits)

lemma vis_failWaiters [frame_simps]: "vis (failWaiters W e s) = vis s"
  by (simp add: failWaiters_def Let_def frame_simps)

lemma vis_close_sock [frame_simps]: "vis (close_sock i s) = vis s"
  by (simp add: close_sock_def frame_simps)

lemma vis_close_ws [frame_simps]: "vis (close_ws s) = vis s"
  by (simp add: close_ws_def frame_simps split: option.splits)

lemma vis_dial: "vis (snd (dial W tok s)) = vis s"
  by (simp add: dial_def vis_def Let_def)

lemma vis_connect [frame_simps]: "vis (snd (connect W s)) = vis s"
  by (simp add: connect_def vis_dial frame_simps Let_def)

lemma vis_sendHello: "sendHello W s = Inr s' \<Longrightarrow> vis s' = vis s"
  by (auto simp: sendHello_def Let_def bind_result_Inr_iff frame_simps dest!: vis_ws_send)

lemma vis_on_open [frame_simps]: "vis (on_open W s) = vis s"
  by (auto simp: on_open_def handler_def Let_def frame_simps dest!: vis_sendHello split: sum.splits)

lemma vis_wake_ready [frame_simps]: "vis (wake_ready s) = vis s"
  by (simp add: wake_ready_def frame_simps)

lemma vis_join_all [frame_simps]: "vis (join_all chs s) = vis s"
  unfolding join_all_def by (induction chs arbitrary: s) (auto simp: frame_simps)

lemma vis_onJoined [frame_simps]: "vis (onJoined c s) = vis s"
  by (simp add: onJoined_def Let_def frame_simps)

lemma vis_onAgentInfo [frame_simps]: "vis (onAgentInfo f s) = vis s"
  by (simp add: onAgentInfo_def Let_def frame_simps)

lemma vis_fail_joins [frame_simps]: "vis (fail_joins c e s) = vis s"
  by (simp add: fail_joins_def frame_simps split: json.splits list.splits)

lemma vis_fold_whois: "vis (fold (\<lambda>(a, ps). settle_all (Inl (JsError (''unknown_agent: '' @ a))) ps) qs s) = vis s"
  by (induction qs arbitrary: s) (auto simp: frame_simps)

lemma vis_fail_whois [frame_simps]: "vis (fail_whois s) = vis s"
  unfolding fail_whois_def vis_fields vis_fold_whois ..

lemma vis_onMsg [frame_simps]: "vis (onMsg f s) = vis s"
  by (simp add: onMsg_def frame_simps)

lemma vis_accept_invite [frame_simps]: "vis (accept_invite i s) = vis s"
  by (simp add: accept_invite_def frame_simps)

lemma vis_promise_timeout [frame_simps]: "vis (promise_timeout W t s) = vis s"
  by (simp add: promise_timeout_def Let_def frame_simps split: timer_kind.splits)

lemma vis_timeout_fires [frame_simps]: "vis (timeout_fires W p s) = vis s"
  by (simp add: timeout_fires_def frame_simps split: list.splits)

lemma vis_call [frame_simps]: "vis (call W a ks s) = vis s"
  by (simp add: call_def frame_simps split: api.splits)

lemma vis_on_socket_error [frame_simps]: "vis (on_socket_error e s) = vis s"
  by (simp add: on_socket_error_def frame_simps)

lemma vis_onEnrolled: "onEnrolled secret s = Inr s' \<Longrightarrow> vis s' = vis s"
  by (auto simp: onEnrolled_def frame_simps dest!: vis_persist_config split: if_splits)

end
