(* ===== verification/Client_Logs.thy ===== *)
theory Client_Logs
  imports Client_Frame
begin

text \<open>
  What a client keeps for its user: the bounded inbox and error ring, against everything that was ever
  delivered or reported; the latches that never go back; the bounds of the reconnect delay.
\<close>

interpretation inbox: bounded_log inboxMsgs deliver drainInbox INBOX_CAP
  by unfold_locales (simp_all add: deliver_def drainInbox_def)

interpretation errors: bounded_log errorRing ringError drainErrors ERRORS_CAP
  by unfold_locales (simp_all add: ringError_def drainErrors_def)

definition grows :: "client \<Rightarrow> client \<Rightarrow> bool" where
  "grows s s' =
     ((\<exists>evs. delivered s' = delivered s @ evs \<and>
        (length (inboxMsgs s) \<le> INBOX_CAP \<longrightarrow> inboxMsgs s' = last_n INBOX_CAP (inboxMsgs s @ evs)))
      \<and> (\<exists>errs. hooked s' = hooked s @ errs \<and>
        (length (errorRing s) \<le> ERRORS_CAP \<longrightarrow> errorRing s' = last_n ERRORS_CAP (errorRing s @ errs)))
      \<and> (echoSeen s \<longrightarrow> echoSeen s') \<and> (reEnrolled s \<longrightarrow> reEnrolled s')
      \<and> initialMs s' = initialMs s \<and> maxMs s' = maxMs s
      \<and> (initialMs s \<le> delay s \<and> delay s \<le> maxMs s \<longrightarrow> initialMs s \<le> delay s' \<and> delay s' \<le> maxMs s))"

lemma grows_refl [simp]: "grows s s"
  unfolding grows_def by (auto intro: exI [of _ "[]"])

lemma grows_trans: "grows s s1 \<Longrightarrow> grows s1 s2 \<Longrightarrow> grows s s2"
proof -
  assume 1: "grows s s1" and 2: "grows s1 s2"
  from 1 obtain evs errs where a: "delivered s1 = delivered s @ evs" "hooked s1 = hooked s @ errs"
    "length (inboxMsgs s) \<le> INBOX_CAP \<Longrightarrow> inboxMsgs s1 = last_n INBOX_CAP (inboxMsgs s @ evs)"
    "length (errorRing s) \<le> ERRORS_CAP \<Longrightarrow> errorRing s1 = last_n ERRORS_CAP (errorRing s @ errs)"
    unfolding grows_def by blast
  from 2 obtain evs' errs' where b: "delivered s2 = delivered s1 @ evs'" "hooked s2 = hooked s1 @ errs'"
    "length (inboxMsgs s1) \<le> INBOX_CAP \<Longrightarrow> inboxMsgs s2 = last_n INBOX_CAP (inboxMsgs s1 @ evs')"
    "length (errorRing s1) \<le> ERRORS_CAP \<Longrightarrow> errorRing s2 = last_n ERRORS_CAP (errorRing s1 @ errs')"
    unfolding grows_def by blast
  have i: "inboxMsgs s2 = last_n INBOX_CAP (inboxMsgs s @ evs @ evs')" if "length (inboxMsgs s) \<le> INBOX_CAP"
    using a(3) [OF that] b(3) by (simp add: last_n_append)
  have e: "errorRing s2 = last_n ERRORS_CAP (errorRing s @ errs @ errs')" if "length (errorRing s) \<le> ERRORS_CAP"
    using a(4) [OF that] b(4) by (simp add: last_n_append)
  have "\<exists>evs. delivered s2 = delivered s @ evs \<and>
        (length (inboxMsgs s) \<le> INBOX_CAP \<longrightarrow> inboxMsgs s2 = last_n INBOX_CAP (inboxMsgs s @ evs))"
    using a(1) b(1) i by (intro exI [of _ "evs @ evs'"]) simp
  moreover have "\<exists>errs. hooked s2 = hooked s @ errs \<and>
        (length (errorRing s) \<le> ERRORS_CAP \<longrightarrow> errorRing s2 = last_n ERRORS_CAP (errorRing s @ errs))"
    using a(2) b(2) e by (intro exI [of _ "errs @ errs'"]) simp
  ultimately show ?thesis using 1 2 unfolding grows_def by simp
qed

lemma grows_same:
  assumes "delivered s' = delivered s" "inboxMsgs s' = inboxMsgs s" "hooked s' = hooked s" "errorRing s' = errorRing s"
    "echoSeen s \<longrightarrow> echoSeen s'" "reEnrolled s \<longrightarrow> reEnrolled s'" "initialMs s' = initialMs s" "maxMs s' = maxMs s"
    "initialMs s \<le> delay s \<and> delay s \<le> maxMs s \<longrightarrow> initialMs s \<le> delay s' \<and> delay s' \<le> maxMs s"
  shows "grows s s'"
  using assms unfolding grows_def by simp

lemma grows_vis: "vis s' = vis s \<Longrightarrow> grows s s'"
  by (intro grows_same) (simp_all add: vis_def)

lemma grows_vis_then: "vis s1 = vis s \<Longrightarrow> grows s1 s2 \<Longrightarrow> grows s s2"
  using grows_trans grows_vis by blast

lemma grows_then_vis: "grows s s1 \<Longrightarrow> vis s2 = vis s1 \<Longrightarrow> grows s s2"
  using grows_trans grows_vis by blast

text \<open>Most operations report something at most: they leave the backoff alone as well.\<close>

definition tells :: "client \<Rightarrow> client \<Rightarrow> bool" where
  "tells s s' = (grows s s' \<and> stopped s' = stopped s \<and> delay s' = delay s \<and> retries s' = retries s)"

lemma tells_grows: "tells s s' \<Longrightarrow> grows s s'"
  by (simp add: tells_def)

lemma tells_trans: "tells s s1 \<Longrightarrow> tells s1 s2 \<Longrightarrow> tells s s2"
  by (auto simp: tells_def intro: grows_trans)

lemma tells_vis: "vis s' = vis s \<Longrightarrow> tells s s'"
  by (simp add: tells_def grows_vis) (simp add: vis_def)

lemma tells_refl [simp]: "tells s s"
  by (simp add: tells_vis)

lemma tells_vis_then: "vis s1 = vis s \<Longrightarrow> tells s1 s2 \<Longrightarrow> tells s s2"
  using tells_trans tells_vis by blast

lemma tells_then_vis: "tells s s1 \<Longrightarrow> vis s2 = vis s1 \<Longrightarrow> tells s s2"
  using tells_trans tells_vis by blast

lemma tells_deliver: "tells s (deliver ev s)"
  by (auto simp: tells_def grows_def deliver_def ring_push_last_n intro!: exI [of _ "[]"])

lemma tells_ringError: "tells s (ringError e s)"
  by (auto simp: tells_def grows_def ringError_def ring_push_last_n intro!: exI [of _ "[]"])

lemma tells_surface: "tells s (surfaceInviteFailure W e s)"
  unfolding surfaceInviteFailure_def Let_def
  by (rule tells_vis_then [OF _ tells_ringError]) (simp add: frame_simps)

lemma tells_msg_failed: "tells s (msg_failed W f e s)"
  unfolding msg_failed_def Let_def
  by (rule tells_vis_then [OF _ tells_ringError]) (simp add: frame_simps)

lemma tells_surface_msg: "tells s (surface_msg W f ev s)"
  by (simp add: surface_msg_def tells_deliver tells_trans [OF tells_deliver tells_msg_failed] split: option.splits)

lemma tells_msg_decrypted: "tells s (msg_decrypted W f ev s)"
proof -
  have "tells s (surface_msg W f ev' (accept_invite i s))" for ev' i
    by (rule tells_vis_then [OF _ tells_surface_msg]) (simp add: frame_simps)
  then show ?thesis by (simp add: msg_decrypted_def tells_surface_msg split: option.splits)
qed

lemma tells_msg_resumed: "tells s (msg_resumed W f out s)"
  by (simp add: msg_resumed_def tells_msg_failed tells_msg_decrypted split: sum.splits dap_value.splits)

lemma tells_pending: "tells s (s\<lparr>pendingInvites := ps\<rparr>)"
  by (simp add: tells_def grows_same)

lemma vis_store_invites: "store_invites s = Inr s' \<Longrightarrow> vis s' = vis s"
  unfolding store_invites_def by (rule vis_persist_config)

lemma tells_delivered_invite: "tells s (delivered_invite W i as p ks s)"
proof -
  let ?s = "s\<lparr>pendingInvites := drop_at i (pendingInvites s)\<rparr>"
  have dv: "tells s (deliver ev s1)" if "store_invites ?s = Inr s1" for s1 ev
    by (rule tells_trans [OF tells_then_vis [OF tells_pending vis_store_invites [OF that]] tells_deliver])
  show ?thesis
    unfolding delivered_invite_def Let_def
    by (auto split: sum.splits option.splits intro: tells_then_vis [OF tells_pending] tells_then_vis [OF dv] simp: frame_simps)
qed

lemma tells_arm_body: "tells s (arm_body W name channel ks s)"
proof -
  let ?s = "s\<lparr>pendingInvites := pendingInvites s @ [pending_json \<lparr>pi_name = name, pi_channel = channel\<rparr>]\<rparr>"
  have "tells s s2" if "store_invites ?s = Inr s1" "vis s2 = vis s1" for s1 s2
    using that by (intro tells_then_vis [OF tells_then_vis [OF tells_pending vis_store_invites]])
  then show ?thesis
    unfolding arm_body_def Let_def
    by (auto split: sum.splits if_splits intro: tells_then_vis [OF tells_pending] tells_vis simp: frame_simps)
qed

lemma tells_resume_ok: "tells s (resume_ok W k v ks s)"
  by (cases k; cases v) (simp_all add: tells_arm_body tells_delivered_invite tells_vis frame_simps)

lemma tells_resume_err: "tells s (resume_err W k e ks s)"
  by (cases k) (simp_all add: tells_vis frame_simps)

lemma tells_resume: "tells s (resume W out ks s)"
proof (cases ks)
  case (Cons k ks')
  then show ?thesis
    by (cases k)
      (simp_all add: tells_resume_ok tells_resume_err tells_arm_body tells_delivered_invite tells_msg_resumed tells_surface
        tells_vis frame_simps split: sum.splits dap_value.splits)
qed simp

lemma tells_report: "tells s (ringError e (s\<lparr>lastError := m\<rparr>))"
  by (rule tells_vis_then [OF _ tells_ringError]) (simp add: frame_simps)

lemma tells_onError: "tells s (onError f s)"
  unfolding onError_def Let_def
  by (rule tells_then_vis [OF tells_report])
    (simp only: if_distrib [of vis] vis_fail_joins vis_fail_whois if_cancel)

lemma grows_onPresence: "onPresence W f s = Inr s' \<Longrightarrow> grows s s'"
proof -
  assume r: "onPresence W f s = Inr s'"
  have e: "grows s (s\<lparr>echoSeen := True\<rparr>)" by (rule grows_same) simp_all
  show "grows s s'"
    using r by (auto simp: onPresence_def bind_result_Inr_iff Let_def frame_simps
        intro: grows_vis grows_then_vis [OF e] split: if_splits)
qed

lemma grows_onWelcome: "onWelcome W s = Inr s' \<Longrightarrow> grows s s'"
proof -
  assume r: "onWelcome W s = Inr s'"
  let ?w = "s\<lparr>welcomed := True, welcomes := welcomes s + 1, delay := initialMs s, joined := []\<rparr>"
  have "grows s ?w" by (rule grows_same) simp_all
  moreover have "vis s' = vis ?w"
    using r by (auto simp: onWelcome_def bind_result_Inr_iff Let_def frame_simps dest!: vis_ws_send split: if_splits)
  ultimately show "grows s s'" by (rule grows_then_vis)
qed

lemma grows_onDisconnect: "grows s (onDisconnect W s)"
proof -
  have w: "vis (s\<lparr>watching := None, welcomed := False\<rparr>) = vis s" by (simp add: vis_def)
  show ?thesis
    unfolding onDisconnect_def Let_def
    by (auto intro: grows_vis grows_same simp: frame_simps w)
qed

lemma grows_dispatch: "dispatch W f s = Inr s' \<Longrightarrow> grows s s'"
  by (auto simp: dispatch_def frame_simps intro: tells_grows tells_onError grows_onPresence grows_onWelcome grows_vis vis_onEnrolled
      split: json.splits if_splits)

lemma grows_handler: "(\<And>s'. r = Inr s' \<Longrightarrow> grows s s') \<Longrightarrow> grows s (handler r s)"
  by (auto simp: handler_def frame_simps intro: grows_vis split: sum.splits)

lemma grows_handleRaw: "handleRaw W raw s = Inr s' \<Longrightarrow> grows s s'"
  by (auto simp: handleRaw_def frame_simps intro: grows_dispatch grows_vis split: sum.splits if_splits)

lemma tells_latch: "tells s (s\<lparr>reEnrolled := True\<rparr>)"
  by (simp add: tells_def grows_same)

lemma tells_on_unexpected: "tells s (on_unexpected W st s)"
proof (cases "st = 401")
  case False
  then show ?thesis unfolding on_unexpected_def by (simp add: tells_vis frame_simps)
next
  case True
  let ?s = "ringError (mk_error ''unauthorized'' DIAL_401_HELP s) (s\<lparr>lastError := DIAL_401_HELP\<rparr>)"
  have latch: "tells s (?s\<lparr>reEnrolled := True\<rparr>)"
    by (rule tells_trans [OF tells_report]) (rule tells_latch)
  from True show ?thesis
    unfolding on_unexpected_def Let_def
    by (auto intro: tells_then_vis [OF tells_report] tells_then_vis [OF latch] simp: frame_simps
        dest!: vis_persist_config split: sum.splits)
qed

lemma grows_start: "grows s (of_start (start W s))"
proof -
  have "grows s (s\<lparr>stopped := False\<rparr>)" by (rule grows_same) simp_all
  then show ?thesis unfolding start_def of_start_def by (rule grows_then_vis) (simp add: frame_simps)
qed

lemma grows_clear_retry: "grows s (clear_retry s)"
  by (rule grows_same) (simp_all add: clear_retry_def split: option.splits)

lemma grows_stop: "grows s (stop s)"
proof -
  have "grows s (s\<lparr>stopped := True, watching := None\<rparr>)" by (rule grows_same) simp_all
  from grows_trans [OF this grows_clear_retry] show ?thesis
    unfolding stop_def by (rule grows_then_vis) (simp add: frame_simps)
qed

lemma vis_detach_ws [frame_simps]: "vis (detach_ws s) = vis s"
  by (simp add: detach_ws_def frame_simps split: option.splits)

lemma grows_retarget: "grows s (of_start (retarget W r s))"
proof -
  let ?s = "failWaiters W RETARGETED (detach_ws ((clear_retry s)\<lparr>watching := None\<rparr>))"
  have "grows s ?s" by (rule grows_then_vis [OF grows_clear_retry]) (simp add: frame_simps)
  moreover have "grows ?s (swap_target r ?s)" unfolding swap_target_def by (rule grows_same) simp_all
  ultimately have "grows s (swap_target r ?s)" by (rule grows_trans)
  then show ?thesis
    unfolding retarget_def of_start_def by (rule grows_then_vis) (rule vis_connect)
qed

lemma grows_exec:
  assumes "l \<noteq> DrainInbox" "l \<noteq> DrainErrors"
  shows "grows s (exec W l s)"
proof (cases l)
  case (RetryFires h)
  have "grows s (s\<lparr>retries := filter (\<lambda>(k, _). k \<noteq> h) (retries s)\<rparr>)" by (rule grows_same) simp_all
  from grows_then_vis [OF this] show ?thesis
    using RetryFires by (simp add: retry_fires_def split_def Let_def frame_simps)
next
  case (SockClose i)
  have "vis (detach i (set_sock i CLOSED s)) = vis s" by (simp add: vis_def detach_def set_sock_def)
  from grows_vis_then [OF this grows_onDisconnect] SockClose show ?thesis by simp
next
  case (SockOpen i)
  have "vis (set_sock i OPEN s) = vis s" by (simp add: vis_def set_sock_def)
  then show ?thesis using SockOpen by (intro grows_vis) (simp add: frame_simps)
next
  case (Resume n)
  have "vis (s\<lparr>micro := drop_at n (micro s)\<rparr>) = vis s" by (simp add: frame_simps)
  from grows_vis_then [OF this tells_grows [OF tells_resume]] Resume show ?thesis
    by (cases "micro s ! n") (simp add: resume_nth_def)
next
  case (SockMessage i raw)
  then show ?thesis by (simp add: grows_handler [OF grows_handleRaw])
qed (use assms in \<open>auto simp: tells_grows [OF tells_on_unexpected] grows_start grows_stop grows_retarget grows_vis frame_simps
      split: option.splits\<close>)

section \<open>The backoff\<close>

definition dialing :: "label \<Rightarrow> bool" where
  \<comment> \<open>what happens on its own while no welcome arrives\<close>
  "dialing l = (case l of SockMessage _ _ \<Rightarrow> False | StopCall \<Rightarrow> False | RetargetCall _ \<Rightarrow> False | _ \<Rightarrow> True)"

definition closes :: "label list \<Rightarrow> nat" where
  "closes ls = length (filter (\<lambda>l. case l of SockClose _ \<Rightarrow> True | _ \<Rightarrow> False) ls)"

definition pace :: "client \<Rightarrow> _" where
  "pace s = (stopped s, delay s, maxMs s)"

lemma pace_tells: "tells s s' \<Longrightarrow> pace s' = pace s"
  by (simp add: pace_def tells_def grows_def)

lemma pace_vis: "vis s' = vis s \<Longrightarrow> pace s' = pace s"
  by (rule pace_tells [OF tells_vis])

lemma pace_exec:
  assumes "dialing l" "\<not> stopped s" "\<forall>i. l \<noteq> SockClose i"
  shows "pace (exec W l s) = pace s"
proof (cases l)
  case (RetryFires h)
  have "pace (s\<lparr>retries := rs\<rparr>) = pace s" for rs by (simp add: pace_def)
  with RetryFires show ?thesis
    by (simp add: retry_fires_def split_def Let_def pace_vis [OF vis_connect] pace_vis [OF vis_crash])
next
  case (SockOpen i)
  have "vis (set_sock i OPEN s) = vis s" by (simp add: vis_def set_sock_def)
  then show ?thesis using SockOpen by (intro pace_vis) (simp add: frame_simps)
next
  case (Resume n)
  have "vis (s\<lparr>micro := drop_at n (micro s)\<rparr>) = vis s" by (simp add: frame_simps)
  from pace_tells [OF tells_vis_then [OF this tells_resume]] Resume show ?thesis
    by (cases "micro s ! n") (simp add: resume_nth_def)
next
  case (Unexpected i st)
  then show ?thesis by (simp add: pace_tells [OF tells_on_unexpected])
next
  case StartCall
  have "pace (s\<lparr>stopped := False\<rparr>) = pace s" using assms(2) by (simp add: pace_def)
  with StartCall show ?thesis by (simp add: start_def of_start_def pace_vis [OF vis_connect])
next
  case DrainInbox
  then show ?thesis by (simp add: pace_def drainInbox_def)
next
  case DrainErrors
  then show ?thesis by (simp add: pace_def drainErrors_def)
qed (use assms in \<open>auto simp: dialing_def frame_simps intro!: pace_vis split: option.splits\<close>)

section \<open>Runs\<close>

text \<open>Drained or not, the buffers stay within their caps, the delay within its bounds, the latches set.\<close>

definition kept :: "client \<Rightarrow> bool" where
  "kept s = (length (inboxMsgs s) \<le> INBOX_CAP \<and> length (errorRing s) \<le> ERRORS_CAP \<and> initialMs s \<le> delay s \<and> delay s \<le> maxMs s)"

lemma kept_grows: "grows s s' \<Longrightarrow> kept s \<Longrightarrow> kept s'"
  unfolding grows_def kept_def by auto

lemma kept_exec: "kept s \<Longrightarrow> kept (exec W l s)"
proof (cases "l = DrainInbox \<or> l = DrainErrors")
  case True
  then show "kept s \<Longrightarrow> kept (exec W l s)" by (auto simp: kept_def drainInbox_def drainErrors_def)
qed (simp add: kept_grows [OF grows_exec])

lemma kept_run: "run W s ls s' \<Longrightarrow> kept s \<Longrightarrow> kept s'"
  by (erule run_invariant) (auto elim!: stepE intro: kept_exec)

lemma latches_exec:
  "(echoSeen s \<longrightarrow> echoSeen (exec W l s)) \<and> (reEnrolled s \<longrightarrow> reEnrolled (exec W l s))"
proof (cases "l = DrainInbox \<or> l = DrainErrors")
  case True
  then show ?thesis by (auto simp: drainInbox_def drainErrors_def)
next
  case False
  then have "grows s (exec W l s)" by (simp add: grows_exec)
  then show ?thesis by (simp add: grows_def)
qed

lemma latches_run:
  "run W s ls s' \<Longrightarrow> (echoSeen s \<longrightarrow> echoSeen s') \<and> (reEnrolled s \<longrightarrow> reEnrolled s')"
  by (induction rule: run.induct) (use latches_exec in \<open>auto elim!: stepE\<close>)

lemma backoff_run:
  assumes "run W s ls s'" "list_all dialing ls" "\<not> stopped s" "delay s \<le> maxMs s"
  shows "\<not> stopped s' \<and> maxMs s' = maxMs s \<and> delay s' = min (delay s * 2 ^ closes ls) (maxMs s)"
  using assms
proof (induction rule: run.induct)
  case (snoc s ls s' l s'')
  then have IH: "\<not> stopped s'" "maxMs s' = maxMs s" "delay s' = min (delay s * 2 ^ closes ls) (maxMs s)" by simp_all
  from snoc.hyps(2) have s'': "s'' = exec W l s'" by (auto elim: stepE)
  show ?case
  proof (cases "\<exists>i. l = SockClose i")
    case True
    then show ?thesis
      using IH by (auto simp: s'' closes_def onDisconnect_def Let_def detach_def set_sock_def min_def)
  next
    case False
    with IH(1) snoc.prems have "pace s'' = pace s'" by (simp add: s'' pace_exec)
    moreover from False have "closes (ls @ [l]) = closes ls" by (simp add: closes_def split: label.splits)
    ultimately show ?thesis using IH by (simp add: pace_def)
  qed
qed (simp add: closes_def)

lemma grows_run:
  assumes "run W s ls s'" "DrainInbox \<notin> set ls" "DrainErrors \<notin> set ls"
  shows "grows s s'"
  using assms by (induction rule: run.induct) (auto elim!: stepE intro: grows_trans grows_exec)

section \<open>Properties\<close>

text \<open>Nothing that was received or reported is lost before the buffers are full: after any run in which
  they are not drained, the inbox holds the newest 100 of what it held and of what the listeners were
  called with, in order, and the error ring the newest 20 of what it held and of what \<open>onHubError\<close> was
  called with.\<close>

lemma logs_keep_newest:
  assumes "run W s ls s'" "DrainInbox \<notin> set ls" "DrainErrors \<notin> set ls"
    and "length (inboxMsgs s) \<le> INBOX_CAP" "length (errorRing s) \<le> ERRORS_CAP"
  shows "\<exists>evs errs. delivered s' = delivered s @ evs \<and> inboxMsgs s' = last_n INBOX_CAP (inboxMsgs s @ evs)
    \<and> hooked s' = hooked s @ errs \<and> errorRing s' = last_n ERRORS_CAP (errorRing s @ errs)"
  using grows_run [OF assms(1-3)] assms(4,5) unfolding grows_def by blast

text \<open>In every state a new client reaches, however often it is drained, retargeted or restarted, the inbox
  holds at most 100 messages and the error ring at most 20, and the delay before the next reconnect lies
  between the initial and the maximal one.\<close>

lemma client_bounds:
  assumes "new_client W opts h = Inr s0" "run W s0 ls s" "initialMs s0 \<le> maxMs s0"
  shows "length (inboxMsgs s) \<le> INBOX_CAP \<and> length (errorRing s) \<le> ERRORS_CAP \<and> initialMs s \<le> delay s \<and> delay s \<le> maxMs s"
proof -
  have "kept s0" using assms(1,3) by (auto simp: kept_def new_client_fields new_client_def bind_result_Inr_iff)
  from kept_run [OF assms(2) this] show ?thesis by (simp add: kept_def)
qed

text \<open>The reconnect backoff: while the client runs and no frame of the hub arrives (no welcome), the
  delay is doubled by every connection that closes, up to its maximum, and each close sets one timer
  that dials again after the delay of its turn.\<close>

lemma backoff_doubles:
  assumes "run W s ls s'" "list_all dialing ls" "\<not> stopped s" "delay s \<le> maxMs s"
  shows "delay s' = min (delay s * 2 ^ closes ls) (maxMs s)
    \<and> retries (exec W (SockClose i) s') = retries s' @ [(n_timer s', now s' + min (delay s * 2 ^ closes ls) (maxMs s))]
    \<and> retryTimer (exec W (SockClose i) s') = Some (n_timer s')"
  using backoff_run [OF assms] by (simp add: onDisconnect_def Let_def detach_def set_sock_def)

text \<open>Once a hub has echoed the id of a query, and for the rest of the client's life, a presence frame
  without \<open>replyTo\<close> is a broadcast: it completes no query and changes nothing.\<close>

lemma broadcasts_dropped:
  assumes "run W s ls s'" "echoSeen s" "prop_of f ''replyTo'' = JUndef" "onPresence W f s' = Inr s''"
  shows "s'' = s'"
  using latches_run [OF assms(1)] assms(2-4) by (auto simp: onPresence_def bind_result_Inr_iff)

text \<open>A cached client secret is thrown away for a 401 at most once in a client's life: after that, no
  refused dial writes the config file, whatever it says.\<close>

lemma one_recovery:
  assumes "run W s ls s'" "reEnrolled s"
  shows "w_host (on_unexpected W st s') = w_host s'"
proof -
  have close: "w_host (close_ws s) = w_host s" for s :: client
    by (simp add: close_ws_def close_sock_def split: option.splits)
  from latches_run [OF assms(1)] assms(2) have "reEnrolled s'" by simp
  then show ?thesis by (simp add: on_unexpected_def Let_def close ringError_def)
qed

section \<open>Concrete runs\<close>

lemma logs_keep_newest_witness:
  "\<exists>s'. run demo_env (demo_client\<lparr>micro := [(Inl (JsError ''x''), [KMsg []])]\<rparr>) [Resume 0] s' \<and> length (errorRing s') = 1
     \<and> errorRing s' = last_n ERRORS_CAP (errorRing demo_client @ hooked s')"
proof -
  let ?s = "demo_client\<lparr>micro := [(Inl (JsError ''x''), [KMsg []])]\<rparr>"
  have r: "run demo_env ?s [Resume 0] (exec demo_env (Resume 0) ?s)"
    by (rule steps_run) (simp add: demo_fields)
  have h: "length (hooked (exec demo_env (Resume 0) ?s)) = 1"
    by (simp add: resume_nth_def msg_resumed_def msg_failed_def Let_def ringError_def demo_fields)
  from logs_keep_newest [OF r] h show ?thesis
    by (intro exI [of _ "exec demo_env (Resume 0) ?s"]) (use r in \<open>auto simp: demo_fields ERRORS_CAP_def simp del: exec.simps\<close>)
qed

lemma new_client_opts:
  assumes "new_client W opts h = Inr s"
  shows "initialMs s = (case co_initialMs opts of Some n \<Rightarrow> n | None \<Rightarrow> 1000)"
    "maxMs s = (case co_maxMs opts of Some n \<Rightarrow> n | None \<Rightarrow> 30000)" "n_timer s = 0" "n_sock s = 0" "o_url s = co_url opts"
    "o_name s = co_name opts" "n_uuid s = 0" "joinWaiters s = []" "readyWaiters s = []" "whoisWaiters s = []"
  using assms by (auto simp: new_client_def bind_result_Inr_iff)

lemmas demo_opts = new_client_opts [OF demo_new, unfolded demo_copts_def, simplified]

lemma client_bounds_witness: "1000 \<le> delay demo_ready \<and> delay demo_ready \<le> 30000"
  using client_bounds [OF demo_new demo_ready_run]
  by (simp add: demo_fields demo_opts demo_ready_def call_def ready_def ws_open_def new_promise_def)

lemma backoff_doubles_witness:
  "\<exists>s'. run demo_env (demo_client\<lparr>attached := [0, 1, 2], socks := [(0, OPEN), (1, OPEN)]\<rparr>) [SockClose 0, SockClose 1] s'
     \<and> delay s' = 4000"
proof -
  let ?s = "demo_client\<lparr>attached := [0, 1, 2], socks := [(0, OPEN), (1, OPEN)]\<rparr>"
  let ?s' = "exec demo_env (SockClose 1) (exec demo_env (SockClose 0) ?s)"
  have r: "run demo_env ?s [SockClose 0, SockClose 1] ?s'"
    by (rule steps_run)
      (simp add: demo_fields onDisconnect_def Let_def detach_def set_sock_def sock_of_def js_remove_def)
  from backoff_doubles [OF r] r show ?thesis
    by (intro exI [of _ ?s']) (simp add: dialing_def closes_def demo_fields demo_opts del: exec.simps)
qed

lemma broadcasts_dropped_witness:
  "onPresence demo_env [] (demo_client\<lparr>echoSeen := True, now := 5\<rparr>) = Inr (demo_client\<lparr>echoSeen := True, now := 5\<rparr>)"
proof -
  let ?s = "demo_client\<lparr>echoSeen := True\<rparr>"
  have r: "run demo_env ?s [Tick 5] (?s\<lparr>now := 5\<rparr>)" by (rule steps_run) (simp add: demo_fields)
  have "onPresence demo_env [] (?s\<lparr>now := 5\<rparr>) = Inr x \<Longrightarrow> x = ?s\<lparr>now := 5\<rparr>" for x
    using broadcasts_dropped [OF r, of "[]" x] by simp
  then show ?thesis by (simp add: onPresence_def)
qed

lemma one_recovery_witness:
  "w_host (on_unexpected demo_env 401 (demo_client\<lparr>reEnrolled := True, dialSource := Some AuthConfig, now := 5\<rparr>)) = w_host demo_client"
proof -
  let ?s = "demo_client\<lparr>reEnrolled := True, dialSource := Some AuthConfig\<rparr>"
  have r: "run demo_env ?s [Tick 5] (?s\<lparr>now := 5\<rparr>)" by (rule steps_run) (simp add: demo_fields)
  from one_recovery [OF r, of 401] show ?thesis by simp
qed

end
