(* ===== verification/Client_Waiters.thy ===== *)
theory Client_Waiters
  imports Client_Logs
begin

text \<open>
  The lists of waiters of a client: what settles them, when the loops over them end, and how long an
  armed invite is kept.
\<close>

section \<open>Settling a list of promises\<close>

lemma settle_parked: "jm_get (parked (settle out p s)) = (jm_get (parked s))(p := None)"
  by (auto simp: settle_def schedule_def fun_eq_iff split: option.splits)

lemma settle_all_parked: "jm_get (parked (settle_all out ps s)) q = (if q \<in> set ps then None else jm_get (parked s) q)"
  unfolding settle_all_def by (induction ps arbitrary: s) (auto simp: settle_parked)

lemma settle_micro_mono: "set (micro s) \<subseteq> set (micro (settle out p s))"
  by (auto simp: settle_def schedule_def split: option.splits)

lemma settle_all_micro_mono: "set (micro s) \<subseteq> set (micro (settle_all out ps s))"
  unfolding settle_all_def by (induction ps arbitrary: s) (use settle_micro_mono in fastforce)+

lemma settle_all_micro:
  "p \<in> set ps \<Longrightarrow> jm_get (parked s) p = Some ks \<Longrightarrow> (out, ks) \<in> set (micro (settle_all out ps s))"
proof (induction ps arbitrary: s)
  case (Cons q ps)
  have fold: "settle_all out (q # ps) s = settle_all out ps (settle out q s)" by (simp add: settle_all_def)
  show ?case
  proof (cases "p = q")
    case True
    with Cons.prems(2) have "(out, ks) \<in> set (micro (settle out q s))" by (simp add: settle_def schedule_def)
    with settle_all_micro_mono show ?thesis unfolding fold by blast
  next
    case False
    with Cons.prems Cons.IH [of "settle out q s"] show ?thesis by (simp add: fold settle_parked)
  qed
qed simp

section \<open>Presence queries\<close>

lemma waiters_weight: "completion_fuel s = (\<Sum>(i, ds) \<leftarrow> presenceWaiters s. \<Sum>d \<leftarrow> ds. warm_weight d)"
proof -
  have "sum_list (map (\<lambda>(i, d). warm_weight d) (concat (map (\<lambda>(i, ds). map (\<lambda>d. (i, d)) ds) m)))
      = (\<Sum>(i, ds) \<leftarrow> m. \<Sum>d \<leftarrow> ds. warm_weight d)" for m :: "(string \<times> p_waiter list) list"
    by (induction m) (auto simp: comp_def)
  then show ?thesis by (simp add: completion_fuel_def all_presence_waiters_def)
qed

definition backlog :: "(string \<times> p_waiter list) list \<Rightarrow> nat" where
  "backlog m = (\<Sum>(i, ds) \<leftarrow> m. \<Sum>d \<leftarrow> ds. warm_weight d)"

lemma backlog_simps [simp]: "backlog [] = 0" "backlog ((i, ds) # m) = (\<Sum>d \<leftarrow> ds. warm_weight d) + backlog m"
  by (simp_all add: backlog_def)

lemma fuel_load: "completion_fuel s = backlog (presenceWaiters s)"
  by (simp add: waiters_weight backlog_def)

lemma warm_weight_pos [simp]: "0 < warm_weight d"
  by (auto simp: warm_weight_def min_def split: p_waiter.splits)

lemma backlog_set: "backlog (jm_set i ds m) + (\<Sum>d \<leftarrow> waiters_of m i. warm_weight d) = backlog m + (\<Sum>d \<leftarrow> ds. warm_weight d)"
proof (induction m)
  case (Cons a m)
  obtain j es where "a = (j, es)" by (cases a)
  with Cons show ?case by (cases "i = j") (simp_all add: waiters_of_def)
qed (simp add: waiters_of_def)

lemma backlog_del: "distinct (jm_keys m) \<Longrightarrow> backlog (jm_del i m) + (\<Sum>d \<leftarrow> waiters_of m i. warm_weight d) = backlog m"
proof (induction m)
  case (Cons a m)
  obtain j ds where a: "a = (j, ds)" by (cases a)
  show ?case
  proof (cases "i = j")
    case True
    with Cons.prems a have "jm_del i m = m" by (force simp: jm_del_def filter_id_conv)
    with True a show ?thesis by (simp add: waiters_of_def)
  next
    case False
    with Cons a show ?thesis by (simp add: waiters_of_def)
  qed
qed (simp add: waiters_of_def)

lemma weight_remove:
  "d \<in> set ds \<Longrightarrow> (\<Sum>x \<leftarrow> js_remove d ds. warm_weight x) + warm_weight d \<le> (\<Sum>x \<leftarrow> ds. warm_weight x)"
proof (induction ds)
  case (Cons x ds)
  have le: "(\<Sum>x \<leftarrow> js_remove d ds. warm_weight x) \<le> (\<Sum>x \<leftarrow> ds. warm_weight x)" for d and ds :: "p_waiter list"
    by (induction ds) (auto simp: js_remove_def)
  from Cons le [of d ds] show ?case by (auto simp: js_remove_def)
qed simp

lemma unpark_load:
  assumes "distinct (jm_keys (presenceWaiters s))" "d \<in> set (waiters_of (presenceWaiters s) i)"
  shows "backlog (presenceWaiters (unparkPresenceWaiter i d s)) + warm_weight d \<le> backlog (presenceWaiters s)"
proof -
  from assms(2) obtain ds where ds: "jm_get (presenceWaiters s) i = Some ds" "d \<in> set ds" "waiters_of (presenceWaiters s) i = ds"
    by (cases "jm_get (presenceWaiters s) i") (auto simp: waiters_of_def)
  have "(\<Sum>x \<leftarrow> js_remove d ds. warm_weight x) + warm_weight d \<le> (\<Sum>x \<leftarrow> ds. warm_weight x)"
    by (rule weight_remove [OF ds(2)])
  then show ?thesis
    using backlog_set [of i "js_remove d ds" "presenceWaiters s"] backlog_del [OF assms(1), of i] ds
    by (auto simp: unparkPresenceWaiter_def Let_def)
qed

lemma unpark_distinct:
  "distinct (jm_keys (presenceWaiters s)) \<Longrightarrow> distinct (jm_keys (presenceWaiters (unparkPresenceWaiter i d s)))"
  by (auto simp: unparkPresenceWaiter_def Let_def js_map.ok_put js_map.ok_del split: option.splits)

lemma park_load:
  "distinct (jm_keys (presenceWaiters s)) \<Longrightarrow>
     backlog (presenceWaiters (parkPresenceWaiter i d s)) \<le> backlog (presenceWaiters s) + warm_weight d
     \<and> distinct (jm_keys (presenceWaiters (parkPresenceWaiter i d s)))"
  using backlog_set [of i "js_add d (waiters_of (presenceWaiters s) i)" "presenceWaiters s"]
  by (auto simp: parkPresenceWaiter_def js_add_def js_map.ok_put)

lemma settle_waiters [simp]: "presenceWaiters (settle out p s) = presenceWaiters s"
  by (simp add: settle_def schedule_def split: option.splits)

lemma sendFrame_waiters: "sendFrame f s = Inr s' \<Longrightarrow> presenceWaiters s' = presenceWaiters s"
  by (auto simp: sendFrame_def push_frame_def split: option.splits if_splits)

lemma unpark_load_le: "distinct (jm_keys (presenceWaiters s)) \<Longrightarrow> backlog (presenceWaiters (unparkPresenceWaiter i d s)) \<le> backlog (presenceWaiters s)"
proof (cases "d \<in> set (waiters_of (presenceWaiters s) i)")
  case False
  then have "unparkPresenceWaiter i d s = s"
    by (auto simp: unparkPresenceWaiter_def waiters_of_def split: option.splits)
  then show ?thesis by simp
qed (use unpark_load [of s d i] in auto)

lemma warmUp_load:
  assumes "distinct (jm_keys (presenceWaiters s))"
  shows "backlog (presenceWaiters (warmUpPresence W a s)) \<le> backlog (presenceWaiters s) + warm_weight (PWarm a)
    \<and> distinct (jm_keys (presenceWaiters (warmUpPresence W a s)))"
proof -
  let ?p = "parkPresenceWaiter (ce_uuid W (n_uuid s)) (PWarm a) (take_uuid s)"
  have d: "distinct (jm_keys (presenceWaiters (take_uuid s)))" using assms by (simp add: take_uuid_def)
  from park_load [OF d, of "ce_uuid W (n_uuid s)" "PWarm a"]
  have p: "backlog (presenceWaiters ?p) \<le> backlog (presenceWaiters s) + warm_weight (PWarm a)" "distinct (jm_keys (presenceWaiters ?p))"
    by (simp_all add: take_uuid_def)
  with unpark_load_le [OF p(2)] unpark_distinct [OF p(2)] assms show ?thesis
    unfolding warmUpPresence_def Let_def
    by (auto split: sum.splits dest: sendFrame_waiters intro: le_trans)
qed

lemma presence_done_load:
  assumes "distinct (jm_keys (presenceWaiters s))" "d \<in> set (waiters_of (presenceWaiters s) i)"
  shows "backlog (presenceWaiters (presence_done W out i d s)) < backlog (presenceWaiters s)
    \<and> distinct (jm_keys (presenceWaiters (presence_done W out i d s)))"
proof -
  note u = unpark_load [OF assms] unpark_distinct [OF assms(1), of i d]
  have w: "warm_weight (PWarm (a + 1)) < warm_weight (PWarm a)" if "a < 2" for a
    using that by (simp add: warm_weight_def)
  show ?thesis
  proof (cases d)
    case (PCall p)
    then show ?thesis using u by (simp add: presence_done_def Let_def warm_weight_def)
  next
    case (PWarm a)
    then show ?thesis
      using u warmUp_load [OF u(2), of W "a + 1"] w [of a] warm_weight_pos [of "PWarm a"]
      by (cases "isl out \<or> echoSeen (unparkPresenceWaiter i d s) \<or> \<not> a < 2")
        (simp_all add: presence_done_def Let_def del: warm_weight_pos)
  qed
qed

lemma first_waiter:
  assumes "distinct (jm_keys m)" "concat (map (\<lambda>(i, ds). map (\<lambda>d. (i, d)) ds) m) = (i, d) # rest"
  shows "d \<in> set (waiters_of m i)"
proof -
  have "(i, d) \<in> set (concat (map (\<lambda>(i, ds). map (\<lambda>d. (i, d)) ds) m))" by (simp only: assms(2)) simp
  then obtain ds where "(i, ds) \<in> set m" "d \<in> set ds" by auto
  then show ?thesis using assms(1) by (simp add: waiters_of_def)
qed

lemma complete_all_ends:
  "distinct (jm_keys (presenceWaiters s)) \<Longrightarrow> completion_fuel s \<le> n
     \<Longrightarrow> all_presence_waiters (complete_all n W agents s) = []"
proof (induction n arbitrary: s)
  case 0
  then show ?case
    by (cases "all_presence_waiters s") (auto simp: completion_fuel_def warm_weight_pos [THEN less_imp_neq, THEN not_sym])
next
  case (Suc n)
  show ?case
  proof (cases "all_presence_waiters s")
    case (Cons w ws)
    then obtain i d where w: "all_presence_waiters s = (i, d) # ws" by (cases w) simp
    from first_waiter [OF Suc.prems(1)] w have "d \<in> set (waiters_of (presenceWaiters s) i)"
      by (simp add: all_presence_waiters_def)
    from presence_done_load [OF Suc.prems(1) this] Suc.prems(2) w show ?thesis
      by (simp add: fuel_load) (metis Suc.IH fuel_load less_Suc_eq_le less_le_trans)
  qed simp
qed

lemma complete_all_more:
  "all_presence_waiters (complete_all n W agents s) = [] \<Longrightarrow> complete_all (n + m) W agents s = complete_all n W agents s"
proof (induction n arbitrary: s)
  case 0
  then show ?case by (cases m) (auto split: list.splits)
qed (auto split: list.splits)

section \<open>An echoed answer\<close>

lemma js_remove_absent: "d \<notin> set ds \<Longrightarrow> js_remove d ds = ds"
  by (induction ds) (auto simp: js_remove_def)

lemma waiters_of_unpark:
  "waiters_of (presenceWaiters (unparkPresenceWaiter i d s)) j =
     (if j = i then js_remove d (waiters_of (presenceWaiters s) i) else waiters_of (presenceWaiters s) j)"
  by (auto simp: unparkPresenceWaiter_def waiters_of_def Let_def js_remove_absent split: option.splits)

lemma unpark_same [simp]:
  "parked (unparkPresenceWaiter i d s) = parked s" "micro (unparkPresenceWaiter i d s) = micro s"
  "echoSeen (unparkPresenceWaiter i d s) = echoSeen s"
  by (simp_all add: unparkPresenceWaiter_def Let_def split: option.splits)

lemma done_echoed:
  assumes "echoSeen s"
  shows "waiters_of (presenceWaiters (presence_done W (Inr as) i d s)) j =
      (if j = i then js_remove d (waiters_of (presenceWaiters s) i) else waiters_of (presenceWaiters s) j)"
    and "jm_get (parked (presence_done W (Inr as) i d s)) q = (if d = PCall q then None else jm_get (parked s) q)"
    and "set (micro s) \<subseteq> set (micro (presence_done W (Inr as) i d s))"
    and "d = PCall p \<Longrightarrow> jm_get (parked s) p = Some ks \<Longrightarrow> (Inr (VAgents as), ks) \<in> set (micro (presence_done W (Inr as) i d s))"
    and "echoSeen (presence_done W (Inr as) i d s)"
proof -
  have e: "echoSeen (settle out p t) = echoSeen t" for out p t
    by (simp add: settle_def schedule_def split: option.splits)
  show "waiters_of (presenceWaiters (presence_done W (Inr as) i d s)) j =
      (if j = i then js_remove d (waiters_of (presenceWaiters s) i) else waiters_of (presenceWaiters s) j)"
    "jm_get (parked (presence_done W (Inr as) i d s)) q = (if d = PCall q then None else jm_get (parked s) q)"
    "set (micro s) \<subseteq> set (micro (presence_done W (Inr as) i d s))"
    "echoSeen (presence_done W (Inr as) i d s)"
    using assms settle_micro_mono [of "unparkPresenceWaiter i d s"]
    by (auto simp: presence_done_def Let_def waiters_of_unpark settle_parked e split: p_waiter.splits)
  show "d = PCall p \<Longrightarrow> jm_get (parked s) p = Some ks \<Longrightarrow> (Inr (VAgents as), ks) \<in> set (micro (presence_done W (Inr as) i d s))"
    by (simp add: presence_done_def Let_def settle_def schedule_def)
qed

lemma fold_done_echoed:
  assumes "echoSeen s"
  shows "j \<noteq> i \<Longrightarrow> waiters_of (presenceWaiters (fold (presence_done W (Inr as) i) ds s)) j = waiters_of (presenceWaiters s) j"
    and "set (waiters_of (presenceWaiters (fold (presence_done W (Inr as) i) ds s)) i) = set (waiters_of (presenceWaiters s) i) - set ds"
    and "jm_get (parked (fold (presence_done W (Inr as) i) ds s)) q = (if PCall q \<in> set ds then None else jm_get (parked s) q)"
    and "set (micro s) \<subseteq> set (micro (fold (presence_done W (Inr as) i) ds s))"
    and "PCall p \<in> set ds \<Longrightarrow> jm_get (parked s) p = Some ks
      \<Longrightarrow> (Inr (VAgents as), ks) \<in> set (micro (fold (presence_done W (Inr as) i) ds s))"
  using assms
proof (induction ds arbitrary: s)
  case (Cons d ds)
  { case 1 with Cons.IH(1) show ?case by (simp add: done_echoed) }
  { case 2 with Cons.IH(2) show ?case by (auto simp: done_echoed) }
  { case 3 with Cons.IH(3) show ?case by (auto simp: done_echoed) }
  { case 4 with Cons.IH(4) [OF done_echoed(5)] done_echoed(3) show ?case by (fastforce simp del: fold.simps(1)) }
  { case 5
    let ?s = "presence_done W (Inr as) i d s"
    show ?case
    proof (cases "d = PCall p")
      case True
      with done_echoed(4) [OF 5(3) _ 5(2)] have "(Inr (VAgents as), ks) \<in> set (micro ?s)" by blast
      moreover have "set (micro ?s) \<subseteq> set (micro (fold (presence_done W (Inr as) i) ds ?s))"
        by (rule Cons.IH(4) [OF done_echoed(5) [OF 5(3)]])
      ultimately show ?thesis by auto
    next
      case False
      with 5 have "jm_get (parked ?s) p = Some ks" "PCall p \<in> set ds" by (auto simp: done_echoed)
      with Cons.IH(5) [OF _ _ done_echoed(5)] 5(3) show ?thesis by simp
    qed }
qed simp_all

section \<open>Armed invites\<close>

lemma pend_vis: "vis s' = vis s \<Longrightarrow> pendingInvites s' = pendingInvites s"
  by (simp add: vis_def)

lemma pend_report [simp]:
  "pendingInvites (ringError e s) = pendingInvites s" "pendingInvites (deliver ev s) = pendingInvites s"
  by (simp_all add: ringError_def deliver_def)

lemma pend_msg: "pendingInvites (msg_resumed W f out s) = pendingInvites s"
proof -
  have a: "pendingInvites (accept_invite i s) = pendingInvites s" for i s by (rule pend_vis) (rule vis_accept_invite)
  have f: "pendingInvites (msg_failed W f e s) = pendingInvites s" for f e s
    by (simp add: msg_failed_def Let_def)
  show ?thesis
    by (simp add: msg_resumed_def msg_decrypted_def surface_msg_def a f split: sum.splits dap_value.splits option.splits)
qed

lemma pend_end_loop [simp]:
  "pendingInvites (end_delivery out ks s) = pendingInvites s" "pendingInvites (deliver_loop W i as ks s) = pendingInvites s"
  by (rule pend_vis, simp add: frame_simps)+

lemma pend_delivered: "pendingInvites (delivered_invite W i as p ks s) = drop_at i (pendingInvites s)"
  by (auto simp: delivered_invite_def Let_def dest!: vis_store_invites [THEN pend_vis] split: sum.splits option.splits)

lemma pend_arm:
  "pendingInvites (arm_body W name channel ks s) \<in>
     {pendingInvites s, pendingInvites s @ [pending_json \<lparr>pi_name = name, pi_channel = channel\<rparr>]}"
proof -
  have "pendingInvites (ret v ks s) = pendingInvites s" "pendingInvites (throw e ks s) = pendingInvites s"
    "pendingInvites (pollPendingInvites W s) = pendingInvites s" for v e ks s
    by (rule pend_vis, simp add: frame_simps)+
  then show ?thesis
    by (auto simp: arm_body_def Let_def dest!: vis_store_invites [THEN pend_vis] split: sum.splits)
qed

definition invite_step :: "(exn + dap_value) \<times> kont list \<Rightarrow> json list \<Rightarrow> json list \<Rightarrow> bool" where
  \<comment> \<open>how continuing with this outcome may change the list of armed invites\<close>
  "invite_step m ps ps' =
     (case m of
        (Inr v, KDelivered i as p # ks) \<Rightarrow> ps' = drop_at i ps
      | (Inr v, KArm name channel # ks) \<Rightarrow> ps' \<in> {ps, ps @ [pending_json \<lparr>pi_name = name, pi_channel = channel\<rparr>]}
      | _ \<Rightarrow> ps' = ps)"

lemma vis_resume_quiet:
  "vis (resume_err W k e ks s) = vis s"
  "(\<forall>name channel. k \<noteq> KArm name channel) \<Longrightarrow> (\<forall>i as p. k \<noteq> KDelivered i as p) \<Longrightarrow> vis (resume_ok W k v ks s) = vis s"
proof -
  show "vis (resume_err W k e ks s) = vis s" by (cases k) (simp_all add: frame_simps)
  show "vis (resume_ok W k v ks s) = vis s"
    if "\<forall>name channel. k \<noteq> KArm name channel" "\<forall>i as p. k \<noteq> KDelivered i as p"
    using that by (cases k; cases v) (simp_all add: frame_simps)
qed

lemma pend_resume: "invite_step (out, ks) (pendingInvites s) (pendingInvites (resume W out ks s))"
proof (cases ks)
  case (Cons k ks')
  show ?thesis
  proof (cases out)
    case (Inl e)
    have "pendingInvites (resume_err W k e ks' s) = pendingInvites s" by (rule pend_vis) (rule vis_resume_quiet)
    then have "pendingInvites (resume W (Inl e) (k # ks') s) = pendingInvites s"
      by (cases k) (simp_all add: pend_msg surfaceInviteFailure_def Let_def crash_def)
    then show ?thesis by (simp add: Inl Cons invite_step_def)
  next
    case (Inr v)
    have "pendingInvites (resume_ok W k v ks' s) = pendingInvites s"
      if "\<forall>name channel. k \<noteq> KArm name channel" "\<forall>i as p. k \<noteq> KDelivered i as p"
      by (rule pend_vis) (rule vis_resume_quiet(2) [OF that])
    then show ?thesis
      by (cases k) (simp_all add: Inr Cons invite_step_def pend_msg pend_delivered pend_arm [simplified])
  qed
qed (simp add: invite_step_def split: sum.splits)

lemma pend_handler: "(\<And>s'. r = Inr s' \<Longrightarrow> pendingInvites s' = pendingInvites s) \<Longrightarrow> pendingInvites (handler r s) = pendingInvites s"
  by (simp add: handler_def crash_def split: sum.splits)

lemma pend_onError: "pendingInvites (onError f s) = pendingInvites s"
proof -
  have "pendingInvites (fail_joins c e t) = pendingInvites t" "pendingInvites (fail_whois t) = pendingInvites t" for c e t
    by (rule pend_vis, simp add: frame_simps)+
  then show ?thesis by (simp add: onError_def Let_def)
qed

lemma pend_onPresence: "onPresence W f s = Inr s' \<Longrightarrow> pendingInvites s' = pendingInvites s"
proof -
  have "pendingInvites (complete_all n W as t) = pendingInvites t" "pendingInvites (fold (presence_done W out i) ds t) = pendingInvites t"
    for n as t out i ds
    by (rule pend_vis, simp add: frame_simps)+
  then show "onPresence W f s = Inr s' \<Longrightarrow> pendingInvites s' = pendingInvites s"
    by (auto simp: onPresence_def bind_result_Inr_iff Let_def split: if_splits)
qed

lemma pend_onWelcome: "onWelcome W s = Inr s' \<Longrightarrow> pendingInvites s' = pendingInvites s"
proof -
  assume r: "onWelcome W s = Inr s'"
  let ?w = "s\<lparr>welcomed := True, welcomes := welcomes s + 1, delay := initialMs s, joined := []\<rparr>"
  have "vis s' = vis ?w"
    using r by (auto simp: onWelcome_def bind_result_Inr_iff Let_def frame_simps dest!: vis_ws_send split: if_splits)
  from pend_vis [OF this] show ?thesis by simp
qed

lemma pend_handleRaw: "handleRaw W raw s = Inr s' \<Longrightarrow> pendingInvites s' = pendingInvites s"
proof -
  have q: "pendingInvites (onJoined c s) = pendingInvites s" "pendingInvites (onAgentInfo g s) = pendingInvites s"
    "pendingInvites (onMsg g s) = pendingInvites s" for c g
    by (rule pend_vis, simp add: frame_simps)+
  have "pendingInvites s' = pendingInvites s" if "dispatch W f s = Inr s'" for f
    using that pend_onPresence [of W f s s'] pend_onWelcome [of W s s'] vis_onEnrolled [THEN pend_vis, of _ s s']
    by (simp add: dispatch_def q pend_onError split: json.splits if_splits) (auto simp: q pend_onError)
  then show "handleRaw W raw s = Inr s' \<Longrightarrow> ?thesis"
    by (auto simp: handleRaw_def split: sum.splits if_splits)
qed

lemma pend_on_unexpected: "pendingInvites (on_unexpected W st s) = pendingInvites s"
proof -
  have "pendingInvites (close_ws t) = pendingInvites t" for t by (rule pend_vis) (rule vis_close_ws)
  then show ?thesis
    by (auto simp: on_unexpected_def Let_def crash_def dest!: vis_persist_config [THEN pend_vis] split: sum.splits)
qed

lemma pend_connect: "pendingInvites (snd (connect W s)) = pendingInvites s"
  by (rule pend_vis) (rule vis_connect)

lemma pend_retarget: "pendingInvites (of_start (retarget W r s)) = pendingInvites s"
proof -
  have "pendingInvites (failWaiters W e t) = pendingInvites t" "pendingInvites (detach_ws t) = pendingInvites t" for e t
    by (rule pend_vis, simp add: frame_simps)+
  then show ?thesis
    by (simp add: retarget_def swap_target_def of_start_def pend_connect clear_retry_def split: option.splits)
qed

lemma pend_onDisconnect: "pendingInvites (onDisconnect W s) = pendingInvites s"
proof -
  have "pendingInvites (failWaiters W e t) = pendingInvites t" for e t by (rule pend_vis) (rule vis_failWaiters)
  then show ?thesis by (simp add: onDisconnect_def Let_def)
qed

lemma pend_stop: "pendingInvites (stop s) = pendingInvites s"
proof -
  have "pendingInvites (close_ws t) = pendingInvites t" for t by (rule pend_vis) (rule vis_close_ws)
  then show ?thesis by (simp add: stop_def clear_retry_def split: option.splits)
qed

lemma pend_exec: "\<forall>n. l \<noteq> Resume n \<Longrightarrow> pendingInvites (exec W l s) = pendingInvites s"
proof (cases l)
  case (SockOpen i)
  then show ?thesis using vis_on_open [THEN pend_vis] by (simp add: set_sock_def)
next
  case (SockMessage i raw)
  then show ?thesis by (simp add: pend_handler [OF pend_handleRaw])
next
  case (SockClose i)
  then show ?thesis by (simp add: pend_onDisconnect detach_def set_sock_def)
next
  case (RetryFires h)
  then show ?thesis by (simp add: retry_fires_def split_def Let_def pend_connect crash_def)
next
  case StartCall
  then show ?thesis by (simp add: start_def of_start_def pend_connect)
next
  case (Tick d)
  then show ?thesis by simp
qed (auto simp: pend_on_unexpected pend_retarget pend_stop drainInbox_def drainErrors_def frame_simps intro!: pend_vis
      split: option.splits)

section \<open>Properties\<close>


text \<open>A refused join fails: an \<open>access_denied\<close> or \<open>unknown_channel\<close> without a channel settles every
  pending join with the hub's words as the error, and leaves none waiting.\<close>

lemma join_denied:
  assumes "prop_of f ''code'' = JStr c" "c = ''access_denied'' \<or> c = ''unknown_channel''" "prop_of f ''channel'' = JUndef"
    and "p \<in> set (waiters_of (joinWaiters s) name)" "jm_get (parked s) p = Some ks"
  shows "(Inl (JsError (''hub error '' @ c @ '': '' @ js_String (prop_of f ''msg''))), ks) \<in> set (micro (onError f s))
    \<and> jm_get (parked (onError f s)) p = None \<and> joinWaiters (onError f s) = []"
proof -
  let ?m = "''hub error '' @ c @ '': '' @ js_String (prop_of f ''msg'')"
  let ?s = "ringError (mk_error c (js_String (prop_of f ''msg'')) s) (s\<lparr>lastError := ?m\<rparr>)"
  let ?ps = "concat (map snd (joinWaiters s))"
  from assms(2) have "c \<noteq> ''unknown_agent''" by auto
  then have e: "onError f s = (settle_all (Inl (JsError ?m)) ?ps ?s)\<lparr>joinWaiters := []\<rparr>"
    using assms(1-3) by (auto simp: onError_def Let_def fail_joins_def ringError_def)
  have "p \<in> set ?ps"
    using assms(4) by (cases "jm_get (joinWaiters s) name") (force simp: waiters_of_def dest: map_of_SomeD)+
  moreover have "jm_get (parked ?s) p = Some ks" using assms(5) by (simp add: ringError_def)
  ultimately show ?thesis
    using settle_all_micro [of p ?ps ?s ks] by (simp add: e settle_all_parked)
qed

text \<open>An answer that carries the id of a query completes that query and no other: all its callers get the
  agents, the promises and waiters of every other query stay as they are.\<close>

lemma answer_matched:
  assumes "prop_of f ''replyTo'' = JStr i" "onPresence W f s = Inr s'"
  shows "\<exists>agents. map_result (agent_of W s) (case prop_of f ''agents'' of JArr vs \<Rightarrow> vs | _ \<Rightarrow> []) = Inr agents
    \<and> waiters_of (presenceWaiters s') i = []
    \<and> (\<forall>j. j \<noteq> i \<longrightarrow> waiters_of (presenceWaiters s') j = waiters_of (presenceWaiters s) j)
    \<and> (\<forall>p ks. PCall p \<in> set (waiters_of (presenceWaiters s) i) \<and> jm_get (parked s) p = Some ks
         \<longrightarrow> (Inr (VAgents agents), ks) \<in> set (micro s') \<and> jm_get (parked s') p = None)
    \<and> (\<forall>p. PCall p \<notin> set (waiters_of (presenceWaiters s) i) \<longrightarrow> jm_get (parked s') p = jm_get (parked s) p)"
proof -
  let ?s = "s\<lparr>echoSeen := True\<rparr>" and ?ds = "waiters_of (presenceWaiters s) i"
  from assms obtain agents
    where a: "map_result (agent_of W s) (case prop_of f ''agents'' of JArr vs \<Rightarrow> vs | _ \<Rightarrow> []) = Inr agents"
      and s': "s' = fold (presence_done W (Inr agents) i) ?ds ?s"
    by (auto simp: onPresence_def bind_result_Inr_iff Let_def)
  have e: "echoSeen ?s" by simp
  from fold_done_echoed(2) [OF e, of W agents i ?ds] have "waiters_of (presenceWaiters s') i = []" by (simp add: s')
  moreover have "waiters_of (presenceWaiters s') j = waiters_of (presenceWaiters s) j" if "j \<noteq> i" for j
    using fold_done_echoed(1) [OF e that, of W agents ?ds] by (simp add: s')
  moreover have "(Inr (VAgents agents), ks) \<in> set (micro s') \<and> jm_get (parked s') p = None"
    if "PCall p \<in> set ?ds" "jm_get (parked s) p = Some ks" for p ks
    using fold_done_echoed(5) [OF e that(1), of ks agents W i] fold_done_echoed(3) [OF e, of W agents i ?ds p] that
    by (simp add: s')
  moreover have "jm_get (parked s') p = jm_get (parked s) p" if "PCall p \<notin> set ?ds" for p
    using fold_done_echoed(3) [OF e, of W agents i ?ds p] that by (simp add: s')
  ultimately show ?thesis using a by blast
qed

text \<open>The loop that an answer without an id runs over the waiting queries ends, although a warm-up it
  completes parks another one behind it: it stops with no query left waiting, and more rounds than
  \<open>completion_fuel\<close> change nothing.\<close>

lemma completion_ends:
  assumes "distinct (jm_keys (presenceWaiters s))" "completion_fuel s \<le> n"
  shows "all_presence_waiters (complete_all n W agents s) = []
    \<and> complete_all n W agents s = complete_all (completion_fuel s) W agents s"
proof -
  have "all_presence_waiters (complete_all (completion_fuel s) W agents s) = []"
    by (rule complete_all_ends [OF assms(1)]) simp
  from complete_all_more [OF this, of "n - completion_fuel s"] assms(2) complete_all_ends [OF assms, of W agents]
  show ?thesis by simp
qed

section \<open>Concrete states\<close>

definition demo_armed :: client where
  "demo_armed = demo_client\<lparr>pendingInvites := [JStr ''p''], micro := [(Inr VUnit, [KDelivered 0 [] (JStr ''p''), KSurface])]\<rparr>"


definition demo_waiting :: client where
  "demo_waiting = demo_ready\<lparr>joinWaiters := [(''room'', [0])], presenceWaiters := [(''q'', [PCall 0])]\<rparr>"

lemma demo_waiting_fields:
  "parked demo_waiting = [(0, [KTop 7])]" "joinWaiters demo_waiting = [(''room'', [0])]"
  "presenceWaiters demo_waiting = [(''q'', [PCall 0])]"
  by (simp_all add: demo_waiting_def demo_ready_parked)

lemma join_denied_witness:
  "(Inl (JsError ''hub error access_denied: no''), [KTop 7])
     \<in> set (micro (onError [(''code'', JStr ''access_denied''), (''msg'', JStr ''no'')] demo_waiting))"
  using join_denied [of "[(''code'', JStr ''access_denied''), (''msg'', JStr ''no'')]" "''access_denied''" 0 demo_waiting
      "''room''" "[KTop 7]"]
  by (simp add: demo_waiting_fields waiters_of_def)

lemma answer_matched_witness:
  "\<exists>s' :: client. onPresence demo_env [(''replyTo'', JStr ''q'')] demo_waiting = Inr s' \<and> (Inr (VAgents []), [KTop 7]) \<in> set (micro s')"
proof -
  let ?f = "[(''replyTo'', JStr ''q'')]"
  obtain s' where r: "onPresence demo_env ?f demo_waiting = Inr s'"
    by (simp add: onPresence_def Let_def)
  from answer_matched [OF _ r, of "''q''"] show ?thesis
    by (intro exI [of _ s']) (simp add: r demo_waiting_fields waiters_of_def)
qed

definition demo_warm :: client where
  "demo_warm = demo_client\<lparr>presenceWaiters := [(''a'', [PWarm 0]), (''b'', [PCall 0])]\<rparr>"

lemma completion_ends_witness: "all_presence_waiters (complete_all 9 demo_env [] demo_warm) = []"
proof -
  have "completion_fuel demo_warm \<le> 9"
    by (simp add: completion_fuel_def all_presence_waiters_def warm_weight_def demo_warm_def)
  from completion_ends [OF _ this] show ?thesis
    by (rule conjunct1) (simp add: demo_warm_def)
qed

end
