(* ===== verification/Client_Connection.thy ===== *)
theory Client_Connection
  imports Client_Waiters
begin

text \<open>
  Who a client is and how it gets in: the identity file, the bearer token of a dial, enrollment and the
  recovery from a stale secret, the channel keys across restarts, and \<open>retarget\<close>.
\<close>

section \<open>The identity file\<close>

lemma identity_ranks:
  "prop_rank ''priv'' = 4294967295" "prop_rank ''pub'' = 4294967295" "prop_rank ''xpriv'' = 4294967295" "prop_rank ''xpub'' = 4294967295"
  by (simp_all add: prop_rank_def arr_index_def is_digit_def code_def)

lemma identity_parse:
  "json_parse (identity_text i) = Inr (JObj [(''priv'', JStr (b64e (id_priv i))), (''pub'', JStr (b64e (id_pub i))),
     (''xpriv'', JStr (b64e (id_xpriv i))), (''xpub'', JStr (b64e (id_xpub i)))])"
  unfolding identity_text_def by (rule json_parse_text_ok) (simp add: obj_ok_def identity_ranks)

definition key_sizes :: "identity \<Rightarrow> bool" where
  "key_sizes i = list_all (\<lambda>k. length k = 32) [id_priv i, id_pub i, id_xpriv i, id_xpub i]"

lemma stored_identity_text:
  assumes "read_file h p = Inr (identity_text i)"
  shows "stored_identity h p = Inr (if key_sizes i then Some i else None)"
proof -
  from assms have "fs h p \<noteq> None" by (auto simp: read_file_def split: option.splits)
  with assms show ?thesis
    by (simp add: stored_identity_def read_json_def identity_parse key_field_def key_sizes_def)
qed

lemma stored_identity_sizes: "stored_identity h p = Inr (Some i) \<Longrightarrow> key_sizes i"
  by (auto simp: stored_identity_def bind_result_Inr_iff key_sizes_def split: if_splits)

section \<open>Channels of a new client\<close>

lemma file_channels_get:
  "jm_get (file_channels (Some (c # p)) h) name =
     map_option (\<lambda>k. \<lparr>ch_name = name, ch_pub = ck_pub k, ch_priv = Some (ck_priv k)\<rparr>) (stored_keys h (c # p) name)"
proof -
  let ?add = "\<lambda>(name, v) m. case entry_keys v of
      Some k \<Rightarrow> jm_set name \<lparr>ch_name = name, ch_pub = ck_pub k, ch_priv = Some (ck_priv k)\<rparr> m | None \<Rightarrow> m"
  have gen: "jm_get (fold ?add es m) name =
      (case map_of (rev es) name of
         Some v \<Rightarrow> (case entry_keys v of
            Some k \<Rightarrow> Some \<lparr>ch_name = name, ch_pub = ck_pub k, ch_priv = Some (ck_priv k)\<rparr>
          | None \<Rightarrow> jm_get m name)
       | None \<Rightarrow> jm_get m name)" if "distinct (map fst es)" for es and m :: "(string, channel_key) jsmap"
    using that
  proof (induction es arbitrary: m)
    case (Cons e es)
    obtain n v where e: "e = (n, v)" by (cases e)
    from Cons.prems e have "map_of (rev es) n = None" by (simp add: map_of_eq_None_iff)
    with Cons.prems Cons.IH show ?case
      by (auto simp: e map_add_def split: option.splits)
  qed simp
  have d: "distinct (map fst (loadChannelKeys (c # p) h))"
    using keys_file_load [of "c # p" h] by (simp add: keys_file_def obj_ok_def)
  then have "map_of (rev (loadChannelKeys (c # p) h)) = map_of (loadChannelKeys (c # p) h)"
    by (intro map_of_eqI) (auto intro!: map_of_is_SomeI simp flip: rev_map)
  with gen [OF d, of "[]"] show ?thesis
    by (simp add: file_channels_def stored_keys_def split: option.splits)
qed

lemma loadIdentity_other: "loadIdentity C a b p h = Inr (i, h') \<Longrightarrow> f \<noteq> p \<Longrightarrow> read_file h' f = read_file h f"
  by (auto simp: loadIdentity_def bind_result_Inr_iff Let_def split: option.splits prod.splits)

lemma stored_keys_read: "read_file h' f = read_file h f \<Longrightarrow> stored_keys h' f = stored_keys h f"
  by (simp add: stored_keys_def loadChannelKeys_def read_json_def fun_eq_iff)

lemma fold_channels_get:
  "(\<forall>ch \<in> set chs. ch_name ch \<noteq> name) \<Longrightarrow> jm_get (fold (\<lambda>ch. jm_set (ch_name ch) ch) chs m) name = jm_get m name"
  by (induction chs arbitrary: m) auto

section \<open>The secret\<close>

lemma optStr_JStr [simp]: "optStr (JStr s) = (if s = [] then None else Some s)"
  by (simp add: optStr_def)

lemma persist_secret:
  assumes "persist_config (no_update\<lparr>up_secret := u\<rparr>) s = Inr s'"
  shows "env_var (w_host s') = env_var (w_host s)"
    and "prop_of (readDapConfig (w_host s') (defaultConfigFile (w_host s'))) ''clientSecret'' =
      (case u of PurgeSecret \<Rightarrow> JUndef | SetSecret (c # t) \<Rightarrow> JStr (c # t)
       | _ \<Rightarrow> prop_of (readDapConfig (w_host s) (defaultConfigFile (w_host s))) ''clientSecret'')"
    and "s' = s\<lparr>w_host := w_host s'\<rparr>"
proof -
  let ?u = "no_update\<lparr>up_secret := u\<rparr>" and ?f = "defaultConfigFile (w_host s)"
  from assms have p: "persistDapConfig ?u ?f (w_host s) = Inr (w_host s')" and s: "s' = s\<lparr>w_host := w_host s'\<rparr>"
    by (auto simp: persist_config_def bind_result_Inr_iff)
  show "env_var (w_host s') = env_var (w_host s)"
    using persist_fields [OF p] by (simp add: env_var_def fun_eq_iff)
  have ok: "update_jok ?u" by (simp add: update_jok_def no_update_def)
  from next_config_prop [OF persist_read [OF p ok]] persist_config_path [OF p]
  show "prop_of (readDapConfig (w_host s') (defaultConfigFile (w_host s'))) ''clientSecret'' =
      (case u of PurgeSecret \<Rightarrow> JUndef | SetSecret (c # t) \<Rightarrow> JStr (c # t)
       | _ \<Rightarrow> prop_of (readDapConfig (w_host s) (defaultConfigFile (w_host s))) ''clientSecret'')"
    by (auto simp: no_update_def split: secret_update.splits list.splits)
  show "s' = s\<lparr>w_host := w_host s'\<rparr>" by (rule s)
qed

lemma persist_secret_total: "\<exists>s'. persist_config (no_update\<lparr>up_secret := u\<rparr>) s = Inr s'"
proof -
  obtain ps where "next_config (no_update\<lparr>up_secret := u\<rparr>) (readDapConfig (w_host s) (defaultConfigFile (w_host s))) = Inr ps"
    using next_config_total [of "no_update\<lparr>up_secret := u\<rparr>"] by (auto simp: no_update_def)
  then show ?thesis by (simp add: persist_config_def persistDapConfig_def)
qed

section \<open>Failing the waiters\<close>

definition settles :: "exn + dap_value \<Rightarrow> pid set \<Rightarrow> client \<Rightarrow> client \<Rightarrow> bool" where
  \<comment> \<open>the promises of \<open>ps\<close> that are parked get \<open>out\<close>, the others stay parked\<close>
  "settles out ps s s' =
     (set (micro s) \<subseteq> set (micro s')
      \<and> (\<forall>q. jm_get (parked s') q = (if q \<in> ps then None else jm_get (parked s) q))
      \<and> (\<forall>p \<in> ps. \<forall>ks. jm_get (parked s) p = Some ks \<longrightarrow> (out, ks) \<in> set (micro s')))"

lemma settles_trans: "settles out ps s s1 \<Longrightarrow> settles out qs s1 s2 \<Longrightarrow> settles out (ps \<union> qs) s s2"
  unfolding settles_def by (auto split: if_splits) (metis subsetD)

lemma settles_all: "settles out (set ps) s (settle_all out ps s)"
  using settle_all_micro_mono settle_all_micro by (auto simp: settles_def settle_all_parked)

lemma settles_from: "settles out ps s1 s' \<Longrightarrow> micro s1 = micro s \<Longrightarrow> parked s1 = parked s \<Longrightarrow> settles out ps s s'"
  by (simp add: settles_def)

lemma settles_presence_fail: "settles (Inl e) {p. \<exists>i. (i, PCall p) \<in> set ds} s (presence_fail W e ds s)"
proof (induction ds arbitrary: s)
  case (Cons a ds)
  obtain i d where a: "a = (i, d)" by (cases a)
  let ?s = "presence_done W (Inl e) i d s"
  have "settles (Inl e) (case d of PCall p \<Rightarrow> {p} | PWarm _ \<Rightarrow> {}) s ?s"
  proof (cases d)
    case (PCall p)
    have "settles (Inl e) (set [p]) (unparkPresenceWaiter i d s) (settle_all (Inl e) [p] (unparkPresenceWaiter i d s))"
      by (rule settles_all)
    with PCall show ?thesis
      by (simp add: presence_done_def Let_def settle_all_def settles_def)
  qed (simp add: presence_done_def Let_def settles_def)
  from settles_trans [OF this Cons.IH [of ?s]]
  have "settles (Inl e) ((case d of PCall p \<Rightarrow> {p} | PWarm _ \<Rightarrow> {}) \<union> {p. \<exists>i. (i, PCall p) \<in> set ds}) s (presence_fail W e (a # ds) s)"
    by (simp add: a)
  moreover have "(case d of PCall p \<Rightarrow> {p} | PWarm _ \<Rightarrow> {}) \<union> {p. \<exists>i. (i, PCall p) \<in> set ds} = {p. \<exists>i. (i, PCall p) \<in> set (a # ds)}"
    by (auto simp: a split: p_waiter.splits)
  ultimately show ?case by simp
qed (simp add: settles_def)

definition hub_waiters :: "client \<Rightarrow> pid set" where
  \<comment> \<open>the promises that wait for an answer or the welcome of the hub\<close>
  "hub_waiters s = set (concat (map snd (whoisWaiters s))) \<union> {p. \<exists>i. (i, PCall p) \<in> set (all_presence_waiters s)} \<union> set (readyWaiters s)"

definition conn :: "client \<Rightarrow> _" where
  "conn s = (dialed s, attached s, socks s, n_sock s, w_host s, o_url s, o_name s, ident s, retries s, initialMs s, maxMs s, channels s, watching s)"

lemma conn_fields [simp]:
  "conn (s\<lparr>readyWaiters := a\<rparr>) = conn s" "conn (s\<lparr>whoisWaiters := b\<rparr>) = conn s" "conn (s\<lparr>presenceWaiters := c\<rparr>) = conn s"
  by (simp_all add: conn_def)

lemma conn_settle: "conn (settle out p s) = conn s \<and> presenceWaiters (settle out p s) = presenceWaiters s
    \<and> readyWaiters (settle out p s) = readyWaiters s \<and> whoisWaiters (settle out p s) = whoisWaiters s"
  by (simp add: conn_def settle_def schedule_def split: option.splits)

lemma conn_settle_all: "conn (settle_all out ps s) = conn s \<and> presenceWaiters (settle_all out ps s) = presenceWaiters s
    \<and> readyWaiters (settle_all out ps s) = readyWaiters s \<and> whoisWaiters (settle_all out ps s) = whoisWaiters s"
  unfolding settle_all_def
  by (induction ps arbitrary: s) (simp_all add: conn_settle)

lemma conn_presence_fail: "conn (presence_fail W e ds s) = conn s \<and> readyWaiters (presence_fail W e ds s) = readyWaiters s
    \<and> whoisWaiters (presence_fail W e ds s) = whoisWaiters s"
proof (induction W e ds s rule: presence_fail.induct)
  case (2 W e i d ds s)
  have "conn (presence_done W (Inl e) i d s) = conn s \<and> readyWaiters (presence_done W (Inl e) i d s) = readyWaiters s
      \<and> whoisWaiters (presence_done W (Inl e) i d s) = whoisWaiters s"
    by (simp add: presence_done_def conn_def unparkPresenceWaiter_def settle_def schedule_def Let_def
        split: p_waiter.splits option.splits)
  with 2 show ?case by simp
qed simp

lemma failWaiters_settles:
  shows "settles (Inl e) (hub_waiters s) s (failWaiters W e s)"
    and "conn (failWaiters W e s) = conn s"
    and "whoisWaiters (failWaiters W e s) = []" "presenceWaiters (failWaiters W e s) = []" "readyWaiters (failWaiters W e s) = []"
proof -
  let ?s1 = "(settle_all (Inl e) (concat (map snd (whoisWaiters s))) s)\<lparr>whoisWaiters := []\<rparr>"
  let ?s2 = "(presence_fail W e (all_presence_waiters ?s1) ?s1)\<lparr>presenceWaiters := []\<rparr>"
  let ?s3 = "settle_all (Inl e) (readyWaiters ?s2) (?s2\<lparr>readyWaiters := []\<rparr>)"
  have f: "failWaiters W e s = ?s3" by (simp add: failWaiters_def Let_def)
  have w: "all_presence_waiters ?s1 = all_presence_waiters s" "readyWaiters ?s2 = readyWaiters s"
    by (simp_all add: all_presence_waiters_def conn_settle_all conn_presence_fail)
  have "settles (Inl e) (set (concat (map snd (whoisWaiters s)))) s ?s1"
    using settles_all by (simp add: settles_def)
  moreover have "settles (Inl e) {p. \<exists>i. (i, PCall p) \<in> set (all_presence_waiters s)} ?s1 ?s2"
    using settles_presence_fail [of e "all_presence_waiters ?s1" ?s1 W] unfolding w by (simp add: settles_def)
  moreover have "settles (Inl e) (set (readyWaiters ?s2)) ?s2 ?s3"
    by (rule settles_from [OF settles_all]) simp_all
  then have "settles (Inl e) (set (readyWaiters s)) ?s2 ?s3" by (simp only: w(2))
  ultimately show "settles (Inl e) (hub_waiters s) s (failWaiters W e s)"
    unfolding f hub_waiters_def by (intro settles_trans)
  show "conn (failWaiters W e s) = conn s" "whoisWaiters (failWaiters W e s) = []" "presenceWaiters (failWaiters W e s) = []"
    "readyWaiters (failWaiters W e s) = []"
    unfolding f by (simp_all add: conn_settle_all conn_presence_fail)
qed

section \<open>Dialing\<close>

lemma connect_eq:
  assumes "\<not> stopped s" "ce_url_ok W (o_url s)"
  shows "connect W s = (None, s\<lparr>enrollPending := (case resolveAuthToken (w_host s) of Some a \<Rightarrow> at_enroll a | None \<Rightarrow> False),
     dialSource := map_option at_source (resolveAuthToken (w_host s)), n_sock := n_sock s + 1,
     socks := jm_set (n_sock s) CONNECTING (socks s), attached := js_add (n_sock s) (attached s),
     dialed := dialed s @ [(o_url s, map_option at_token (resolveAuthToken (w_host s)))], ws := Some (n_sock s)\<rparr>)"
  using assms by (simp add: connect_def dial_def Let_def)

lemma close_ws_fields [simp]:
  "w_host (close_ws s) = w_host s" "stopped (close_ws s) = stopped s" "o_url (close_ws s) = o_url s"
  "dialed (close_ws s) = dialed s" "reEnrolled (close_ws s) = reEnrolled s" "ident (close_ws s) = ident s"
  "errorRing (close_ws s) = errorRing s"
  by (simp_all add: close_ws_def close_sock_def split: option.splits)

section \<open>Properties\<close>

text \<open>The identity survives a restart: what \<open>loadIdentity\<close> returned, it returns again for the file it left
  behind, whatever fresh key material it is offered, and changes nothing then; a file it had to write is
  readable by its owner only.\<close>

lemma identity_restart:
  assumes "loadIdentity C rnd1 rnd2 p h = Inr (i, h')"
    and "length rnd1 = 32" "length rnd2 = 32" "length (ed_public C rnd1) = 32" "length (x_public C rnd2) = 32"
  shows "loadIdentity C rnd3 rnd4 p h' = Inr (i, h') \<and> (h' \<noteq> h \<longrightarrow> map_option mode (fs h' p) = Some private_mode)"
proof (cases "stored_identity h p = Inr (Some i) \<and> h' = h")
  case True
  then show ?thesis by (simp add: loadIdentity_def)
next
  case False
  with assms(1) have i: "i = \<lparr>id_priv = rnd1, id_pub = ed_public C rnd1, id_xpriv = rnd2, id_xpub = x_public C rnd2\<rparr>"
    and h': "h' = chmod_file p private_mode (write_file p (identity_text i) private_mode h)"
    by (auto simp: loadIdentity_def bind_result_Inr_iff newEdKeypair_def newX25519Keypair_def Let_def split: option.splits)
  have "stored_identity h' p = Inr (Some i)"
    using stored_identity_text [of h' p i] assms(2-5) by (simp add: h' key_sizes_def i)
  then show ?thesis by (simp add: loadIdentity_def h' chmod_file_def write_file_def)
qed

text \<open>An enrolled client stays enrolled: after the hub's \<open>enrolled\<close> frame the issued secret is the bearer
  token of every later dial, without enroll mode, unless \<open>DAP_CLIENT_SECRET\<close> is set, which then wins.\<close>

lemma enrolled_secret_used:
  assumes "enrollPending s" "secret \<noteq> []" "onEnrolled secret s = Inr s'"
  shows "resolveAuthToken (w_host s') =
      (case optStr (env_var (w_host s) ''DAP_CLIENT_SECRET'') of
         None \<Rightarrow> Some \<lparr>at_token = secret, at_enroll = False, at_source = AuthConfig\<rparr>
       | Some t \<Rightarrow> Some \<lparr>at_token = t, at_enroll = False, at_source = AuthEnv\<rparr>)
    \<and> \<not> enrollPending s'"
proof -
  from assms have p: "persist_config (no_update\<lparr>up_secret := SetSecret secret\<rparr>) (s\<lparr>enrollPending := False\<rparr>) = Inr s'"
    by (simp add: onEnrolled_def)
  from assms(2) obtain c t where "secret = c # t" by (cases secret) auto
  with persist_secret(2) [OF p]
  have "prop_of (readDapConfig (w_host s') (defaultConfigFile (w_host s'))) ''clientSecret'' = JStr secret" by simp
  moreover have "\<not> enrollPending s'" by (subst persist_secret(3) [OF p]) simp
  ultimately show ?thesis
    using assms(2) persist_secret(1) [OF p] by (simp add: resolveAuthToken_def split: option.splits)
qed


text \<open>A secret from the environment is the user's: no refused dial that presented it, or the master
  secret, touches the config file.\<close>

lemma env_secret_kept:
  assumes "dialSource s \<noteq> Some AuthConfig"
  shows "w_host (on_unexpected W st s) = w_host s"
  using assms by (simp add: on_unexpected_def Let_def ringError_def)

text \<open>A channel survives a restart: the key pair \<open>ensureChannelKeys\<close> makes for a channel nobody knows is
  in the channels file, and a client started later on the same file knows the channel with the same
  keys, if its options do not say otherwise.\<close>

lemma created_channel_survives:
  assumes "ensureChannelKeys W name s = (ch, s')" "jm_get (channels s) name = None" "o_channelsFile s = Some f" "f \<noteq> []"
    and "name \<noteq> ''__proto__''"
    and "new_client V opts (w_host s') = Inr t" "co_channelsFile opts = Some f" "co_keyPath opts \<noteq> f"
    and "\<forall>c \<in> set (co_channels opts). ch_name c \<noteq> name"
  shows "jm_get (channels t) name = Some ch \<and> jm_get (channels s') name = Some ch \<and> ch_name ch = name
    \<and> (\<exists>k. ch_priv ch = Some k)"
proof -
  from assms(4) obtain c q where f: "f = c # q" by (cases f) auto
  let ?k = "newChannelKeypair (ce_crypto W) (ce_random W (n_random s) 32)"
  have ch: "ch = \<lparr>ch_name = name, ch_pub = ck_pub ?k, ch_priv = Some (ck_priv ?k)\<rparr>"
    and s': "w_host s' = persistChannelKeys f name ?k (w_host s)" "jm_get (channels s') name = Some ch"
    using assms(1-3) f
    by (auto simp: ensureChannelKeys_def Let_def persist_keys_def channels_file_def take_random_def)
  from assms(6) obtain i h1 where l: "loadIdentity (ce_crypto V) (ce_random V 0 32) (ce_random V 1 32) (co_keyPath opts) (w_host s') = Inr (i, h1)"
    and c: "channels t = fold (\<lambda>ch. jm_set (ch_name ch) ch) (co_channels opts) (file_channels (Some f) h1)"
    by (auto simp: new_client_def bind_result_Inr_iff assms(7))
  have "stored_keys h1 f name = stored_keys (w_host s') f name"
    using stored_keys_read [OF loadIdentity_other [OF l]] assms(8) by metis
  with assms(5) have "stored_keys h1 f name = Some ?k" by (simp add: s' stored_keys_persist)
  then have "jm_get (channels t) name = Some ch"
    by (simp add: c fold_channels_get [OF assms(9)] f file_channels_get ch)
  with s' ch show ?thesis by simp
qed


section \<open>Concrete states\<close>

lemma demo_sizes: "length (ed_public demo_crypto (replicate 32 1)) = 32" "length (x_public demo_crypto (replicate 32 2)) = 32"
  by (simp_all add: demo_crypto_def)

lemma identity_restart_witness:
  "\<exists>i h'. loadIdentity demo_crypto (replicate 32 1) (replicate 32 2) ''/k'' sample_host = Inr (i, h')
     \<and> loadIdentity demo_crypto [] [] ''/k'' h' = Inr (i, h')"
proof -
  obtain i h' where l: "loadIdentity demo_crypto (replicate 32 1) (replicate 32 2) ''/k'' sample_host = Inr (i, h')"
    by (auto simp: loadIdentity_def stored_identity_def sample_host_def newEdKeypair_def newX25519Keypair_def Let_def)
  from identity_restart [OF l _ _ demo_sizes, of "[]" "[]"] l show ?thesis by auto
qed

definition demo_host :: host where
  "demo_host = sample_host\<lparr>env := (\<lambda>k. if k = ''DAP_MASTER_SECRET'' then Some ''master'' else None)\<rparr>"

definition demo_dialer :: client where
  "demo_dialer = demo_client\<lparr>w_host := demo_host, dialSource := Some AuthConfig, o_channelsFile := Some ''/c''\<rparr>"

lemma demo_env_vars:
  "optStr (env_var demo_host ''DAP_CLIENT_SECRET'') = None" "optStr (env_var demo_host ''DAP_MASTER_SECRET'') = Some ''master''"
  by (simp_all add: demo_host_def env_var_def optStr_def)

lemma enrolled_secret_used_witness:
  "\<exists>s' :: client. onEnrolled ''s3cret'' (demo_dialer\<lparr>enrollPending := True\<rparr>) = Inr s'
     \<and> map_option at_token (resolveAuthToken (w_host s')) = Some ''s3cret''"
proof -
  let ?s = "demo_dialer\<lparr>enrollPending := True\<rparr>"
  obtain s' where r: "onEnrolled ''s3cret'' ?s = Inr s'"
    using persist_secret_total [of "SetSecret ''s3cret''" "?s\<lparr>enrollPending := False\<rparr>"] by (auto simp: onEnrolled_def)
  have "w_host ?s = demo_host" by (simp add: demo_dialer_def)
  with enrolled_secret_used [OF _ _ r] r show ?thesis by (auto simp: demo_env_vars)
qed


lemma env_secret_kept_witness:
  "w_host (on_unexpected demo_env 401 (demo_dialer\<lparr>dialSource := Some AuthEnv\<rparr>)) = demo_host"
  using env_secret_kept [of "demo_dialer\<lparr>dialSource := Some AuthEnv\<rparr>" demo_env 401] by (simp add: demo_dialer_def)

lemma new_client_no_channels:
  "new_client W opts h = Inr s \<Longrightarrow> co_channels opts = [] \<Longrightarrow> co_channelsFile opts = None \<Longrightarrow> channels s = []"
  by (auto simp: new_client_def bind_result_Inr_iff file_channels_def)

lemma created_channel_survives_witness:
  "\<exists>(t :: client) ch s'. ensureChannelKeys demo_env ''room'' demo_dialer = (ch, s') \<and> jm_get (channels t) ''room'' = Some ch
     \<and> new_client demo_env (demo_copts\<lparr>co_channelsFile := Some ''/c''\<rparr>) (w_host s') = Inr t"
proof -
  let ?opts = "demo_copts\<lparr>co_channelsFile := Some ''/c''\<rparr>"
  obtain ch s' where e: "ensureChannelKeys demo_env ''room'' demo_dialer = (ch, s')" by (cases "ensureChannelKeys demo_env ''room'' demo_dialer")
  have none: "channels demo_dialer = []"
    using new_client_no_channels [OF demo_new] by (simp add: demo_dialer_def demo_copts_def)
  have "fs (w_host s') ''/h/key'' = None"
    using e none by (auto simp: ensureChannelKeys_def Let_def persist_keys_def channels_file_def take_random_def demo_dialer_def
        persistChannelKeys_def write_json_def write_file_def demo_host_def sample_host_def)
  then obtain t where t: "new_client demo_env ?opts (w_host s') = Inr t"
    by (auto simp: new_client_def loadIdentity_def stored_identity_def demo_copts_def split_beta Let_def)
  have "jm_get (channels t) ''room'' = Some ch"
    using created_channel_survives [OF e _ _ _ _ t, of "''/c''"] none by (simp add: demo_dialer_def demo_copts_def)
  with e t show ?thesis by blast
qed


end
