(* ===== verification/Numbers.thy ===== *)
theory Numbers
  imports Client_State
begin

text \<open>\<open>Number(v)\<close> of a JSON value; what is not a finite number prints as \<open>null\<close>.\<close>

definition radix_literal :: "nat \<Rightarrow> string \<Rightarrow> json" where
  "radix_literal b ds =
     (if ds \<noteq> [] \<and> list_all (\<lambda>c. case hex_val c of None \<Rightarrow> False | Some d \<Rightarrow> d < b) ds
      then JNum (int (foldl (\<lambda>n c. b * n + the (hex_val c)) 0 ds)) else JNull)"

definition decimal_literal :: "string \<Rightarrow> bool" where
  "decimal_literal u =
     (let r = dropWhile is_digit u; f = (case r of c # q \<Rightarrow> if c = CHR ''.'' then dropWhile is_digit q else r | [] \<Rightarrow> r)
      in (\<exists>c \<in> set (takeWhile (\<lambda>c. is_digit c \<or> c = CHR ''.'') u). is_digit c) \<and> exp_part f)"

definition js_space :: "char \<Rightarrow> bool" where
  "js_space c = (9 \<le> code c \<and> code c \<le> 13 \<or> code c = 32 \<or> code c = 160)"

definition js_trim :: "string \<Rightarrow> string" where
  "js_trim s = rev (dropWhile js_space (rev (dropWhile js_space s)))"

definition string_number :: "string \<Rightarrow> json" where
  "string_number s =
     (let t = js_trim s; p = map lower_char (take 2 t); neg = (take 1 t = ''-'');
          u = (if take 1 t = ''-'' \<or> take 1 t = ''+'' then drop 1 t else t)
      in if t = [] then JNum 0
         else if p = ''0x'' then radix_literal 16 (drop 2 t)
         else if p = ''0o'' then radix_literal 8 (drop 2 t)
         else if p = ''0b'' then radix_literal 2 (drop 2 t)
         else if u \<noteq> [] \<and> list_all is_digit u then JNum (if neg then - int (dec_val u) else int (dec_val u))
         else if decimal_literal u then JFrac (if neg then CHR ''-'' # u else u)
         else JNull)"

definition js_Number :: "json \<Rightarrow> json" where
  "js_Number v =
     (case v of
        JUndef \<Rightarrow> JNull
      | JNull \<Rightarrow> JNum 0
      | JBool b \<Rightarrow> JNum (if b then 1 else 0)
      | JNum i \<Rightarrow> JNum i
      | JFrac t \<Rightarrow> JFrac t
      | JStr s \<Rightarrow> string_number s
      | JArr _ \<Rightarrow> string_number (js_String v)
      | JObj _ \<Rightarrow> JNull)"

end
