(* ===== verification/Server.thy ===== *)
theory Server
  imports Client_Connection Numbers
begin

text \<open>
  \<open>adapters/mcp-bridge/src/server.ts\<close>: the MCP bridge. Its eight tools call the client; \<open>run\<close>, the gate
  around every tool body, answers with the value as JSON or with the error. The bridge is either inert
  (launched without a master secret, there is no client) or has a client. The tool server and its
  transport are third-party: a tool call arrives with arguments its input schema has accepted, and the
  answer leaves as a \<open>tool_result\<close>. \<open>new URL\<close> is the platform's.
\<close>

record tool_result =
  tr_isError :: bool
  tr_text :: string

record url_parts =
  u_origin :: string  \<comment> \<open>scheme, credentials, host and port\<close>
  u_pathname :: string
  u_rest :: string  \<comment> \<open>query and fragment\<close>

record platform =
  pf_env :: cenv
  pf_url :: "string \<Rightarrow> url_parts option"  \<comment> \<open>\<open>new URL(s)\<close>, \<open>None\<close> where it throws\<close>

datatype tool =
    DapSend string string
  | DapDm string string
  | DapInvite string string
  | DapInbox
  | DapWhois string
  | DapStatus
  | DapPeers
  | DapConnect "string option" "string option" "string option"

definition DAP_DISABLED_MSG :: string where
  "DAP_DISABLED_MSG = ''DAP_MASTER_SECRET is not set '' @ [CHR 0x1A] @ '' DAP disabled''"

definition json_result :: "json \<Rightarrow> tool_result" where
  \<comment> \<open>\<open>json(value)\<close>\<close>
  "json_result v = \<lparr>tr_isError = False, tr_text = json_text v\<rparr>"

definition failure :: "platform \<Rightarrow> exn \<Rightarrow> tool_result" where
  "failure U e = \<lparr>tr_isError = True, tr_text = exn_msg (pf_env U) e\<rparr>"

definition gate_open :: "host \<Rightarrow> bool" where
  \<comment> \<open>\<open>optStr(env.DAP_MASTER_SECRET)\<close>\<close>
  "gate_open h = (optStr (env_var h ''DAP_MASTER_SECRET'') \<noteq> None)"

section \<open>Arguments\<close>

definition schema_ok :: "tool \<Rightarrow> bool" where
  \<comment> \<open>the input schemas: every string given is at least one character long\<close>
  "schema_ok t =
     (let given = (\<lambda>x. case x of None \<Rightarrow> True | Some a \<Rightarrow> a \<noteq> [])
      in case t of
           DapSend c x \<Rightarrow> c \<noteq> [] \<and> x \<noteq> []
         | DapDm a x \<Rightarrow> a \<noteq> [] \<and> x \<noteq> []
         | DapInvite c a \<Rightarrow> c \<noteq> [] \<and> a \<noteq> []
         | DapWhois a \<Rightarrow> a \<noteq> []
         | DapConnect h n c \<Rightarrow> given h \<and> given n \<and> given c
         | _ \<Rightarrow> True)"

definition has_ws_scheme :: "string \<Rightarrow> bool" where
  \<comment> \<open>\<open>/^wss?:\/\//.test(h)\<close>\<close>
  "has_ws_scheme h = (starts_with ''ws://'' h \<or> starts_with ''wss://'' h)"

definition normalizeHost :: "platform \<Rightarrow> string \<Rightarrow> string result" where
  "normalizeHost U h =
     (case pf_url U (if has_ws_scheme h then h else ''ws://'' @ h) of
        None \<Rightarrow> Inl JsTypeError
      | Some u \<Rightarrow>
          let path = (if u_pathname u = ''/'' \<or> u_pathname u = [] then ''/ws'' else u_pathname u);
              s = u_origin u @ path @ u_rest u
          in Inr (if ends_with ''/'' s then butlast s else s))"

definition parseChannels :: "json \<Rightarrow> json list result" where
  "parseChannels spec =
     (case optStr spec of
        None \<Rightarrow> Inr []
      | Some s \<Rightarrow> bind_result (json_parse s) (\<lambda>parsed.
          case parsed of
            JArr vs \<Rightarrow> Inr vs
          | _ \<Rightarrow> Inl (JsError ''DAP_CHANNELS must be a JSON array of {name,pub,priv?}'')))"

section \<open>Results\<close>

definition created_prop :: "bool \<Rightarrow> (string \<times> json) list" where
  "created_prop b = (if b then [(''created'', JBool True)] else [])"

definition sent_json :: "send_result \<Rightarrow> json" where
  \<comment> \<open>of \<open>send\<close>, \<open>dm\<close> and \<open>invite\<close>, whose results have their properties in these orders\<close>
  "sent_json r =
     JObj ([(''ok'', JBool True), (''id'', JStr (sr_id r)), (''from'', JStr (sr_from r)), (''to'', opt_json (sr_to r)),
            (''channel'', opt_json (sr_channel r)), (''chanPubkey'', opt_json (sr_chanPubkey r))] @ created_prop (sr_created r))"

definition whois_json :: "whois_info \<Rightarrow> json" where
  "whois_json i =
     JObj [(''agentId'', JStr (p_agentId i)), (''pubkey'', JStr (p_pubkey i)), (''x25519'', JStr (p_x25519 i)),
           (''name'', p_name i), (''online'', p_online i)]"

definition agent_json :: "presence_agent \<Rightarrow> json" where
  "agent_json a =
     JObj [(''agentId'', JStr (a_agentId a)), (''name'', a_name a), (''online'', a_online a), (''lastSeen'', a_lastSeen a),
           (''self'', JBool (a_self a))]"

definition armed_json :: "armed_invite \<Rightarrow> json" where
  "armed_json a =
     JObj [(''ok'', JBool True), (''pending'', JBool True), (''name'', JStr (ai_name a)), (''channel'', JStr (ai_channel a)),
           (''connectLine'', JStr (ai_connectLine a))]"

definition error_json :: "hub_error \<Rightarrow> json" where
  "error_json e =
     JObj [(''code'', JStr (he_code e)), (''msg'', JStr (he_msg e)), (''ts'', JNum (int (he_ts e))),
           (''from'', opt_json (he_from e)), (''id'', opt_json (he_id e))]"

definition event_json :: "msg_event \<Rightarrow> json" where
  \<comment> \<open>the notice of a delivered invite is written with \<open>invite\<close> before \<open>from\<close>\<close>
  "event_json m =
     (let invite = [(''invite'', opt_json (me_invite m))];
          body = [(''from'', JStr (me_from m)), (''text'', JStr (me_text m)), (''ts'', js_Number (me_ts m))]
      in JObj ([(''dm'', JBool (me_dm m)), (''channel'', opt_json (me_channel m))]
               @ (if me_dm m then body @ invite else invite @ body)))"

definition status_props :: "status_info \<Rightarrow> (string \<times> json) list" where
  "status_props i =
     [(''connected'', JBool (si_connected i)), (''agentId'', JStr (si_agentId i)), (''name'', opt_json (si_name i)),
      (''url'', JStr (si_url i)), (''channels'', JArr (map JStr (si_channels i))), (''welcomes'', JNum (int (si_welcomes i))),
      (''hellos'', JNum (int (si_hellos i)))]"

fun value_json :: "dap_value \<Rightarrow> json" where
  "value_json (VSent r) = sent_json r"
| "value_json (VArmed a) = armed_json a"
| "value_json (VWhois i) = whois_json i"
| "value_json (VAgents as) = JObj [(''agents'', JArr (map agent_json as))]"
| "value_json _ = JUndef"

definition finish_tool :: "platform \<Rightarrow> exn + dap_value \<Rightarrow> tool_result" where
  \<comment> \<open>the rest of \<open>run\<close>, when the promise of the tool body is settled\<close>
  "finish_tool U out = (case out of Inl e \<Rightarrow> failure U e | Inr v \<Rightarrow> json_result (value_json v))"

section \<open>\<open>dap_connect\<close>\<close>

text \<open>The random secret keys of a new identity are the next two of the process.\<close>

definition connect_identity :: "platform \<Rightarrow> string option \<Rightarrow> client \<Rightarrow> (identity option \<times> client) result" where
  \<comment> \<open>\<open>name ? loadIdentity(defaultKeyPath(name)) : undefined\<close>\<close>
  "connect_identity U name s =
     (case name of
        Some (c # n) \<Rightarrow>
          let W = pf_env U
          in bind_result (defaultKeyPath (w_host s) (JStr (c # n))) (\<lambda>path.
             bind_result (loadIdentity (ce_crypto W) (ce_random W (n_random s) 32) (ce_random W (n_random s + 1) 32) path (w_host s)) (\<lambda>(i, h).
               Inr (Some i, s\<lparr>w_host := h, n_random := n_random s + 2\<rparr>)))
      | _ \<Rightarrow> Inr (None, s))"

definition connect_update :: "string option \<Rightarrow> string option \<Rightarrow> string option \<Rightarrow> config_update" where
  "connect_update url name channel =
     no_update\<lparr>up_url := url, up_name := name,
       up_channels := (case channel of Some (c # ch) \<Rightarrow> Some [c # ch] | _ \<Rightarrow> None)\<rparr>"

definition default_room :: "platform \<Rightarrow> string option \<Rightarrow> client \<Rightarrow> client" where
  \<comment> \<open>\<open>if (channel) dap.ensureChannelKeys(channel)\<close>\<close>
  "default_room U channel s =
     (case channel of Some (c # ch) \<Rightarrow> snd (ensureChannelKeys (pf_env U) (c # ch) s) | _ \<Rightarrow> s)"

definition truthy :: "string option \<Rightarrow> bool" where
  "truthy x = (case x of Some (_ # _) \<Rightarrow> True | _ \<Rightarrow> False)"

definition connect_tool :: "platform \<Rightarrow> string option \<Rightarrow> string option \<Rightarrow> string option \<Rightarrow> client \<Rightarrow> json result \<times> client" where
  "connect_tool U host name channel s =
     (if \<not> truthy host \<and> \<not> truthy name then (Inl (JsError ''host or name required''), s)
      else case (if truthy host then map_sum id Some (normalizeHost U (the host)) else Inr None) of
        Inl e \<Rightarrow> (Inl e, s)
      | Inr url \<Rightarrow>
          (case connect_identity U name s of
             Inl e \<Rightarrow> (Inl e, s)
           | Inr (keys, s1) \<Rightarrow>
               let s2 = default_room U channel s1
               in case persist_config (connect_update url name channel) s2 of
                    Inl e \<Rightarrow> (Inl e, s2)
                  | Inr s3 \<Rightarrow>
                      (case retarget (pf_env U) \<lparr>rt_url = url, rt_keys = keys, rt_name = name\<rparr> s3 of
                         (Some e, s4) \<Rightarrow> (Inl e, s4)
                       | (None, s4) \<Rightarrow> (Inr (JObj ((''ok'', JBool True) # status_props (client_status (pf_env U) s4))), s4))))"

section \<open>The tools\<close>

text \<open>What a tool body does at once: it has its outcome, or it waits for a call of the client.\<close>

datatype tool_start = Settled "json result" | Waiting

definition tool_api :: "tool \<Rightarrow> api option" where
  "tool_api t =
     (case t of
        DapSend channel msg \<Rightarrow> Some (ASend channel msg)
      | DapDm agent msg \<Rightarrow> Some (ADm agent msg)
      | DapInvite channel agent \<Rightarrow> Some (AInviteByName channel agent)
      | DapWhois agent \<Rightarrow> Some (AWhois agent)
      | DapPeers \<Rightarrow> Some APresence
      | _ \<Rightarrow> None)"

definition tool_body :: "platform \<Rightarrow> nat \<Rightarrow> tool \<Rightarrow> client \<Rightarrow> tool_start \<times> client" where
  "tool_body U n t s =
     (case t of
        DapInbox \<Rightarrow>
          let (ms, s1) = drainInbox s; (es, s2) = drainErrors s1
          in (Settled (Inr (JObj [(''count'', JNum (int (length ms))), (''messages'', JArr (map event_json ms)),
                (''errors'', JArr (map error_json es))])), s2)
      | DapStatus \<Rightarrow> (Settled (Inr (JObj (status_props (client_status (pf_env U) s)))), s)
      | DapConnect host name channel \<Rightarrow>
          let (out, s1) = connect_tool U host name channel s in (Settled out, s1)
      | _ \<Rightarrow>
          (case tool_api t of
             Some a \<Rightarrow> (Waiting, call (pf_env U) a [KTop n] s)
           | None \<Rightarrow> (Waiting, s)))"

definition settled_result :: "platform \<Rightarrow> json result \<Rightarrow> tool_result" where
  "settled_result U r = (case r of Inl e \<Rightarrow> failure U e | Inr v \<Rightarrow> json_result v)"

text \<open>
  The bridge: the client, or \<open>null\<close> with the machine it runs on; the tools called so far, in order; and
  the answers of those whose body did not wait. The answers of the others are the results of the client.
\<close>

datatype dap = Inert host | Live client

record bridge =
  br_dap :: dap
  br_tools :: "tool list"
  br_direct :: "(nat \<times> tool_result) list"

definition host_of :: "dap \<Rightarrow> host" where
  "host_of d = (case d of Inert h \<Rightarrow> h | Live s \<Rightarrow> w_host s)"

definition answer_now :: "nat \<Rightarrow> tool_result \<Rightarrow> bridge \<Rightarrow> bridge" where
  "answer_now n r b = b\<lparr>br_direct := br_direct b @ [(n, r)]\<rparr>"

definition call_tool :: "platform \<Rightarrow> tool \<Rightarrow> bridge \<Rightarrow> bridge" where
  \<comment> \<open>\<open>run\<close>: the gate, then the tool body; a \<open>null\<close> client has no methods\<close>
  "call_tool U t b =
     (let n = length (br_tools b); b1 = b\<lparr>br_tools := br_tools b @ [t]\<rparr>
      in if \<not> gate_open (host_of (br_dap b)) then answer_now n (failure U (JsError DAP_DISABLED_MSG)) b1
         else case br_dap b of
                Inert h \<Rightarrow> answer_now n (failure U JsTypeError) b1
              | Live s \<Rightarrow>
                  (case tool_body U n t s of
                     (Settled r, s1) \<Rightarrow> answer_now n (settled_result U r) (b1\<lparr>br_dap := Live s1\<rparr>)
                   | (Waiting, s1) \<Rightarrow> b1\<lparr>br_dap := Live s1\<rparr>))"

definition client_results :: "dap \<Rightarrow> (nat \<times> (exn + dap_value)) list" where
  "client_results d = (case d of Inert h \<Rightarrow> [] | Live s \<Rightarrow> results s)"

definition answers :: "platform \<Rightarrow> bridge \<Rightarrow> (nat \<times> tool_result) list" where
  "answers U b = br_direct b @ map (\<lambda>(n, out). (n, finish_tool U out)) (client_results (br_dap b))"

definition close_bridge :: "bridge \<Rightarrow> bridge" where
  \<comment> \<open>\<open>transport.onclose = () => dap?.stop()\<close>\<close>
  "close_bridge b = (case br_dap b of Inert h \<Rightarrow> b | Live s \<Rightarrow> b\<lparr>br_dap := Live (stop s)\<rparr>)"

section \<open>Launch\<close>

text \<open>
  The settings the client is made from. A hand-written config file may hold any JSON; settings that are
  not strings, and explicit channels that are not records of strings, have no \<^typ>\<open>client_opts\<close>.
\<close>

definition given_str :: "json \<Rightarrow> string option option" where
  "given_str v = (case v of JUndef \<Rightarrow> Some None | JStr s \<Rightarrow> Some (Some s) | _ \<Rightarrow> None)"

definition channel_entry :: "json \<Rightarrow> channel_key option" where
  "channel_entry v =
     (case v of
        JObj ps \<Rightarrow>
          (case (prop_of ps ''name'', prop_of ps ''pub'', given_str (prop_of ps ''priv'')) of
             (JStr n, JStr p, Some x) \<Rightarrow> Some \<lparr>ch_name = n, ch_pub = p, ch_priv = x\<rparr>
           | _ \<Rightarrow> None)
      | _ \<Rightarrow> None)"

definition bridge_opts :: "settings \<Rightarrow> json list \<Rightarrow> client_opts option" where
  "bridge_opts st chs =
     (case (st_url st, st_keyPath st, given_str (st_name st), given_str (st_channelsFile st)) of
        (JStr url, JStr key, Some name, Some chf) \<Rightarrow>
          if list_all (\<lambda>v. channel_entry v \<noteq> None) chs
          then Some \<lparr>co_url = url, co_keyPath = key, co_name = name, co_channels = map (the \<circ> channel_entry) chs,
                     co_channelsFile = chf, co_initialMs = None, co_maxMs = None, co_invites = True\<rparr>
          else None
      | _ \<Rightarrow> None)"

definition launch_client :: "platform \<Rightarrow> client_opts \<Rightarrow> host \<Rightarrow> client result" where
  \<comment> \<open>\<open>new DapClient(...)\<close>, \<open>dap?.start()\<close>\<close>
  "launch_client U opts h =
     bind_result (new_client (pf_env U) opts h) (\<lambda>s.
       case start (pf_env U) s of (Some e, s1) \<Rightarrow> Inl e | (None, s1) \<Rightarrow> Inr s1)"

definition main :: "platform \<Rightarrow> host \<Rightarrow> bridge result option" where
  \<comment> \<open>\<open>None\<close>: the settings are outside the model\<close>
  "main U h =
     (let started = (\<lambda>d. \<lparr>br_dap = d, br_tools = [], br_direct = []\<rparr>)
      in case resolveDapSettings h [] of
           Inl e \<Rightarrow> Some (Inl e)
         | Inr st \<Rightarrow>
             if \<not> gate_open h then Some (Inr (started (Inert h)))
             else case parseChannels (env_var h ''DAP_CHANNELS'') of
                    Inl e \<Rightarrow> Some (Inl e)
                  | Inr chs \<Rightarrow>
                      map_option (\<lambda>opts. map_sum id (\<lambda>s. started (Live s)) (launch_client U opts h)) (bridge_opts st chs))"

section \<open>Runs of a bridge\<close>

text \<open>
  The client of a bridge is called by its tools only; what else happens to it are the events of its
  sockets, timers and promises, and of the machine.
\<close>

fun client_event :: "label \<Rightarrow> bool" where
  "client_event (Call n a) = False"
| "client_event StartCall = False"
| "client_event StopCall = False"
| "client_event (RetargetCall r) = False"
| "client_event (AddChannel ch) = False"
| "client_event (EnsureKeys name) = False"
| "client_event DrainInbox = False"
| "client_event DrainErrors = False"
| "client_event _ = True"

inductive bridge_step :: "platform \<Rightarrow> bridge \<Rightarrow> bridge \<Rightarrow> bool" for U where
  tool: "\<not> (\<exists>s. br_dap b = Live s \<and> crashed s) \<Longrightarrow> schema_ok t \<Longrightarrow> bridge_step U b (call_tool U t b)"
| event: "br_dap b = Live s \<Longrightarrow> client_event l \<Longrightarrow> step (pf_env U) s l s' \<Longrightarrow> bridge_step U b (b\<lparr>br_dap := Live s'\<rparr>)"
| close: "\<not> (\<exists>s. br_dap b = Live s \<and> crashed s) \<Longrightarrow> bridge_step U b (close_bridge b)"

inductive bridge_run :: "platform \<Rightarrow> bridge \<Rightarrow> bridge \<Rightarrow> bool" for U where
  refl: "bridge_run U b b"
| step: "bridge_run U b c \<Longrightarrow> bridge_step U c d \<Longrightarrow> bridge_run U b d"

end
