(* ===== verification/Server_Bridge.thy ===== *)
theory Server_Bridge
  imports Server
begin

text \<open>
  What the bridge adds to its client: a run of the bridge is a run of the client it holds, each tool call
  is answered once, an inert bridge does nothing at all, and what \<open>dap_connect\<close> sets up survives a restart.
\<close>

section \<open>A tool body as a run of the client\<close>

definition calls_in :: "nat \<Rightarrow> label list \<Rightarrow> nat" where
  "calls_in n ls = length (filter (\<lambda>l. \<exists>a. l = Call n a) ls)"

lemma calls_in_simps [simp]: "calls_in n [] = 0" "calls_in n (xs @ ys) = calls_in n xs + calls_in n ys"
  by (simp_all add: calls_in_def)

lemma calls_in_Cons [simp]: "calls_in n (l # ls) = (if \<exists>a. l = Call n a then 1 else 0) + calls_in n ls"
  by (simp add: calls_in_def)

lemma calls_in_event: "client_event l \<Longrightarrow> (\<exists>a. l = Call n a) = False"
  by auto

lemma run_step: "\<not> crashed s \<Longrightarrow> enabled l s \<Longrightarrow> run W s [l] (exec W l s)"
  by (rule steps_run) simp

lemma run_Cons: "\<not> crashed s \<Longrightarrow> enabled l s \<Longrightarrow> run W (exec W l s) ls s' \<Longrightarrow> run W s (l # ls) s'"
  using run_append [OF _ run_step] by fastforce

lemma loadIdentity_fields:
  "loadIdentity C a b p h = Inr (i, h') \<Longrightarrow> env h' = env h \<and> homedir h' = homedir h \<and> hostname h' = hostname h"
  by (auto simp: loadIdentity_def bind_result_Inr_iff Let_def split: option.splits prod.splits)

lemma crashed_ensureChannelKeys [simp]: "crashed (snd (ensureChannelKeys W c s)) = crashed s"
  by (simp add: ensureChannelKeys_def persist_keys_def take_random_def Let_def split: option.splits)

lemma crashed_default_room [simp]: "crashed (default_room U c s) = crashed s"
  by (simp add: default_room_def split: option.splits list.splits)

text \<open>A part of a tool that moves the client from \<open>s\<close> to \<open>s'\<close> by its own operations, with no public call.\<close>

definition quiet :: "platform \<Rightarrow> client \<Rightarrow> client \<Rightarrow> bool" where
  "quiet U s s' = (\<exists>ls. run (pf_env U) s ls s' \<and> (\<forall>n. calls_in n ls = 0))"

lemma quiet_refl [simp, intro]: "quiet U s s"
  by (auto simp: quiet_def intro!: exI [of _ "[]"] run.refl)

lemma quiet_trans [trans]: "quiet U s t \<Longrightarrow> quiet U t u \<Longrightarrow> quiet U s u"
  unfolding quiet_def by (metis run_append calls_in_simps(2) add_0)

lemma quiet_exec: "\<not> crashed s \<Longrightarrow> enabled l s \<Longrightarrow> \<forall>n a. l \<noteq> Call n a \<Longrightarrow> quiet U s (exec (pf_env U) l s)"
  by (auto simp: quiet_def intro!: exI [of _ "[l]"] run_step)

definition outside :: "client \<Rightarrow> client \<Rightarrow> bool" where
  "outside s s' =
     (s' = s\<lparr>w_host := w_host s', n_random := n_random s'\<rparr> \<and> n_random s \<le> n_random s' \<and> env (w_host s') = env (w_host s)
      \<and> homedir (w_host s') = homedir (w_host s) \<and> hostname (w_host s') = hostname (w_host s))"

lemma quiet_outside:
  assumes "outside s s'" "\<not> crashed s"
  shows "quiet U s s' \<and> \<not> crashed s'"
proof -
  let ?l = "Outside (w_host s') (n_random s' - n_random s)"
  from assms(1) have "exec (pf_env U) ?l s = s'" by (simp add: outside_def)
  moreover from assms(1) have "enabled ?l s" by (simp add: outside_def)
  moreover have "crashed s' = crashed s"
  proof -
    from assms(1) have "s' = s\<lparr>w_host := w_host s', n_random := n_random s'\<rparr>" by (simp only: outside_def)
    then have "crashed s' = crashed (s\<lparr>w_host := w_host s', n_random := n_random s'\<rparr>)" by (rule arg_cong)
    then show ?thesis by simp
  qed
  ultimately show ?thesis using quiet_exec [of s ?l U] assms(2) by simp
qed

lemma quiet_default_room: "\<not> crashed s \<Longrightarrow> quiet U s (default_room U c s)"
  using quiet_exec [of s "EnsureKeys (the c)" U]
  by (auto simp: default_room_def split: option.splits list.splits)

lemma connect_identity_outside:
  assumes "connect_identity U name s = Inr (keys, s')"
  shows "outside s s'"
proof (cases "truthy name")
  case True
  then obtain c n where "name = Some (c # n)" by (auto simp: truthy_def split: option.splits list.splits)
  with assms show ?thesis
    by (auto simp: connect_identity_def Let_def bind_result_Inr_iff outside_def dest!: loadIdentity_fields)
next
  case False
  with assms show ?thesis
    by (auto simp: connect_identity_def truthy_def outside_def split: option.splits list.splits)
qed

lemma persist_config_outside: "persist_config u s = Inr s' \<Longrightarrow> outside s s'"
  by (auto simp: persist_config_def bind_result_Inr_iff outside_def dest: persist_fields)

lemma quiet_connect_tool:
  assumes "\<not> crashed s"
  shows "quiet U s (snd (connect_tool U host name channel s))"
proof (cases "connect_identity U name s")
  case (Inl e)
  then show ?thesis by (auto simp: connect_tool_def split: sum.splits)
next
  case (Inr r)
  then obtain keys s1 where i: "connect_identity U name s = Inr (keys, s1)" by (cases r) auto
  from quiet_outside [OF connect_identity_outside [OF this] assms] have q1: "quiet U s s1" "\<not> crashed s1" by auto
  let ?s2 = "default_room U channel s1"
  have q2: "quiet U s ?s2" "\<not> crashed ?s2" using q1 by (auto intro: quiet_trans quiet_default_room)
  have "quiet U s (snd (retarget (pf_env U) r s3))" if "persist_config u ?s2 = Inr s3" for u r s3
  proof -
    from quiet_outside [OF persist_config_outside [OF that] q2(2)] have "quiet U ?s2 s3" "\<not> crashed s3" by auto
    with quiet_exec [of s3 "RetargetCall r" U] q2(1) quiet_trans show ?thesis by (fastforce simp: of_start_def)
  qed
  then have "quiet U s s4" if "persist_config u ?s2 = Inr s3" "retarget (pf_env U) r s3 = (x, s4)" for u r s3 s4 x
    using that by (metis snd_conv)
  with q2 show ?thesis
    by (simp add: connect_tool_def i Let_def split: sum.split prod.split option.split)
qed

section \<open>A bridge run as a run of the client\<close>

lemma tool_body_waiting:
  "tool_body U n t s = (Waiting, s') \<Longrightarrow> \<exists>a. tool_api t = Some a \<and> s' = call (pf_env U) a [KTop n] s \<and> (\<forall>ms. a \<noteq> AReady ms)"
  by (cases t) (auto simp: tool_body_def tool_api_def split: prod.splits)

lemma tool_body_settled:
  assumes "tool_body U n t s = (Settled r, s')" "\<not> crashed s"
  shows "quiet U s s'"
proof (cases t)
  case DapInbox
  have "quiet U s (exec (pf_env U) DrainInbox s)" using assms(2) by (intro quiet_exec) auto
  also have "quiet U (exec (pf_env U) DrainInbox s) (exec (pf_env U) DrainErrors (exec (pf_env U) DrainInbox s))"
    using assms(2) by (intro quiet_exec) (auto simp: drainInbox_def)
  finally show ?thesis using assms(1) DapInbox by (auto simp: tool_body_def split: prod.splits)
next
  case (DapConnect h m c)
  then show ?thesis using assms quiet_connect_tool [of s U h m c] by (auto simp: tool_body_def split: prod.splits)
qed (use assms in \<open>auto simp: tool_body_def tool_api_def\<close>)

text \<open>The bookkeeping of a bridge: which tool calls are answered directly, and which went to the client.\<close>

definition direct_count :: "nat \<Rightarrow> bridge \<Rightarrow> nat" where
  "direct_count n b = count_list (map fst (br_direct b)) n"

definition refines :: "platform \<Rightarrow> client \<Rightarrow> bridge \<Rightarrow> bool" where
  "refines U s0 b =
     (\<exists>s ls. br_dap b = Live s \<and> run (pf_env U) s0 ls s
        \<and> (\<forall>n. calls_in n ls + direct_count n b = (if n < length (br_tools b) then 1 else 0)))"

lemma refinesI:
  assumes "br_dap b = Live s" "run (pf_env U) s0 ls s"
    and "\<And>n. calls_in n ls + direct_count n b = (if n < length (br_tools b) then 1 else 0)"
  shows "refines U s0 b"
  using assms unfolding refines_def by blast

lemma refinesE:
  assumes "refines U s0 b" "br_dap b = Live s"
  obtains ls where "run (pf_env U) s0 ls s"
    and "\<And>n. calls_in n ls + direct_count n b = (if n < length (br_tools b) then 1 else 0)"
  using assms by (auto simp: refines_def)

lemma refines_quiet:
  assumes "refines U s0 b" "br_dap b = Live s" "quiet U s s'"
  shows "refines U s0 (b\<lparr>br_dap := Live s'\<rparr>)"
proof -
  from assms(3) obtain ls' where ls': "run (pf_env U) s ls' s'" "\<forall>n. calls_in n ls' = 0" by (auto simp: quiet_def)
  from assms(1,2) show ?thesis
  proof (rule refinesE)
    fix ls assume r: "run (pf_env U) s0 ls s"
      and c: "\<And>n. calls_in n ls + direct_count n b = (if n < length (br_tools b) then 1 else 0)"
    show ?thesis
    proof (rule refinesI [OF _ run_append [OF ls'(1) r]])
      fix n
      show "calls_in n (ls @ ls') + direct_count n (b\<lparr>br_dap := Live s'\<rparr>)
          = (if n < length (br_tools (b\<lparr>br_dap := Live s'\<rparr>)) then 1 else 0)"
        using c [of n] ls'(2) by (simp add: direct_count_def)
    qed simp
  qed
qed

lemma refines_tool_issued:
  assumes "refines U s0 b" "br_dap b = Live s" "br_dap c = Live s'" "br_tools c = br_tools b @ [t]"
    and "run (pf_env U) s ls' s'"
    and "\<And>n. calls_in n ls' + direct_count n c = direct_count n b + (if n = length (br_tools b) then 1 else 0)"
  shows "refines U s0 c"
  using assms(1,2)
proof (rule refinesE)
  fix ls assume r: "run (pf_env U) s0 ls s"
    and d: "\<And>n. calls_in n ls + direct_count n b = (if n < length (br_tools b) then 1 else 0)"
  show ?thesis
  proof (rule refinesI [OF assms(3) run_append [OF assms(5) r]])
    fix n
    show "calls_in n (ls @ ls') + direct_count n c = (if n < length (br_tools c) then 1 else 0)"
      using d [of n] assms(6) [of n] assms(4) by (auto split: if_splits)
  qed
qed

lemma refines_answer:
  assumes "refines U s0 b" "br_dap b = Live s" "quiet U s s'"
  shows "refines U s0 (answer_now (length (br_tools b)) r (b\<lparr>br_tools := br_tools b @ [t], br_dap := Live s'\<rparr>))"
proof -
  from assms(3) obtain ls' where "run (pf_env U) s ls' s'" "\<forall>n. calls_in n ls' = 0" by (auto simp: quiet_def)
  then show ?thesis
    by (intro refines_tool_issued [OF assms(1,2), where s' = s' and ls' = ls' and t = t])
      (simp_all add: answer_now_def direct_count_def)
qed

lemma refines_tool:
  assumes "refines U s0 b" "br_dap b = Live s" "\<not> crashed s"
  shows "refines U s0 (call_tool U t b)"
proof (cases "gate_open (w_host s)")
  case False
  have "b\<lparr>br_tools := br_tools b @ [t], br_dap := Live s\<rparr> = b\<lparr>br_tools := br_tools b @ [t]\<rparr>"
    using assms(2) by (cases b) simp
  with refines_answer [OF assms(1,2) quiet_refl, of "failure U (JsError DAP_DISABLED_MSG)" t] False assms(2)
  show ?thesis by (simp add: call_tool_def host_of_def Let_def)
next
  case True
  let ?n = "length (br_tools b)"
  obtain st s' where body: "tool_body U ?n t s = (st, s')" by (cases "tool_body U ?n t s")
  show ?thesis
  proof (cases st)
    case (Settled r)
    with body assms(3) have "quiet U s s'" using tool_body_settled by blast
    from refines_answer [OF assms(1,2) this] show ?thesis
      using True body Settled assms(2) by (simp add: call_tool_def host_of_def Let_def)
  next
    case Waiting
    with body obtain a where a: "s' = call (pf_env U) a [KTop ?n] s" "\<forall>ms. a \<noteq> AReady ms"
      using tool_body_waiting by blast
    have "run (pf_env U) s [Call ?n a] s'"
      using run_step [of s "Call ?n a" "pf_env U"] a assms(3) by (auto split: api.splits)
    moreover have "call_tool U t b = b\<lparr>br_tools := br_tools b @ [t], br_dap := Live s'\<rparr>"
      using True body Waiting assms(2) by (simp add: call_tool_def host_of_def Let_def)
    ultimately show ?thesis
      by (intro refines_tool_issued [OF assms(1,2), where s' = s' and ls' = "[Call ?n a]" and t = t])
        (simp_all add: direct_count_def)
  qed
qed

lemma refines_step:
  assumes "bridge_step U b c" "refines U s0 b"
  shows "refines U s0 c"
  using assms(1)
proof cases
  case (tool t)
  from assms(2) obtain s where "br_dap b = Live s" by (auto simp: refines_def)
  with refines_tool [OF assms(2)] tool show ?thesis by blast
next
  case (event s l s')
  then have "quiet U s s'"
    by (auto simp: quiet_def calls_in_event intro!: exI [of _ "[l]"] run.snoc [OF run.refl, simplified])
  with refines_quiet [OF assms(2)] event show ?thesis by simp
next
  case close
  from assms(2) obtain s where s: "br_dap b = Live s" by (auto simp: refines_def)
  with close have "quiet U s (stop s)" using quiet_exec [of s StopCall U] by simp
  with refines_quiet [OF assms(2) s] s close show ?thesis by (simp add: close_bridge_def)
qed

lemma main_cases:
  assumes "main U h = Some (Inr b)"
  shows "\<not> gate_open h \<and> b = \<lparr>br_dap = Inert h, br_tools = [], br_direct = []\<rparr>
    \<or> gate_open h \<and> (\<exists>opts s0 s. new_client (pf_env U) opts h = Inr s0 \<and> start (pf_env U) s0 = (None, s)
        \<and> b = \<lparr>br_dap = Live s, br_tools = [], br_direct = []\<rparr>)"
  using assms
  by (auto simp: main_def launch_client_def Let_def bind_result_def map_sum_def
      split: sum.splits option.splits if_splits prod.splits)

lemma main_live:
  assumes "main U h = Some (Inr b)" "br_dap b = Live s"
  obtains opts s0 where "new_client (pf_env U) opts h = Inr s0" "refines U s0 b"
proof -
  from main_cases [OF assms(1)] assms(2) obtain opts s0 where n: "new_client (pf_env U) opts h = Inr s0"
      and st: "start (pf_env U) s0 = (None, s)" and b: "b = \<lparr>br_dap = Live s, br_tools = [], br_direct = []\<rparr>"
    by auto
  have "quiet U s0 s"
    using quiet_exec [of s0 StartCall U] new_client_fields [OF n] st by (simp add: of_start_def)
  then have "refines U s0 b" by (auto simp: b refines_def quiet_def direct_count_def)
  with n show ?thesis by (rule that)
qed

section \<open>Properties\<close>

lemma bridge_run_refines: "bridge_run U b c \<Longrightarrow> refines U s0 b \<Longrightarrow> refines U s0 c"
  by (induction rule: bridge_run.induct) (auto intro: refines_step)

text \<open>C28: the bridge refines its client: whatever tools are called and whatever happens meanwhile, the client of
  a launched bridge is in a state some run of \<open>DapClient\<close> from its constructor reaches, so that all that is
  proved of such runs holds of it; and each tool call has either reached the client, as one public call
  with the number of the tool call, or was answered directly, never both and never twice.\<close>

theorem bridge_refines_client:
  assumes "main U h = Some (Inr b0)" "br_dap b0 = Live s1" "bridge_run U b0 b"
  shows "\<exists>opts s0 s ls. new_client (pf_env U) opts h = Inr s0 \<and> br_dap b = Live s \<and> run (pf_env U) s0 ls s
    \<and> (\<forall>n. length (filter (\<lambda>l. \<exists>a. l = Call n a) ls) + count_list (map fst (br_direct b)) n
          = (if n < length (br_tools b) then 1 else 0))"
proof -
  from assms(1,2) obtain opts s0 where "new_client (pf_env U) opts h = Inr s0" "refines U s0 b0" by (rule main_live)
  with bridge_run_refines [OF assms(3)] show ?thesis
    unfolding refines_def calls_in_def direct_count_def by blast
qed

definition tool_pending :: "nat \<Rightarrow> bridge \<Rightarrow> nat" where
  "tool_pending n b = (case br_dap b of Inert h \<Rightarrow> 0 | Live s \<Rightarrow> pending_calls n s)"

definition inert_answers :: "nat \<Rightarrow> (nat \<times> tool_result) list" where
  "inert_answers k = map (\<lambda>n. (n, \<lparr>tr_isError = True, tr_text = DAP_DISABLED_MSG\<rparr>)) [0..<k]"

lemma main_inert: "main U h = Some (Inr b) \<Longrightarrow> br_dap b = Inert h' \<Longrightarrow> h' = h \<and> \<not> gate_open h"
  by (drule main_cases) auto

lemma main_fresh: "main U h = Some (Inr b) \<Longrightarrow> br_tools b = [] \<and> br_direct b = []"
  by (drule main_cases) auto

lemma inert_step:
  assumes "bridge_step U b c" "br_dap b = Inert h" "\<not> gate_open h" "br_direct b = inert_answers (length (br_tools b))"
  shows "br_dap c = Inert h \<and> br_direct c = inert_answers (length (br_tools c))"
  using assms
  by (auto elim!: bridge_step.cases simp: call_tool_def host_of_def answer_now_def close_bridge_def inert_answers_def
      failure_def exn_msg_def Let_def)

lemma inert_run:
  "bridge_run U b c \<Longrightarrow> br_dap b = Inert h \<Longrightarrow> \<not> gate_open h \<Longrightarrow> br_direct b = inert_answers (length (br_tools b)) \<Longrightarrow>
     br_dap c = Inert h \<and> br_direct c = inert_answers (length (br_tools c))"
  by (induction rule: bridge_run.induct) (auto dest: inert_step)

text \<open>C32: without a master secret the bridge does nothing: launched with \<open>DAP_MASTER_SECRET\<close> unset or empty it
  makes no client, so there is no dial and no identity file, the machine stays as it was whatever tools
  are called, and each call is answered, in order, with the one error that says so.\<close>

theorem disabled_bridge_inert:
  assumes "optStr (env_var h ''DAP_MASTER_SECRET'') = None" "main U h = Some (Inr b0)" "bridge_run U b0 b"
  shows "br_dap b = Inert h
    \<and> answers U b = map (\<lambda>n. (n, \<lparr>tr_isError = True, tr_text = DAP_DISABLED_MSG\<rparr>)) [0..<length (br_tools b)]"
proof -
  have g: "\<not> gate_open h" using assms(1) by (simp add: gate_open_def)
  with main_cases [OF assms(2)] have "br_dap b0 = Inert h" by auto
  moreover have "br_direct b0 = inert_answers (length (br_tools b0))"
    using main_fresh [OF assms(2)] by (simp add: inert_answers_def)
  ultimately show ?thesis
    using inert_run [OF assms(3) _ g] by (simp add: answers_def client_results_def inert_answers_def)
qed

lemma answers_fst: "map fst (answers U b) = map fst (br_direct b) @ map fst (client_results (br_dap b))"
  by (simp add: answers_def comp_def split_beta)

text \<open>C29: every tool call is answered once: at any moment of the life of a bridge, a tool call that was made is
  either suspended in the client or has exactly one answer, and no other call has any.\<close>

theorem tool_calls_answered:
  assumes "main U h = Some (Inr b0)" "bridge_run U b0 b"
  shows "tool_pending n b + count_list (map fst (answers U b)) n = (if n < length (br_tools b) then 1 else 0)"
proof (cases "br_dap b0")
  case (Inert h')
  with main_inert [OF assms(1)] have g: "\<not> gate_open h'" by blast
  have "br_direct b0 = inert_answers (length (br_tools b0))"
    using main_fresh [OF assms(1)] by (simp add: inert_answers_def)
  from inert_run [OF assms(2) Inert g this] have "br_dap b = Inert h'" "br_direct b = inert_answers (length (br_tools b))" by auto
  moreover have "count_list [0..<k] n = (if n < k then 1 else 0)" for k by (induction k) auto
  ultimately show ?thesis
    by (simp add: tool_pending_def answers_fst client_results_def inert_answers_def comp_def)
next
  case (Live s1)
  from assms(1) Live obtain opts s0 where n: "new_client (pf_env U) opts h = Inr s0" "refines U s0 b0" by (rule main_live)
  from bridge_run_refines [OF assms(2) n(2)] obtain s ls where r: "br_dap b = Live s" "run (pf_env U) s0 ls s"
      "calls_in n ls + direct_count n b = (if n < length (br_tools b) then 1 else 0)"
    by (auto simp: refines_def)
  have "pending_calls n s0 = 0" "returned_calls n s0 = 0"
    using new_client_fields [OF n(1)] by (simp_all add: pending_calls_def returned_calls_def)
  with run_tops [OF r(2) new_client_ok [OF n(1)], of n]
  have "pending_calls n s + returned_calls n s = calls_in n ls" by (simp add: tops_total calls_weight calls_in_def)
  with r show ?thesis
    by (simp add: tool_pending_def answers_fst client_results_def direct_count_def returned_calls_def)
qed

section \<open>A concrete bridge\<close>

definition demo_platform :: platform where
  "demo_platform = \<lparr>pf_env = demo_env, pf_url = (\<lambda>s. Some \<lparr>u_origin = s, u_pathname = ''/'', u_rest = []\<rparr>)\<rparr>"

definition status_bridge :: "bridge \<Rightarrow> bridge" where
  "status_bridge b = call_tool demo_platform DapStatus b"

lemma status_bridge_run: "\<not> (\<exists>s. br_dap b = Live s \<and> crashed s) \<Longrightarrow> bridge_run demo_platform b (status_bridge b)"
  unfolding status_bridge_def by (intro bridge_run.step [OF bridge_run.refl] bridge_step.tool) (auto simp: schema_ok_def)

lemma new_client_total:
  assumes "loadIdentity (ce_crypto W) (ce_random W 0 32) (ce_random W 1 32) (co_keyPath opts) h = Inr (i, h1)"
  obtains s where "new_client W opts h = Inr s" "ident s = i" "w_host s = h1" "o_url s = co_url opts" "o_name s = co_name opts"
    and "channels s = fold (\<lambda>ch. jm_set (ch_name ch) ch) (co_channels opts) (file_channels (co_channelsFile opts) h1)"
proof -
  obtain vs where "prop_of (readDapConfig h1 (defaultConfigFile h1)) ''invites'' = JArr vs"
    using readDapConfig_invites [of h1 "defaultConfigFile h1"] by (auto simp: is_array_def split: json.splits)
  then have "\<exists>s. new_client W opts h = Inr s \<and> ident s = i \<and> w_host s = h1 \<and> o_url s = co_url opts \<and> o_name s = co_name opts
      \<and> channels s = fold (\<lambda>ch. jm_set (ch_name ch) ch) (co_channels opts) (file_channels (co_channelsFile opts) h1)"
    using assms by (simp add: new_client_def iterate_def)
  then show ?thesis using that by blast
qed

lemma demo_config: "readDapConfig sample_host f = [(''invites'', JArr [])]" "readDapConfig demo_host f = [(''invites'', JArr [])]"
  by (simp_all add: readDapConfig_def read_json_def read_file_def sample_host_def demo_host_def)

lemma demo_env_var: "env_var sample_host k = JUndef" "k \<noteq> ''DAP_MASTER_SECRET'' \<Longrightarrow> env_var demo_host k = JUndef"
  by (simp_all add: env_var_def sample_host_def demo_host_def)

lemma demo_key_path: "defaultKeyPath sample_host JUndef = Inr ''/h/.dap/keys/mcp/box.key''"
    "defaultKeyPath demo_host JUndef = Inr ''/h/.dap/keys/mcp/box.key''"
  by (simp_all add: defaultKeyPath_def coalesce_def nullish_def path_join_def sample_host_def demo_host_def sanitize_def
      safe_char_def is_digit_def code_def)

definition demo_launch_settings :: settings where
  "demo_launch_settings = \<lparr>st_url = JStr DEFAULT_URL, st_keyPath = JStr ''/h/.dap/keys/mcp/box.key'', st_name = JUndef,
     st_channelsFile = JStr ''/h/.dap/channels.json''\<rparr>"

lemma demo_settings: "resolveDapSettings sample_host [] = Inr demo_launch_settings"
    "resolveDapSettings demo_host [] = Inr demo_launch_settings"
  by (simp_all add: resolveDapSettings_def setting_def demo_config demo_env_var demo_key_path opt_json_def optStr_def
      coalesce_def nullish_def prop_of_def path_join_def Let_def demo_launch_settings_def)
    (simp_all add: sample_host_def demo_host_def)

lemma demo_gate: "\<not> gate_open sample_host" "gate_open demo_host"
  by (simp_all add: gate_open_def demo_env_var demo_env_vars) (simp add: optStr_def)

lemma demo_main_inert: "\<exists>b. main demo_platform sample_host = Some (Inr b) \<and> br_dap b = Inert sample_host"
  by (simp add: main_def demo_settings demo_gate)

lemma demo_main_live: "\<exists>b s. main demo_platform demo_host = Some (Inr b) \<and> br_dap b = Live s \<and> \<not> crashed s"
proof -
  let ?o = "\<lparr>co_url = DEFAULT_URL, co_keyPath = ''/h/.dap/keys/mcp/box.key'', co_name = None, co_channels = [],
     co_channelsFile = Some ''/h/.dap/channels.json'', co_initialMs = None, co_maxMs = None, co_invites = True\<rparr>"
  have o: "bridge_opts demo_launch_settings [] = Some ?o"
    by (simp add: bridge_opts_def given_str_def demo_launch_settings_def)
  have "fs demo_host ''/h/.dap/keys/mcp/box.key'' = None" by (simp add: demo_host_def sample_host_def)
  then obtain i h1 where "loadIdentity (ce_crypto demo_env) (ce_random demo_env 0 32) (ce_random demo_env 1 32) (co_keyPath ?o) demo_host
      = Inr (i, h1)"
    by (simp add: loadIdentity_def stored_identity_def split_beta Let_def)
  then obtain s0 where s0: "new_client demo_env ?o demo_host = Inr s0" by (rule new_client_total)
  have "ce_url_ok demo_env (o_url (s0\<lparr>stopped := False\<rparr>))" by (simp add: demo_env_def)
  with connect_eq [of "s0\<lparr>stopped := False\<rparr>" demo_env]
  obtain s where s: "start demo_env s0 = (None, s)" "crashed s = crashed s0" by (simp add: start_def)
  have "parseChannels (env_var demo_host ''DAP_CHANNELS'') = Inr []" by (simp add: parseChannels_def demo_env_var optStr_def)
  then show ?thesis
    using new_client_fields [OF s0] s0 o s
    by (simp add: main_def demo_settings demo_gate launch_client_def demo_platform_def Let_def)
qed

lemma bridge_refines_client_witness:
  "\<exists>b s opts s0 ls. main demo_platform demo_host = Some (Inr b) \<and> br_dap (status_bridge b) = Live s
     \<and> new_client demo_env opts demo_host = Inr s0 \<and> run demo_env s0 ls s"
proof -
  obtain b s where b: "main demo_platform demo_host = Some (Inr b)" "br_dap b = Live s" "\<not> crashed s" using demo_main_live by blast
  have "bridge_run demo_platform b (status_bridge b)" using b by (intro status_bridge_run) simp
  from bridge_refines_client [OF b(1,2) this] b(1) show ?thesis by (auto simp: demo_platform_def)
qed

lemma disabled_bridge_inert_witness:
  "\<exists>b. main demo_platform sample_host = Some (Inr b)
     \<and> answers demo_platform (status_bridge b) = [(0, \<lparr>tr_isError = True, tr_text = DAP_DISABLED_MSG\<rparr>)]"
proof -
  obtain b where b: "main demo_platform sample_host = Some (Inr b)" "br_dap b = Inert sample_host" using demo_main_inert by blast
  have r: "bridge_run demo_platform b (status_bridge b)" using b by (intro status_bridge_run) simp
  have "length (br_tools (status_bridge b)) = 1"
    using main_fresh [OF b(1)] b(2)
    by (simp add: status_bridge_def call_tool_def answer_now_def host_of_def demo_gate Let_def)
  with disabled_bridge_inert [OF _ b(1) r] b show ?thesis by (simp add: demo_env_var optStr_def)
qed

lemma tool_calls_answered_witness:
  "\<exists>b. main demo_platform sample_host = Some (Inr b) \<and> count_list (map fst (answers demo_platform (status_bridge b))) 7 = 0"
proof -
  obtain b where b: "main demo_platform sample_host = Some (Inr b)" "br_dap b = Inert sample_host" using demo_main_inert by blast
  have r: "bridge_run demo_platform b (status_bridge b)" using b by (intro status_bridge_run) simp
  have "br_tools (status_bridge b) = [DapStatus]"
    using main_fresh [OF b(1)] b(2)
    by (simp add: status_bridge_def call_tool_def answer_now_def host_of_def demo_gate Let_def)
  with tool_calls_answered [OF b(1) r, of 7] b(1) show ?thesis by simp
qed

end
