(* ===== verification/Server_Launch.thy ===== *)
theory Server_Launch
  imports Server_Bridge
begin

text \<open>
  What \<open>dap_connect\<close> sets up and the next launch of the bridge finds: the same hub, name, identity and room.
\<close>

section \<open>The pieces\<close>

lemma retarget_ok:
  assumes "retarget W r s = (None, t)"
  shows "w_host t = w_host s" "channels t = channels s" "ident t = (case rt_keys r of Some k \<Rightarrow> k | None \<Rightarrow> ident s)"
    and "o_name t = (case rt_name r of Some n \<Rightarrow> Some n | None \<Rightarrow> o_name s)"
    and "o_url t = (case rt_url r of Some (c # u) \<Rightarrow> c # u | _ \<Rightarrow> o_url s)" "ce_url_ok W (o_url t)" "welcomed t = False"
proof -
  let ?s1 = "detach_ws ((clear_retry s)\<lparr>watching := None\<rparr>)"
  let ?s2 = "failWaiters W RETARGETED ?s1"
  have s2: "w_host ?s2 = w_host s" "channels ?s2 = channels s" "ident ?s2 = ident s" "o_name ?s2 = o_name s" "o_url ?s2 = o_url s"
    using failWaiters_settles(2) [of W RETARGETED ?s1]
    by (simp_all add: conn_def detach_ws_def clear_retry_def close_sock_def split: option.splits)
  have "connect W (swap_target r ?s2) = (None, t)" using assms by (simp add: retarget_def)
  then show "w_host t = w_host s" "channels t = channels s" "ident t = (case rt_keys r of Some k \<Rightarrow> k | None \<Rightarrow> ident s)"
    "o_name t = (case rt_name r of Some n \<Rightarrow> Some n | None \<Rightarrow> o_name s)"
    "o_url t = (case rt_url r of Some (c # u) \<Rightarrow> c # u | _ \<Rightarrow> o_url s)" "ce_url_ok W (o_url t)" "welcomed t = False"
    using s2 by (auto simp: connect_def swap_target_def dial_def Let_def split: if_splits option.splits list.splits)
qed

lemma loadIdentity_stored:
  assumes "loadIdentity C rnd1 rnd2 p h = Inr (i, h')"
    and "length rnd1 = 32" "length rnd2 = 32" "length (ed_public C rnd1) = 32" "length (x_public C rnd2) = 32"
  shows "stored_identity h' p = Inr (Some i)"
proof (cases "stored_identity h p = Inr (Some i) \<and> h' = h")
  case False
  with assms(1) have i: "i = \<lparr>id_priv = rnd1, id_pub = ed_public C rnd1, id_xpriv = rnd2, id_xpub = x_public C rnd2\<rparr>"
    and h': "h' = chmod_file p private_mode (write_file p (identity_text i) private_mode h)"
    by (auto simp: loadIdentity_def bind_result_Inr_iff newEdKeypair_def newX25519Keypair_def Let_def split: option.splits)
  show ?thesis
    using stored_identity_text [of h' p i] assms(2-5) by (simp add: h' key_sizes_def i)
qed simp

lemma read_file_None: "(fs h p = None) = (read_file h p = Inl LibError)"
  by (simp add: read_file_def split: option.splits)

lemma stored_identity_read: "read_file h' p = read_file h p \<Longrightarrow> stored_identity h' p = stored_identity h p"
  by (simp add: stored_identity_def read_json_def read_file_None)

lemma loadIdentity_found: "stored_identity h p = Inr (Some i) \<Longrightarrow> loadIdentity C a b p h = Inr (i, h)"
  by (simp add: loadIdentity_def)

text \<open>The files of one machine are three.\<close>

definition config_path :: "host \<Rightarrow> string" where
  "config_path h = homedir h @ ''/.dap/config.json''"

definition channels_path :: "host \<Rightarrow> string" where
  "channels_path h = homedir h @ ''/.dap/channels.json''"

definition key_path :: "host \<Rightarrow> string \<Rightarrow> string" where
  "key_path h name = homedir h @ ''/.dap/keys/mcp/'' @ sanitize name @ ''.key''"

lemma paths_distinct [simp]:
  "key_path h n \<noteq> config_path h" "key_path h n \<noteq> channels_path h" "config_path h \<noteq> channels_path h"
  "config_path h \<noteq> key_path h n" "channels_path h \<noteq> key_path h n" "channels_path h \<noteq> config_path h"
  by (simp_all add: config_path_def channels_path_def key_path_def)

lemma defaultKeyPath_name: "defaultKeyPath h (JStr n) = Inr (key_path h n)"
  by (simp add: defaultKeyPath_def coalesce_def nullish_def path_join_def key_path_def)

text \<open>A machine whose settings are the defaults: no variable overrides them, nor the config file.\<close>

definition default_machine :: "host \<Rightarrow> bool" where
  "default_machine h =
     (list_all (\<lambda>k. optStr (env_var h k) = None)
        [''DAP_CONFIG_FILE'', ''DAP_HUB_URL'', ''DAP_KEY_PATH'', ''DAP_AGENT_NAME'', ''DAP_CHANNELS_FILE'', ''DAP_CHANNELS'']
      \<and> nullish (prop_of (readDapConfig h (config_path h)) ''keyPath'')
      \<and> nullish (prop_of (readDapConfig h (config_path h)) ''channelsFile''))"

lemma default_config_file: "default_machine h \<Longrightarrow> defaultConfigFile h = config_path h"
  by (simp add: default_machine_def defaultConfigFile_def config_path_def path_join_def)

lemma readDapConfig_read: "read_file h' f = read_file h f \<Longrightarrow> readDapConfig h' f = readDapConfig h f"
  by (simp add: readDapConfig_def read_json_def)

lemma launch_settings:
  assumes "default_machine h" "prop_of (readDapConfig h (config_path h)) ''url'' = JStr url"
    and "prop_of (readDapConfig h (config_path h)) ''name'' = JStr name"
  shows "resolveDapSettings h [] = Inr \<lparr>st_url = JStr url, st_keyPath = JStr (key_path h name), st_name = JStr name,
      st_channelsFile = JStr (channels_path h)\<rparr>"
  using assms(2,3) assms(1)
  by (simp add: resolveDapSettings_def setting_def default_config_file [OF assms(1)] opt_json_def coalesce_def nullish_def
      defaultKeyPath_name Let_def prop_of_def [of "[]"])
    (auto simp: default_machine_def nullish_def channels_path_def path_join_def coalesce_def)

lemma connect_tool_ok:
  assumes "connect_tool U (Some host) (Some name) (Some room) s = (Inr reply, t)" "host \<noteq> []" "name \<noteq> []" "room \<noteq> []"
    and "normalizeHost U host = Inr url"
  obtains i h1 s2 s3 where "loadIdentity (ce_crypto (pf_env U)) (ce_random (pf_env U) (n_random s) 32) (ce_random (pf_env U) (n_random s + 1) 32)
      (key_path (w_host s) name) (w_host s) = Inr (i, h1)"
    and "s2 = snd (ensureChannelKeys (pf_env U) room (s\<lparr>w_host := h1, n_random := n_random s + 2\<rparr>))"
    and "persist_config (no_update\<lparr>up_url := Some url, up_name := Some name, up_channels := Some [room]\<rparr>) s2 = Inr s3"
    and "retarget (pf_env U) \<lparr>rt_url = Some url, rt_keys = Some i, rt_name = Some name\<rparr> s3 = (None, t)"
    and "reply = JObj ((''ok'', JBool True) # status_props (client_status (pf_env U) t))"
proof -
  from assms(2-4) obtain a as b bs c cs where "host = a # as" "name = b # bs" "room = c # cs"
    by (auto simp: neq_Nil_conv)
  with assms(1,5) show ?thesis
    by (auto simp: connect_tool_def truthy_def connect_identity_def default_room_def connect_update_def defaultKeyPath_name
        Let_def bind_result_def map_sum_def intro!: that split: sum.splits prod.splits option.splits)
qed

lemma ensure_new_channel:
  assumes "jm_get (channels s) name = None" "o_channelsFile s = Some f" "f \<noteq> []" "name \<noteq> ''__proto__''"
  shows "\<exists>k. w_host (snd (ensureChannelKeys W name s)) = persistChannelKeys f name k (w_host s)
    \<and> jm_get (channels (snd (ensureChannelKeys W name s))) name = Some \<lparr>ch_name = name, ch_pub = ck_pub k, ch_priv = Some (ck_priv k)\<rparr>
    \<and> stored_keys (w_host (snd (ensureChannelKeys W name s))) f name = Some k"
proof -
  from assms(3) obtain c q where "f = c # q" by (cases f) auto
  with assms show ?thesis
    by (auto simp: ensureChannelKeys_def persist_keys_def channels_file_def take_random_def stored_keys_persist Let_def)
qed

lemma env_var_eq: "env h' = env h \<Longrightarrow> env_var h' = env_var h"
  by (simp add: env_var_def fun_eq_iff)

lemma defaultConfigFile_eq: "env h' = env h \<Longrightarrow> homedir h' = homedir h \<Longrightarrow> defaultConfigFile h' = defaultConfigFile h"
  by (simp add: defaultConfigFile_def env_var_eq [of h' h] split: option.split)

lemma persist_other: "persistDapConfig u cf h = Inr h' \<Longrightarrow> q \<noteq> cf \<Longrightarrow> read_file h' q = read_file h q"
  by (auto simp: persistDapConfig_def bind_result_Inr_iff write_json_def)

text \<open>C30: what \<open>dap_connect\<close> sets up survives a restart: after it was answered with success for a host, a name and
  a new room, the next launch on the machine, with settings that are otherwise the defaults, succeeds and
  dials the same hub as the same agent, by id and by name, and knows the room with the same keys.\<close>

theorem connect_survives_restart:
  assumes "connect_tool U (Some host) (Some name) (Some room) s = (Inr reply, t)" "host \<noteq> []" "name \<noteq> []" "room \<noteq> []"
    and "normalizeHost U host = Inr url" "url \<noteq> []"
    and "default_machine (w_host s)" "gate_open (w_host s)" "o_channelsFile s = Some (channels_path (w_host s))"
    and "jm_get (channels s) room = None" "room \<noteq> ''__proto__''"
    and "\<And>n. length (ce_random (pf_env U) n 32) = 32" "\<And>sk. length sk = 32 \<Longrightarrow> length (ed_public (ce_crypto (pf_env U)) sk) = 32"
    and "\<And>sk. length sk = 32 \<Longrightarrow> length (x_public (ce_crypto (pf_env U)) sk) = 32"
  shows "\<exists>b u. main U (w_host t) = Some (Inr b) \<and> br_dap b = Live u
    \<and> o_url u = url \<and> o_url t = url \<and> o_name u = Some name \<and> o_name t = Some name
    \<and> ident u = ident t \<and> new_agent_id (pf_env U) u = new_agent_id (pf_env U) t \<and> map fst (dialed u) = [url]
    \<and> jm_get (channels u) room = jm_get (channels t) room \<and> jm_get (channels t) room \<noteq> None"
proof -
  let ?h = "w_host s" and ?W = "pf_env U"
  let ?p = "key_path ?h name" and ?f = "channels_path ?h" and ?cf = "config_path ?h"
  let ?u = "no_update\<lparr>up_url := Some url, up_name := Some name, up_channels := Some [room]\<rparr>"
  obtain i h1 s2 s3 where
    id: "loadIdentity (ce_crypto ?W) (ce_random ?W (n_random s) 32) (ce_random ?W (n_random s + 1) 32) ?p ?h = Inr (i, h1)"
    and s2: "s2 = snd (ensureChannelKeys ?W room (s\<lparr>w_host := h1, n_random := n_random s + 2\<rparr>))"
    and s3: "persist_config ?u s2 = Inr s3"
    and t: "retarget ?W \<lparr>rt_url = Some url, rt_keys = Some i, rt_name = Some name\<rparr> s3 = (None, t)"
    by (rule connect_tool_ok [OF assms(1-5)])
  have e1: "env h1 = env ?h" "homedir h1 = homedir ?h" "hostname h1 = hostname ?h" using loadIdentity_fields [OF id] by auto
  have fne: "?f \<noteq> []" by (simp add: channels_path_def)
  have h1: "w_host (s\<lparr>w_host := h1, n_random := n_random s + 2\<rparr>) = h1" by simp
  have "\<exists>k. w_host s2 = persistChannelKeys ?f room k (w_host (s\<lparr>w_host := h1, n_random := n_random s + 2\<rparr>))
      \<and> jm_get (channels s2) room = Some \<lparr>ch_name = room, ch_pub = ck_pub k, ch_priv = Some (ck_priv k)\<rparr>
      \<and> stored_keys (w_host s2) ?f room = Some k"
    unfolding s2 by (rule ensure_new_channel) (simp_all add: assms(9-11) fne)
  then obtain k where k: "w_host s2 = persistChannelKeys ?f room k (w_host (s\<lparr>w_host := h1, n_random := n_random s + 2\<rparr>))"
    and ch2: "jm_get (channels s2) room = Some \<lparr>ch_name = room, ch_pub = ck_pub k, ch_priv = Some (ck_priv k)\<rparr>"
    and k2: "stored_keys (w_host s2) ?f room = Some k"
    by (elim exE conjE) (rule that)
  note h2 = k [unfolded h1]
  have cfg2: "defaultConfigFile (w_host s2) = ?cf"
    using defaultConfigFile_eq [of "w_host s2" ?h] default_config_file [OF assms(7)] e1 by (simp add: h2)
  from s3 have p3: "persistDapConfig ?u ?cf (w_host s2) = Inr (w_host s3)" and ch3: "channels s3 = channels s2"
    by (auto simp: persist_config_def bind_result_Inr_iff cfg2)
  note t' = retarget_ok [OF t]
  let ?t = "w_host t"
  have tr: "?t = w_host s3" by (rule t'(1))
  have e: "env ?t = env ?h" "homedir ?t = homedir ?h" "hostname ?t = hostname ?h"
    using persist_fields [OF p3] e1 by (simp_all add: tr h2)
  then have paths: "config_path ?t = ?cf" "channels_path ?t = ?f" "key_path ?t name = ?p"
    by (simp_all add: config_path_def channels_path_def key_path_def)
  have other: "read_file ?t q = read_file (w_host s2) q" if "q \<noteq> ?cf" for q
    using persist_other [OF p3 that] by (simp add: tr)
  have cfg1: "readDapConfig (w_host s2) ?cf = readDapConfig ?h ?cf"
    by (rule readDapConfig_read) (simp add: h2 persist_keys_other loadIdentity_other [OF id])
  have "update_jok ?u" by (simp add: update_jok_def no_update_def)
  note np = next_config_prop [OF persist_read [OF p3 this], unfolded cfg1, folded tr]
  have dm: "default_machine ?t"
    using assms(7) np(1) [of "''keyPath''"] np(1) [of "''channelsFile''"]
    by (simp add: default_machine_def paths env_var_eq [OF e(1)])
  have "prop_of (readDapConfig ?t ?cf) ''url'' = JStr url" "prop_of (readDapConfig ?t ?cf) ''name'' = JStr name"
    using np(2,3) assms(3,6) by simp_all
  with launch_settings [OF dm] have st: "resolveDapSettings ?t [] = Inr \<lparr>st_url = JStr url, st_keyPath = JStr ?p,
      st_name = JStr name, st_channelsFile = JStr ?f\<rparr>" by (simp add: paths)
  let ?o = "\<lparr>co_url = url, co_keyPath = ?p, co_name = Some name, co_channels = [], co_channelsFile = Some ?f,
      co_initialMs = None, co_maxMs = None, co_invites = True\<rparr>"
  have "stored_identity h1 ?p = Inr (Some i)" by (rule loadIdentity_stored [OF id]) (simp_all add: assms(12-14))
  moreover have "read_file ?t ?p = read_file h1 ?p" by (simp add: other h2 persist_keys_other)
  ultimately have "stored_identity ?t ?p = Inr (Some i)" using stored_identity_read by metis
  then have "loadIdentity (ce_crypto ?W) (ce_random ?W 0 32) (ce_random ?W 1 32) (co_keyPath ?o) ?t = Inr (i, ?t)"
    by (simp add: loadIdentity_found)
  then obtain u0 where u0: "new_client ?W ?o ?t = Inr u0" "ident u0 = i" "w_host u0 = ?t" "o_url u0 = url" "o_name u0 = Some name"
      "channels u0 = file_channels (Some ?f) ?t"
    by (rule new_client_total) simp
  from connect_eq [of "u0\<lparr>stopped := False\<rparr>" ?W] t'(5,6) u0(4) assms(6)
  obtain u where u: "start ?W u0 = (None, u)" "ident u = i" "o_url u = url" "o_name u = Some name"
      "channels u = channels u0" "map fst (dialed u) = [url]"
    using u0 new_client_fields(23) [OF u0(1)] by (auto simp: start_def split: list.splits)
  have "gate_open ?t" "parseChannels (env_var ?t ''DAP_CHANNELS'') = Inr []"
    using assms(8) dm by (simp_all add: gate_open_def env_var_eq [OF e(1)] parseChannels_def default_machine_def)
  then have "main U ?t = Some (Inr \<lparr>br_dap = Live u, br_tools = [], br_direct = []\<rparr>)"
    by (simp add: main_def st bridge_opts_def given_str_def launch_client_def u0(1) u(1))
  moreover have "stored_keys ?t ?f room = Some k"
    using stored_keys_read [OF other [of ?f]] k2 by simp
  then have "jm_get (channels u) room = jm_get (channels t) room"
    using fne by (cases ?f) (simp_all add: u(5) u0(6) file_channels_get t'(2) ch3 ch2)
  moreover have "ident t = i" "o_name t = Some name" "o_url t = url" using t'(3-5) assms(6) by (auto split: list.splits)
  ultimately show ?thesis
    using u ch2 by (simp add: new_agent_id_def t'(2) ch3)
qed

section \<open>An url that parses and cannot be dialed\<close>

text \<open>
  \<open>dap_connect\<close> persists before it dials. An url \<open>new URL\<close> accepts and \<open>new WebSocket\<close> does not (one with a
  fragment) is answered with an error, stays in the config file, and the next launch fails on it.
\<close>

lemma start_unusable: "\<not> ce_url_ok W (o_url s) \<Longrightarrow> fst (start W s) = Some JsSyntaxError"
  by (simp add: start_def connect_def dial_def Let_def)

lemma unusable_url_persisted:
  assumes "new_client (pf_env U) opts h = Inr s" "\<not> ce_url_ok (pf_env U) (co_url opts)"
  shows "launch_client U opts h = Inl JsSyntaxError"
proof -
  have "o_url s = co_url opts" using assms(1) by (auto simp: new_client_def bind_result_Inr_iff split: prod.splits)
  with start_unusable [of "pf_env U" s] assms show ?thesis
    by (cases "start (pf_env U) s") (simp add: launch_client_def)
qed

lemma unusable_url_reported:
  assumes "normalizeHost U (c # h) = Inr (d # url)" "\<not> ce_url_ok (pf_env U) (d # url)"
  shows "fst (connect_tool U (Some (c # h)) None None s) = Inl JsSyntaxError
    \<and> (\<exists>s3. persist_config (connect_update (Some (d # url)) None None) s = Inr s3
        \<and> prop_of (readDapConfig (w_host s3) (defaultConfigFile (w_host s3))) ''url'' = JStr (d # url)
        \<and> w_host (snd (connect_tool U (Some (c # h)) None None s)) = w_host s3)"
proof -
  let ?u = "connect_update (Some (d # url)) None None"
  have "\<exists>ps. next_config ?u (readDapConfig (w_host s) (defaultConfigFile (w_host s))) = Inr ps"
    by (rule next_config_total) (simp add: connect_update_def no_update_def)
  then obtain s3 where s3: "persist_config ?u s = Inr s3"
    by (auto simp: persist_config_def persistDapConfig_def)
  then have p: "persistDapConfig ?u (defaultConfigFile (w_host s)) (w_host s) = Inr (w_host s3)"
    by (auto simp: persist_config_def bind_result_Inr_iff)
  have "update_jok ?u" by (simp add: update_jok_def connect_update_def no_update_def)
  from next_config_prop(2) [OF persist_read [OF p this]]
  have url: "prop_of (readDapConfig (w_host s3) (defaultConfigFile (w_host s3))) ''url'' = JStr (d # url)"
    by (simp add: connect_update_def persist_config_path [OF p])
  let ?r = "\<lparr>rt_url = Some (d # url), rt_keys = None, rt_name = None\<rparr>"
  let ?s1 = "detach_ws ((clear_retry s3)\<lparr>watching := None\<rparr>)"
  let ?s2 = "failWaiters (pf_env U) RETARGETED ?s1"
  have "w_host ?s2 = w_host s3"
    using failWaiters_settles(2) [of "pf_env U" RETARGETED ?s1]
    by (simp add: conn_def detach_ws_def clear_retry_def close_sock_def split: option.splits)
  then have "fst (retarget (pf_env U) ?r s3) = Some JsSyntaxError \<and> w_host (snd (retarget (pf_env U) ?r s3)) = w_host s3"
    using assms(2) by (simp add: retarget_def swap_target_def connect_def dial_def Let_def)
  with s3 url assms(1,2) show ?thesis
    by (cases "retarget (pf_env U) ?r s3") (auto simp: connect_tool_def truthy_def default_room_def connect_identity_def Let_def)
qed

section \<open>A concrete launch\<close>

lemma retarget_succeeds:
  assumes "ce_url_ok W (c # url)"
  shows "\<exists>t. retarget W \<lparr>rt_url = Some (c # url), rt_keys = k, rt_name = n\<rparr> s = (None, t)"
  using assms by (simp add: retarget_def swap_target_def connect_def dial_def Let_def)

lemma connect_survives_restart_witness:
  "\<exists>reply t b u. connect_tool demo_platform (Some ''hub'') (Some ''ada'') (Some ''lab'')
      (demo_client\<lparr>w_host := demo_host, o_channelsFile := Some (channels_path demo_host), channels := []\<rparr>) = (Inr reply, t)
     \<and> main demo_platform (w_host t) = Some (Inr b) \<and> br_dap b = Live u \<and> o_url u = ''ws://hub/ws'' \<and> ident u = ident t"
proof -
  let ?s = "demo_client\<lparr>w_host := demo_host, o_channelsFile := Some (channels_path demo_host), channels := []\<rparr>"
  let ?U = demo_platform and ?W = demo_env
  have W: "pf_env demo_platform = demo_env" by (simp add: demo_platform_def)
  have n: "normalizeHost ?U ''hub'' = Inr ''ws://hub/ws''"
    by (simp add: normalizeHost_def demo_platform_def has_ws_scheme_def starts_with_def ends_with_def)
  have none: "fs demo_host p = None" for p by (simp add: demo_host_def sample_host_def)
  let ?key = "key_path demo_host ''ada''"
  obtain i h1 where id: "loadIdentity (ce_crypto ?W) (ce_random ?W (n_random ?s) 32) (ce_random ?W (n_random ?s + 1) 32) ?key demo_host
      = Inr (i, h1)"
    by (simp add: loadIdentity_def stored_identity_def none Let_def split_beta)
  let ?s1 = "?s\<lparr>w_host := h1, n_random := n_random ?s + 2\<rparr>"
  have ci: "connect_identity ?U (Some ''ada'') ?s = Inr (Some i, ?s1)"
    using id by (simp add: connect_identity_def W defaultKeyPath_name Let_def)
  define s2 where "s2 = default_room ?U (Some ''lab'') ?s1"
  let ?cf = "config_path demo_host"
  have dm: "default_machine demo_host"
    by (simp add: default_machine_def demo_env_var demo_config optStr_def nullish_def prop_of_def)
  obtain k where h2: "w_host s2 = persistChannelKeys (channels_path demo_host) ''lab'' k h1"
    using ensure_new_channel [of ?s1 "''lab''" "channels_path demo_host" ?W]
    by (auto simp: s2_def default_room_def W channels_path_def)
  have "defaultConfigFile (w_host s2) = ?cf"
    using defaultConfigFile_eq [of "w_host s2" demo_host] default_config_file [OF dm] loadIdentity_fields [OF id] by (simp add: h2)
  moreover have "readDapConfig (w_host s2) ?cf = [(''invites'', JArr [])]"
    using readDapConfig_read [of "w_host s2" ?cf demo_host] loadIdentity_other [OF id, of ?cf]
    by (simp add: h2 persist_keys_other demo_config)
  ultimately obtain s3 where s3: "persist_config (connect_update (Some ''ws://hub/ws'') (Some ''ada'') (Some ''lab'')) s2 = Inr s3"
    by (simp add: persist_config_def persistDapConfig_def next_config_def merge_channels_def connect_update_def no_update_def
        coalesce_def nullish_def iterate_def prop_of_def)
  obtain t where "retarget ?W \<lparr>rt_url = Some ''ws://hub/ws'', rt_keys = Some i, rt_name = Some ''ada''\<rparr> s3 = (None, t)"
    using retarget_succeeds [of ?W _ _ "Some i" "Some ''ada''" s3] by (metis cenv.select_convs(6) demo_env_def)
  then obtain reply where c: "connect_tool ?U (Some ''hub'') (Some ''ada'') (Some ''lab'') ?s = (Inr reply, t)"
    using n ci s3 by (simp add: connect_tool_def truthy_def s2_def W)
  from connect_survives_restart [OF c _ _ _ n _ _ _ _ _] dm demo_gate c show ?thesis
    by (fastforce simp: W demo_env_def demo_crypto_def)
qed

end
