(* ===== verification/Dsh_State.thy ===== *)
theory Dsh_State
  imports Client_Ops
begin

text \<open>
  The state of the second client, \<open>DapClient\<close> of \<open>adapters/dsh-plugin/src/client.ts\<close>. It lives in the same
  \<open>world\<close> of promises, timers and sockets as the first, with continuations and values of its own. Its
  listeners stay on a retired socket and check \<open>this.ws\<close>, so an event names its socket. The options that
  are callbacks are \<open>hooks\<close> over the whole state, which a host may extend.
\<close>

record agent_info =
  in_edPub :: bytes
  in_xPub :: bytes
  in_name :: json
  in_online :: json

text \<open>What the promises of the client and of the plugin are fulfilled with.\<close>

datatype dvalue =
    DUnit
  | DInfo "agent_info option"
  | DFrame frame
  | DWhois json
  | DAgents "presence_agent list"
  | DJson json

text \<open>
  The points at which the methods of the client wait, then those of the plugin (\<open>index.ts\<close>). \<open>DkTop n\<close> is
  the caller of the \<open>n\<close>-th tool, \<open>DkNobody\<close> a promise whose rejection nobody handles.
\<close>

datatype dkont =
    DkTop nat
  | DkNobody
  | DkInfo string
  | DkWhois string
  | DkPresence
  | DkWarm nat
  | DkSend string string channel_key
  | DkDmInfo string string
  | DkDmReady string string agent_info
  | DkMsg frame
  | DkPeers
  | DkInviteTool
  | DkInvitePeers string string
  | DkDeliver
  | DkDelivered nat "presence_agent list" json
  | DkPoll

record dsh = "(dkont, dvalue) world" +
  d_ident :: identity
  d_url :: string
  d_name :: "string option"
  d_channelsFile :: "string option"
  d_clientSecret :: json
  d_useChannelFile :: bool
  d_errorRing :: "hub_error list"
  d_channels :: "(string, channel_key) jsmap"
  d_inboxMsgs :: "msg_event list"
  d_known :: "(string, agent_info) jsmap"
  d_enrollMode :: bool
  d_dialSource :: "auth_source option"
  d_reEnrolled :: bool
  d_ws :: "sock option"
  d_whoisWaiters :: "(string, pid list) jsmap"
  d_readyWaiters :: "pid list"
  d_presenceWaiters :: "(string, pid) jsmap"
  d_retryTimer :: "nat option"
  d_delay :: nat
  d_initialMs :: nat
  d_maxMs :: nat
  d_welcomed :: bool
  d_stopped :: bool
  d_hellos :: nat
  d_welcomes :: nat
  d_echoSeen :: bool
  d_lastError :: string

text \<open>Code that can throw returns what it threw and the state it leaves behind, which the throw does not undo.\<close>

type_synonym 's effect = "'s \<Rightarrow> exn option \<times> 's"

definition and_then :: "exn option \<times> 's \<Rightarrow> 's effect \<Rightarrow> exn option \<times> 's" where
  "and_then r f = (case r of (None, s) \<Rightarrow> f s | (Some e, s) \<Rightarrow> (Some e, s))"

lemma and_then_simps [simp]:
  "and_then (None, s) f = f s"
  "and_then (Some e, s) f = (Some e, s)"
  by (simp_all add: and_then_def)

lemma and_then_case: "and_then r f = (if fst r = None then f (snd r) else r)"
  by (cases r) (auto simp: and_then_def split: option.split)

fun each :: "('a \<Rightarrow> 's effect) \<Rightarrow> 'a list \<Rightarrow> 's effect" where
  \<comment> \<open>\<open>for (const x of xs) f(x)\<close>\<close>
  "each f [] s = (None, s)"
| "each f (x # xs) s = and_then (f x s) (each f xs)"

record 's hooks =
  hk_ready :: "'s effect"
  hk_message :: "msg_event \<Rightarrow> 's effect"
  hk_invite :: "chankey_invite \<Rightarrow> string \<Rightarrow> 's effect"
  hk_error :: "hub_error \<Rightarrow> 's effect"
  hk_enrolled :: "'s effect"

definition AUTH_REQUIRED :: string where
  "AUTH_REQUIRED =
     ''hub rejected connection (HTTP 401): set DAP_MASTER_SECRET to enroll, or DAP_CLIENT_SECRET / config clientSecret to connect''"

definition READY_TIMEOUT_MS :: nat where "READY_TIMEOUT_MS = 5000"

definition exn_String :: "cenv \<Rightarrow> exn \<Rightarrow> string" where
  \<comment> \<open>\<open>String(err)\<close>\<close>
  "exn_String W e =
     (case e of
        JsError m \<Rightarrow> ''Error: '' @ m
      | JsTypeError \<Rightarrow> ''TypeError: '' @ ce_message W e
      | JsSyntaxError \<Rightarrow> ''SyntaxError: '' @ ce_message W e
      | LibError \<Rightarrow> ''Error: '' @ ce_message W e)"

definition frac_zero :: "string \<Rightarrow> bool" where
  "frac_zero t = list_all (\<lambda>c. c \<in> {CHR ''0'', CHR ''.'', CHR ''-''}) (takeWhile (\<lambda>c. c \<noteq> CHR ''e'' \<and> c \<noteq> CHR ''E'') t)"

definition js_Boolean :: "json \<Rightarrow> bool" where
  \<comment> \<open>\<open>Boolean(v)\<close>\<close>
  "js_Boolean v =
     (case v of
        JUndef \<Rightarrow> False
      | JNull \<Rightarrow> False
      | JBool b \<Rightarrow> b
      | JNum i \<Rightarrow> i \<noteq> 0
      | JFrac t \<Rightarrow> \<not> frac_zero t
      | JStr s \<Rightarrow> s \<noteq> []
      | _ \<Rightarrow> True)"

end
