(* ===== verification/Dsh_Client.thy ===== *)
theory Dsh_Client
  imports Dsh_State Client_Events Numbers
begin

text \<open>
  The methods of \<open>DapClient\<close> of \<open>adapters/dsh-plugin/src/client.ts\<close>, in the order of their dependencies.
  \<open>W\<close> is what the client is given, \<open>H\<close> its hooks.
\<close>

type_synonym 'm d = "'m dsh_scheme"

section \<open>Identity\<close>

definition dsh_stored_identity :: "host \<Rightarrow> string \<Rightarrow> identity result" where
  \<comment> \<open>the file as it is: the keys are decoded, their length is not checked\<close>
  "dsh_stored_identity h keyPath =
     bind_result (read_json h keyPath) (\<lambda>f.
     bind_result (key_field f ''edPriv'') (\<lambda>a. bind_result (key_field f ''edPub'') (\<lambda>b.
     bind_result (key_field f ''xPriv'') (\<lambda>c. bind_result (key_field f ''xPub'') (\<lambda>d.
       Inr \<lparr>id_priv = a, id_pub = b, id_xpriv = c, id_xpub = d\<rparr>)))))"

definition dsh_identity_text :: "identity \<Rightarrow> string" where
  "dsh_identity_text i = json_text (JObj [(''edPriv'', JStr (b64e (id_priv i))), (''edPub'', JStr (b64e (id_pub i))),
     (''xPriv'', JStr (b64e (id_xpriv i))), (''xPub'', JStr (b64e (id_xpub i)))])"

definition dsh_loadIdentity :: "crypto \<Rightarrow> bytes \<Rightarrow> bytes \<Rightarrow> string \<Rightarrow> host \<Rightarrow> (identity \<times> host) result" where
  "dsh_loadIdentity C rnd1 rnd2 keyPath h =
     (if fs h keyPath \<noteq> None then bind_result (dsh_stored_identity h keyPath) (\<lambda>i. Inr (i, h))
      else let (epriv, epub) = newEdKeypair C rnd1; (xpriv, xpub) = newX25519Keypair C rnd2;
               i = \<lparr>id_priv = epriv, id_pub = epub, id_xpriv = xpriv, id_xpub = xpub\<rparr>
           in Inr (i, chmod_file keyPath private_mode (write_file keyPath (dsh_identity_text i) private_mode h)))"

section \<open>The socket\<close>

definition dsh_open :: "'m d \<Rightarrow> bool" where
  "dsh_open s = (case d_ws s of None \<Rightarrow> False | Some i \<Rightarrow> sock_of i s = OPEN)"

definition dsh_connected :: "'m d \<Rightarrow> bool" where
  "dsh_connected s = (d_welcomed s \<and> dsh_open s)"

definition dsh_agentId :: "cenv \<Rightarrow> 'm d \<Rightarrow> string" where
  "dsh_agentId W s = agentIdOf (ce_crypto W) (id_pub (d_ident s))"

definition dsh_ws_send :: "json \<Rightarrow> ('m d) effect" where
  \<comment> \<open>\<open>this.ws?.send(...)\<close>: on a connecting socket the library throws, on a closing one it drops\<close>
  "dsh_ws_send f s =
     (case d_ws s of
        None \<Rightarrow> (None, s)
      | Some i \<Rightarrow> (case sock_of i s of
            CONNECTING \<Rightarrow> (Some LibError, s)
          | OPEN \<Rightarrow> (None, push_frame i f s)
          | _ \<Rightarrow> (None, s)))"

definition dsh_close_ws :: "'m d \<Rightarrow> 'm d" where
  "dsh_close_ws s = (case d_ws s of None \<Rightarrow> s | Some i \<Rightarrow> close_sock i s)"

definition dsh_signAndSend :: "cenv \<Rightarrow> frame \<Rightarrow> ('m d) effect" where
  "dsh_signAndSend W f s =
     (case d_ws s of
        None \<Rightarrow> (Some (JsError ''not connected''), s)
      | Some i \<Rightarrow>
          if sock_of i s \<noteq> OPEN then (Some (JsError ''not connected''), s)
          else (case signFrame (ce_crypto W) f (id_priv (d_ident s)) of
                  Inl e \<Rightarrow> (Some e, s)
                | Inr sig \<Rightarrow> (None, push_frame i (JObj (obj_put ''sig'' (JStr sig) f)) s)))"

section \<open>Errors\<close>

definition surfaceError :: "('m d) hooks \<Rightarrow> string \<Rightarrow> string \<Rightarrow> ('m d) effect" where
  "surfaceError H c m s =
     (let e = mk_error c m s
      in hk_error H e (s\<lparr>d_errorRing := ring_push ERRORS_CAP (d_errorRing s) e, hooked := hooked s @ [e]\<rparr>))"

definition dsh_drainErrors :: "'m d \<Rightarrow> hub_error list \<times> 'm d" where
  "dsh_drainErrors s = (d_errorRing s, s\<lparr>d_errorRing := []\<rparr>)"

definition failWhoisWaiters :: "string \<Rightarrow> 'm d \<Rightarrow> 'm d" where
  "failWhoisWaiters reason s =
     (settle_all (Inl (JsError reason)) (concat (map snd (d_whoisWaiters s))) s)\<lparr>d_whoisWaiters := []\<rparr>"

section \<open>Waiting\<close>

definition whenReady :: "dkont list \<Rightarrow> 'm d \<Rightarrow> 'm d" where
  "whenReady ks s =
     (if d_welcomed s \<and> dsh_open s then ret DUnit ks s
      else (new_promise READY_TIMEOUT_MS TReady ks s)\<lparr>d_readyWaiters := d_readyWaiters s @ [n_pid s]\<rparr>)"

definition dsh_agentInfo :: "string \<Rightarrow> dkont list \<Rightarrow> 'm d \<Rightarrow> 'm d" where
  \<comment> \<open>when \<open>ws.send\<close> throws, the caller gets the exception and nobody the promise\<close>
  "dsh_agentInfo a ks s =
     (case jm_get (d_known s) a of
        Some info \<Rightarrow> ret (DInfo (Some info)) ks s
      | None \<Rightarrow>
          let parkd = (\<lambda>ks. (new_promise READY_TIMEOUT_MS (TWhois a) ks s)
                \<lparr>d_whoisWaiters := jm_set a (waiters_of (d_whoisWaiters s) a @ [n_pid s]) (d_whoisWaiters s)\<rparr>)
          in case dsh_ws_send (JObj [(''op'', JStr ''whois''), (''agentId'', JStr a)]) (parkd (DkInfo a # ks)) of
               (None, s1) \<Rightarrow> s1
             | (Some e, s1) \<Rightarrow> throw e ks (parkd [DkNobody]))"

definition queryPresence :: "string \<Rightarrow> dkont list \<Rightarrow> 'm d \<Rightarrow> 'm d" where
  "queryPresence i ks s =
     (let parkd = (\<lambda>ks. (new_promise READY_TIMEOUT_MS (TPresence i) ks s)
            \<lparr>d_presenceWaiters := jm_set i (n_pid s) (d_presenceWaiters s)\<rparr>)
      in case dsh_ws_send (presence_query i) (parkd ks) of
           (None, s1) \<Rightarrow> s1
         | (Some e, s1) \<Rightarrow> throw e ks (parkd [DkNobody]))"

definition dsh_presence :: "cenv \<Rightarrow> dkont list \<Rightarrow> 'm d \<Rightarrow> 'm d" where
  "dsh_presence W ks s =
     (if \<not> dsh_connected s then throw (JsError NOT_CONNECTED) ks s
      else queryPresence (ce_uuid W (n_uuid s)) (DkPresence # ks) (take_uuid s))"

definition warmUpEcho :: "cenv \<Rightarrow> nat \<Rightarrow> 'm d \<Rightarrow> 'm d" where
  \<comment> \<open>the loop from \<open>attempt\<close> on, up to its next \<open>await\<close>\<close>
  "warmUpEcho W attempt s =
     (if 3 \<le> attempt \<or> d_echoSeen s \<or> \<not> dsh_connected s then s
      else queryPresence (ce_uuid W (n_uuid s)) [DkWarm attempt] (take_uuid s))"

section \<open>Channels\<close>

definition dsh_join :: "string \<Rightarrow> string \<Rightarrow> ('m d) effect" where
  "dsh_join channel pub = dsh_ws_send (JObj [(''op'', JStr ''join''), (''channel'', JStr channel), (''chanPubkey'', JStr pub)])"

definition dsh_persist_keys :: "string \<Rightarrow> channel_keys \<Rightarrow> 'm d \<Rightarrow> 'm d" where
  \<comment> \<open>\<open>if (this.useChannelFile) persistChannelKeys(this.opts.channelsFile!, ...)\<close>\<close>
  "dsh_persist_keys name k s =
     (case d_channelsFile s of
        Some f \<Rightarrow> if d_useChannelFile s then s\<lparr>w_host := persistChannelKeys f name k (w_host s)\<rparr> else s
      | None \<Rightarrow> s)"

definition createChannel :: "cenv \<Rightarrow> string \<Rightarrow> 'm d \<Rightarrow> exn option \<times> channel_key \<times> 'm d" where
  "createChannel W channel s =
     (let keys = newChannelKeypair (ce_crypto W) (ce_random W (n_random s) 32);
          entry = \<lparr>ch_name = channel, ch_pub = ck_pub keys, ch_priv = Some (ck_priv keys)\<rparr>;
          s1 = dsh_persist_keys channel keys (take_random (s\<lparr>d_channels := jm_set channel entry (d_channels s)\<rparr>));
          (e, s2) = dsh_join channel (ck_pub keys) s1
      in (e, entry, s2))"

definition dsh_ensureChannel :: "cenv \<Rightarrow> string \<Rightarrow> 'm d \<Rightarrow> exn option \<times> channel_key \<times> 'm d" where
  "dsh_ensureChannel W channel s =
     (case jm_get (d_channels s) channel of Some ch \<Rightarrow> (None, ch, s) | None \<Rightarrow> createChannel W channel s)"

definition acceptInvite :: "chankey_invite \<Rightarrow> ('m d) effect" where
  "acceptInvite i s =
     dsh_join (ci_channel i) (ck_pub i)
       (dsh_persist_keys (ci_channel i) \<lparr>ck_pub = ck_pub i, ck_priv = ck_priv i\<rparr>
         (s\<lparr>d_channels := jm_set (ci_channel i) \<lparr>ch_name = ci_channel i, ch_pub = ck_pub i, ch_priv = Some (ck_priv i)\<rparr> (d_channels s)\<rparr>))"

section \<open>Sending\<close>

definition dsh_post :: "cenv \<Rightarrow> string \<Rightarrow> string \<Rightarrow> string \<Rightarrow> bytes \<Rightarrow> ('m d) effect" where
  \<comment> \<open>from \<open>randomUUID()\<close> to \<open>signAndSend(frame)\<close>\<close>
  "dsh_post W fld peer text pub s =
     (let i = ce_uuid W (n_uuid s); nonce = ce_random W (n_random s) 12; s1 = take_random (take_uuid s)
      in case seal (ce_crypto W) nonce text i peer (id_xpriv (d_ident s)) pub of
           Inl e \<Rightarrow> (Some e, s1)
         | Inr ct \<Rightarrow> dsh_signAndSend W (msg_frame fld peer i (now s) ct) s1)"

definition returns :: "dkont list \<Rightarrow> exn option \<times> 'm d \<Rightarrow> 'm d" where
  \<comment> \<open>the end of an \<open>async\<close> method without a value\<close>
  "returns ks r = (case r of (None, s) \<Rightarrow> ret DUnit ks s | (Some e, s) \<Rightarrow> throw e ks s)"

definition dsh_send :: "cenv \<Rightarrow> string \<Rightarrow> string \<Rightarrow> dkont list \<Rightarrow> 'm d \<Rightarrow> 'm d" where
  "dsh_send W channel text ks s =
     (if \<not> dsh_connected s then throw (JsError NOT_CONNECTED) ks s
      else case dsh_ensureChannel W channel s of
             (Some e, ch, s1) \<Rightarrow> throw e ks s1
           | (None, ch, s1) \<Rightarrow> whenReady (DkSend channel text ch # ks) s1)"

definition dsh_send_ready :: "cenv \<Rightarrow> string \<Rightarrow> string \<Rightarrow> channel_key \<Rightarrow> dkont list \<Rightarrow> 'm d \<Rightarrow> 'm d" where
  "dsh_send_ready W channel text ch ks s = returns ks (dsh_post W ''channel'' channel text (b64d (ch_pub ch)) s)"

definition dsh_dm :: "string \<Rightarrow> string \<Rightarrow> dkont list \<Rightarrow> 'm d \<Rightarrow> 'm d" where
  "dsh_dm to text ks s =
     (if \<not> dsh_connected s then throw (JsError NOT_CONNECTED) ks s
      else dsh_agentInfo to (DkDmInfo to text # ks) s)"

definition dsh_dm_info :: "string \<Rightarrow> string \<Rightarrow> agent_info \<Rightarrow> dkont list \<Rightarrow> 'm d \<Rightarrow> 'm d" where
  "dsh_dm_info to text info ks s =
     (if in_xPub info = [] then throw (JsError (''agent '' @ to @ '' has no x25519 key'')) ks s
      else whenReady (DkDmReady to text info # ks) s)"

definition dsh_dm_ready :: "cenv \<Rightarrow> string \<Rightarrow> string \<Rightarrow> agent_info \<Rightarrow> dkont list \<Rightarrow> 'm d \<Rightarrow> 'm d" where
  "dsh_dm_ready W to text info ks s = returns ks (dsh_post W ''to'' to text (in_xPub info) s)"

definition dsh_invite :: "cenv \<Rightarrow> string \<Rightarrow> string \<Rightarrow> dkont list \<Rightarrow> 'm d \<Rightarrow> 'm d" where
  "dsh_invite W to channel ks s =
     (if \<not> dsh_connected s then throw (JsError NOT_CONNECTED) ks s
      else let ch = jm_get (d_channels s) channel;
               (e, keys, s1) =
                 (case Option.bind ch ch_priv of
                    Some (c # cs) \<Rightarrow> (None, \<lparr>ck_pub = ch_pub (the ch), ck_priv = c # cs\<rparr>, s)
                  | _ \<Rightarrow> let (e, entry, s1) = createChannel W channel s
                         in (e, \<lparr>ck_pub = ch_pub entry, ck_priv = the (ch_priv entry)\<rparr>, s1))
           in case e of
                Some x \<Rightarrow> throw x ks s1
              | None \<Rightarrow> dsh_dm to (invite_payload channel keys) ks s1)"

definition dsh_whois :: "string \<Rightarrow> dkont list \<Rightarrow> 'm d \<Rightarrow> 'm d" where
  "dsh_whois a ks s = dsh_agentInfo a (DkWhois a # ks) s"

definition dsh_whois_json :: "string \<Rightarrow> agent_info \<Rightarrow> json" where
  "dsh_whois_json a info =
     JObj [(''agentId'', JStr a), (''pubkey'', JStr (b64e (in_edPub info))),
       (''x25519'', JStr (if in_xPub info \<noteq> [] then b64e (in_xPub info) else [])),
       (''name'', in_name info), (''online'', in_online info)]"

definition dsh_status :: "cenv \<Rightarrow> 'm d \<Rightarrow> status_info" where
  "dsh_status W s =
     \<lparr>si_connected = dsh_connected s, si_agentId = dsh_agentId W s,
      si_name = Some (case d_name s of Some n \<Rightarrow> n | None \<Rightarrow> []), si_url = d_url s,
      si_channels = jm_keys (d_channels s), si_welcomes = d_welcomes s, si_hellos = d_hellos s\<rparr>"

section \<open>Presence\<close>

text \<open>\<open>agents.filter((a) => Boolean(a.online)).map(...)\<close>; \<open>a.online\<close> of \<open>null\<close> throws.\<close>

fun online_entries :: "json list \<Rightarrow> json list result" where
  "online_entries [] = Inr []"
| "online_entries (a # as) =
     bind_result (get_prop a ''online'') (\<lambda>o1. bind_result (online_entries as) (\<lambda>rest.
       Inr (if js_Boolean o1 then a # rest else rest)))"

definition entry_agent :: "string \<Rightarrow> json \<Rightarrow> presence_agent" where
  "entry_agent own a =
     (let p = (\<lambda>k. case get_prop a k of Inr v \<Rightarrow> v | Inl _ \<Rightarrow> JUndef)
      in \<lparr>a_agentId = js_String (p ''agentId''),
          a_name = (if p ''name'' = JUndef then JUndef else JStr (js_String (p ''name''))),
          a_online = JBool True, a_lastSeen = js_Number (p ''lastSeen''), a_self = (js_String (p ''agentId'') = own)\<rparr>)"

definition presence_agents :: "string \<Rightarrow> frame \<Rightarrow> presence_agent list result" where
  "presence_agents own f =
     bind_result (online_entries (case prop_of f ''agents'' of JArr vs \<Rightarrow> vs | _ \<Rightarrow> [])) (\<lambda>vs.
       Inr (map (entry_agent own) vs))"

definition dsh_presence_answered :: "cenv \<Rightarrow> frame \<Rightarrow> dkont list \<Rightarrow> 'm d \<Rightarrow> 'm d" where
  \<comment> \<open>\<open>presence\<close>, after \<open>await this.queryPresence(...)\<close>\<close>
  "dsh_presence_answered W f ks s =
     (case presence_agents (dsh_agentId W s) f of Inl e \<Rightarrow> throw e ks s | Inr as \<Rightarrow> ret (DAgents as) ks s)"

section \<open>Dialing\<close>

definition dialAuth :: "host \<Rightarrow> json \<Rightarrow> auth_token option" where
  \<comment> \<open>\<open>None\<close>: the empty token\<close>
  "dialAuth h secret =
     (case optStr (env_var h ''DAP_CLIENT_SECRET'') of
        Some t \<Rightarrow> Some \<lparr>at_token = t, at_enroll = False, at_source = AuthEnv\<rparr>
      | None \<Rightarrow>
          (case optStr secret of
             Some t \<Rightarrow> Some \<lparr>at_token = t, at_enroll = False, at_source = AuthConfig\<rparr>
           | None \<Rightarrow>
               (case optStr (env_var h ''DAP_MASTER_SECRET'') of
                  Some t \<Rightarrow> Some \<lparr>at_token = t, at_enroll = True, at_source = AuthMaster\<rparr>
                | None \<Rightarrow> None)))"

definition dsh_connect :: "cenv \<Rightarrow> ('m d) effect" where
  "dsh_connect W s =
     (if d_stopped s then (None, s)
      else let auth = dialAuth (w_host s) (d_clientSecret s);
               s1 = s\<lparr>d_enrollMode := (case auth of Some a \<Rightarrow> at_enroll a | None \<Rightarrow> False), d_dialSource := map_option at_source auth\<rparr>
           in if \<not> ce_url_ok W (d_url s1) then (Some JsSyntaxError, s1)
              else let i = n_sock s1
                   in (None, s1\<lparr>n_sock := i + 1, socks := jm_set i CONNECTING (socks s1), attached := js_add i (attached s1),
                               dialed := dialed s1 @ [(d_url s1, map_option at_token auth)], d_ws := Some i\<rparr>))"

definition dsh_start :: "cenv \<Rightarrow> ('m d) effect" where
  "dsh_start W s = dsh_connect W (s\<lparr>d_stopped := False\<rparr>)"

definition clear_timer_handle :: "nat option \<Rightarrow> 'm d \<Rightarrow> 'm d" where
  "clear_timer_handle t s = (case t of None \<Rightarrow> s | Some h \<Rightarrow> s\<lparr>retries := filter (\<lambda>(k, _). k \<noteq> h) (retries s)\<rparr>)"

definition dsh_stop :: "'m d \<Rightarrow> 'm d" where
  "dsh_stop s =
     (let s1 = (failWhoisWaiters ''whois: client stopped'' (s\<lparr>d_stopped := True\<rparr>))\<lparr>watching := None\<rparr>
      in (dsh_close_ws (clear_timer_handle (d_retryTimer s1) s1))\<lparr>d_ws := None\<rparr>)"

record dsh_target =
  dt_url :: "string option"
  dt_keyPath :: "string option"
  dt_name :: "string option"

definition swap_identity :: "cenv \<Rightarrow> string option \<Rightarrow> ('m d) effect" where
  \<comment> \<open>\<open>if (next.keyPath) this.id = loadIdentity(next.keyPath)\<close>\<close>
  "swap_identity W path s =
     (case path of
        Some (c # p) \<Rightarrow>
          (case dsh_loadIdentity (ce_crypto W) (ce_random W (n_random s) 32) (ce_random W (n_random s + 1) 32) (c # p) (w_host s) of
             Inl e \<Rightarrow> (Some e, s)
           | Inr (i, h) \<Rightarrow> (None, s\<lparr>d_ident := i, w_host := h, n_random := n_random s + 2\<rparr>))
      | _ \<Rightarrow> (None, s))"

definition RETARGET_REASON :: string where
  "RETARGET_REASON = ''whois: retargeted '' @ [CHR 0x1A] @ '' the retired socket can never answer''"

definition dsh_retarget :: "cenv \<Rightarrow> dsh_target \<Rightarrow> ('m d) effect" where
  "dsh_retarget W next s =
     (let s1 = (clear_timer_handle (d_retryTimer s) s)\<lparr>d_retryTimer := None, watching := None\<rparr>;
          s2 = (dsh_close_ws s1)\<lparr>d_ws := None, d_welcomed := False, d_stopped := False\<rparr>;
          s3 = failWhoisWaiters RETARGET_REASON s2;
          s4 = s3\<lparr>d_url := (case dt_url next of Some (c # u) \<Rightarrow> c # u | _ \<Rightarrow> d_url s3)\<rparr>
      in and_then (swap_identity W (dt_keyPath next) s4) (\<lambda>s5.
           dsh_connect W (s5\<lparr>d_known := [], d_name := (case dt_name next of Some n \<Rightarrow> Some n | None \<Rightarrow> d_name s5),
                             d_delay := d_initialMs s5\<rparr>)))"

section \<open>The handshake\<close>

definition dsh_hello_frame :: "cenv \<Rightarrow> 'm d \<Rightarrow> frame" where
  "dsh_hello_frame W s =
     [(''op'', JStr ''hello''), (''v'', JNum 1), (''pubkey'', JStr (b64e (id_pub (d_ident s)))),
      (''x25519'', JStr (b64e (id_xpub (d_ident s)))),
      (''name'', (case d_name s of None \<Rightarrow> JUndef | Some n \<Rightarrow> JStr n)),
      (''nonce'', JStr (hex (ce_random W (n_random s) 16))), (''ts'', JNum (int (now s)))]"

definition dsh_sendHello :: "cenv \<Rightarrow> ('m d) effect" where
  "dsh_sendHello W s =
     (let f = dsh_hello_frame W s; s1 = take_random (s\<lparr>d_hellos := d_hellos s + 1\<rparr>)
      in case signFrame (ce_crypto W) f (id_priv (d_ident s)) of
           Inl e \<Rightarrow> (Some e, s1)
         | Inr sig \<Rightarrow> dsh_ws_send (JObj (obj_put ''sig'' (JStr sig) f)) s1)"

definition wake_all :: "'m d \<Rightarrow> 'm d" where
  "wake_all s = settle_all (Inr DUnit) (d_readyWaiters s) (s\<lparr>d_readyWaiters := []\<rparr>)"

definition dsh_onWelcome :: "('m d) hooks \<Rightarrow> cenv \<Rightarrow> ('m d) effect" where
  "dsh_onWelcome H W s =
     and_then (let s1 = s\<lparr>d_welcomed := True, d_welcomes := d_welcomes s + 1, d_delay := d_initialMs s\<rparr>
               in if d_enrollMode s1 then dsh_ws_send (JObj [(''t'', JStr ''enroll'')]) s1 else (None, s1)) (\<lambda>s2.
     and_then (dsh_ws_send (JObj [(''op'', JStr ''flush'')]) s2) (\<lambda>s3.
     and_then (each (\<lambda>ch. dsh_join (ch_name ch) (ch_pub ch)) (map snd (d_channels s3)) s3) (\<lambda>s4.
       hk_ready H (wake_all (warmUpEcho W 0 s4)))))"

definition persist_secret_now :: "secret_update \<Rightarrow> ('m d) effect" where
  \<comment> \<open>\<open>persistDapConfig({ clientSecret })\<close>\<close>
  "persist_secret_now u s =
     (case persistDapConfig (no_update\<lparr>up_secret := u\<rparr>) (defaultConfigFile (w_host s)) (w_host s) of
        Inl e \<Rightarrow> (Some e, s)
      | Inr h \<Rightarrow> (None, s\<lparr>w_host := h\<rparr>))"

definition dsh_onEnrolled :: "('m d) hooks \<Rightarrow> string \<Rightarrow> ('m d) effect" where
  "dsh_onEnrolled H secret s =
     (if secret = [] then (None, s)
      else and_then (persist_secret_now (SetSecret secret) (s\<lparr>d_clientSecret := JStr secret, d_enrollMode := False\<rparr>)) (hk_enrolled H))"

section \<open>Frames of the hub\<close>

definition dsh_onAgentInfo :: "frame \<Rightarrow> 'm d \<Rightarrow> 'm d" where
  "dsh_onAgentInfo f s =
     (let a = js_String (prop_of f ''agentId'');
          x = (case prop_of f ''x25519'' of JStr t \<Rightarrow> t | _ \<Rightarrow> []);
          info = \<lparr>in_edPub = b64d (js_String (prop_of f ''pubkey'')), in_xPub = b64d x, in_name = prop_of f ''name'',
                  in_online = prop_of f ''online''\<rparr>;
          s1 = s\<lparr>d_known := jm_set a info (d_known s)\<rparr>
      in (settle_all (Inr (DInfo (Some info))) (waiters_of (d_whoisWaiters s1) a) s1)\<lparr>d_whoisWaiters := jm_del a (d_whoisWaiters s1)\<rparr>)"

definition fail_unknown :: "'m d \<Rightarrow> 'm d" where
  \<comment> \<open>every whois in flight is answered with nothing\<close>
  "fail_unknown s =
     (settle_all (Inr (DInfo None)) (concat (map snd (d_whoisWaiters s))) s)\<lparr>d_whoisWaiters := []\<rparr>"

definition onHubErrorFrame :: "('m d) hooks \<Rightarrow> frame \<Rightarrow> ('m d) effect" where
  "onHubErrorFrame H f s =
     (let c = prop_of f ''code''; m = js_String (prop_of f ''msg'')
      in and_then (surfaceError H (js_String c) m (s\<lparr>d_lastError := ''hub error '' @ js_String c @ '': '' @ m\<rparr>)) (\<lambda>s1.
           (None, if c = JStr ''unknown_agent'' then fail_unknown s1 else s1)))"

definition resolvePresence :: "frame \<Rightarrow> 'm d \<Rightarrow> 'm d" where
  "resolvePresence f s =
     (let rid = (case prop_of f ''replyTo'' of JStr t \<Rightarrow> t | _ \<Rightarrow> [])
      in if rid \<noteq> [] then
           let s1 = s\<lparr>d_echoSeen := True\<rparr>
           in case jm_get (d_presenceWaiters s1) rid of
                None \<Rightarrow> s1
              | Some p \<Rightarrow> settle (Inr (DFrame f)) p (s1\<lparr>d_presenceWaiters := jm_del rid (d_presenceWaiters s1)\<rparr>)
         else if d_echoSeen s then s
         else (settle_all (Inr (DFrame f)) (map snd (d_presenceWaiters s)) s)\<lparr>d_presenceWaiters := []\<rparr>)"

definition dsh_onMsg :: "frame \<Rightarrow> 'm d \<Rightarrow> 'm d" where
  "dsh_onMsg f s = dsh_agentInfo (js_String (prop_of f ''from'')) [DkMsg f] s"

definition dsh_decryptMsg :: "cenv \<Rightarrow> frame \<Rightarrow> agent_info \<Rightarrow> 'm d \<Rightarrow> msg_event result" where
  \<comment> \<open>\<open>decryptMsg\<close>, after \<open>await this.agentInfo(from)\<close>\<close>
  "dsh_decryptMsg W f sender s =
     (let i = js_String (prop_of f ''id''); from = js_String (prop_of f ''from''); ct = js_String (prop_of f ''ciphertext'')
      in case opt_str_prop f ''channel'' of
           Some c \<Rightarrow>
             (case Option.bind (jm_get (d_channels s) c) ch_priv of
                Some (x # xs) \<Rightarrow>
                  bind_result (open_sealed (ce_crypto W) ct i c (b64d (x # xs)) (in_xPub sender)) (\<lambda>text.
                    Inr \<lparr>me_dm = False, me_channel = Some c, me_from = from, me_text = text,
                         me_ts = prop_of f ''ts'', me_invite = None\<rparr>)
              | _ \<Rightarrow> Inl (JsError ''no channel private key''))
         | None \<Rightarrow>
             if in_xPub sender = [] then Inl (JsError ''sender has no x25519 key'')
             else bind_result (open_sealed (ce_crypto W) ct i (js_String (prop_of f ''to'')) (id_xpriv (d_ident s)) (in_xPub sender)) (\<lambda>text.
               Inr \<lparr>me_dm = True, me_channel = None, me_from = from, me_text = text,
                    me_ts = prop_of f ''ts'', me_invite = None\<rparr>))"

definition dsh_inbox :: "'m d \<Rightarrow> msg_event list" where
  "dsh_inbox s = d_inboxMsgs s"

definition dsh_deliver :: "('m d) hooks \<Rightarrow> msg_event \<Rightarrow> ('m d) effect" where
  "dsh_deliver H ev s =
     hk_message H ev (s\<lparr>d_inboxMsgs := ring_push INBOX_CAP (d_inboxMsgs s) ev, delivered := delivered s @ [ev]\<rparr>)"

definition msg_body :: "('m d) hooks \<Rightarrow> cenv \<Rightarrow> frame \<Rightarrow> agent_info \<Rightarrow> ('m d) effect" where
  \<comment> \<open>the \<open>try\<close> of \<open>onMsg\<close>, once the sender is known\<close>
  "msg_body H W f sender s =
     (case dsh_decryptMsg W f sender s of
        Inl e \<Rightarrow> (Some e, s)
      | Inr ev \<Rightarrow>
          (case (if me_dm ev then parseChankeyInvite (me_text ev) else None) of
             Some i \<Rightarrow> and_then (acceptInvite i s) (hk_invite H i (me_from ev))
           | None \<Rightarrow> dsh_deliver H ev s))"

definition undecryptable :: "('m d) hooks \<Rightarrow> cenv \<Rightarrow> exn \<Rightarrow> ('m d) effect" where
  \<comment> \<open>the \<open>catch\<close> of \<open>onMsg\<close>\<close>
  "undecryptable H W e s =
     surfaceError H ''undecryptable'' (exn_String W e) (s\<lparr>d_lastError := ''undecryptable msg: '' @ exn_String W e\<rparr>)"

definition effect_or_crash :: "exn option \<times> 'm d \<Rightarrow> 'm d" where
  \<comment> \<open>an exception nobody catches\<close>
  "effect_or_crash r = (case r of (None, s) \<Rightarrow> s | (Some e, s) \<Rightarrow> crash s)"

definition dsh_msg_resumed :: "('m d) hooks \<Rightarrow> cenv \<Rightarrow> frame \<Rightarrow> exn + dvalue \<Rightarrow> 'm d \<Rightarrow> 'm d" where
  "dsh_msg_resumed H W f out s =
     (let r = (case out of Inl e \<Rightarrow> (Some e, s) | Inr (DInfo (Some info)) \<Rightarrow> msg_body H W f info s | Inr _ \<Rightarrow> (None, s))
      in case r of
           (None, s1) \<Rightarrow> s1
         | (Some e, s1) \<Rightarrow> effect_or_crash (undecryptable H W e s1))"

definition dsh_dispatch :: "('m d) hooks \<Rightarrow> cenv \<Rightarrow> frame \<Rightarrow> ('m d) effect" where
  "dsh_dispatch H W f s =
     (if prop_of f ''t'' = JStr ''enrolled'' then dsh_onEnrolled H (js_String (prop_of f ''secret'')) s
      else if prop_of f ''op'' = JStr ''welcome'' then dsh_onWelcome H W s
      else if prop_of f ''op'' = JStr ''agent_info'' then (None, dsh_onAgentInfo f s)
      else if prop_of f ''op'' = JStr ''msg'' then (None, dsh_onMsg f s)
      else if prop_of f ''op'' = JStr ''error'' then onHubErrorFrame H f s
      else if prop_of f ''op'' = JStr ''presence'' then (None, resolvePresence f s)
      else (None, s))"

definition dsh_handleRaw :: "('m d) hooks \<Rightarrow> cenv \<Rightarrow> string \<Rightarrow> ('m d) effect" where
  "dsh_handleRaw H W raw s =
     (case json_parse raw of
        Inl _ \<Rightarrow> (None, s\<lparr>d_lastError := ''bad frame (not JSON)''\<rparr>)
      | Inr v \<Rightarrow> if nullish v then (Some JsTypeError, s) else dsh_dispatch H W (case v of JObj ps \<Rightarrow> ps | _ \<Rightarrow> []) s)"

section \<open>Events\<close>

text \<open>Every listener first checks that its socket is still the client's.\<close>

definition guarded :: "sock \<Rightarrow> ('m d) effect \<Rightarrow> 'm d \<Rightarrow> 'm d" where
  "guarded i f s = (if d_ws s = Some i then effect_or_crash (f s) else s)"

definition dsh_onDisconnect :: "'m d \<Rightarrow> 'm d" where
  "dsh_onDisconnect s =
     (let s1 = failWhoisWaiters ''whois: hub connection closed'' (s\<lparr>watching := None, d_welcomed := False\<rparr>)
      in if d_stopped s1 then s1
         else s1\<lparr>d_delay := min (d_delay s1 * 2) (d_maxMs s1), retries := retries s1 @ [(n_timer s1, now s1 + d_delay s1)],
                 d_retryTimer := Some (n_timer s1), n_timer := n_timer s1 + 1\<rparr>)"

definition dsh_on_open :: "cenv \<Rightarrow> sock \<Rightarrow> 'm d \<Rightarrow> 'm d" where
  "dsh_on_open W i = guarded i (\<lambda>s. dsh_sendHello W (s\<lparr>watching := Some i\<rparr>))"

definition dsh_on_message :: "('m d) hooks \<Rightarrow> cenv \<Rightarrow> sock \<Rightarrow> string \<Rightarrow> 'm d \<Rightarrow> 'm d" where
  "dsh_on_message H W i raw = guarded i (dsh_handleRaw H W raw)"

definition dsh_on_close :: "sock \<Rightarrow> 'm d \<Rightarrow> 'm d" where
  "dsh_on_close i = guarded i (\<lambda>s. (None, dsh_onDisconnect s))"

definition dsh_on_error :: "sock \<Rightarrow> string \<Rightarrow> 'm d \<Rightarrow> 'm d" where
  "dsh_on_error i err = guarded i (\<lambda>s. (None, if sock_of i s = OPEN then s\<lparr>d_lastError := err\<rparr> else s))"

definition dsh_on_unexpected :: "('m d) hooks \<Rightarrow> cenv \<Rightarrow> sock \<Rightarrow> nat \<Rightarrow> 'm d \<Rightarrow> 'm d" where
  "dsh_on_unexpected H W i status = guarded i (\<lambda>s.
     if status \<noteq> 401 then (None, s)
     else and_then (surfaceError H ''unauthorized'' AUTH_REQUIRED (s\<lparr>d_lastError := AUTH_REQUIRED\<rparr>)) (\<lambda>s1.
          and_then (if d_dialSource s1 = Some AuthConfig \<and> \<not> d_reEnrolled s1 \<and> optStr (env_var (w_host s1) ''DAP_MASTER_SECRET'') \<noteq> None
                    then persist_secret_now PurgeSecret (s1\<lparr>d_reEnrolled := True, d_clientSecret := JUndef\<rparr>)
                    else (None, s1)) (\<lambda>s2.
            (None, close_sock i s2))))"

definition dsh_timeout :: "ptimer \<Rightarrow> 'm d \<Rightarrow> 'm d" where
  "dsh_timeout t s =
     (let p = pt_pid t; s0 = s\<lparr>ptimers := filter (\<lambda>u. pt_pid u \<noteq> p) (ptimers s)\<rparr>
      in case pt_kind t of
           TReady \<Rightarrow> settle (Inl (JsError ''hub not ready'')) p (s0\<lparr>d_readyWaiters := remove1 p (d_readyWaiters s0)\<rparr>)
         | TWhois a \<Rightarrow> settle (Inl (JsError (''whois '' @ a @ '': hub did not reply''))) p
             (if jm_has (d_whoisWaiters s0) a
              then s0\<lparr>d_whoisWaiters := jm_set a (remove1 p (waiters_of (d_whoisWaiters s0) a)) (d_whoisWaiters s0)\<rparr> else s0)
         | TPresence i \<Rightarrow> settle (Inl (JsError ''presence: hub did not reply'')) p
             (if jm_get (d_presenceWaiters s0) i = Some p then s0\<lparr>d_presenceWaiters := jm_del i (d_presenceWaiters s0)\<rparr> else s0)
         | TJoin _ \<Rightarrow> s0)"

definition dsh_retry :: "cenv \<Rightarrow> nat \<Rightarrow> 'm d \<Rightarrow> 'm d" where
  "dsh_retry W h s = effect_or_crash (dsh_connect W (s\<lparr>retries := filter (\<lambda>(k, _). k \<noteq> h) (retries s)\<rparr>))"

section \<open>Continuing a suspended method\<close>

fun dsh_resume :: "('m d) hooks \<Rightarrow> cenv \<Rightarrow> exn + dvalue \<Rightarrow> dkont \<Rightarrow> dkont list \<Rightarrow> 'm d \<Rightarrow> 'm d" where
  "dsh_resume H W out (DkMsg f) ks s = dsh_msg_resumed H W f out s"
| "dsh_resume H W out (DkWarm n) ks s = warmUpEcho W (n + 1) s"
| "dsh_resume H W out DkNobody ks s = (case out of Inl e \<Rightarrow> crash s | Inr v \<Rightarrow> s)"
| "dsh_resume H W (Inl e) k ks s = throw e ks s"
| "dsh_resume H W (Inr (DInfo info)) (DkInfo a) ks s =
     (if info = None then throw (JsError (''unknown_agent: '' @ a)) ks s else ret (DInfo info) ks s)"
| "dsh_resume H W (Inr (DInfo (Some info))) (DkWhois a) ks s = ret (DWhois (dsh_whois_json a info)) ks s"
| "dsh_resume H W (Inr (DFrame f)) DkPresence ks s = dsh_presence_answered W f ks s"
| "dsh_resume H W (Inr v) (DkSend channel text ch) ks s = dsh_send_ready W channel text ch ks s"
| "dsh_resume H W (Inr (DInfo (Some info))) (DkDmInfo to text) ks s = dsh_dm_info to text info ks s"
| "dsh_resume H W (Inr v) (DkDmReady to text info) ks s = dsh_dm_ready W to text info ks s"
| "dsh_resume H W (Inr v) k ks s = s"

section \<open>The constructor\<close>

record dsh_opts =
  dc_url :: string
  dc_keyPath :: string
  dc_name :: "string option"
  dc_channels :: "channel_key list option"
  dc_channelsFile :: "string option"
  dc_initialMs :: "nat option"
  dc_maxMs :: "nat option"
  dc_clientSecret :: json

definition uses_channel_file :: "dsh_opts \<Rightarrow> bool" where
  \<comment> \<open>\<open>!opts.channels && !!opts.channelsFile\<close>\<close>
  "uses_channel_file opts = (dc_channels opts = None \<and> (case dc_channelsFile opts of Some (_ # _) \<Rightarrow> True | _ \<Rightarrow> False))"

definition dsh_channels :: "dsh_opts \<Rightarrow> host \<Rightarrow> (string, channel_key) jsmap" where
  "dsh_channels opts h =
     (if uses_channel_file opts then file_channels (dc_channelsFile opts) h
      else fold (\<lambda>ch. jm_set (ch_name ch) ch) (case dc_channels opts of Some chs \<Rightarrow> chs | None \<Rightarrow> []) [])"

definition new_dsh :: "cenv \<Rightarrow> dsh_opts \<Rightarrow> host \<Rightarrow> dsh result" where
  "new_dsh W opts h =
     bind_result (dsh_loadIdentity (ce_crypto W) (ce_random W 0 32) (ce_random W 1 32) (dc_keyPath opts) h) (\<lambda>(i, h1).
       Inr \<lparr>w_host = h1, now = 0, n_uuid = 0, n_random = 2, n_sock = 0, n_pid = 0, n_timer = 0, socks = [], attached = [],
            dialed = [], wire = [], retries = [], parked = [], ptimers = [], micro = [], results = [], delivered = [], hooked = [],
            watching = None, crashed = False,
            d_ident = i, d_url = dc_url opts, d_name = dc_name opts, d_channelsFile = dc_channelsFile opts,
            d_clientSecret = dc_clientSecret opts, d_useChannelFile = uses_channel_file opts, d_errorRing = [],
            d_channels = dsh_channels opts h1, d_inboxMsgs = [], d_known = [], d_enrollMode = False, d_dialSource = None,
            d_reEnrolled = False, d_ws = None, d_whoisWaiters = [], d_readyWaiters = [], d_presenceWaiters = [], d_retryTimer = None,
            d_delay = (case dc_initialMs opts of Some n \<Rightarrow> n | None \<Rightarrow> 1000),
            d_initialMs = (case dc_initialMs opts of Some n \<Rightarrow> n | None \<Rightarrow> 1000),
            d_maxMs = (case dc_maxMs opts of Some n \<Rightarrow> n | None \<Rightarrow> 30000),
            d_welcomed = False, d_stopped = False, d_hellos = 0, d_welcomes = 0, d_echoSeen = False, d_lastError = []\<rparr>)"

end
