(* ===== verification/Dsh_Plugin.thy ===== *)
theory Dsh_Plugin
  imports Dsh_Client Server
begin

text \<open>
  The harness plugin: \<open>adapters/dsh-plugin/src/index.ts\<close>, and what \<open>config.ts\<close> of that adapter adds to the
  configuration of \<open>Config\<close>. The closure of \<open>apply\<close> is a record that extends the client: its settings, the
  pending invites, the flag of the delivery pass and the poll interval. The host's agent and logger are
  functions that may throw; what they were called with is recorded.
\<close>

section \<open>Settings\<close>

definition dsh_defaultKeyPath :: "host \<Rightarrow> json \<Rightarrow> string result" where
  "dsh_defaultKeyPath h name =
     (case coalesce name (JStr (hostname h)) of
        JStr s \<Rightarrow> Inr (path_join [homedir h, ''.dap'', ''keys'', ''dsh'', sanitize s @ ''.key''])
      | _ \<Rightarrow> Inl JsTypeError)"

record dsh_settings = settings +
  st_clientSecret :: json

definition dsh_resolveDapSettings :: "host \<Rightarrow> (string \<times> json) list \<Rightarrow> dsh_settings result" where
  "dsh_resolveDapSettings h overrides =
     (let file = readDapConfig h (defaultConfigFile h);
          name = setting h overrides file ''name'' ''DAP_AGENT_NAME'';
          url = coalesce (setting h overrides file ''url'' ''DAP_HUB_URL'') (JStr DEFAULT_URL);
          key = setting h overrides file ''keyPath'' ''DAP_KEY_PATH'';
          chf = coalesce (setting h overrides file ''channelsFile'' ''DAP_CHANNELS_FILE'')
                  (JStr (path_join [homedir h, ''.dap'', ''channels.json'']))
      in bind_result (if nullish key then map_sum id JStr (dsh_defaultKeyPath h name) else Inr key) (\<lambda>keyPath.
           Inr \<lparr>st_url = url, st_keyPath = keyPath, st_name = name, st_channelsFile = chf,
                st_clientSecret = prop_of file ''clientSecret''\<rparr>))"

section \<open>The plugin\<close>

record plugin_config =
  pc_url :: "string option"
  pc_keyPath :: "string option"
  pc_name :: "string option"
  pc_channelsFile :: "string option"
  pc_channels :: "channel_key list option"
  pc_initialMs :: "nat option"
  pc_maxMs :: "nat option"
  pc_invitePollMs :: "nat option"

record plugin = dsh +
  pl_url :: string  \<comment> \<open>\<open>settings.url\<close>\<close>
  pl_name :: "string option"  \<comment> \<open>\<open>settings.name\<close>\<close>
  pl_configFile :: "string option"
  pl_pending :: "json list"
  pl_delivering :: bool
  pl_poller :: "nat option"
  pl_followups :: "string list"
  pl_warnings :: "string list"

type_synonym 'm p = "'m plugin_scheme"

record plugin_ctx =
  px_platform :: platform
  px_followup :: "(string \<Rightarrow> exn option) option"  \<comment> \<open>\<open>ctx.agent?.followup\<close>\<close>
  px_warn :: "(string \<Rightarrow> exn option) option"  \<comment> \<open>\<open>ctx.logger?.warn\<close>\<close>

abbreviation px_env :: "plugin_ctx \<Rightarrow> cenv" where
  "px_env X \<equiv> pf_env (px_platform X)"

definition ENROLL_NOTICE :: string where "ENROLL_NOTICE = ''enrolled: client secret persisted''"

definition DISABLED_ERROR :: string where
  "DISABLED_ERROR = ''DAP_MASTER_SECRET is not set '' @ [CHR 0x1A] @ '' DAP disabled''"

definition POLL_MS :: nat where "POLL_MS = 15000"

definition followup :: "plugin_ctx \<Rightarrow> string \<Rightarrow> ('m p) effect" where
  "followup X t s = (case px_followup X of None \<Rightarrow> (None, s) | Some f \<Rightarrow> (f t, s\<lparr>pl_followups := pl_followups s @ [t]\<rparr>))"

definition logger_warn :: "plugin_ctx \<Rightarrow> string \<Rightarrow> ('m p) effect" where
  "logger_warn X t s = (case px_warn X of None \<Rightarrow> (None, s) | Some f \<Rightarrow> (f t, s\<lparr>pl_warnings := pl_warnings s @ [t]\<rparr>))"

definition announce :: "plugin_ctx \<Rightarrow> msg_event \<Rightarrow> ('m p) effect" where
  "announce X m =
     followup X (''[dap:'' @ (if me_dm m then ''dm'' else the (me_channel m)) @ ''] '' @ me_from m @ '': '' @ me_text m)"

definition invited_notice :: "plugin_ctx \<Rightarrow> chankey_invite \<Rightarrow> string \<Rightarrow> ('m p) effect" where
  "invited_notice X i from = followup X (''[dap] invited to #'' @ ci_channel i @ '' by '' @ from)"

definition error_notice :: "plugin_ctx \<Rightarrow> hub_error \<Rightarrow> ('m p) effect" where
  "error_notice X e s =
     (let t = ''[dap] hub rejected a frame '' @ [CHR 0x1A] @ '' '' @ he_code e @ '': '' @ he_msg e
      in and_then (logger_warn X t s) (followup X t))"

definition enroll_notice :: "plugin_ctx \<Rightarrow> ('m p) effect" where
  "enroll_notice X s = and_then (logger_warn X ENROLL_NOTICE s) (followup X ENROLL_NOTICE)"

section \<open>Pending invites\<close>

definition persistInvites :: "('m p) effect" where
  "persistInvites s =
     (let file = (case pl_configFile s of Some f \<Rightarrow> f | None \<Rightarrow> defaultConfigFile (w_host s))
      in case persistDapConfig (no_update\<lparr>up_invites := Some (pl_pending s)\<rparr>) file (w_host s) of
           Inl e \<Rightarrow> (Some e, s)
         | Inr h \<Rightarrow> (None, s\<lparr>w_host := h\<rparr>))"

definition deliverPending :: "plugin_ctx \<Rightarrow> dkont list \<Rightarrow> 'm p \<Rightarrow> 'm p" where
  "deliverPending X ks s =
     (if pl_delivering s \<or> pl_pending s = [] \<or> \<not> dsh_connected s then ret DUnit ks s
      else dsh_presence (px_env X) (DkDeliver # ks) (s\<lparr>pl_delivering := True\<rparr>))"

definition end_pass :: "exn + dvalue \<Rightarrow> dkont list \<Rightarrow> 'm p \<Rightarrow> 'm p" where
  \<comment> \<open>the \<open>finally\<close>\<close>
  "end_pass out ks s = schedule out ks (s\<lparr>pl_delivering := False\<rparr>)"

definition pending_online :: "string \<Rightarrow> json \<Rightarrow> presence_agent list \<Rightarrow> presence_agent list result" where
  \<comment> \<open>\<open>pending.name\<close> is read only if some agent is not the own one\<close>
  "pending_online own p agents =
     (if filter (\<lambda>a. a_agentId a \<noteq> own) agents = [] then Inr []
      else bind_result (pending_name p) (\<lambda>wanted. named (\<lambda>a. a_agentId a \<noteq> own) wanted agents))"

text \<open>The loop over the pending invites from index \<open>n - 1\<close> down to 0.\<close>

fun delivery_loop :: "plugin_ctx \<Rightarrow> nat \<Rightarrow> presence_agent list \<Rightarrow> dkont list \<Rightarrow> 'm p \<Rightarrow> 'm p" where
  "delivery_loop X 0 agents ks s = end_pass (Inr DUnit) ks s"
| "delivery_loop X (Suc i) agents ks s =
     (let p = pl_pending s ! i
      in case pending_online (dsh_agentId (px_env X) s) p agents of
           Inl e \<Rightarrow> end_pass (Inl e) ks s
         | Inr on \<Rightarrow>
             if length on \<noteq> 1 then delivery_loop X i agents ks s
             else dsh_invite (px_env X) (a_agentId (hd on)) (js_String (pending_channel p)) (DkDelivered i agents p # ks) s)"

definition delivered_notice :: "json \<Rightarrow> string" where
  "delivered_notice p =
     ''[dap] invited '' @ (case get_prop p ''name'' of Inr v \<Rightarrow> js_String v | Inl _ \<Rightarrow> []) @ '' to #'' @ js_String (pending_channel p)"

definition delivery_sent :: "plugin_ctx \<Rightarrow> nat \<Rightarrow> presence_agent list \<Rightarrow> json \<Rightarrow> dkont list \<Rightarrow> 'm p \<Rightarrow> 'm p" where
  \<comment> \<open>the loop body after \<open>await client.invite(...)\<close> returned\<close>
  "delivery_sent X i agents p ks s =
     (case and_then (persistInvites (s\<lparr>pl_pending := drop_at i (pl_pending s)\<rparr>)) (followup X (delivered_notice p)) of
        (Some e, s1) \<Rightarrow> end_pass (Inl e) ks s1
      | (None, s1) \<Rightarrow> delivery_loop X i agents ks s1)"

definition pollPending :: "plugin_ctx \<Rightarrow> 'm p \<Rightarrow> 'm p" where
  "pollPending X s = deliverPending X [DkPoll] s"

definition poll_failed :: "plugin_ctx \<Rightarrow> exn \<Rightarrow> ('m p) effect" where
  "poll_failed X e s =
     (let t = ''[dap] pending invite check failed: '' @ exn_String (px_env X) e
      in and_then (logger_warn X t s) (followup X t))"

definition plugin_hooks :: "plugin_ctx \<Rightarrow> ('m p) hooks" where
  "plugin_hooks X =
     \<lparr>hk_ready = (\<lambda>s. (None, pollPending X s)), hk_message = announce X, hk_invite = invited_notice X,
      hk_error = error_notice X, hk_enrolled = enroll_notice X\<rparr>"

section \<open>The tools\<close>

datatype dsh_tool = PSend | PDm | PInvite | PInbox | PWhois | PStatus | PPeers | PConnect

definition not_ok :: "string \<Rightarrow> json" where
  "not_ok e = JObj [(''ok'', JBool False), (''error'', JStr e)]"

definition arg :: "frame \<Rightarrow> string \<Rightarrow> string" where
  \<comment> \<open>\<open>S(a.k)\<close>\<close>
  "arg a k = js_String (prop_of a k)"

definition id_list :: "presence_agent list \<Rightarrow> string" where
  "id_list as = join '', '' (map a_agentId as)"

definition armed_answer :: "string \<Rightarrow> string \<Rightarrow> string \<Rightarrow> json" where
  "armed_answer who channel url =
     JObj [(''ok'', JBool True), (''pending'', JBool True), (''name'', JStr who), (''channel'', JStr channel),
       (''connectLine'', JStr (''send to '' @ who @ '':  /dap '' @ hostOf url @ '' '' @ who)),
       (''hint'', JStr ''first connect needs DAP_MASTER_SECRET set (enrolls once, then stored)'')]"

definition arm_invite :: "plugin_ctx \<Rightarrow> string \<Rightarrow> string \<Rightarrow> dkont list \<Rightarrow> 'm p \<Rightarrow> 'm p" where
  \<comment> \<open>an unknown or offline name\<close>
  "arm_invite X who channel ks s =
     (case dsh_ensureChannel (px_env X) channel s of
        (Some e, ch, s1) \<Rightarrow> throw e ks s1
      | (None, ch, s1) \<Rightarrow>
          (case already_armed who channel (pl_pending s1) of
             Inl e \<Rightarrow> throw e ks s1
           | Inr armed \<Rightarrow>
               (case (if armed then (None, s1)
                      else persistInvites (s1\<lparr>pl_pending := pl_pending s1 @ [pending_json \<lparr>pi_name = who, pi_channel = channel\<rparr>]\<rparr>)) of
                  (Some e, s2) \<Rightarrow> throw e ks s2
                | (None, s2) \<Rightarrow> ret (DJson (armed_answer who channel (pl_url s2))) ks (pollPending X s2))))"

definition invite_named :: "plugin_ctx \<Rightarrow> string \<Rightarrow> string \<Rightarrow> presence_agent list \<Rightarrow> dkont list \<Rightarrow> 'm p \<Rightarrow> 'm p" where
  \<comment> \<open>the tool \<open>dap_invite\<close>, after \<open>await client.presence()\<close>\<close>
  "invite_named X who channel agents ks s =
     (case named (\<lambda>_. True) (toLowerCase who) agents of
        Inl e \<Rightarrow> throw e ks s
      | Inr [a] \<Rightarrow> dsh_invite (px_env X) (a_agentId a) channel ks s
      | Inr (a # b # as) \<Rightarrow>
          ret (DJson (not_ok (CHR 0x22 # who @ [CHR 0x22] @ '' is ambiguous '' @ [CHR 0x1A] @ '' use an id: '' @ id_list (a # b # as)))) ks s
      | Inr [] \<Rightarrow> arm_invite X who channel ks s)"

definition dsh_normalizeHost :: "platform \<Rightarrow> string \<Rightarrow> string result" where
  "dsh_normalizeHost U h =
     (case pf_url U (if has_ws_scheme h then h else ''ws://'' @ h) of
        None \<Rightarrow> Inl JsTypeError
      | Some u \<Rightarrow>
          let s = u_origin u @ (if u_pathname u = ''/'' then ''/ws'' else u_pathname u) @ u_rest u
          in Inr (if ends_with ''/'' s then butlast s else s))"

definition persist_target :: "string option \<Rightarrow> string option \<Rightarrow> string option \<Rightarrow> ('m p) effect" where
  "persist_target url name channel s =
     (case persistDapConfig (connect_update url name channel) (defaultConfigFile (w_host s)) (w_host s) of
        Inl e \<Rightarrow> (Some e, s)
      | Inr h \<Rightarrow> (None, s\<lparr>w_host := h\<rparr>))"

definition ensure_room :: "plugin_ctx \<Rightarrow> string option \<Rightarrow> ('m p) effect" where
  "ensure_room X channel s =
     (case channel of None \<Rightarrow> (None, s) | Some c \<Rightarrow> (let (e, ch, s1) = dsh_ensureChannel (px_env X) c s in (e, s1)))"

definition retarget_to :: "plugin_ctx \<Rightarrow> string option \<Rightarrow> string option \<Rightarrow> ('m p) effect" where
  \<comment> \<open>\<open>client.retarget(...)\<close> with the key file of the name\<close>
  "retarget_to X url name s =
     (case (case name of None \<Rightarrow> Inr None | Some n \<Rightarrow> map_sum id Some (dsh_defaultKeyPath (w_host s) (JStr n))) of
        Inl e \<Rightarrow> (Some e, s)
      | Inr key \<Rightarrow> dsh_retarget (px_env X) \<lparr>dt_url = url, dt_keyPath = key, dt_name = name\<rparr> s)"

definition connect_answer :: "plugin_ctx \<Rightarrow> 'm p \<Rightarrow> json" where
  "connect_answer X s =
     (let me = dsh_agentId (px_env X) s
      in JObj [(''ok'', JBool True), (''url'', JStr (pl_url s)), (''name'', JStr (case pl_name s of Some n \<Rightarrow> n | None \<Rightarrow> me)),
           (''agentId'', JStr me), (''channels'', JArr (map JStr (si_channels (dsh_status (px_env X) s))))])"

definition connectTo :: "plugin_ctx \<Rightarrow> string option \<Rightarrow> string option \<Rightarrow> string option \<Rightarrow> ('m p) effect" where
  "connectTo X host name channel s =
     (case (case host of None \<Rightarrow> Inr None | Some h \<Rightarrow> map_sum id Some (dsh_normalizeHost (px_platform X) h)) of
        Inl e \<Rightarrow> (Some e, s)
      | Inr url \<Rightarrow>
          let s1 = s\<lparr>pl_name := (case name of Some n \<Rightarrow> Some n | None \<Rightarrow> pl_name s),
                     pl_url := (case url of Some u \<Rightarrow> u | None \<Rightarrow> pl_url s)\<rparr>
          in and_then (persist_target url name channel s1) (\<lambda>s2.
             and_then (ensure_room X channel s2) (retarget_to X url name)))"

definition connect_plugin :: "plugin_ctx \<Rightarrow> frame \<Rightarrow> dkont list \<Rightarrow> 'm p \<Rightarrow> 'm p" where
  "connect_plugin X a ks s =
     (let host = optStr (prop_of a ''host''); name = optStr (prop_of a ''name''); channel = optStr (prop_of a ''channel'')
      in if host = None \<and> name = None then ret (DJson (not_ok ''host or name required'')) ks s
         else case connectTo X host name channel s of
                (Some e, s1) \<Rightarrow> throw e ks s1
              | (None, s1) \<Rightarrow> ret (DJson (connect_answer X s1)) ks s1)"

definition inbox_answer :: "msg_event list \<Rightarrow> hub_error list \<Rightarrow> json" where
  "inbox_answer ms es = JObj [(''messages'', JArr (map event_json ms)), (''errors'', JArr (map error_json es))]"

definition invite_plugin :: "plugin_ctx \<Rightarrow> frame \<Rightarrow> dkont list \<Rightarrow> 'm p \<Rightarrow> 'm p" where
  "invite_plugin X a ks s =
     (let who = arg a ''to''; channel = (case optStr (prop_of a ''channel'') of Some c \<Rightarrow> c | None \<Rightarrow> ''general'')
      in if is_agent_id who then dsh_invite (px_env X) who channel (DkInviteTool # ks) s
         else dsh_presence (px_env X) (DkInvitePeers who channel # DkInviteTool # ks) s)"

definition needs_hub :: "dsh_tool \<Rightarrow> bool" where
  \<comment> \<open>the tools that begin with \<open>requireConnected()\<close>\<close>
  "needs_hub t = (t \<in> {PSend, PDm, PInvite, PPeers})"

definition run_tool :: "plugin_ctx \<Rightarrow> dsh_tool \<Rightarrow> frame \<Rightarrow> dkont list \<Rightarrow> 'm p \<Rightarrow> 'm p" where
  "run_tool X t a ks s =
     (let W = px_env X
      in case t of
           PSend \<Rightarrow> dsh_send W (arg a ''channel'') (arg a ''text'') ks s
         | PDm \<Rightarrow> dsh_dm (arg a ''to'') (arg a ''text'') ks s
         | PInvite \<Rightarrow> invite_plugin X a ks s
         | PInbox \<Rightarrow> let (es, s1) = dsh_drainErrors s in ret (DJson (inbox_answer (dsh_inbox s) es)) ks s1
         | PWhois \<Rightarrow> dsh_whois (arg a ''agentId'') ks s
         | PStatus \<Rightarrow> ret (DJson (JObj (status_props (dsh_status W s)))) ks s
         | PPeers \<Rightarrow> dsh_presence W (DkPeers # ks) s
         | PConnect \<Rightarrow> connect_plugin X a ks s)"

definition execute :: "plugin_ctx \<Rightarrow> dsh_tool \<Rightarrow> frame \<Rightarrow> dkont list \<Rightarrow> 'm p \<Rightarrow> 'm p" where
  "execute X t a ks s =
     (if needs_hub t \<and> \<not> dsh_connected s then ret (DJson (not_ok NOT_CONNECTED)) ks s else run_tool X t a ks s)"

section \<open>Continuing a suspended call\<close>

definition peers_answer :: "presence_agent list \<Rightarrow> json" where
  "peers_answer as = JObj [(''agents'', JArr (map agent_json as))]"

definition invite_tool_settled :: "plugin_ctx \<Rightarrow> exn + dvalue \<Rightarrow> dkont list \<Rightarrow> 'm p \<Rightarrow> 'm p" where
  \<comment> \<open>the \<open>catch\<close> of \<open>dap_invite\<close>\<close>
  "invite_tool_settled X out ks s =
     (case out of Inl e \<Rightarrow> ret (DJson (not_ok (exn_String (px_env X) e))) ks s | Inr v \<Rightarrow> ret v ks s)"

fun plugin_resume :: "plugin_ctx \<Rightarrow> exn + dvalue \<Rightarrow> dkont list \<Rightarrow> 'm p \<Rightarrow> 'm p" where
  "plugin_resume X out [] s = s"
| "plugin_resume X out (DkTop n # ks) s = s\<lparr>results := results s @ [(n, out)]\<rparr>"
| "plugin_resume X out (DkInviteTool # ks) s = invite_tool_settled X out ks s"
| "plugin_resume X (Inr (DAgents as)) (DkPeers # ks) s = ret (DJson (peers_answer as)) ks s"
| "plugin_resume X (Inr (DAgents as)) (DkInvitePeers who channel # ks) s = invite_named X who channel as ks s"
| "plugin_resume X (Inr (DAgents as)) (DkDeliver # ks) s = delivery_loop X (length (pl_pending s)) as ks s"
| "plugin_resume X (Inl e) (DkDeliver # ks) s = end_pass (Inl e) ks s"
| "plugin_resume X (Inr v) (DkDelivered i as p # ks) s = delivery_sent X i as p ks s"
| "plugin_resume X (Inl e) (DkDelivered i as p # ks) s = delivery_loop X i as ks s"
| "plugin_resume X (Inl e) (DkPoll # ks) s = effect_or_crash (poll_failed X e s)"
| "plugin_resume X out (k # ks) s = dsh_resume (plugin_hooks X) (px_env X) out k ks s"

section \<open>\<open>apply\<close>\<close>

definition config_overrides :: "plugin_config \<Rightarrow> (string \<times> json) list" where
  "config_overrides c =
     [(''url'', opt_json (pc_url c)), (''keyPath'', opt_json (pc_keyPath c)), (''name'', opt_json (pc_name c)),
      (''channelsFile'', opt_json (pc_channelsFile c))]"

definition plugin_opts :: "plugin_config \<Rightarrow> dsh_settings \<Rightarrow> dsh_opts option" where
  \<comment> \<open>\<open>None\<close>: settings that are not strings\<close>
  "plugin_opts c st =
     (case (st_url st, st_keyPath st, given_str (st_name st), given_str (st_channelsFile st)) of
        (JStr url, JStr key, Some name, Some chf) \<Rightarrow>
          Some \<lparr>dc_url = url, dc_keyPath = key, dc_name = name, dc_channels = pc_channels c,
                dc_channelsFile = (if pc_channels c \<noteq> None then None else chf),
                dc_initialMs = pc_initialMs c, dc_maxMs = pc_maxMs c, dc_clientSecret = st_clientSecret st\<rparr>
      | _ \<Rightarrow> None)"

definition stored_invites :: "host \<Rightarrow> string option \<Rightarrow> json list" where
  \<comment> \<open>\<open>readDapConfig(configFile).invites ?? []\<close>\<close>
  "stored_invites h file =
     (case prop_of (readDapConfig h (case file of Some f \<Rightarrow> f | None \<Rightarrow> defaultConfigFile h)) ''invites'' of
        JArr vs \<Rightarrow> vs
      | _ \<Rightarrow> [])"

datatype installed = Disabled host | Enabled plugin

definition install :: "plugin_ctx \<Rightarrow> plugin_config \<Rightarrow> dsh_opts \<Rightarrow> host \<Rightarrow> plugin result" where
  \<comment> \<open>\<open>new DapClient(...)\<close>, \<open>client.start()\<close> and the rest of \<open>apply\<close>\<close>
  "install X c opts h =
     bind_result (new_dsh (px_env X) opts h) (\<lambda>s.
       case dsh_start (px_env X) s of
         (Some e, s1) \<Rightarrow> Inl e
       | (None, s1) \<Rightarrow>
           let file = optStr (env_var (w_host s1) ''DAP_CONFIG_FILE'')
           in Inr (dsh.extend s1 \<lparr>pl_url = dc_url opts, pl_name = dc_name opts, pl_configFile = file,
                pl_pending = stored_invites (w_host s1) file, pl_delivering = False,
                pl_poller = Some (case pc_invitePollMs c of Some n \<Rightarrow> n | None \<Rightarrow> POLL_MS),
                pl_followups = [], pl_warnings = []\<rparr>))"

definition apply_plugin :: "plugin_ctx \<Rightarrow> plugin_config \<Rightarrow> host \<Rightarrow> installed result option" where
  "apply_plugin X c h =
     (if optStr (env_var h ''DAP_MASTER_SECRET'') = None then Some (Inr (Disabled h))
      else case dsh_resolveDapSettings h (config_overrides c) of
             Inl e \<Rightarrow> Some (Inl e)
           | Inr st \<Rightarrow> map_option (\<lambda>opts. map_sum id Enabled (install X c opts h)) (plugin_opts c st))"

definition disabled_tool :: "dsh_tool \<Rightarrow> frame \<Rightarrow> json" where
  \<comment> \<open>what every tool of a disabled plugin answers\<close>
  "disabled_tool t a = not_ok DISABLED_ERROR"

definition dispose :: "'m p \<Rightarrow> 'm p" where
  "dispose s = dsh_stop (s\<lparr>pl_poller := None\<rparr>)"

end
