(* ===== verification/Dsh_Run.thy ===== *)
theory Dsh_Run
  imports Dsh_Plugin
begin

text \<open>
  Runs of an enabled plugin: the events of its sockets, timers and promises, the poll of the pending
  invites, the tools the host calls, the disposal of the plugin, and what the rest of the machine does.
  The client \<open>apply\<close> returns is used by the plugin only. As for the other client, continuations run in any
  order, the clock does not pass a timer that is due, and nothing happens after an uncaught exception.
\<close>

datatype dlabel =
    ETick nat
  | EOpen sock
  | EMessage sock string
  | EError sock string
  | EClose sock
  | EUnexpected sock nat
  | ERetry nat
  | ETimeout pid
  | EPoll
  | EWatchdog
  | EResume nat
  | ETool nat dsh_tool frame
  | EDispose
  | EOutside host nat

fun possible :: "dlabel \<Rightarrow> plugin \<Rightarrow> bool" where
  "possible (ETick d) s =
     ((\<forall>t \<in> set (ptimers s). now s + d \<le> pt_due t) \<and> (\<forall>r \<in> set (retries s). now s + d \<le> snd r))"
| "possible (EOpen i) s = (i \<in> set (attached s) \<and> sock_of i s = CONNECTING)"
| "possible (EMessage i raw) s = (i \<in> set (attached s) \<and> (sock_of i s = OPEN \<or> sock_of i s = CLOSING))"
| "possible (EError i e) s = (i \<in> set (attached s))"
| "possible (EClose i) s = (i \<in> set (attached s) \<and> sock_of i s \<noteq> CLOSED)"
| "possible (EUnexpected i st) s = (i \<in> set (attached s) \<and> sock_of i s = CONNECTING)"
| "possible (ERetry h) s = (\<exists>r \<in> set (retries s). fst r = h \<and> snd r \<le> now s)"
| "possible (ETimeout p) s = (\<exists>t \<in> set (ptimers s). pt_pid t = p \<and> pt_due t \<le> now s)"
| "possible EPoll s = (pl_poller s \<noteq> None)"
| "possible EWatchdog s = (watching s \<noteq> None)"
| "possible (EResume n) s = (n < length (micro s))"
| "possible (EOutside h k) s = (env h = env (w_host s) \<and> homedir h = homedir (w_host s) \<and> hostname h = hostname (w_host s))"
| "possible _ s = True"

definition dsh_timeout_fires :: "pid \<Rightarrow> plugin \<Rightarrow> plugin" where
  "dsh_timeout_fires p s =
     (case filter (\<lambda>t. pt_pid t = p \<and> pt_due t \<le> now s) (ptimers s) of
        [] \<Rightarrow> s
      | t # _ \<Rightarrow> dsh_timeout t s)"

definition plugin_resume_nth :: "plugin_ctx \<Rightarrow> nat \<Rightarrow> plugin \<Rightarrow> plugin" where
  "plugin_resume_nth X n s =
     (case micro s ! n of (out, ks) \<Rightarrow> plugin_resume X out ks (s\<lparr>micro := drop_at n (micro s)\<rparr>))"

fun happens :: "plugin_ctx \<Rightarrow> dlabel \<Rightarrow> plugin \<Rightarrow> plugin" where
  "happens X (ETick d) s = s\<lparr>now := now s + d\<rparr>"
| "happens X (EOpen i) s = dsh_on_open (px_env X) i (set_sock i OPEN s)"
| "happens X (EMessage i raw) s = dsh_on_message (plugin_hooks X) (px_env X) i raw s"
| "happens X (EError i e) s = dsh_on_error i e s"
| "happens X (EClose i) s = dsh_on_close i (detach i (set_sock i CLOSED s))"
| "happens X (EUnexpected i st) s = dsh_on_unexpected (plugin_hooks X) (px_env X) i st s"
| "happens X (ERetry h) s = dsh_retry (px_env X) h s"
| "happens X (ETimeout p) s = dsh_timeout_fires p s"
| "happens X EPoll s = pollPending X s"
| "happens X EWatchdog s = (case watching s of None \<Rightarrow> s | Some i \<Rightarrow> close_sock i (s\<lparr>watching := None\<rparr>))"
| "happens X (EResume n) s = plugin_resume_nth X n s"
| "happens X (ETool n t a) s = execute X t a [DkTop n] s"
| "happens X EDispose s = dispose s"
| "happens X (EOutside h k) s = s\<lparr>w_host := h, n_random := n_random s + k\<rparr>"

inductive plugin_step :: "plugin_ctx \<Rightarrow> plugin \<Rightarrow> dlabel \<Rightarrow> plugin \<Rightarrow> bool" for X where
  step: "\<not> crashed s \<Longrightarrow> possible l s \<Longrightarrow> plugin_step X s l (happens X l s)"

inductive plugin_run :: "plugin_ctx \<Rightarrow> plugin \<Rightarrow> dlabel list \<Rightarrow> plugin \<Rightarrow> bool" for X where
  refl: "plugin_run X s [] s"
| snoc: "plugin_run X s ls s' \<Longrightarrow> plugin_step X s' l s'' \<Longrightarrow> plugin_run X s (ls @ [l]) s''"

inductive_cases plugin_stepE: "plugin_step X s l s'"
inductive_simps plugin_run_Nil: "plugin_run X s [] s'"

fun plugin_steps :: "plugin_ctx \<Rightarrow> dlabel list \<Rightarrow> plugin \<Rightarrow> plugin option" where
  \<comment> \<open>the run of these labels, if each is possible in its turn\<close>
  "plugin_steps X [] s = Some s"
| "plugin_steps X (l # ls) s = (if crashed s \<or> \<not> possible l s then None else plugin_steps X ls (happens X l s))"

lemma plugin_run_append: "plugin_run X s' ls' s'' \<Longrightarrow> plugin_run X s ls s' \<Longrightarrow> plugin_run X s (ls @ ls') s''"
  by (induction rule: plugin_run.induct) (auto intro: plugin_run.snoc simp flip: append_assoc)

lemma plugin_steps_run: "plugin_steps X ls s = Some s' \<Longrightarrow> plugin_run X s ls s'"
proof (induction ls arbitrary: s)
  case (Cons l ls)
  then have "plugin_step X s l (happens X l s)" "plugin_run X (happens X l s) ls s'"
    by (auto intro: plugin_step.step split: if_splits)
  with plugin_run_append [of X "happens X l s" ls s' s "[l]"] plugin_run.snoc [OF plugin_run.refl]
  show ?case by fastforce
qed (auto intro: plugin_run.refl)

lemma plugin_invariant:
  assumes "plugin_run X s ls s'" "P s" "\<And>s l s'. plugin_step X s l s' \<Longrightarrow> P s \<Longrightarrow> P s'"
  shows "P s'"
  using assms by (induction rule: plugin_run.induct) auto

text \<open>The state \<open>apply\<close> leaves behind.\<close>

definition installs :: "plugin_ctx \<Rightarrow> plugin_config \<Rightarrow> host \<Rightarrow> plugin \<Rightarrow> bool" where
  "installs X c h s = (apply_plugin X c h = Some (Inr (Enabled s)))"

lemma installs_cases:
  assumes "installs X c h s"
  obtains opts s0 s1 where "new_dsh (px_env X) opts h = Inr s0" "dsh_start (px_env X) s0 = (None, s1)"
    and "s = dsh.extend s1 \<lparr>pl_url = dc_url opts, pl_name = dc_name opts, pl_configFile = optStr (env_var (w_host s1) ''DAP_CONFIG_FILE''),
           pl_pending = stored_invites (w_host s1) (optStr (env_var (w_host s1) ''DAP_CONFIG_FILE'')), pl_delivering = False,
           pl_poller = Some (case pc_invitePollMs c of Some n \<Rightarrow> n | None \<Rightarrow> POLL_MS), pl_followups = [], pl_warnings = []\<rparr>"
    and "optStr (env_var h ''DAP_MASTER_SECRET'') \<noteq> None"
  using assms
  by (auto simp: installs_def apply_plugin_def install_def bind_result_def map_sum_def Let_def
      split: if_splits sum.splits option.splits prod.splits)

lemma new_dsh_fields:
  assumes "new_dsh W opts h = Inr s"
  shows "parked s = []" "micro s = []" "ptimers s = []" "results s = []" "d_inboxMsgs s = []" "d_errorRing s = []"
    "crashed s = False" "d_echoSeen s = False" "retries s = []" "d_delay s = d_initialMs s" "delivered s = []" "hooked s = []"
    "d_presenceWaiters s = []" "d_whoisWaiters s = []" "d_readyWaiters s = []" "d_welcomed s = False" "n_pid s = 0" "now s = 0"
    "attached s = []" "socks s = []" "n_sock s = 0" "wire s = []" "d_known s = []" "d_stopped s = False" "d_reEnrolled s = False"
    "watching s = None" "dialed s = []" "d_url s = dc_url opts" "d_name s = dc_name opts"
    "d_clientSecret s = dc_clientSecret opts"
  using assms by (auto simp: new_dsh_def bind_result_Inr_iff split: prod.splits)

lemma dsh_start_dials:
  assumes "dsh_start W s = (None, t)"
  shows "t = s\<lparr>d_stopped := False,
      d_enrollMode := (case dialAuth (w_host s) (d_clientSecret s) of Some a \<Rightarrow> at_enroll a | None \<Rightarrow> False),
      d_dialSource := map_option at_source (dialAuth (w_host s) (d_clientSecret s)), n_sock := n_sock s + 1,
      socks := jm_set (n_sock s) CONNECTING (socks s), attached := js_add (n_sock s) (attached s),
      dialed := dialed s @ [(d_url s, map_option at_token (dialAuth (w_host s) (d_clientSecret s)))], d_ws := Some (n_sock s)\<rparr>"
    and "ce_url_ok W (d_url s)"
  using assms by (simp_all add: dsh_start_def dsh_connect_def Let_def split: if_splits)

lemma installs_fields:
  assumes "installs X c h s"
  shows "parked s = []" "micro s = []" "ptimers s = []" "results s = []" "pl_delivering s = False" "d_inboxMsgs s = []"
    "d_errorRing s = []" "crashed s = False" "d_echoSeen s = False" "retries s = []" "d_delay s = d_initialMs s"
    "delivered s = []" "hooked s = []" "d_presenceWaiters s = []" "d_whoisWaiters s = []" "d_readyWaiters s = []"
    "d_welcomed s = False" "d_ws s = Some 0" "n_pid s = 0" "now s = 0" "attached s = [0]" "socks s = [(0, CONNECTING)]"
    "n_sock s = 1" "wire s = []" "d_known s = []" "d_stopped s = False" "d_reEnrolled s = False" "watching s = None"
    "pl_followups s = []" "pl_warnings s = []" "pl_url s = d_url s" "pl_name s = d_name s"
proof -
  from assms obtain opts s0 s1 where n: "new_dsh (px_env X) opts h = Inr s0" and st: "dsh_start (px_env X) s0 = (None, s1)"
    and s: "s = dsh.extend s1 \<lparr>pl_url = dc_url opts, pl_name = dc_name opts, pl_configFile = optStr (env_var (w_host s1) ''DAP_CONFIG_FILE''),
           pl_pending = stored_invites (w_host s1) (optStr (env_var (w_host s1) ''DAP_CONFIG_FILE'')), pl_delivering = False,
           pl_poller = Some (case pc_invitePollMs c of Some n \<Rightarrow> n | None \<Rightarrow> POLL_MS), pl_followups = [], pl_warnings = []\<rparr>"
    by (rule installs_cases)
  note f = new_dsh_fields [OF n]
  note t = dsh_start_dials(1) [OF st]
  show "parked s = []" "micro s = []" "ptimers s = []" "results s = []" "pl_delivering s = False" "d_inboxMsgs s = []"
    "d_errorRing s = []" "crashed s = False" "d_echoSeen s = False" "retries s = []" "d_delay s = d_initialMs s"
    "delivered s = []" "hooked s = []" "d_presenceWaiters s = []" "d_whoisWaiters s = []" "d_readyWaiters s = []"
    "d_welcomed s = False" "d_ws s = Some 0" "n_pid s = 0" "now s = 0" "attached s = [0]" "socks s = [(0, CONNECTING)]"
    "n_sock s = 1" "wire s = []" "d_known s = []" "d_stopped s = False" "d_reEnrolled s = False" "watching s = None"
    "pl_followups s = []" "pl_warnings s = []" "pl_url s = d_url s" "pl_name s = d_name s"
    unfolding s t by (simp_all add: f dsh.defs js_add_def)
qed

end
