(* ===== verification/Dsh_Count.thy ===== *)
theory Dsh_Count
  imports Dsh_Run Client_Steps
begin

text \<open>
  The accounting of \<open>Client_Async_Ok\<close> for the plugin: every value suits the continuation it goes to, every
  promise somebody waits for has one timer, and continuations are neither lost nor copied. The hooks the
  client calls have to keep the accounts; that is the contract \<open>counted_hooks\<close>, which the plugin's hooks meet.
\<close>

datatype dty = DtUnit | DtInfo | DtNoInfo | DtFrame | DtWhois | DtAgents | DtJson

fun dtype :: "dvalue \<Rightarrow> dty" where
  "dtype DUnit = DtUnit"
| "dtype (DInfo None) = DtNoInfo"
| "dtype (DInfo (Some _)) = DtInfo"
| "dtype (DFrame _) = DtFrame"
| "dtype (DWhois _) = DtWhois"
| "dtype (DAgents _) = DtAgents"
| "dtype (DJson _) = DtJson"

fun dtakes :: "dkont \<Rightarrow> dty \<Rightarrow> bool" where
  "dtakes (DkInfo _) t = (t = DtInfo \<or> t = DtNoInfo)"
| "dtakes (DkWhois _) t = (t = DtInfo)"
| "dtakes DkPresence t = (t = DtFrame)"
| "dtakes (DkWarm _) t = (t = DtFrame)"
| "dtakes (DkSend _ _ _) t = (t = DtUnit)"
| "dtakes (DkDmInfo _ _) t = (t = DtInfo)"
| "dtakes (DkDmReady _ _ _) t = (t = DtUnit)"
| "dtakes (DkMsg _) t = (t = DtInfo)"
| "dtakes DkPeers t = (t = DtAgents)"
| "dtakes DkInviteTool t = (t = DtUnit \<or> t = DtJson)"
| "dtakes (DkInvitePeers _ _) t = (t = DtAgents)"
| "dtakes DkDeliver t = (t = DtAgents)"
| "dtakes (DkDelivered _ _ _) t = (t = DtUnit)"
| "dtakes DkPoll t = (t = DtUnit)"
| "dtakes _ t = True"

fun dgives :: "dkont \<Rightarrow> dty list" where
  \<comment> \<open>none: the end of a chain\<close>
  "dgives (DkInfo _) = [DtInfo]"
| "dgives (DkWhois _) = [DtWhois]"
| "dgives DkPresence = [DtAgents]"
| "dgives (DkSend _ _ _) = [DtUnit]"
| "dgives (DkDmInfo _ _) = [DtUnit]"
| "dgives (DkDmReady _ _ _) = [DtUnit]"
| "dgives DkPeers = [DtJson]"
| "dgives DkInviteTool = [DtUnit, DtJson]"
| "dgives (DkInvitePeers _ _) = [DtUnit, DtJson]"
| "dgives DkDeliver = [DtUnit]"
| "dgives (DkDelivered _ _ _) = [DtUnit]"
| "dgives _ = []"

fun dstack_ok :: "dty \<Rightarrow> dkont list \<Rightarrow> bool" where
  "dstack_ok t [] = False"
| "dstack_ok t (k # ks) =
     (dtakes k t \<and> (if dgives k = [] then ks = [] else list_all (\<lambda>t'. dstack_ok t' ks) (dgives k)))"

definition dsuits :: "exn + dvalue \<Rightarrow> dkont list \<Rightarrow> bool" where
  "dsuits out ks = (case out of Inl _ \<Rightarrow> (\<exists>t. dstack_ok t ks) | Inr v \<Rightarrow> dstack_ok (dtype v) ks)"

lemma dsuits_simps [simp]:
  "dsuits (Inl e) ks = (\<exists>t. dstack_ok t ks)"
  "dsuits (Inr v) ks = dstack_ok (dtype v) ks"
  by (simp_all add: dsuits_def)

text \<open>Which promises the client's lists of waiters hold, and what each may be fulfilled with.\<close>

definition dwaits :: "plugin \<Rightarrow> (pid \<times> dty) set" where
  "dwaits s =
     {(p, t) |p t. p \<in> set (concat (map snd (d_whoisWaiters s))) \<and> (t = DtInfo \<or> t = DtNoInfo)}
     \<union> {(p, DtUnit) |p. p \<in> set (d_readyWaiters s)}
     \<union> {(p, DtFrame) |p. p \<in> snd ` set (d_presenceWaiters s)}"

lemma dwaits_mem:
  "(p, t) \<in> dwaits s \<longleftrightarrow>
     (t = DtInfo \<or> t = DtNoInfo) \<and> p \<in> set (concat (map snd (d_whoisWaiters s)))
     \<or> t = DtUnit \<and> p \<in> set (d_readyWaiters s)
     \<or> t = DtFrame \<and> p \<in> snd ` set (d_presenceWaiters s)"
  unfolding dwaits_def by blast

definition dparked_ok :: "(pid, dkont list) jsmap \<Rightarrow> nat \<Rightarrow> bool" where
  "dparked_ok pk n = (distinct (jm_keys pk) \<and> (\<forall>p ks. map_of pk p = Some ks \<longrightarrow> p < n \<and> (\<exists>t. dstack_ok t ks)))"

definition dwaits_ok :: "(pid \<times> dty) set \<Rightarrow> (pid, dkont list) jsmap \<Rightarrow> nat \<Rightarrow> bool" where
  "dwaits_ok wt pk n = (\<forall>p t. (p, t) \<in> wt \<longrightarrow> p < n \<and> (\<forall>ks. map_of pk p = Some ks \<longrightarrow> dstack_ok t ks))"

definition dmicro_ok :: "((exn + dvalue) \<times> dkont list) list \<Rightarrow> bool" where
  "dmicro_ok ms = list_all (\<lambda>(out, ks). dsuits out ks) ms"

definition counted :: "plugin \<Rightarrow> bool" where
  "counted s =
     (dparked_ok (parked s) (n_pid s) \<and> timers_ok (ptimers s) (fst ` set (parked s)) (now s)
      \<and> dmicro_ok (micro s) \<and> dwaits_ok (dwaits s) (parked s) (n_pid s)
      \<and> (\<forall>t \<in> set (ptimers s). \<forall>c. pt_kind t \<noteq> TJoin c))"

lemma countedI:
  "dparked_ok (parked s) (n_pid s) \<Longrightarrow> timers_ok (ptimers s) (fst ` set (parked s)) (now s) \<Longrightarrow>
   dmicro_ok (micro s) \<Longrightarrow> dwaits_ok (dwaits s) (parked s) (n_pid s) \<Longrightarrow>
   \<forall>t \<in> set (ptimers s). \<forall>c. pt_kind t \<noteq> TJoin c \<Longrightarrow> counted s"
  by (simp add: counted_def)

definition dcore :: "plugin \<Rightarrow> _" where
  "dcore s = (parked s, micro s, n_pid s, ptimers s, now s, results s, pl_delivering s)"

lemma counted_core: "dcore s' = dcore s \<Longrightarrow> dwaits s' \<subseteq> dwaits s \<Longrightarrow> counted s \<Longrightarrow> counted s'"
  unfolding counted_def dcore_def dwaits_ok_def by auto

lemma dwaits_other [simp]:
  "dwaits (s\<lparr>micro := a\<rparr>) = dwaits s" "dwaits (s\<lparr>parked := b\<rparr>) = dwaits s" "dwaits (s\<lparr>ptimers := c\<rparr>) = dwaits s"
  "dwaits (s\<lparr>n_pid := n\<rparr>) = dwaits s" "dwaits (s\<lparr>pl_delivering := e\<rparr>) = dwaits s" "dwaits (s\<lparr>now := t\<rparr>) = dwaits s"
  "dwaits (s\<lparr>results := r\<rparr>) = dwaits s"
  by (simp_all add: dwaits_def)

lemma counted_del:
  assumes "counted s"
  shows "counted (s\<lparr>parked := jm_del p (parked s), ptimers := filter (\<lambda>t. pt_pid t \<noteq> p) (ptimers s)\<rparr>)"
proof (rule countedI)
  show "dparked_ok (parked (s\<lparr>parked := jm_del p (parked s), ptimers := filter (\<lambda>t. pt_pid t \<noteq> p) (ptimers s)\<rparr>))
      (n_pid (s\<lparr>parked := jm_del p (parked s), ptimers := filter (\<lambda>t. pt_pid t \<noteq> p) (ptimers s)\<rparr>))"
    using assms by (auto simp: counted_def dparked_ok_def jm_del_def distinct_map_filter map_of_jm_del [unfolded jm_del_def]
        split: if_splits)
qed (use assms in \<open>auto simp: counted_def dwaits_ok_def parked_keys_del timers_ok_del split: if_splits\<close>)

lemma counted_schedule: "counted s \<Longrightarrow> dsuits out ks \<Longrightarrow> counted (schedule out ks s)"
  by (simp add: counted_def schedule_def dmicro_ok_def)

text \<open>A new promise, with a continuation for each of the types \<open>ts\<close> of the values it may get.\<close>

lemma counted_promise:
  assumes "counted s" "\<forall>t \<in> ts. dstack_ok t ks" "ts \<noteq> {}" "dwaits s' \<subseteq> {n_pid s} \<times> ts \<union> dwaits s"
    and "dcore s' = dcore (new_promise READY_TIMEOUT_MS k ks s)" "\<forall>c. k \<noteq> TJoin c"
  shows "counted s'"
proof -
  have fresh: "map_of (parked s) (n_pid s) = None"
    using assms(1) by (auto simp: counted_def dparked_ok_def intro: ccontr)
  then have new: "n_pid s \<notin> fst ` set (parked s)" by (simp add: map_of_eq_None_iff)
  have s': "parked s' = jm_set (n_pid s) ks (parked s)" "n_pid s' = n_pid s + 1" "micro s' = micro s"
    "ptimers s' = ptimers s @ [\<lparr>pt_pid = n_pid s, pt_due = now s + READY_TIMEOUT_MS, pt_kind = k\<rparr>]" "now s' = now s"
    using assms(5) by (simp_all add: dcore_def new_promise_def)
  have keys: "fst ` set (jm_set (n_pid s) ks (parked s)) = insert (n_pid s) (fst ` set (parked s))"
    using js_map.keys_put [of "n_pid s" ks "parked s"] by simp
  show ?thesis
  proof (rule countedI)
    show "dparked_ok (parked s') (n_pid s')"
      using assms(1-3) js_map.ok_put [of "parked s" "n_pid s" ks] by (auto simp: s' counted_def dparked_ok_def less_Suc_eq)
    show "timers_ok (ptimers s') (fst ` set (parked s')) (now s')"
      using assms(1) new by (auto simp: s' keys counted_def timers_ok_def READY_TIMEOUT_MS_def WAIT_MS_def)
    show "dmicro_ok (micro s')" using assms(1) by (simp add: s' counted_def)
    have "p < n_pid s + 1 \<and> (\<forall>ks'. map_of (jm_set (n_pid s) ks (parked s)) p = Some ks' \<longrightarrow> dstack_ok ty ks')"
      if "(p, ty) \<in> {n_pid s} \<times> ts \<union> dwaits s" for p ty
      using that assms(1,2) unfolding counted_def dwaits_ok_def by (auto simp: less_Suc_eq)
    with assms(4) show "dwaits_ok (dwaits s') (parked s') (n_pid s')"
      unfolding dwaits_ok_def s' by blast
    show "\<forall>t \<in> set (ptimers s'). \<forall>c. pt_kind t \<noteq> TJoin c"
      using assms(1,6) by (auto simp: s' counted_def)
  qed
qed

definition dages :: "plugin \<Rightarrow> plugin \<Rightarrow> bool" where
  "dages s s' = (n_pid s \<le> n_pid s' \<and> (\<forall>t \<in> set (ptimers s'). pt_pid t < n_pid s \<longrightarrow> t \<in> set (ptimers s)))"

lemma dages_refl [simp]: "dages s s"
  by (simp add: dages_def)

lemma dages_trans: "dages s s1 \<Longrightarrow> dages s1 s2 \<Longrightarrow> dages s s2"
  by (auto simp: dages_def)

section \<open>Weights\<close>

text \<open>As in \<open>kont_count\<close>: the caller of the \<open>n\<close>-th tool weighs \<open>r n\<close>, a pass over the pending invites \<open>d\<close>.\<close>

locale dsh_count =
  fixes mu :: "dkont \<Rightarrow> nat" and r :: "nat \<Rightarrow> nat" and d :: nat
  assumes mu_simps:
    "mu (DkTop n) = r n" "mu DkNobody = 0" "mu (DkInfo a) = 0" "mu (DkWhois a) = 0" "mu DkPresence = 0" "mu (DkWarm i) = 0"
    "mu (DkSend a b ch) = 0" "mu (DkDmInfo a b) = 0" "mu (DkDmReady a b info) = 0" "mu (DkMsg f) = 0" "mu DkPeers = 0"
    "mu DkInviteTool = 0" "mu (DkInvitePeers a b) = 0" "mu DkDeliver = d" "mu (DkDelivered i as p) = d" "mu DkPoll = 0"
begin

definition mus :: "dkont list \<Rightarrow> nat" where
  "mus ks = sum_list (map mu ks)"

lemma mus_simps [simp]: "mus [] = 0" "mus (k # ks) = mu k + mus ks"
  by (simp_all add: mus_def)

definition total :: "plugin \<Rightarrow> nat" where
  "total s = sum_list (map (\<lambda>(p, ks). mus ks) (parked s)) + sum_list (map (\<lambda>(out, ks). mus ks) (micro s))
     + sum_list (map (\<lambda>(n, out). r n) (results s)) + (if pl_delivering s then 0 else d)"

text \<open>\<open>adds m s s'\<close>: the step from \<open>s\<close> to \<open>s'\<close> keeps the invariant, adds the weight \<open>m\<close>, and changes no old timer.\<close>

definition adds :: "nat \<Rightarrow> plugin \<Rightarrow> plugin \<Rightarrow> bool" where
  "adds m s s' = (counted s \<longrightarrow> counted s' \<and> total s' = total s + m \<and> dages s s')"

lemma adds_refl [simp]: "adds 0 s s"
  by (simp add: adds_def)

lemma adds_trans: "adds m s s1 \<Longrightarrow> adds n s1 s2 \<Longrightarrow> adds (m + n) s s2"
  by (auto simp: adds_def intro: dages_trans)

lemma adds_then: "adds 0 s s1 \<Longrightarrow> adds m s1 s2 \<Longrightarrow> adds m s s2"
  using adds_trans by fastforce

lemma adds_after: "adds m s s1 \<Longrightarrow> adds 0 s1 s2 \<Longrightarrow> adds m s s2"
  using adds_trans by fastforce

lemma adds_frame: "dcore s' = dcore s \<Longrightarrow> dwaits s' \<subseteq> dwaits s \<Longrightarrow> adds 0 s s'"
  unfolding adds_def using counted_core [of s' s] by (simp add: dcore_def total_def dages_def)

lemma adds_schedule: "dsuits out ks \<Longrightarrow> adds (mus ks) s (schedule out ks s)"
  by (simp add: adds_def counted_schedule, simp add: total_def schedule_def dages_def)

lemma adds_ret: "dstack_ok (dtype v) ks \<Longrightarrow> adds (mus ks) s (ret v ks s)"
  by (simp add: ret_def adds_schedule)

lemma adds_throw: "dstack_ok t ks \<Longrightarrow> adds (mus ks) s (throw e ks s)"
  by (auto simp: throw_def intro!: adds_schedule)

lemma adds_settle:
  assumes "\<And>ks. map_of (parked s) p = Some ks \<Longrightarrow> counted s \<Longrightarrow> dsuits out ks"
  shows "adds 0 s (settle out p s)"
proof (cases "map_of (parked s) p")
  case None
  then show ?thesis by (simp add: settle_def)
next
  case (Some ks)
  show ?thesis
    unfolding adds_def
  proof (intro impI conjI)
    assume ok: "counted s"
    show "counted (settle out p s)"
      using assms [OF Some ok] counted_del [OF ok] by (simp add: settle_def Some counted_schedule)
    show "total (settle out p s) = total s + 0"
      using ok sum_values_del [of "parked s" p ks mus] Some
      by (simp add: settle_def total_def schedule_def counted_def dparked_ok_def)
    show "dages s (settle out p s)"
      by (simp add: settle_def schedule_def dages_def Some)
  qed
qed

lemma adds_settle_err: "adds 0 s (settle (Inl e) p s)"
  by (rule adds_settle) (auto simp: counted_def dparked_ok_def)

lemma adds_settle_val: "(p, dtype v) \<in> dwaits s \<Longrightarrow> adds 0 s (settle (Inr v) p s)"
  by (rule adds_settle) (auto simp: counted_def dwaits_ok_def)

lemma dwaits_settle [simp]: "dwaits (settle out p s) = dwaits s"
  by (simp add: settle_def schedule_def dwaits_def split: option.splits)

lemma dwaits_settle_all [simp]: "dwaits (settle_all out ps s) = dwaits s"
  unfolding settle_all_def by (induction ps arbitrary: s) simp_all

lemma adds_settle_all_err: "adds 0 s (settle_all (Inl e) ps s)"
  unfolding settle_all_def
  by (induction ps arbitrary: s) (auto intro: adds_then adds_settle_err)

lemma adds_settle_all_val: "\<forall>p \<in> set ps. (p, dtype v) \<in> dwaits s \<Longrightarrow> adds 0 s (settle_all (Inr v) ps s)"
  unfolding settle_all_def
  by (induction ps arbitrary: s) (auto intro: adds_then adds_settle_val)

lemma adds_promise:
  assumes "\<forall>t \<in> ts. dstack_ok t ks" "ts \<noteq> {}" "dwaits s' \<subseteq> {n_pid s} \<times> ts \<union> dwaits s"
    and "dcore s' = dcore (new_promise READY_TIMEOUT_MS k ks s)" "\<forall>c. k \<noteq> TJoin c"
  shows "adds (mus ks) s s'"
  unfolding adds_def
proof (intro impI conjI)
  assume ok: "counted s"
  show "counted s'" by (rule counted_promise [OF ok assms])
  have "map_of (parked s) (n_pid s) = None"
    using ok by (auto simp: counted_def dparked_ok_def intro: ccontr)
  then have "n_pid s \<notin> fst ` set (parked s)"
    by (simp add: map_of_eq_None_iff)
  then have "jm_set (n_pid s) ks (parked s) = parked s @ [(n_pid s, ks)]"
    by (rule jm_set_fresh)
  with assms(4) show "total s' = total s + mus ks"
    by (simp add: total_def dcore_def new_promise_def)
  show "dages s s'" using assms(4) by (auto simp: dages_def dcore_def new_promise_def)
qed

end

end
