(* ===== verification/Dsh_Sound.thy ===== *)
theory Dsh_Sound
  imports Dsh_Count
begin

text \<open>
  The operations of the client keep the accounts of \<open>Dsh_Count\<close>, whatever hooks it was given, as long as
  those keep them; the plugin's hooks and its own operations do.
\<close>

text \<open>The state is changed in fields the accounting does not look at.\<close>

definition dsame :: "plugin \<Rightarrow> plugin \<Rightarrow> bool" where
  "dsame s s' = (dcore s' = dcore s \<and> d_whoisWaiters s' = d_whoisWaiters s \<and> d_readyWaiters s' = d_readyWaiters s
     \<and> d_presenceWaiters s' = d_presenceWaiters s)"

lemma dsame_refl [simp, intro]: "dsame s s"
  by (simp add: dsame_def)

lemma dsame_trans [trans]: "dsame s s1 \<Longrightarrow> dsame s1 s2 \<Longrightarrow> dsame s s2"
  by (simp add: dsame_def)

lemma dsame_waits: "dsame s s' \<Longrightarrow> dwaits s' = dwaits s"
  by (simp add: dsame_def dwaits_def)

lemma dsame_and_then:
  "dsame s (snd x) \<Longrightarrow> (\<And>s'. dsame s s' \<Longrightarrow> dsame s (snd (f s'))) \<Longrightarrow> dsame s (snd (and_then x f))"
  by (simp add: and_then_case)

lemma dwaits_sub:
  assumes "set (concat (map snd (d_whoisWaiters s'))) \<subseteq> A \<union> set (concat (map snd (d_whoisWaiters s)))"
    and "set (d_readyWaiters s') \<subseteq> B \<union> set (d_readyWaiters s)"
    and "snd ` set (d_presenceWaiters s') \<subseteq> C \<union> snd ` set (d_presenceWaiters s)"
  shows "dwaits s' \<subseteq> A \<times> {DtInfo, DtNoInfo} \<union> B \<times> {DtUnit} \<union> C \<times> {DtFrame} \<union> dwaits s"
  using assms unfolding subset_iff [of "dwaits s'"] by (simp only: dwaits_mem split_paired_All Un_iff mem_Sigma_iff) blast

lemma waiters_settle [simp]:
  "d_whoisWaiters (settle out p s) = d_whoisWaiters s" "d_readyWaiters (settle out p s) = d_readyWaiters s"
  "d_presenceWaiters (settle out p s) = d_presenceWaiters s"
  by (simp_all add: settle_def schedule_def split: option.splits)

lemma waiters_settle_all [simp]:
  "d_whoisWaiters (settle_all out ps s) = d_whoisWaiters s" "d_readyWaiters (settle_all out ps s) = d_readyWaiters s"
  "d_presenceWaiters (settle_all out ps s) = d_presenceWaiters s"
  unfolding settle_all_def by (induction ps arbitrary: s) simp_all

lemma settle_woken: "settle out p (s\<lparr>d_readyWaiters := x\<rparr>) = (settle out p s)\<lparr>d_readyWaiters := x\<rparr>"
  by (simp add: settle_def schedule_def split: option.splits)

lemma settle_all_woken: "settle_all out ps (s\<lparr>d_readyWaiters := x\<rparr>) = (settle_all out ps s)\<lparr>d_readyWaiters := x\<rparr>"
  unfolding settle_all_def by (induction ps arbitrary: s) (simp_all add: settle_woken)

lemma snd_jm_set: "snd ` set (jm_set k v m) \<subseteq> {v} \<union> snd ` set m"
  by (induction k v m rule: jm_set.induct) auto

named_theorems dsame_ops

lemma dsame_fields [dsame_ops]:
  "dsame s (push_frame i f s)" "dsame s (close_sock i s)" "dsame s (take_random s)" "dsame s (take_uuid s)" "dsame s (crash s)"
  "dsame s (set_sock i st s)" "dsame s (detach i s)" "dsame s (clear_timer_handle h s)" "dsame s (dsh_close_ws s)"
  "dsame s (dsh_persist_keys n k s)" "dsame s (snd (dsh_drainErrors s))"
  by (simp_all add: push_frame_def close_sock_def take_random_def take_uuid_def crash_def set_sock_def detach_def
      clear_timer_handle_def dsh_close_ws_def dsh_persist_keys_def dsh_drainErrors_def dsame_def dcore_def split: option.splits)

lemma dsame_ws_send [dsame_ops]: "dsame s (snd (dsh_ws_send f s))"
  by (simp add: dsh_ws_send_def dsame_ops split: option.splits sock_state.splits)

lemma dsame_signAndSend [dsame_ops]: "dsame s (snd (dsh_signAndSend W f s))"
  by (simp add: dsh_signAndSend_def dsame_ops split: option.splits sum.splits)

lemma dsame_join [dsame_ops]: "dsame s (snd (dsh_join c pub s))"
  by (simp add: dsh_join_def dsame_ops)

lemma dsame_channels: "dsame s (s\<lparr>d_channels := c\<rparr>)"
  by (simp add: dsame_def dcore_def)

lemma dsame_createChannel [dsame_ops]: "dsame s (snd (snd (createChannel W c s)))"
proof -
  let ?k = "newChannelKeypair (ce_crypto W) (ce_random W (n_random s) 32)"
  let ?e = "\<lparr>ch_name = c, ch_pub = ck_pub ?k, ch_priv = Some (ck_priv ?k)\<rparr>"
  let ?s = "dsh_persist_keys c ?k (take_random (s\<lparr>d_channels := jm_set c ?e (d_channels s)\<rparr>))"
  have "dsame s ?s"
    using dsame_trans [OF dsame_trans [OF dsame_channels dsame_fields(3)] dsame_fields(10)] .
  then have "dsame s (snd (dsh_join c (ck_pub ?k) ?s))"
    by (rule dsame_trans) (rule dsame_join)
  then show ?thesis by (simp add: createChannel_def Let_def split_beta)
qed

lemma dsame_ensureChannel [dsame_ops]: "dsame s (snd (snd (dsh_ensureChannel W c s)))"
  by (simp add: dsh_ensureChannel_def dsame_ops split: option.splits)

lemma dsame_acceptInvite [dsame_ops]: "dsame s (snd (acceptInvite i s))"
  unfolding acceptInvite_def by (rule dsame_trans [OF dsame_trans [OF dsame_channels dsame_fields(10)] dsame_join])

lemma dsame_post [dsame_ops]: "dsame s (snd (dsh_post W fld peer text pub s))"
proof -
  have "dsame s (take_random (take_uuid s))" by (rule dsame_trans [OF dsame_fields(4) dsame_fields(3)])
  then show ?thesis
    by (auto simp: dsh_post_def Let_def intro: dsame_trans dsame_signAndSend split: sum.splits)
qed

lemma dsame_connect [dsame_ops]: "dsame s (snd (dsh_connect W s))"
  by (simp add: dsh_connect_def Let_def dsame_def dcore_def)

lemma dsame_swap_identity [dsame_ops]: "dsame s (snd (swap_identity W p s))"
  by (simp add: swap_identity_def dsame_def dcore_def split: option.splits list.splits sum.splits prod.splits)

lemma dsame_sendHello [dsame_ops]: "dsame s (snd (dsh_sendHello W s))"
proof -
  have "dsame s (take_random (s\<lparr>d_hellos := d_hellos s + 1\<rparr>))" by (simp add: take_random_def dsame_def dcore_def)
  then show ?thesis
    by (auto simp: dsh_sendHello_def Let_def intro: dsame_trans dsame_ws_send split: sum.splits)
qed

lemma dsame_persist_secret [dsame_ops]: "dsame s (snd (persist_secret_now u s))"
  by (simp add: persist_secret_now_def dsame_def dcore_def split: sum.splits)

lemma dsame_notices [dsame_ops]: "dsame s (snd (followup X t s))" "dsame s (snd (logger_warn X t s))"
  by (simp_all add: followup_def logger_warn_def dsame_def dcore_def split: option.splits)

lemma dsame_persistInvites [dsame_ops]: "dsame s (snd (persistInvites s))"
  by (simp add: persistInvites_def Let_def dsame_def dcore_def split: sum.splits option.splits)

lemma dsame_persist_target [dsame_ops]: "dsame s (snd (persist_target url name channel s))"
  by (simp add: persist_target_def dsame_def dcore_def split: sum.splits)

lemma dsame_ensure_room [dsame_ops]: "dsame s (snd (ensure_room X channel s))"
  using dsame_ensureChannel by (auto simp: ensure_room_def split_beta split: option.splits)

section \<open>The client's operations\<close>

context dsh_count
begin

lemma adds_same: "dsame s s' \<Longrightarrow> adds 0 s s'"
  using dsame_waits [of s s'] by (intro adds_frame) (simp_all add: dsame_def)

lemmas adds_same_then = adds_then [OF adds_same]
lemmas adds_same_after = adds_after [OF _ adds_same]

lemma adds_and_then:
  "adds 0 s (snd x) \<Longrightarrow> (\<And>s'. adds 0 s' (snd (f s'))) \<Longrightarrow> adds 0 s (snd (and_then x f))"
  by (auto simp: and_then_case intro: adds_then)

lemma adds_crash_end: "adds 0 s (snd x) \<Longrightarrow> adds 0 s (effect_or_crash x)"
  by (auto simp: effect_or_crash_def intro: adds_same_after dsame_fields split: prod.splits option.splits)

lemma adds_returns: "adds 0 s (snd x) \<Longrightarrow> dstack_ok DtUnit ks \<Longrightarrow> adds (mus ks) s (returns ks x)"
  by (cases x; cases "fst x") (auto simp: returns_def intro: adds_then adds_throw adds_ret [where v = DUnit, simplified])

lemma adds_whenReady:
  assumes "dstack_ok DtUnit ks"
  shows "adds (mus ks) s (whenReady ks s)"
proof -
  let ?s1 = "(new_promise READY_TIMEOUT_MS TReady ks s)\<lparr>d_readyWaiters := d_readyWaiters s @ [n_pid s]\<rparr>"
  have "adds (mus ks) s ?s1"
  proof (rule adds_promise [of "{DtUnit}" _ _ _ TReady])
    show "dwaits ?s1 \<subseteq> {n_pid s} \<times> {DtUnit} \<union> dwaits s"
      using dwaits_sub [of ?s1 "{}" s "{n_pid s}" "{}"] by (simp add: new_promise_def)
  qed (use assms in \<open>simp_all add: dcore_def new_promise_def\<close>)
  with assms show ?thesis by (simp add: whenReady_def adds_ret)
qed

lemma adds_agentInfo:
  assumes "dstack_ok DtInfo ks"
  shows "adds (mus ks) s (dsh_agentInfo a ks s)"
proof -
  let ?parkd = "\<lambda>ks. (new_promise READY_TIMEOUT_MS (TWhois a) ks s)
    \<lparr>d_whoisWaiters := jm_set a (waiters_of (d_whoisWaiters s) a @ [n_pid s]) (d_whoisWaiters s)\<rparr>"
  have park: "adds (mus ks) s (?parkd ks)" if "\<forall>t \<in> {DtInfo, DtNoInfo}. dstack_ok t ks" for ks
  proof (rule adds_promise [of "{DtInfo, DtNoInfo}" _ _ _ "TWhois a"])
    have "set (concat (map snd (d_whoisWaiters (?parkd ks)))) \<subseteq> {n_pid s} \<union> set (concat (map snd (d_whoisWaiters s)))"
      using vals_jm_set [of a "waiters_of (d_whoisWaiters s) a @ [n_pid s]" "d_whoisWaiters s"]
        vals_waiters_of [of "d_whoisWaiters s" a] by auto
    then show "dwaits (?parkd ks) \<subseteq> {n_pid s} \<times> {DtInfo, DtNoInfo} \<union> dwaits s"
      using dwaits_sub [of "?parkd ks" "{n_pid s}" s "{}" "{}"] by (simp add: new_promise_def)
  qed (use that in \<open>simp_all add: dcore_def new_promise_def\<close>)
  have 1: "adds (mus ks) s (?parkd (DkInfo a # ks))"
    using park [of "DkInfo a # ks"] assms by (simp add: mu_simps)
  have 2: "adds (0 + mus ks) s (throw e ks (?parkd [DkNobody]))" for e
    using park [of "[DkNobody]"] adds_throw [OF assms] by (intro adds_trans) (auto simp: mu_simps)
  show ?thesis
  proof (cases "jm_get (d_known s) a")
    case (Some info)
    then show ?thesis using assms by (simp add: dsh_agentInfo_def adds_ret)
  next
    case None
    obtain e s1 where e: "dsh_ws_send (JObj [(''op'', JStr ''whois''), (''agentId'', JStr a)]) (?parkd (DkInfo a # ks)) = (e, s1)"
      by fastforce
    with dsame_ws_send [of "?parkd (DkInfo a # ks)"] have "dsame (?parkd (DkInfo a # ks)) s1" by (metis snd_conv)
    with 1 have "adds (mus ks) s s1" by (rule adds_same_after)
    with 2 show ?thesis using None e by (auto simp: dsh_agentInfo_def Let_def split: option.splits)
  qed
qed

lemma adds_queryPresence:
  assumes "dstack_ok DtFrame ks"
  shows "adds (mus ks) s (queryPresence i ks s)"
proof -
  let ?parkd = "\<lambda>ks. (new_promise READY_TIMEOUT_MS (TPresence i) ks s)\<lparr>d_presenceWaiters := jm_set i (n_pid s) (d_presenceWaiters s)\<rparr>"
  have park: "adds (mus ks) s (?parkd ks)" if "dstack_ok DtFrame ks" for ks
  proof (rule adds_promise [of "{DtFrame}" _ _ _ "TPresence i"])
    show "dwaits (?parkd ks) \<subseteq> {n_pid s} \<times> {DtFrame} \<union> dwaits s"
      using dwaits_sub [of "?parkd ks" "{}" s "{}" "{n_pid s}"] snd_jm_set [of i "n_pid s" "d_presenceWaiters s"]
      by (simp add: new_promise_def)
  qed (use that in \<open>simp_all add: dcore_def new_promise_def\<close>)
  have 2: "adds (0 + mus ks) s (throw e ks (?parkd [DkNobody]))" for e
    using park [of "[DkNobody]"] adds_throw [OF assms] by (intro adds_trans) (auto simp: mu_simps)
  obtain e s1 where e: "dsh_ws_send (presence_query i) (?parkd ks) = (e, s1)" by fastforce
  with dsame_ws_send [of "?parkd ks"] have "dsame (?parkd ks) s1" by (metis snd_conv)
  with park [OF assms] have "adds (mus ks) s s1" by (rule adds_same_after)
  with 2 show ?thesis using e by (auto simp: queryPresence_def Let_def split: option.splits)
qed

lemma adds_presence: "dstack_ok DtAgents ks \<Longrightarrow> adds (mus ks) s (dsh_presence W ks s)"
  using adds_queryPresence [of "DkPresence # ks" "take_uuid s"]
  by (auto simp: dsh_presence_def mu_simps intro: adds_throw adds_same_then dsame_fields)

lemma adds_warmUp: "adds 0 s (warmUpEcho W n s)"
  using adds_queryPresence [of "[DkWarm n]" "take_uuid s"]
  by (auto simp: warmUpEcho_def mu_simps intro: adds_same_then dsame_fields)

lemma adds_send:
  assumes "dstack_ok DtUnit ks"
  shows "adds (mus ks) s (dsh_send W channel text ks s)"
proof (cases "dsh_connected s")
  case True
  obtain e ch s1 where e: "dsh_ensureChannel W channel s = (e, ch, s1)" by (cases "dsh_ensureChannel W channel s") auto
  with dsame_ensureChannel [of s W channel] have s1: "dsame s s1" by simp
  have "adds (mus ks) s1 (whenReady (DkSend channel text ch # ks) s1)"
    using adds_whenReady [of "DkSend channel text ch # ks" s1] assms by (simp add: mu_simps)
  then show ?thesis
    using True e s1 assms
    by (cases e) (auto simp: dsh_send_def intro: adds_same_then adds_throw)
qed (use assms in \<open>simp add: dsh_send_def adds_throw\<close>)

lemma adds_send_ready: "dstack_ok DtUnit ks \<Longrightarrow> adds (mus ks) s (dsh_send_ready W channel text ch ks s)"
  by (simp add: dsh_send_ready_def adds_returns adds_same dsame_post)

lemma adds_dm: "dstack_ok DtUnit ks \<Longrightarrow> adds (mus ks) s (dsh_dm to text ks s)"
  using adds_agentInfo [of "DkDmInfo to text # ks" s] by (auto simp: dsh_dm_def mu_simps intro: adds_throw)

lemma adds_dm_info: "dstack_ok DtUnit ks \<Longrightarrow> adds (mus ks) s (dsh_dm_info to text info ks s)"
  using adds_whenReady [of "DkDmReady to text info # ks" s] by (auto simp: dsh_dm_info_def mu_simps intro: adds_throw)

lemma adds_dm_ready: "dstack_ok DtUnit ks \<Longrightarrow> adds (mus ks) s (dsh_dm_ready W to text info ks s)"
  by (simp add: dsh_dm_ready_def adds_returns adds_same dsame_post)

lemma adds_invite:
  assumes "dstack_ok DtUnit ks"
  shows "adds (mus ks) s (dsh_invite W to channel ks s)"
proof (cases "dsh_connected s")
  case True
  have gen: "adds (mus ks) s (case e of Some x \<Rightarrow> throw x ks s1 | None \<Rightarrow> dsh_dm to msg ks s1)"
    if "dsame s s1" for e :: "exn option" and s1 msg
    using that assms by (auto split: option.splits intro: adds_same_then adds_throw adds_dm)
  from dsame_createChannel [of s W channel] show ?thesis
    using True gen [OF dsame_refl, where e = None] gen [where ?s1.0 = "snd (snd (createChannel W channel s))" and e = "fst (createChannel W channel s)"]
    by (auto simp: dsh_invite_def Let_def split_beta split: option.splits list.splits)
qed (use assms in \<open>simp add: dsh_invite_def adds_throw\<close>)

lemma adds_whois: "dstack_ok DtWhois ks \<Longrightarrow> adds (mus ks) s (dsh_whois a ks s)"
  using adds_agentInfo [of "DkWhois a # ks" s] by (simp add: dsh_whois_def mu_simps)

lemma adds_presence_answered: "dstack_ok DtAgents ks \<Longrightarrow> adds (mus ks) s (dsh_presence_answered W f ks s)"
  by (auto simp: dsh_presence_answered_def split: sum.splits intro: adds_throw adds_ret)

lemma adds_no_whois: "adds 0 s (s\<lparr>d_whoisWaiters := []\<rparr>)"
  using dwaits_sub [of "s\<lparr>d_whoisWaiters := []\<rparr>" "{}" s "{}" "{}"] by (intro adds_frame) (simp_all add: dcore_def)

lemma adds_failWhois: "adds 0 s (failWhoisWaiters m s)"
  unfolding failWhoisWaiters_def
  by (rule adds_after [OF adds_settle_all_err adds_no_whois])

lemma adds_stop: "adds 0 s (dsh_stop s)"
proof -
  let ?a = "failWhoisWaiters ''whois: client stopped'' (s\<lparr>d_stopped := True\<rparr>)"
  have 1: "adds 0 s ?a"
    by (rule adds_same_then [OF _ adds_failWhois]) (simp add: dsame_def dcore_def)
  have "dsame ?a (?a\<lparr>watching := None\<rparr>)" by (simp add: dsame_def dcore_def)
  from dsame_trans [OF dsame_trans [OF this dsame_fields(8)] dsame_fields(9)]
  have "dsame ?a ((dsh_close_ws (clear_timer_handle h (?a\<lparr>watching := None\<rparr>)))\<lparr>d_ws := None\<rparr>)" for h
    by (simp add: dsame_def dcore_def)
  with 1 show ?thesis unfolding dsh_stop_def Let_def by (rule adds_same_after)
qed

lemma adds_retarget: "adds 0 s (snd (dsh_retarget W t s))"
proof -
  let ?a = "(clear_timer_handle (d_retryTimer s) s)\<lparr>d_retryTimer := None, watching := None\<rparr>"
  let ?b = "(dsh_close_ws ?a)\<lparr>d_ws := None, d_welcomed := False, d_stopped := False\<rparr>"
  have "dsame s ?a" using dsame_fields(8) [of s "d_retryTimer s"] by (simp add: dsame_def dcore_def)
  then have "dsame s (dsh_close_ws ?a)" by (rule dsame_trans) (rule dsame_fields)
  then have b: "dsame s ?b" by (simp add: dsame_def dcore_def)
  have c: "adds 0 s (failWhoisWaiters RETARGET_REASON ?b)" by (rule adds_same_then [OF b adds_failWhois])
  have u: "adds 0 v (v\<lparr>d_url := u\<rparr>)" for v u by (rule adds_same) (simp add: dsame_def dcore_def)
  have e: "adds 0 v (snd (and_then (swap_identity W p v) (\<lambda>s5. dsh_connect W (s5\<lparr>d_known := [], d_name := x s5, d_delay := y s5\<rparr>))))"
    for v p x y
  proof (rule adds_and_then)
    fix v' :: plugin
    have "dsame v' (v'\<lparr>d_known := [], d_name := x v', d_delay := y v'\<rparr>)" by (simp add: dsame_def dcore_def)
    from dsame_trans [OF this dsame_connect]
    show "adds 0 v' (snd (dsh_connect W (v'\<lparr>d_known := [], d_name := x v', d_delay := y v'\<rparr>)))" by (rule adds_same)
  qed (simp add: adds_same dsame_swap_identity)
  show ?thesis
    unfolding dsh_retarget_def Let_def by (rule adds_then [OF c adds_then [OF u e]])
qed

lemma adds_wake_all: "adds 0 s (wake_all s)"
proof -
  have "adds 0 s (settle_all (Inr DUnit) (d_readyWaiters s) s)"
    by (intro adds_settle_all_val) (auto simp: dwaits_mem)
  moreover have "adds 0 t (t\<lparr>d_readyWaiters := []\<rparr>)" for t
    using dwaits_sub [of "t\<lparr>d_readyWaiters := []\<rparr>" "{}" t "{}" "{}"] by (intro adds_frame) (simp_all add: dcore_def)
  ultimately show ?thesis by (auto simp: wake_all_def settle_all_woken intro: adds_after)
qed

lemma adds_onAgentInfo: "adds 0 s (dsh_onAgentInfo f s)"
proof -
  have gen: "adds 0 s ((settle_all (Inr (DInfo (Some info))) (waiters_of (d_whoisWaiters s1) a) s1)\<lparr>d_whoisWaiters := jm_del a (d_whoisWaiters s1)\<rparr>)"
    if s1: "dsame s s1" for s1 a info
  proof -
    let ?t = "settle_all (Inr (DInfo (Some info))) (waiters_of (d_whoisWaiters s1) a) s1"
    have "adds 0 s1 ?t"
      using vals_waiters_of [of "d_whoisWaiters s1" a] by (intro adds_settle_all_val) (auto simp: dwaits_mem)
    moreover have "adds 0 ?t (?t\<lparr>d_whoisWaiters := jm_del a (d_whoisWaiters s1)\<rparr>)"
    proof (rule adds_frame)
      show "dwaits (?t\<lparr>d_whoisWaiters := jm_del a (d_whoisWaiters s1)\<rparr>) \<subseteq> dwaits ?t"
        using dwaits_sub [of "?t\<lparr>d_whoisWaiters := jm_del a (d_whoisWaiters s1)\<rparr>" "{}" ?t "{}" "{}"]
          vals_jm_del [of a "d_whoisWaiters s1"] by (simp del: dwaits_settle_all)
    qed (simp add: dcore_def)
    ultimately show ?thesis by (intro adds_same_then [OF s1]) (rule adds_after)
  qed
  show ?thesis
    unfolding dsh_onAgentInfo_def Let_def by (rule gen) (simp add: dsame_def dcore_def)
qed

lemma adds_fail_unknown: "adds 0 s (fail_unknown s)"
proof -
  have "adds 0 s (settle_all (Inr (DInfo None)) (concat (map snd (d_whoisWaiters s))) s)"
    by (rule adds_settle_all_val) (auto simp: dwaits_mem)
  then show ?thesis unfolding fail_unknown_def by (rule adds_after) (rule adds_no_whois)
qed

end

end
