(* ===== verification/Dsh_Steps.thy ===== *)
theory Dsh_Steps
  imports Dsh_Sound
begin

text \<open>
  The accounts carried to the frames of the hub, the events, the tools and the runs of the plugin. What the
  client needs of its hooks is the contract \<open>counted_hooks\<close>; the plugin's hooks, one of which starts a pass
  over the pending invites, meet it for any weights.
\<close>

lemma snd_jm_del: "snd ` set (jm_del k m) \<subseteq> snd ` set m"
  by (auto simp: jm_del_def)

lemma dsame_hub_error:
  "dsame s (s\<lparr>d_errorRing := a, hooked := b\<rparr>)" "dsame s (s\<lparr>d_lastError := m\<rparr>)" "dsame s (s\<lparr>d_reEnrolled := x, d_clientSecret := y\<rparr>)"
  "dsame s (s\<lparr>d_clientSecret := y, d_enrollMode := z\<rparr>)" "dsame s (s\<lparr>d_inboxMsgs := a', delivered := b'\<rparr>)"
  "dsame s (s\<lparr>watching := w\<rparr>)" "dsame s (s\<lparr>retries := q\<rparr>)" "dsame s (s\<lparr>d_echoSeen := v\<rparr>)"
  by (simp_all add: dsame_def dcore_def)

locale counted_hooks = dsh_count +
  fixes H :: "plugin hooks"
  assumes ready_adds: "adds 0 s (snd (hk_ready H s))"
    and message_adds: "adds 0 s (snd (hk_message H m s))"
    and invite_adds: "adds 0 s (snd (hk_invite H i f s))"
    and error_adds: "adds 0 s (snd (hk_error H e s))"
    and enrolled_adds: "adds 0 s (snd (hk_enrolled H s))"
begin

lemma adds_surface: "adds 0 s (snd (surfaceError H c m s))"
  unfolding surfaceError_def Let_def by (rule adds_same_then [OF dsame_hub_error(1) error_adds])

lemma adds_each_join: "adds 0 s (snd (each (\<lambda>ch. dsh_join (ch_name ch) (ch_pub ch)) chs s))"
  by (induction chs arbitrary: s) (auto intro: adds_and_then adds_same dsame_join)

lemma adds_welcome: "adds 0 s (snd (dsh_onWelcome H W s))"
proof -
  let ?s1 = "s\<lparr>d_welcomed := True, d_welcomes := d_welcomes s + 1, d_delay := d_initialMs s\<rparr>"
  have s1: "adds 0 s ?s1" by (rule adds_same) (simp add: dsame_def dcore_def)
  then have "adds 0 s (snd (let s1 = ?s1 in if d_enrollMode s1 then dsh_ws_send (JObj [(''t'', JStr ''enroll'')]) s1 else (None, s1)))"
    using s1 adds_same_after [OF s1 dsame_ws_send] by (cases "d_enrollMode ?s1") (simp_all only: Let_def if_True if_False snd_conv)
  moreover have "adds 0 t (hk)" if "hk = snd (hk_ready H (wake_all (warmUpEcho W 0 t)))" for t hk
    unfolding that by (rule adds_then [OF adds_warmUp adds_then [OF adds_wake_all ready_adds]])
  ultimately show ?thesis
    unfolding dsh_onWelcome_def
    by (intro adds_and_then) (auto intro: adds_same dsame_ws_send adds_each_join)
qed

lemma adds_enrolled: "adds 0 s (snd (dsh_onEnrolled H secret s))"
proof -
  have "adds 0 s (snd (persist_secret_now u (s\<lparr>d_clientSecret := y, d_enrollMode := z\<rparr>)))" for u y z
    by (rule adds_same_then [OF dsame_hub_error(4) adds_same [OF dsame_persist_secret]])
  then show ?thesis
    by (simp add: dsh_onEnrolled_def adds_and_then enrolled_adds)
qed

lemma adds_error_frame: "adds 0 s (snd (onHubErrorFrame H f s))"
  unfolding onHubErrorFrame_def Let_def
  by (intro adds_and_then adds_same_then [OF dsame_hub_error(2) adds_surface]) (simp add: adds_fail_unknown)

lemma adds_presence_frame: "adds 0 s (resolvePresence f s)"
proof -
  have latch: "adds 0 s (settle (Inr (DFrame f)) p (s\<lparr>d_echoSeen := True, d_presenceWaiters := jm_del i (d_presenceWaiters s)\<rparr>))"
    if "jm_get (d_presenceWaiters s) i = Some p" for i p
  proof -
    let ?t = "s\<lparr>d_echoSeen := True, d_presenceWaiters := jm_del i (d_presenceWaiters s)\<rparr>"
    have p: "(p, dtype (DFrame f)) \<in> dwaits s"
      using map_of_SomeD [OF that] by (force simp: dwaits_mem)
    have "settle (Inr (DFrame f)) p ?t
        = (settle (Inr (DFrame f)) p s)\<lparr>d_echoSeen := True, d_presenceWaiters := jm_del i (d_presenceWaiters s)\<rparr>"
      by (simp add: settle_def schedule_def split: option.splits)
    moreover have "adds 0 u (u\<lparr>d_echoSeen := True, d_presenceWaiters := jm_del i (d_presenceWaiters u)\<rparr>)" for u
      using dwaits_sub [of "u\<lparr>d_echoSeen := True, d_presenceWaiters := jm_del i (d_presenceWaiters u)\<rparr>" "{}" u "{}" "{}"]
      by (intro adds_frame) (simp_all add: dcore_def snd_jm_del)
    ultimately show ?thesis
      using adds_after [OF adds_settle_val [OF p]] by fastforce
  qed
  have all: "adds 0 s ((settle_all (Inr (DFrame f)) (map snd (d_presenceWaiters s)) s)\<lparr>d_presenceWaiters := []\<rparr>)"
  proof (rule adds_after [OF adds_settle_all_val])
    show "adds 0 u (u\<lparr>d_presenceWaiters := []\<rparr>)" for u
      using dwaits_sub [of "u\<lparr>d_presenceWaiters := []\<rparr>" "{}" u "{}" "{}"] by (intro adds_frame) (auto simp: dcore_def)
  qed (auto simp: dwaits_mem)
  show ?thesis
    using latch all adds_same [OF dsame_hub_error(8)]
    by (auto simp: resolvePresence_def Let_def split: option.splits)
qed

lemma adds_onMsg: "adds 0 s (dsh_onMsg f s)"
  using adds_agentInfo [of "[DkMsg f]" s] by (simp add: dsh_onMsg_def mu_simps)

lemma adds_msg_resumed: "adds 0 s (dsh_msg_resumed H W f out s)"
proof -
  have deliver: "adds 0 s (snd (dsh_deliver H ev s))" for ev
    unfolding dsh_deliver_def by (rule adds_same_then [OF dsame_hub_error(5) message_adds])
  have "adds 0 s (snd (and_then (acceptInvite i s) (hk_invite H i from)))" for i "from"
    by (rule adds_and_then [OF adds_same [OF dsame_acceptInvite] invite_adds])
  then have "adds 0 s (snd (msg_body H W f info s))" for info
    by (simp add: msg_body_def deliver split: sum.splits option.splits)
  moreover have "adds 0 t (snd (undecryptable H W e t))" for e t
    unfolding undecryptable_def by (rule adds_same_then [OF dsame_hub_error(2) adds_surface])
  ultimately have body: "adds 0 s (snd r)"
    if "r = (case out of Inl e \<Rightarrow> (Some e, s) | Inr (DInfo (Some info)) \<Rightarrow> msg_body H W f info s | Inr _ \<Rightarrow> (None, s))" for r
    using that by (auto split: sum.splits dvalue.splits option.splits)
  show ?thesis
    using body [OF HOL.refl] adds_then [OF body [OF HOL.refl] adds_crash_end [OF \<open>\<And>e t. adds 0 t (snd (undecryptable H W e t))\<close>]]
    by (auto simp: dsh_msg_resumed_def Let_def split: prod.splits option.splits)
qed

lemma adds_raw: "adds 0 s (snd (dsh_handleRaw H W raw s))"
proof -
  have "adds 0 s (snd (dsh_dispatch H W f s))" for f
    by (simp add: dsh_dispatch_def adds_enrolled adds_welcome adds_onAgentInfo adds_onMsg adds_error_frame adds_presence_frame)
  then show ?thesis
    by (simp add: dsh_handleRaw_def adds_same dsame_hub_error split: sum.splits)
qed

lemma adds_guarded: "(\<And>t. adds 0 t (snd (f t))) \<Longrightarrow> adds 0 s (guarded i f s)"
  by (simp add: guarded_def adds_crash_end)

lemma adds_on_open: "adds 0 s (dsh_on_open W i s)"
  unfolding dsh_on_open_def
  by (intro adds_guarded adds_same_then [OF dsame_hub_error(6) adds_same [OF dsame_sendHello]])

lemma adds_on_message: "adds 0 s (dsh_on_message H W i raw s)"
  unfolding dsh_on_message_def by (intro adds_guarded adds_raw)

lemma adds_on_close: "adds 0 s (dsh_on_close i s)"
proof -
  have "adds 0 t (dsh_onDisconnect t)" for t
  proof -
    let ?u = "failWhoisWaiters ''whois: hub connection closed'' (t\<lparr>watching := None, d_welcomed := False\<rparr>)"
    have u: "adds 0 t ?u"
      by (rule adds_same_then [OF _ adds_failWhois]) (simp add: dsame_def dcore_def)
    moreover have "dsame ?u (?u\<lparr>d_delay := a, retries := b, d_retryTimer := c, n_timer := e\<rparr>)" for a b c e
      by (simp add: dsame_def dcore_def)
    ultimately show ?thesis
      by (auto simp: dsh_onDisconnect_def Let_def intro: adds_same_after)
  qed
  then show ?thesis
    unfolding dsh_on_close_def by (intro adds_guarded) simp
qed

lemma adds_on_error: "adds 0 s (dsh_on_error i e s)"
  unfolding dsh_on_error_def by (intro adds_guarded) (simp add: adds_same dsame_hub_error)

lemma adds_unexpected: "adds 0 s (dsh_on_unexpected H W i st s)"
proof -
  have p: "adds 0 t (snd (persist_secret_now u (t\<lparr>d_reEnrolled := x, d_clientSecret := y\<rparr>)))" for t u x y
    by (rule adds_same_then [OF dsame_hub_error(3) adds_same [OF dsame_persist_secret]])
  show ?thesis
    unfolding dsh_on_unexpected_def
    by (rule adds_guarded)
      (auto intro!: adds_and_then adds_same_then [OF dsame_hub_error(2) adds_surface] simp: p adds_same dsame_fields)
qed

lemma adds_dsh_resume:
  assumes "dsuits out (k # ks)" "mu k = 0" "k \<notin> {DkPeers, DkInviteTool, DkDeliver, DkPoll}"
    "\<forall>n i a p x y. k \<noteq> DkTop n \<and> k \<noteq> DkDelivered i a p \<and> k \<noteq> DkInvitePeers x y"
  shows "adds (mus ks) s (dsh_resume H W out k ks s)"
proof (cases "dgives k = []")
  case True
  then have ks: "ks = []" using assms(1) by (auto simp: dsuits_def split: sum.splits)
  show ?thesis
    by (cases k; cases out) (use True assms(3,4) in \<open>simp_all add: ks adds_msg_resumed adds_warmUp adds_same dsame_fields\<close>)
next
  case False
  then obtain t where t: "dstack_ok t ks"
    using assms(1) by (cases "dgives k") (auto simp: dsuits_def split: sum.splits)
  show ?thesis
  proof (cases out)
    case (Inl e)
    with False t show ?thesis by (cases k) (simp_all add: adds_throw)
  next
    case (Inr v)
    with assms(1) have s: "dstack_ok (dtype v) (k # ks)" by simp
    from False s assms(3,4) show ?thesis unfolding Inr
      by (cases k; cases v rule: dtype.cases)
        (simp_all add: adds_ret adds_throw [OF t] adds_presence_answered adds_send_ready adds_dm_info adds_dm_ready
          del: dsuits_simps)
  qed
qed

end

section \<open>The plugin's operations\<close>

context dsh_count
begin

lemma adds_deliverPending:
  assumes "dstack_ok DtUnit ks"
  shows "adds (mus ks) s (deliverPending X ks s)"
proof (cases "pl_delivering s \<or> pl_pending s = [] \<or> \<not> dsh_connected s")
  case True
  with assms show ?thesis by (auto simp: deliverPending_def intro: adds_ret [where v = DUnit, simplified])
next
  case False
  let ?s = "s\<lparr>pl_delivering := True\<rparr>"
  have p: "adds (mus (DkDeliver # ks)) ?s (dsh_presence (px_env X) (DkDeliver # ks) ?s)"
    using assms by (intro adds_presence) simp
  have "counted ?s = counted s" by (simp add: counted_def)
  moreover have "total s = total ?s + d" using False by (simp add: total_def)
  ultimately show ?thesis
    using p False by (simp add: deliverPending_def adds_def mu_simps dages_def)
qed

lemma adds_poll: "adds 0 s (pollPending X s)"
  using adds_deliverPending [of "[DkPoll]" s X] by (simp add: pollPending_def mu_simps)

lemma adds_notice: "adds 0 s (snd (and_then (logger_warn X a s) (followup X b)))"
  by (intro adds_and_then adds_same dsame_notices)

end

sublocale dsh_count \<subseteq> told: counted_hooks mu r d "plugin_hooks X" for X
  by unfold_locales
    (simp_all add: plugin_hooks_def announce_def invited_notice_def error_notice_def enroll_notice_def Let_def
      adds_poll adds_notice adds_same dsame_notices)

context dsh_count
begin

lemma adds_end_pass:
  assumes "d = 0 \<or> pl_delivering s" "dsuits out ks"
  shows "adds (d + mus ks) s (end_pass out ks s)"
proof -
  let ?s = "s\<lparr>pl_delivering := False\<rparr>"
  have "counted ?s = counted s" by (simp add: counted_def)
  moreover have "total ?s = total s + d" using assms(1) by (auto simp: total_def)
  ultimately show ?thesis
    using adds_schedule [OF assms(2), of ?s] by (simp add: end_pass_def adds_def dages_def)
qed

lemma adds_delivery_loop:
  assumes "d = 0 \<or> pl_delivering s" "dstack_ok DtUnit ks"
  shows "adds (d + mus ks) s (delivery_loop X i agents ks s)"
proof (induction i)
  case 0
  then show ?case using assms by (simp add: adds_end_pass)
next
  case (Suc i)
  have "adds (d + mus ks) s (dsh_invite W to ch (DkDelivered i agents p # ks) s)" for W to ch p
    using adds_invite [of "DkDelivered i agents p # ks" s W to ch] assms by (simp add: mu_simps)
  moreover have "adds (d + mus ks) s (end_pass (Inl e) ks s)" for e
    using assms by (intro adds_end_pass) auto
  ultimately show ?case using Suc by (auto simp: Let_def split: sum.splits)
qed

lemma adds_delivery_sent:
  assumes "d = 0 \<or> pl_delivering s" "dstack_ok DtUnit ks"
  shows "adds (d + mus ks) s (delivery_sent X i agents p ks s)"
proof -
  let ?r = "and_then (persistInvites (s\<lparr>pl_pending := drop_at i (pl_pending s)\<rparr>)) (followup X (delivered_notice p))"
  have "dsame s (s\<lparr>pl_pending := drop_at i (pl_pending s)\<rparr>)" by (simp add: dsame_def dcore_def)
  then have "dsame s (snd (persistInvites (s\<lparr>pl_pending := drop_at i (pl_pending s)\<rparr>)))"
    by (rule dsame_trans) (rule dsame_persistInvites)
  then have r: "dsame s (snd ?r)"
    by (rule dsame_and_then) (erule dsame_trans [OF _ dsame_notices(1)])
  then have f: "d = 0 \<or> pl_delivering (snd ?r)" using assms(1) by (simp add: dsame_def dcore_def)
  have "adds (d + mus ks) s (end_pass (Inl e) ks (snd ?r))" for e
    using assms(2) f by (intro adds_same_then [OF r adds_end_pass]) auto
  moreover have "adds (d + mus ks) s (delivery_loop X i agents ks (snd ?r))"
    by (rule adds_same_then [OF r adds_delivery_loop [OF f assms(2)]])
  ultimately show ?thesis
    by (auto simp: delivery_sent_def split: prod.splits option.splits)
qed

lemma adds_arm:
  assumes "dstack_ok DtJson ks"
  shows "adds (mus ks) s (arm_invite X who channel ks s)"
proof -
  obtain e ch s1 where e: "dsh_ensureChannel (px_env X) channel s = (e, ch, s1)" by (cases "dsh_ensureChannel (px_env X) channel s") auto
  with dsame_ensureChannel [of s "px_env X" channel] have s1: "dsame s s1" by simp
  let ?s2 = "s1\<lparr>pl_pending := pl_pending s1 @ [pending_json \<lparr>pi_name = who, pi_channel = channel\<rparr>]\<rparr>"
  have "dsame s1 ?s2" by (simp add: dsame_def dcore_def)
  with s1 have s2: "dsame s (snd (persistInvites ?s2))" using dsame_trans dsame_persistInvites by blast
  have err: "adds (mus ks) s (throw x ks t)" if "dsame s t" for x t
    by (rule adds_same_then [OF that adds_throw [OF assms]])
  have fine: "adds (mus ks) s (ret (DJson v) ks (pollPending X t))" if "dsame s t" for v t
    by (rule adds_same_then [OF that adds_then [OF adds_poll adds_ret]]) (simp add: assms)
  show ?thesis
  proof (cases e)
    case None
    then show ?thesis
      using err [OF s1] err [OF s2] fine [OF s1] fine [OF s2] e
      by (auto simp: arm_invite_def split: sum.splits prod.splits option.splits)
  qed (use err [OF s1] e in \<open>simp add: arm_invite_def\<close>)
qed

lemma adds_invite_named:
  assumes "dstack_ok DtUnit ks" "dstack_ok DtJson ks"
  shows "adds (mus ks) s (invite_named X who channel as ks s)"
proof -
  have "adds (mus ks) s (ret (DJson v) ks s)" for v
    using adds_ret [of "DJson v" ks s] assms(2) by simp
  then show ?thesis
    using assms by (auto simp: invite_named_def adds_arm adds_invite adds_throw split: sum.splits list.splits)
qed

lemma adds_plugin_resume:
  assumes "dsuits out ks" "\<forall>k \<in> set (take 1 ks). mu k = 0 \<or> dgives k = [] \<or> d = 0 \<or> pl_delivering s"
  shows "adds (mus ks) s (plugin_resume X out ks s)"
proof (cases ks)
  case Nil
  with assms show ?thesis by (auto simp: dsuits_def split: sum.splits)
next
  case (Cons k ks')
  have res: "adds (r n) s (s\<lparr>results := results s @ [(n, out)]\<rparr>)" for n
    by (simp add: adds_def counted_def total_def dages_def)
  have flag: "d = 0 \<or> pl_delivering s" if "mu k = d" "dgives k \<noteq> []"
    using assms(2) that Cons by auto
  consider n where "k = DkTop n" | "k = DkInviteTool" | "k = DkPeers" | who channel where "k = DkInvitePeers who channel"
    | "k = DkDeliver" | i agents p where "k = DkDelivered i agents p" | "k = DkPoll"
    | "k \<notin> {DkPeers, DkInviteTool, DkDeliver, DkPoll}"
      "\<forall>n i a p x y. k \<noteq> DkTop n \<and> k \<noteq> DkDelivered i a p \<and> k \<noteq> DkInvitePeers x y"
    by (cases k) auto
  then show ?thesis
  proof cases
    case (1 n)
    then have "ks' = []" using assms(1) Cons by (auto simp: dsuits_def split: sum.splits)
    with res 1 show ?thesis by (simp add: Cons mu_simps)
  next
    case 2
    then have k: "dstack_ok DtUnit ks'" "dstack_ok DtJson ks'" using assms(1) Cons by (auto simp: dsuits_def split: sum.splits)
    then have "adds (mus ks') s (ret (DJson v) ks' s)" for v using adds_ret [of "DJson v" ks' s] by simp
    moreover have "adds (mus ks') s (ret v ks' s)" if "dtype v = DtUnit \<or> dtype v = DtJson" for v
      using adds_ret [of v ks' s] k that by auto
    ultimately show ?thesis
      using assms(1) 2 by (auto simp: Cons mu_simps invite_tool_settled_def split: sum.splits)
  next
    case 3
    then have k: "dstack_ok DtJson ks'" using assms(1) Cons by (auto simp: dsuits_def split: sum.splits)
    then have "adds (mus ks') s (ret (DJson v) ks' s)" for v using adds_ret [of "DJson v" ks' s] by simp
    with k show ?thesis
      using assms(1) by (cases out; cases "projr out" rule: dtype.cases) (auto simp: 3 Cons mu_simps adds_throw)
  next
    case (4 who channel)
    then have k: "dstack_ok DtUnit ks'" "dstack_ok DtJson ks'" using assms(1) Cons by (auto simp: dsuits_def split: sum.splits)
    then show ?thesis
      using assms(1) by (cases out; cases "projr out" rule: dtype.cases) (auto simp: 4 Cons mu_simps adds_throw adds_invite_named)
  next
    case 5
    then have k: "dstack_ok DtUnit ks'" using assms(1) Cons by (auto simp: dsuits_def split: sum.splits)
    have f: "d = 0 \<or> pl_delivering s" by (rule flag) (simp_all add: 5 mu_simps)
    from k have "\<exists>t. dstack_ok t ks'" by blast
    then show ?thesis
      using assms(1) k adds_end_pass [OF f, of _ ks']
      by (cases out; cases "projr out" rule: dtype.cases) (auto simp: 5 Cons mu_simps adds_delivery_loop [OF f])
  next
    case (6 i agents p)
    then have k: "dstack_ok DtUnit ks'" using assms(1) Cons by (auto simp: dsuits_def split: sum.splits)
    have f: "d = 0 \<or> pl_delivering s" by (rule flag) (simp_all add: 6 mu_simps)
    show ?thesis
      by (cases out) (simp_all add: 6 Cons mu_simps adds_delivery_loop [OF f k] adds_delivery_sent [OF f k])
  next
    case 7
    then have "ks' = []" using assms(1) Cons by (auto simp: dsuits_def split: sum.splits)
    moreover have "adds 0 s (effect_or_crash (poll_failed X e s))" for e
      unfolding poll_failed_def Let_def by (rule adds_crash_end [OF adds_notice])
    ultimately show ?thesis
      by (cases out) (simp_all add: 7 Cons mu_simps)
  next
    case 8
    have m: "mu k = 0" using 8 by (cases k) (auto simp: mu_simps)
    have "plugin_resume X out (k # ks') s = dsh_resume (plugin_hooks X) (px_env X) out k ks' s"
      using 8 by (cases k; cases out; cases "projr out" rule: dtype.cases) auto
    moreover have "adds (mus ks') s (dsh_resume (plugin_hooks X) (px_env X) out k ks' s)"
      using assms(1) Cons by (intro told.adds_dsh_resume m 8) simp
    ultimately show ?thesis by (simp add: Cons m)
  qed
qed

end

end
