(* ===== verification/Dsh_Demo.thy ===== *)
theory Dsh_Demo
  imports Dsh_Run Client_Connection
begin

text \<open>A concrete plugin, at which the properties are exercised: its host has a master secret and no files.\<close>

definition demo_ctx :: plugin_ctx where
  "demo_ctx = \<lparr>px_platform = \<lparr>pf_env = demo_env, pf_url = (\<lambda>s. Some \<lparr>u_origin = s, u_pathname = ''/'', u_rest = []\<rparr>)\<rparr>,
     px_followup = Some (\<lambda>_. None), px_warn = None\<rparr>"

definition demo_pconfig :: plugin_config where
  "demo_pconfig = \<lparr>pc_url = Some ''ws://hub/ws'', pc_keyPath = Some ''/h/dkey'', pc_name = Some ''bob'', pc_channelsFile = Some ''/h/ch'',
     pc_channels = None, pc_initialMs = None, pc_maxMs = None, pc_invitePollMs = None\<rparr>"

definition demo_plugin :: plugin where
  "demo_plugin = (case apply_plugin demo_ctx demo_pconfig demo_host of Some (Inr (Enabled s)) \<Rightarrow> s)"

lemma demo_px_env [simp]: "px_env demo_ctx = demo_env"
  by (simp add: demo_ctx_def)

lemma new_dsh_total:
  assumes "dsh_loadIdentity (ce_crypto W) (ce_random W 0 32) (ce_random W 1 32) (dc_keyPath opts) h = Inr (i, h1)"
  shows "\<exists>s. new_dsh W opts h = Inr s \<and> d_ident s = i \<and> w_host s = h1 \<and> d_channels s = dsh_channels opts h1"
  using assms by (simp add: new_dsh_def)

lemma demo_installed: "installs demo_ctx demo_pconfig demo_host demo_plugin"
proof -
  have "resolved = Inr \<lparr>st_url = JStr ''ws://hub/ws'', st_keyPath = JStr ''/h/dkey'', st_name = JStr ''bob'',
      st_channelsFile = JStr ''/h/ch'', st_clientSecret = prop_of (readDapConfig demo_host (defaultConfigFile demo_host)) ''clientSecret''\<rparr>"
    if "resolved = dsh_resolveDapSettings demo_host (config_overrides demo_pconfig)" for resolved
    unfolding that
    by (simp add: dsh_resolveDapSettings_def setting_def config_overrides_def demo_pconfig_def opt_json_def prop_of_def
        coalesce_def nullish_def Let_def)
  note r = this [OF HOL.refl]
  obtain st where st: "dsh_resolveDapSettings demo_host (config_overrides demo_pconfig) = Inr st"
    and o: "plugin_opts demo_pconfig st = Some \<lparr>dc_url = ''ws://hub/ws'', dc_keyPath = ''/h/dkey'', dc_name = Some ''bob'',
      dc_channels = None, dc_channelsFile = Some ''/h/ch'', dc_initialMs = None, dc_maxMs = None,
      dc_clientSecret = prop_of (readDapConfig demo_host (defaultConfigFile demo_host)) ''clientSecret''\<rparr>"
    using r by (simp add: plugin_opts_def given_str_def demo_pconfig_def)
  let ?o = "the (plugin_opts demo_pconfig st)"
  have "fs demo_host ''/h/dkey'' = None" by (simp add: demo_host_def sample_host_def)
  then obtain i h1 where "dsh_loadIdentity (ce_crypto demo_env) (ce_random demo_env 0 32) (ce_random demo_env 1 32)
      (dc_keyPath ?o) demo_host = Inr (i, h1)"
    by (simp add: o dsh_loadIdentity_def split_beta Let_def)
  then obtain s where s: "new_dsh demo_env ?o demo_host = Inr s" using new_dsh_total by blast
  have "ce_url_ok demo_env u" for u by (simp add: demo_env_def)
  then obtain s1 where "dsh_start demo_env s = (None, s1)"
    by (simp add: dsh_start_def dsh_connect_def Let_def)
  with s o have "\<exists>p. install demo_ctx demo_pconfig ?o demo_host = Inr p"
    by (simp add: install_def Let_def)
  then have "\<exists>p. apply_plugin demo_ctx demo_pconfig demo_host = Some (Inr (Enabled p))"
    using st o by (auto simp: apply_plugin_def demo_env_vars)
  then show ?thesis by (auto simp: installs_def demo_plugin_def)
qed

lemmas demo_plugin_fields = installs_fields [OF demo_installed]

text \<open>A \<open>dap_whois\<close> before the socket is open: \<open>ws.send\<close> throws, and nobody handles the promise.\<close>

definition demo_early :: plugin where
  "demo_early = happens demo_ctx (ETool 7 PWhois [(''agentId'', JStr ''x'')]) demo_plugin"

lemma demo_early_state:
  "parked demo_early = [(0, [DkNobody])]" "micro demo_early = [(Inl LibError, [DkWhois ''x'', DkTop 7])]" "now demo_early = 0"
  "ptimers demo_early = [\<lparr>pt_pid = 0, pt_due = READY_TIMEOUT_MS, pt_kind = TWhois ''x''\<rparr>]" "retries demo_early = []"
  "crashed demo_early = False" "results demo_early = []" "pl_delivering demo_early = False"
  by (simp_all add: demo_early_def execute_def needs_hub_def run_tool_def dsh_whois_def dsh_agentInfo_def dsh_ws_send_def
      sock_of_def new_promise_def throw_def schedule_def arg_def prop_of_def demo_plugin_fields Let_def)

lemma demo_early_run: "plugin_run demo_ctx demo_plugin [ETool 7 PWhois [(''agentId'', JStr ''x'')]] demo_early"
  by (rule plugin_steps_run) (simp add: demo_plugin_fields demo_early_def)

end
