(* ===== verification/Dsh_Calls.thy ===== *)
theory Dsh_Calls
  imports Dsh_Steps Dsh_Demo
begin

text \<open>
  What the accounts show of every run of the plugin: each tool call is answered once and in bounded time,
  and at most one pass over the pending invites is on its way.
\<close>

fun tool_weight :: "(nat \<Rightarrow> nat) \<Rightarrow> dlabel \<Rightarrow> nat" where
  "tool_weight r (ETool n t a) = r n"
| "tool_weight r l = 0"

lemma settle_reorder:
  "settle out p (s\<lparr>ptimers := x, d_readyWaiters := y\<rparr>) = settle out p (s\<lparr>d_readyWaiters := y, ptimers := x\<rparr>)"
  "settle out p (s\<lparr>ptimers := x, d_whoisWaiters := z\<rparr>) = settle out p (s\<lparr>d_whoisWaiters := z, ptimers := x\<rparr>)"
  "settle out p (s\<lparr>ptimers := x, d_presenceWaiters := w\<rparr>) = settle out p (s\<lparr>d_presenceWaiters := w, ptimers := x\<rparr>)"
  by (rule arg_cong [where f = "settle out p"], simp)+

context dsh_count
begin

lemma adds_resume_nth:
  assumes "n < length (micro s)" "d = 0 \<or> total s = d"
  shows "adds 0 s (plugin_resume_nth X n s)"
proof -
  obtain out ks where m: "micro s ! n = (out, ks)" by fastforce
  let ?s = "s\<lparr>micro := drop_at n (micro s)\<rparr>"
  have t: "total s = total ?s + mus ks"
    using sum_drop_at [OF assms(1), of "\<lambda>(out, ks). mus ks"] by (simp add: total_def m)
  have flag: "mu k = 0 \<or> dgives k = [] \<or> d = 0 \<or> pl_delivering s" if "k \<in> set (take 1 ks)" for k
  proof (cases "d = 0 \<or> pl_delivering s")
    case False
    then have "total ?s \<ge> d" "total s = d" "0 < d" using assms(2) by (simp_all add: total_def)
    with t have "mus ks = 0" by simp
    with that have "mu k = 0" by (cases ks) auto
    then show ?thesis ..
  qed auto
  show ?thesis
    unfolding adds_def
  proof (intro impI)
    assume ok: "counted s"
    then have ok': "counted ?s"
      using set_drop_at [of n "micro s"] by (auto simp: counted_def dmicro_ok_def list_all_iff)
    have "dsuits out ks"
      using ok nth_mem [OF assms(1)] by (auto simp: counted_def dmicro_ok_def list_all_iff m)
    then have "adds (mus ks) ?s (plugin_resume X out ks ?s)"
      using flag by (intro adds_plugin_resume) auto
    with ok' t show "counted (plugin_resume_nth X n s) \<and> total (plugin_resume_nth X n s) = total s + 0
        \<and> dages s (plugin_resume_nth X n s)"
      by (simp add: plugin_resume_nth_def m adds_def dages_def)
  qed
qed

lemma due_timer_settle:
  assumes "t \<in> set (ptimers s)" "counted s" "parked s' = parked s" "ptimers s' = ptimers s"
  shows "settle out (pt_pid t) (s'\<lparr>ptimers := filter (\<lambda>u. pt_pid u \<noteq> pt_pid t) (ptimers s)\<rparr>) = settle out (pt_pid t) s'"
proof -
  have "pt_pid t \<in> fst ` set (parked s')"
    using assms by (auto simp: counted_def timers_ok_def)
  then obtain ks where "map_of (parked s') (pt_pid t) = Some ks"
    by (metis map_of_eq_None_iff not_None_eq)
  then show ?thesis by (simp add: settle_def schedule_def assms(4))
qed

lemma adds_timeout:
  assumes t: "t \<in> set (ptimers s)"
  shows "adds 0 s (dsh_timeout t s)"
proof -
  let ?p = "pt_pid t"
  have gen: "adds 0 s (dsh_timeout t s)"
    if "counted s \<Longrightarrow> dsh_timeout t s = settle (Inl e) ?p s'" "adds 0 s s'" for s' e
    using adds_then [OF that(2) adds_settle_err] that(1) by (simp add: adds_def)
  note late = due_timer_settle [OF t]
  show ?thesis
  proof (cases "pt_kind t")
    case TReady
    let ?s = "s\<lparr>d_readyWaiters := remove1 ?p (d_readyWaiters s)\<rparr>"
    have "adds 0 s ?s"
      using dwaits_sub [of ?s "{}" s "{}" "{}"] set_remove1_subset [of ?p "d_readyWaiters s"]
      by (intro adds_frame) (simp_all add: dcore_def)
    moreover have "dsh_timeout t s = settle (Inl (JsError ''hub not ready'')) ?p ?s" if "counted s"
      using late [OF that, of ?s] by (simp add: dsh_timeout_def Let_def TReady settle_reorder)
    ultimately show ?thesis using gen by blast
  next
    case (TWhois a)
    let ?e = "JsError (''whois '' @ a @ '': hub did not reply'')"
    let ?w = "jm_set a (remove1 ?p (waiters_of (d_whoisWaiters s) a)) (d_whoisWaiters s)"
    have "set (concat (map snd ?w)) \<subseteq> set (concat (map snd (d_whoisWaiters s)))"
      using vals_jm_set [of a "remove1 ?p (waiters_of (d_whoisWaiters s) a)" "d_whoisWaiters s"]
        vals_waiters_of [of "d_whoisWaiters s" a] set_remove1_subset [of ?p "waiters_of (d_whoisWaiters s) a"] by blast
    then have "adds 0 s (s\<lparr>d_whoisWaiters := ?w\<rparr>)"
      using dwaits_sub [of "s\<lparr>d_whoisWaiters := ?w\<rparr>" "{}" s "{}" "{}"] by (intro adds_frame) (simp_all add: dcore_def)
    moreover have "jm_has (d_whoisWaiters s) a \<Longrightarrow> dsh_timeout t s = settle (Inl ?e) ?p (s\<lparr>d_whoisWaiters := ?w\<rparr>)"
      "\<not> jm_has (d_whoisWaiters s) a \<Longrightarrow> dsh_timeout t s = settle (Inl ?e) ?p s" if "counted s"
      using late [OF that, of "s\<lparr>d_whoisWaiters := ?w\<rparr>"] late [OF that, of s]
      by (simp_all add: dsh_timeout_def Let_def TWhois settle_reorder)
    ultimately show ?thesis using gen adds_refl by (cases "jm_has (d_whoisWaiters s) a") blast+
  next
    case (TPresence i)
    let ?e = "JsError ''presence: hub did not reply''"
    let ?s = "s\<lparr>d_presenceWaiters := jm_del i (d_presenceWaiters s)\<rparr>"
    have "adds 0 s ?s"
      using dwaits_sub [of ?s "{}" s "{}" "{}"] by (intro adds_frame) (simp_all add: dcore_def snd_jm_del)
    moreover have "jm_get (d_presenceWaiters s) i = Some ?p \<Longrightarrow> dsh_timeout t s = settle (Inl ?e) ?p ?s"
      "jm_get (d_presenceWaiters s) i \<noteq> Some ?p \<Longrightarrow> dsh_timeout t s = settle (Inl ?e) ?p s" if "counted s"
      using late [OF that, of ?s] late [OF that, of s] by (simp_all add: dsh_timeout_def Let_def TPresence settle_reorder)
    ultimately show ?thesis using gen adds_refl by (cases "jm_get (d_presenceWaiters s) i = Some ?p") blast+
  next
    case (TJoin c)
    then show ?thesis using t by (auto simp: adds_def counted_def)
  qed
qed

lemma adds_connectTo: "adds 0 s (snd (connectTo X host name channel s))"
proof -
  have u: "dsame s (s\<lparr>pl_name := a, pl_url := b\<rparr>)" for a b
    by (simp add: dsame_def dcore_def)
  have p: "adds 0 s (snd (persist_target url name channel (s\<lparr>pl_name := a, pl_url := b\<rparr>)))" for url a b
    by (rule adds_same_then [OF u adds_same [OF dsame_persist_target]])
  have r: "adds 0 t (snd (retarget_to X url name t))" for url t
    by (simp add: retarget_to_def adds_retarget split: sum.splits)
  have "adds 0 t (snd (and_then (ensure_room X channel t) (retarget_to X url name)))" for url t
    by (rule adds_and_then [OF adds_same [OF dsame_ensure_room] r])
  from adds_and_then [OF p this] show ?thesis
    unfolding connectTo_def Let_def by (simp split: sum.splits)
qed

lemma adds_execute:
  assumes "\<And>t. dstack_ok t ks"
  shows "adds (mus ks) s (execute X t a ks s)"
proof -
  have j: "adds (mus ks) u (ret (DJson v) ks u)" for v u by (rule adds_ret [OF assms])
  have c: "adds (mus ks) s (connect_plugin X a ks s)"
  proof -
    have "adds (mus ks) s (throw e ks (snd (connectTo X h n c s)))"
      "adds (mus ks) s (ret (DJson v) ks (snd (connectTo X h n c s)))" for e v h n c
      by (rule adds_then [OF adds_connectTo adds_throw [OF assms]], rule adds_then [OF adds_connectTo j])
    then show ?thesis
      by (auto simp: connect_plugin_def Let_def j split: prod.splits option.splits) (metis snd_conv)+
  qed
  have i: "adds (mus ks) s (invite_plugin X a ks s)"
    using adds_invite [of "DkInviteTool # ks" s] adds_presence [of "DkInvitePeers who channel # DkInviteTool # ks" s for who channel]
    by (auto simp: invite_plugin_def Let_def mu_simps assms)
  have "adds (mus ks) s (run_tool X t a ks s)"
  proof (cases t)
    case PInbox
    have "adds (mus ks) s (ret (DJson v) ks (snd (dsh_drainErrors s)))" for v
      by (rule adds_same_then [OF dsame_fields(11) j])
    then show ?thesis by (simp add: run_tool_def PInbox dsh_drainErrors_def)
  next
    case PPeers
    then show ?thesis
      using adds_presence [of "DkPeers # ks" s "px_env X"] by (simp add: run_tool_def mu_simps assms)
  qed (simp_all add: run_tool_def Let_def adds_send adds_dm adds_whois assms i j c)
  then show ?thesis by (simp add: execute_def j)
qed

lemma adds_tick:
  assumes "possible (ETick t) s"
  shows "adds 0 s (s\<lparr>now := now s + t\<rparr>)"
proof -
  have "timers_ok (ptimers s) ps (now s + t)" if "timers_ok (ptimers s) ps (now s)" for ps
    using that assms by (auto simp: timers_ok_def)
  then show ?thesis by (simp add: adds_def counted_def total_def dages_def)
qed

lemma adds_retry: "adds 0 s (dsh_retry W h s)"
  unfolding dsh_retry_def
  by (rule adds_crash_end [OF adds_same_then [OF dsame_hub_error(7) adds_same [OF dsame_connect]]])

lemma adds_happens:
  assumes "possible l s" "d = 0 \<or> total s = d"
  shows "adds (tool_weight r l) s (happens X l s)"
proof (cases l)
  case (ETick t)
  with assms show ?thesis using adds_tick by simp
next
  case (EOpen i)
  then show ?thesis using adds_same_then [OF dsame_fields(6) told.adds_on_open] by simp
next
  case (EClose i)
  then show ?thesis using adds_same_then [OF dsame_trans [OF dsame_fields(6,7)] told.adds_on_close] by simp
next
  case (ETimeout p)
  then show ?thesis
    by (auto simp: dsh_timeout_fires_def split: list.splits intro!: adds_timeout dest!: filter_eq_ConsD)
next
  case EWatchdog
  then show ?thesis
    using adds_same [OF dsame_trans [OF dsame_hub_error(6) dsame_fields(2)]] by (simp split: option.splits)
next
  case (EResume n)
  with assms show ?thesis using adds_resume_nth by simp
next
  case (ETool n t a)
  have "adds (mus [DkTop n]) s (execute X t a [DkTop n] s)" by (rule adds_execute) simp
  with ETool show ?thesis by (simp add: mu_simps)
next
  case EDispose
  have "dsame s (s\<lparr>pl_poller := None\<rparr>)" by (simp add: dsame_def dcore_def)
  from adds_same_then [OF this adds_stop] show ?thesis using EDispose by (simp add: dispose_def)
next
  case (EOutside h k)
  then show ?thesis by (simp add: adds_same dsame_def dcore_def)
qed (simp_all add: told.adds_on_message told.adds_on_error told.adds_unexpected adds_retry adds_poll)

end

section \<open>The accounts of a run\<close>

fun dtop_weight :: "nat \<Rightarrow> dkont \<Rightarrow> nat" where
  "dtop_weight n (DkTop m) = (if m = n then 1 else 0)"
| "dtop_weight n k = 0"

fun dpass_weight :: "dkont \<Rightarrow> nat" where
  "dpass_weight DkDeliver = 1"
| "dpass_weight (DkDelivered i agents p) = 1"
| "dpass_weight k = 0"

interpretation dtops: dsh_count "dtop_weight n" "\<lambda>m. if m = n then 1 else 0" 0 for n
  by unfold_locales simp_all

interpretation dpasses: dsh_count dpass_weight "\<lambda>_. 0" "Suc 0"
  by unfold_locales simp_all

lemma installs_counted: "installs X c h s \<Longrightarrow> counted s"
  using installs_fields [of X c h s]
  by (simp add: counted_def dparked_ok_def timers_ok_def dmicro_ok_def dwaits_ok_def dwaits_def)

lemma plugin_step_adds:
  assumes "plugin_step X s l s'"
  shows "dtops.adds n (tool_weight (\<lambda>m. if m = n then 1 else 0) l) s s'"
    and "dpasses.total s = Suc 0 \<Longrightarrow> dpasses.adds (tool_weight (\<lambda>_. 0) l) s s'"
  using assms by (auto elim!: plugin_stepE intro: dtops.adds_happens dpasses.adds_happens)

lemma tool_weight_0: "tool_weight (\<lambda>_. 0) l = 0"
  by (cases l) simp_all

lemma run_counted: "plugin_run X s ls s' \<Longrightarrow> counted s \<Longrightarrow> counted s'"
  by (erule (1) plugin_invariant) (use plugin_step_adds(1) in \<open>auto simp: dtops.adds_def\<close>)

lemma run_dages: "plugin_run X s ls s' \<Longrightarrow> counted s \<Longrightarrow> dages s s'"
proof (induction rule: plugin_run.induct)
  case (snoc s ls s' l s'')
  then have "counted s'" using run_counted by blast
  with plugin_step_adds(1) [OF snoc(2)] have "dages s' s''" by (simp add: dtops.adds_def)
  with snoc show ?case using dages_trans by blast
qed simp

lemma run_dtops:
  "plugin_run X s ls s' \<Longrightarrow> counted s \<Longrightarrow>
     dtops.total n s' = dtops.total n s + sum_list (map (tool_weight (\<lambda>m. if m = n then 1 else 0)) ls)"
proof (induction rule: plugin_run.induct)
  case (snoc s ls s' l s'')
  then have "counted s'" using run_counted by blast
  with plugin_step_adds(1) [OF snoc(2), of n] snoc show ?case by (simp add: dtops.adds_def)
qed simp

lemma run_dpasses: "plugin_run X s ls s' \<Longrightarrow> counted s \<Longrightarrow> dpasses.total s = Suc 0 \<Longrightarrow> dpasses.total s' = Suc 0"
proof (induction rule: plugin_run.induct)
  case (snoc s ls s' l s'')
  then have "counted s'" using run_counted by blast
  with plugin_step_adds(2) [OF snoc(2)] snoc show ?case by (simp add: dpasses.adds_def tool_weight_0)
qed simp

lemma tools_weight:
  "sum_list (map (tool_weight (\<lambda>m. if m = n then 1 else 0)) ls) = length (filter (\<lambda>l. \<exists>t a. l = ETool n t a) ls)"
proof (induction ls)
  case (Cons l ls)
  then show ?case by (cases l) auto
qed simp

section \<open>Properties\<close>

text \<open>How often the \<open>n\<close>-th tool call is waiting or ready to go on.\<close>

definition suspended_tools :: "nat \<Rightarrow> plugin \<Rightarrow> nat" where
  "suspended_tools n s =
     sum_list (map (\<lambda>(p, ks). count_list ks (DkTop n)) (parked s)) + sum_list (map (\<lambda>(out, ks). count_list ks (DkTop n)) (micro s))"

lemma dtops_mus: "dtops.mus n ks = count_list ks (DkTop n)"
proof (induction ks)
  case (Cons k ks)
  then show ?case by (cases k) auto
qed simp

lemma dtops_total: "dtops.total n s = suspended_tools n s + count_list (map fst (results s)) n"
proof -
  have "sum_list (map (\<lambda>(m, out). if m = n then 1 else 0) rs) = count_list (map fst rs) n" for rs :: "(nat \<times> 'b) list"
    by (induction rs) auto
  then show ?thesis by (simp add: dtops.total_def suspended_tools_def dtops_mus)
qed

text \<open>C6: no call of a tool of the plugin is lost, and none is answered twice: at any moment of any run, the
  times a tool call is suspended plus the times it was answered are the times it was made. Every branch of
  every tool, of every method of the client it calls, of every failure and of every hook hands its outcome on.\<close>

theorem plugin_tools_answered:
  assumes "installs X c h s0" "plugin_run X s0 ls s"
  shows "suspended_tools n s + count_list (map fst (results s)) n = length (filter (\<lambda>l. \<exists>t a. l = ETool n t a) ls)"
proof -
  have "dtops.total n s0 = 0"
    using installs_fields [OF assms(1)] by (simp add: dtops_total suspended_tools_def)
  with run_dtops [OF assms(2) installs_counted [OF assms(1)], of n] show ?thesis
    by (simp add: dtops_total tools_weight)
qed

text \<open>No promise of the plugin waits longer than \<open>READY_TIMEOUT_MS\<close>, whatever the hub does: once the clock
  is more than that past a moment at which a promise was waiting, it is settled, and with it the tool call,
  the delivery pass or the message that waited for it has gone on.\<close>

lemma plugin_promises_settle:
  assumes "installs X c h s0" "plugin_run X s0 ls s" "p \<in> fst ` set (parked s)"
    and "plugin_run X s ls' s'" "now s + READY_TIMEOUT_MS < now s'"
  shows "p \<notin> fst ` set (parked s')"
proof
  assume q: "p \<in> fst ` set (parked s')"
  have ok: "counted s" by (rule run_counted [OF assms(2) installs_counted [OF assms(1)]])
  have ok': "counted s'" by (rule run_counted [OF assms(4) ok])
  have "p < n_pid s"
    using ok assms(3) by (auto simp: counted_def dparked_ok_def dest: weak_map_of_SomeI)
  moreover from ok' have "timers_ok (ptimers s') (fst ` set (parked s')) (now s')" by (simp add: counted_def)
  with q have "p \<in> pt_pid ` set (ptimers s')" "\<forall>t \<in> set (ptimers s'). now s' \<le> pt_due t" by (simp_all add: timers_ok_def)
  then obtain t where t: "t \<in> set (ptimers s')" "pt_pid t = p" "now s' \<le> pt_due t" by blast
  ultimately have "t \<in> set (ptimers s)" using run_dages [OF assms(4) ok] by (auto simp: dages_def)
  with ok have "pt_due t \<le> now s + WAIT_MS" by (simp add: counted_def timers_ok_def)
  with t assms(5) show False by (simp add: WAIT_MS_def READY_TIMEOUT_MS_def)
qed

text \<open>A suspended method of the client or the plugin is only ever continued with the kind of value it waits for.\<close>

lemma plugin_continuations_typed:
  assumes "installs X c h s0" "plugin_run X s0 ls s" "(out, ks) \<in> set (micro s)"
  shows "dsuits out ks"
  using run_counted [OF assms(2) installs_counted [OF assms(1)]] assms(3)
  by (auto simp: counted_def dmicro_ok_def list_all_iff)

definition plugin_passes :: "plugin \<Rightarrow> nat" where
  "plugin_passes s =
     sum_list (map (\<lambda>(p, ks). sum_list (map dpass_weight ks)) (parked s))
     + sum_list (map (\<lambda>(out, ks). sum_list (map dpass_weight ks)) (micro s))"

text \<open>At most one pass over the plugin's pending invites is on its way, though the poll, every welcome and every
  armed invite may start one; one is exactly while \<open>delivering\<close> is set, and no failure leaves the flag behind.\<close>

lemma one_plugin_pass:
  assumes "installs X c h s0" "plugin_run X s0 ls s"
  shows "plugin_passes s = (if pl_delivering s then 1 else 0)"
proof -
  have z: "sum_list (map (\<lambda>(n, out). 0::nat) rs) = 0" for rs :: "(nat \<times> (exn + dvalue)) list"
    by (induction rs) auto
  have "dpasses.total s0 = Suc 0"
    using installs_fields [OF assms(1)] by (simp add: dpasses.total_def)
  from run_dpasses [OF assms(2) installs_counted [OF assms(1)] this] show ?thesis
    by (simp add: dpasses.total_def dpasses.mus_def plugin_passes_def z split: if_splits)
qed

section \<open>A concrete plugin\<close>

lemma plugin_tools_answered_witness: "suspended_tools 7 demo_early + count_list (map fst (results demo_early)) 7 = 1"
  using plugin_tools_answered [OF demo_installed demo_early_run, of 7] by simp

definition demo_late :: plugin where
  "demo_late = happens demo_ctx (ETick 1) (happens demo_ctx (ETimeout 0) (happens demo_ctx (ETick 5000) demo_early))"

lemma demo_late_run: "plugin_run demo_ctx demo_early [ETick 5000, ETimeout 0, ETick 1] demo_late"
  by (rule plugin_steps_run)
    (simp add: demo_early_state demo_late_def READY_TIMEOUT_MS_def dsh_timeout_fires_def dsh_timeout_def settle_def schedule_def
      Let_def)

lemma plugin_promises_settle_witness: "0 \<notin> fst ` set (parked demo_late)"
proof -
  have "now demo_late = 5001"
    by (simp add: demo_late_def dsh_timeout_fires_def demo_early_state READY_TIMEOUT_MS_def dsh_timeout_def settle_def
        schedule_def Let_def)
  with plugin_promises_settle [OF demo_installed demo_early_run _ demo_late_run, of 0]
  show ?thesis by (simp add: demo_early_state READY_TIMEOUT_MS_def)
qed

lemma plugin_continuations_typed_witness: "dsuits (Inl LibError) [DkWhois ''x'', DkTop 7]"
  using plugin_continuations_typed [OF demo_installed demo_early_run] by (simp add: demo_early_state)

lemma one_plugin_pass_witness: "plugin_passes demo_early = 0"
  using one_plugin_pass [OF demo_installed demo_early_run] by (simp add: demo_early_state)

end
