(* ===== verification/Dsh_Actions.thy ===== *)
theory Dsh_Actions
  imports Dsh_Calls
begin

text \<open>
  What the plugin does, seen from outside: it sends frames on its open socket, closes sockets, dials, lets its
  socket go, changes its identity while it has none, keeps messages and errors, and paces its reconnects.
  Every operation of the client and the plugin is a sequence of these actions (\<open>acts\<close>), so that an invariant
  of the actions is an invariant of the runs. The hooks are again a contract, \<open>acting_hooks\<close>.
\<close>

definition frame_by :: "crypto \<Rightarrow> identity \<Rightarrow> json \<Rightarrow> bool" where
  \<comment> \<open>a frame the client may send after its hello\<close>
  "frame_by C i f =
     (f = JObj [(''op'', JStr ''flush'')] \<or> f = JObj [(''t'', JStr ''enroll'')]
      \<or> (\<exists>c p. f = JObj [(''op'', JStr ''join''), (''channel'', JStr c), (''chanPubkey'', JStr p)])
      \<or> (\<exists>q. f = presence_query q) \<or> (\<exists>a. f = JObj [(''op'', JStr ''whois''), (''agentId'', JStr a)])
      \<or> (\<exists>fr sig. f = JObj (obj_put ''sig'' (JStr sig) fr) \<and> prop_of fr ''op'' = JStr ''send''
           \<and> signFrame C fr (id_priv i) = Inr sig))"

lemma frame_by_known [simp]:
  "frame_by C i (JObj [(''op'', JStr ''flush'')])" "frame_by C i (JObj [(''t'', JStr ''enroll'')])"
  "frame_by C i (JObj [(''op'', JStr ''join''), (''channel'', JStr c), (''chanPubkey'', JStr p)])"
  "frame_by C i (presence_query q)" "frame_by C i (JObj [(''op'', JStr ''whois''), (''agentId'', JStr a)])"
  by (auto simp: frame_by_def)

definition shown :: "plugin \<Rightarrow> _" where
  "shown s = (wire s, socks s, n_sock s, d_ws s, d_ident s, d_inboxMsgs s, d_errorRing s, d_delay s, d_initialMs s, d_maxMs s)"

inductive action :: "crypto \<Rightarrow> plugin \<Rightarrow> plugin \<Rightarrow> bool" for C where
  internal: "shown t = shown s \<Longrightarrow> action C s t"
| sends: "d_ws s = Some i \<Longrightarrow> sock_of i s = OPEN \<Longrightarrow> frame_by C (d_ident s) f \<Longrightarrow> action C s (push_frame i f s)"
| closes: "action C s (close_sock i s)"
| lets_go: "shown t = shown (s\<lparr>d_ws := None\<rparr>) \<Longrightarrow> action C s t"
| dials: "shown t = shown (s\<lparr>n_sock := n_sock s + 1, socks := jm_set (n_sock s) CONNECTING (socks s), d_ws := Some (n_sock s)\<rparr>)
    \<Longrightarrow> action C s t"
| swaps: "d_ws s = None \<Longrightarrow> shown t = shown (s\<lparr>d_ident := i\<rparr>) \<Longrightarrow> action C s t"
| keeps_message: "shown t = shown (s\<lparr>d_inboxMsgs := ring_push INBOX_CAP (d_inboxMsgs s) m\<rparr>) \<Longrightarrow> action C s t"
| keeps_error: "shown t = shown (s\<lparr>d_errorRing := ring_push ERRORS_CAP (d_errorRing s) e\<rparr>) \<Longrightarrow> action C s t"
| drains: "shown t = shown (s\<lparr>d_errorRing := []\<rparr>) \<Longrightarrow> action C s t"
| slows: "shown t = shown (s\<lparr>d_delay := min (d_delay s * 2) (d_maxMs s)\<rparr>) \<Longrightarrow> action C s t"
| resets: "shown t = shown (s\<lparr>d_delay := d_initialMs s\<rparr>) \<Longrightarrow> action C s t"

definition acts :: "crypto \<Rightarrow> plugin \<Rightarrow> plugin \<Rightarrow> bool" where
  "acts C = (action C)\<^sup>*\<^sup>*"

lemma acts_refl [simp, intro]: "acts C s s"
  by (simp add: acts_def)

lemma acts_trans [trans]: "acts C s t \<Longrightarrow> acts C t u \<Longrightarrow> acts C s u"
  by (simp add: acts_def)

lemma acts_action: "action C s t \<Longrightarrow> acts C s t"
  by (simp add: acts_def)

lemma acts_internal: "shown t = shown s \<Longrightarrow> acts C s t"
  by (rule acts_action [OF action.internal])

lemmas acts_then = acts_trans [OF acts_internal]
lemmas acts_after = acts_trans [OF _ acts_internal]

lemma acts_and_then: "acts C s (snd x) \<Longrightarrow> (\<And>t. acts C t (snd (f t))) \<Longrightarrow> acts C s (snd (and_then x f))"
  by (auto simp: and_then_case intro: acts_trans)

text \<open>An action, and an invariant of the actions, over a whole sequence.\<close>

lemma acts_invariant:
  assumes "acts C s t" "P s" "\<And>s t. action C s t \<Longrightarrow> P s \<Longrightarrow> P t"
  shows "P t"
  using assms(1,2) unfolding acts_def by (induction rule: rtranclp_induct) (auto intro: assms(3))

section \<open>What is not shown\<close>

named_theorems shown_simps

lemma shown_world [shown_simps]:
  "shown (schedule out ks s) = shown s" "shown (ret v ks s) = shown s" "shown (throw e ks s) = shown s"
  "shown (new_promise ms k ks s) = shown s" "shown (take_uuid s) = shown s" "shown (take_random s) = shown s"
  "shown (crash s) = shown s" "shown (detach i s) = shown s"
  by (simp_all add: shown_def ret_def throw_def schedule_def new_promise_def take_uuid_def take_random_def crash_def detach_def)

lemma shown_fields [shown_simps]:
  "shown (s\<lparr>d_whoisWaiters := a\<rparr>) = shown s" "shown (s\<lparr>d_readyWaiters := b\<rparr>) = shown s"
  "shown (s\<lparr>d_presenceWaiters := c\<rparr>) = shown s" "shown (s\<lparr>d_channels := d\<rparr>) = shown s" "shown (s\<lparr>w_host := e\<rparr>) = shown s"
  "shown (s\<lparr>d_lastError := f\<rparr>) = shown s" "shown (s\<lparr>d_known := g\<rparr>) = shown s" "shown (s\<lparr>d_welcomed := h\<rparr>) = shown s"
  "shown (s\<lparr>d_stopped := i\<rparr>) = shown s" "shown (s\<lparr>watching := j\<rparr>) = shown s" "shown (s\<lparr>d_retryTimer := k\<rparr>) = shown s"
  "shown (s\<lparr>retries := l\<rparr>) = shown s" "shown (s\<lparr>d_url := m\<rparr>) = shown s" "shown (s\<lparr>d_name := n\<rparr>) = shown s"
  "shown (s\<lparr>n_random := p\<rparr>) = shown s" "shown (s\<lparr>d_hellos := q\<rparr>) = shown s" "shown (s\<lparr>d_clientSecret := r\<rparr>) = shown s"
  "shown (s\<lparr>d_enrollMode := t\<rparr>) = shown s" "shown (s\<lparr>d_echoSeen := u\<rparr>) = shown s" "shown (s\<lparr>d_reEnrolled := v\<rparr>) = shown s"
  "shown (s\<lparr>d_welcomes := w\<rparr>) = shown s" "shown (s\<lparr>ptimers := x\<rparr>) = shown s" "shown (s\<lparr>micro := y\<rparr>) = shown s"
  "shown (s\<lparr>now := z\<rparr>) = shown s" "shown (s\<lparr>results := a1\<rparr>) = shown s" "shown (s\<lparr>pl_delivering := a2\<rparr>) = shown s"
  "shown (s\<lparr>pl_pending := a3\<rparr>) = shown s" "shown (s\<lparr>pl_poller := a4\<rparr>) = shown s" "shown (s\<lparr>pl_name := a5\<rparr>) = shown s"
  "shown (s\<lparr>pl_url := a6\<rparr>) = shown s" "shown (s\<lparr>pl_followups := a7\<rparr>) = shown s" "shown (s\<lparr>pl_warnings := a8\<rparr>) = shown s"
  "shown (s\<lparr>n_timer := a9\<rparr>) = shown s" "shown (s\<lparr>delivered := b1\<rparr>) = shown s" "shown (s\<lparr>hooked := b2\<rparr>) = shown s"
  "shown (s\<lparr>attached := b3\<rparr>) = shown s" "shown (s\<lparr>dialed := b4\<rparr>) = shown s" "shown (s\<lparr>d_dialSource := b5\<rparr>) = shown s"
  by (simp_all add: shown_def)

lemma shown_settle [shown_simps]: "shown (settle out p s) = shown s"
  by (simp add: settle_def schedule_def shown_def split: option.splits)

lemma shown_settle_all [shown_simps]: "shown (settle_all out ps s) = shown s"
  unfolding settle_all_def by (induction ps arbitrary: s) (simp_all add: shown_settle)

lemma shown_ops [shown_simps]:
  "shown (failWhoisWaiters m s) = shown s" "shown (fail_unknown s) = shown s" "shown (wake_all s) = shown s"
  "shown (dsh_onAgentInfo f s) = shown s" "shown (resolvePresence f s) = shown s" "shown (clear_timer_handle h s) = shown s"
  "shown (dsh_persist_keys n k s) = shown s" "shown (whenReady ks s) = shown s" "shown (dsh_timeout t s) = shown s"
  by (simp_all add: failWhoisWaiters_def fail_unknown_def wake_all_def dsh_onAgentInfo_def resolvePresence_def
      clear_timer_handle_def dsh_persist_keys_def whenReady_def dsh_timeout_def Let_def shown_simps
      split: option.splits timer_kind.splits)

lemma shown_effects [shown_simps]:
  "shown (snd (persist_secret_now u s)) = shown s" "shown (snd (persistInvites s)) = shown s"
  "shown (snd (persist_target url name channel s)) = shown s" "shown (snd (followup X m s)) = shown s"
  "shown (snd (logger_warn X m s)) = shown s" "shown (effect_or_crash x) = shown (snd x)"
  by (simp_all add: persist_secret_now_def persistInvites_def persist_target_def followup_def logger_warn_def
      effect_or_crash_def Let_def shown_simps split: sum.splits option.splits prod.splits)

lemma shown_and_then: "shown (snd (f (snd x))) = shown (snd x) \<Longrightarrow> shown (snd (and_then x f)) = shown (snd x)"
  by (simp add: and_then_case)

section \<open>The client's operations\<close>

lemma acts_ws_send: "(\<And>i. frame_by C i f) \<Longrightarrow> acts C s (snd (dsh_ws_send f s))"
  by (auto simp: dsh_ws_send_def intro: acts_action action.sends split: option.splits sock_state.splits)

lemma acts_join: "acts C s (snd (dsh_join c p s))"
  by (simp add: dsh_join_def acts_ws_send)

lemma acts_signAndSend:
  assumes "prop_of f ''op'' = JStr ''send''"
  shows "acts (ce_crypto W) s (snd (dsh_signAndSend W f s))"
  using assms by (auto simp: dsh_signAndSend_def frame_by_def intro!: acts_action action.sends split: option.splits sum.splits)

lemma acts_returns: "acts C s (snd x) \<Longrightarrow> acts C s (returns ks x)"
  by (auto simp: returns_def shown_simps intro: acts_after split: prod.splits option.splits)

lemma acts_agentInfo: "acts C s (dsh_agentInfo a ks s)"
proof -
  let ?f = "JObj [(''op'', JStr ''whois''), (''agentId'', JStr a)]"
  let ?p = "\<lambda>ks. (new_promise READY_TIMEOUT_MS (TWhois a) ks s)
    \<lparr>d_whoisWaiters := jm_set a (waiters_of (d_whoisWaiters s) a @ [n_pid s]) (d_whoisWaiters s)\<rparr>"
  have "acts C s (?p ks)" for ks by (simp add: acts_internal shown_simps)
  from acts_trans [OF this acts_ws_send] have "acts C s (snd (dsh_ws_send ?f (?p (DkInfo a # ks))))" by simp
  moreover have "acts C s (throw e ks (?p [DkNobody]))" for e by (simp add: acts_internal shown_simps)
  ultimately show ?thesis
    by (auto simp: dsh_agentInfo_def Let_def shown_simps intro: acts_internal split: option.splits prod.splits)
qed

lemma acts_queryPresence: "acts C s (queryPresence i ks s)"
proof -
  let ?p = "\<lambda>ks. (new_promise READY_TIMEOUT_MS (TPresence i) ks s)\<lparr>d_presenceWaiters := jm_set i (n_pid s) (d_presenceWaiters s)\<rparr>"
  have "acts C s (?p ks)" for ks by (simp add: acts_internal shown_simps)
  from acts_trans [OF this acts_ws_send] have "acts C s (snd (dsh_ws_send (presence_query i) (?p ks)))" by simp
  moreover have "acts C s (throw e ks (?p [DkNobody]))" for e by (simp add: acts_internal shown_simps)
  ultimately show ?thesis
    by (auto simp: queryPresence_def Let_def split: option.splits prod.splits)
qed

lemma acts_presence: "acts C s (dsh_presence W ks s)"
  by (auto simp: dsh_presence_def shown_simps intro: acts_internal acts_then [OF _ acts_queryPresence])

lemma acts_warmUp: "acts C s (warmUpEcho W n s)"
  by (auto simp: warmUpEcho_def shown_simps intro: acts_then [OF _ acts_queryPresence])

lemma acts_createChannel: "acts C s (snd (snd (createChannel W c s)))"
proof -
  have "acts C s (snd (dsh_join c p (dsh_persist_keys c k (take_random (s\<lparr>d_channels := x\<rparr>)))))" for p k x
    by (rule acts_then [OF _ acts_join]) (simp add: shown_simps)
  then show ?thesis by (simp add: createChannel_def Let_def split_beta)
qed

lemma acts_ensureChannel: "acts C s (snd (snd (dsh_ensureChannel W c s)))"
  by (simp add: dsh_ensureChannel_def acts_createChannel split: option.splits)

lemma acts_acceptInvite: "acts C s (snd (acceptInvite i s))"
  unfolding acceptInvite_def by (rule acts_then [OF _ acts_join]) (simp add: shown_simps)

lemma msg_frame_op [simp]: "fld \<noteq> ''op'' \<Longrightarrow> prop_of (msg_frame fld peer i t ct) ''op'' = JStr ''send''"
  by (simp add: msg_frame_def prop_of_def)

lemma acts_post:
  assumes "fld \<noteq> ''op''"
  shows "acts (ce_crypto W) s (snd (dsh_post W fld peer text pub s))"
proof -
  have "acts (ce_crypto W) s (take_random (take_uuid s))" by (simp add: acts_internal shown_simps)
  with acts_signAndSend [OF msg_frame_op [OF assms]] show ?thesis
    by (auto simp: dsh_post_def Let_def intro: acts_trans split: sum.splits)
qed

lemma acts_posted:
  "acts (ce_crypto W) s (dsh_send_ready W channel text ch ks s)" "acts (ce_crypto W) s (dsh_dm_ready W to text info ks s)"
  by (simp_all add: dsh_send_ready_def dsh_dm_ready_def acts_returns acts_post)

lemma acts_send: "acts C s (dsh_send W channel text ks s)"
proof -
  have "acts C s (throw e ks (snd (snd (dsh_ensureChannel W channel s))))"
    "acts C s (whenReady ks' (snd (snd (dsh_ensureChannel W channel s))))" for e ks'
    by (rule acts_after [OF acts_ensureChannel], simp add: shown_simps)+
  then show ?thesis
    by (auto simp: dsh_send_def shown_simps intro: acts_internal split: prod.splits option.splits)
qed

lemma acts_dm: "acts C s (dsh_dm to text ks s)"
  by (auto simp: dsh_dm_def acts_agentInfo shown_simps intro: acts_internal)

lemma acts_dm_info: "acts C s (dsh_dm_info to text info ks s)"
  by (auto simp: dsh_dm_info_def shown_simps intro: acts_internal)

lemma acts_invite: "acts C s (dsh_invite W to channel ks s)"
proof -
  have gen: "acts C s (case e of Some x \<Rightarrow> throw x ks t | None \<Rightarrow> dsh_dm to msg ks t)" if "acts C s t" for e :: "exn option" and t msg
    using that acts_dm by (auto simp: shown_simps intro: acts_after acts_trans split: option.splits)
  show ?thesis
    using gen [OF acts_refl, where e = None] gen [OF acts_createChannel, where e = "fst (createChannel W channel s)"]
    by (auto simp: dsh_invite_def Let_def split_beta shown_simps intro: acts_internal split: option.splits list.splits)
qed

lemma acts_whois: "acts C s (dsh_whois a ks s)"
  by (simp add: dsh_whois_def acts_agentInfo)

lemma acts_presence_answered: "acts C s (dsh_presence_answered W f ks s)"
  by (auto simp: dsh_presence_answered_def shown_simps intro: acts_internal split: sum.splits)

lemma acts_close_ws: "acts C s (dsh_close_ws s)"
  by (auto simp: dsh_close_ws_def intro: acts_action action.closes split: option.splits)

lemma acts_connect: "acts C s (snd (dsh_connect W s))"
proof -
  have "shown (s\<lparr>d_enrollMode := e, d_dialSource := f, n_sock := a, socks := b, attached := c, dialed := d, d_ws := g\<rparr>)
      = shown (s\<lparr>n_sock := a, socks := b, d_ws := g\<rparr>)" for a b c d e f g
    by (simp add: shown_def)
  then show ?thesis
    by (auto simp: dsh_connect_def Let_def intro: acts_action [OF action.dials])
      (simp add: acts_internal shown_simps)
qed

lemma acts_stop: "acts C s (dsh_stop s)"
proof -
  let ?a = "(failWhoisWaiters ''whois: client stopped'' (s\<lparr>d_stopped := True\<rparr>))\<lparr>watching := None\<rparr>"
  have "acts C s (clear_timer_handle h ?a)" for h by (simp add: acts_internal shown_simps)
  from acts_trans [OF this acts_close_ws] have "acts C s (dsh_close_ws (clear_timer_handle h ?a))" for h .
  from acts_trans [OF this acts_action [OF action.lets_go [OF HOL.refl]]] show ?thesis
    by (simp add: dsh_stop_def Let_def)
qed

lemma swap_ws: "snd (swap_identity W p s) = t \<Longrightarrow> d_ws s = None \<Longrightarrow> acts C s t"
  by (auto simp: swap_identity_def shown_def intro!: acts_action [OF action.swaps] split: option.splits list.splits sum.splits)

lemma ws_failWhois [simp]: "d_ws (failWhoisWaiters m s) = d_ws (s :: plugin)"
  using shown_ops(1) [of m s] by (simp add: shown_def)

lemma acts_retarget: "acts C s (snd (dsh_retarget W next s))"
proof -
  let ?s1 = "(clear_timer_handle (d_retryTimer s) s)\<lparr>d_retryTimer := None, watching := None\<rparr>"
  let ?s2 = "(dsh_close_ws ?s1)\<lparr>d_ws := None, d_welcomed := False, d_stopped := False\<rparr>"
  have "acts C s ?s1" by (simp add: acts_internal shown_simps)
  from acts_trans [OF this acts_close_ws] have "acts C s (dsh_close_ws ?s1)" .
  moreover have "acts C (dsh_close_ws ?s1) ?s2"
    by (rule acts_action [OF action.lets_go]) (simp add: shown_def)
  ultimately have s2: "acts C s ?s2" by (rule acts_trans)
  have s4: "acts C s ((failWhoisWaiters RETARGET_REASON ?s2)\<lparr>d_url := u\<rparr>)" for u
    by (rule acts_after [OF s2]) (simp add: shown_simps)
  have dial: "acts C t (snd (dsh_connect W (t\<lparr>d_known := [], d_name := n, d_delay := d_initialMs t\<rparr>)))" for t n
  proof -
    have "acts C t (t\<lparr>d_known := [], d_name := n, d_delay := d_initialMs t\<rparr>)"
      by (rule acts_action [OF action.resets]) (simp add: shown_def)
    from acts_trans [OF this acts_connect] show ?thesis .
  qed
  have "acts C t (snd (and_then (swap_identity W p t)
      (\<lambda>s5. dsh_connect W (s5\<lparr>d_known := [], d_name := (case n of Some n \<Rightarrow> Some n | None \<Rightarrow> d_name s5), d_delay := d_initialMs s5\<rparr>))))"
    if "d_ws t = None" for t p n
    using acts_trans [OF swap_ws [OF HOL.refl that] dial] swap_ws [OF HOL.refl that] by (simp add: and_then_case)
  then have "acts C s (snd (and_then (swap_identity W p ((failWhoisWaiters RETARGET_REASON ?s2)\<lparr>d_url := u\<rparr>))
      (\<lambda>s5. dsh_connect W (s5\<lparr>d_known := [], d_name := (case n of Some n \<Rightarrow> Some n | None \<Rightarrow> d_name s5), d_delay := d_initialMs s5\<rparr>))))"
    for u p n by (rule acts_trans [OF s4]) simp
  then show ?thesis unfolding dsh_retarget_def Let_def .
qed

end
