(* ===== verification/Dsh_Wire.thy ===== *)
theory Dsh_Wire
  imports Dsh_Actions
begin

text \<open>
  What the actions of \<open>Dsh_Actions\<close> show of every run of the plugin: each socket begins with a signed hello and
  speaks for one identity, the logs and the reconnect delay stay within their bounds, and a socket that was let
  go is never listened to again.
\<close>

section \<open>The actions of an event\<close>

locale acting_hooks =
  fixes C :: crypto and H :: "plugin hooks"
  assumes ready_acts: "acts C s (snd (hk_ready H s))"
    and message_acts: "acts C s (snd (hk_message H m s))"
    and invite_acts: "acts C s (snd (hk_invite H i f s))"
    and error_acts: "acts C s (snd (hk_error H e s))"
    and enrolled_acts: "acts C s (snd (hk_enrolled H s))"
begin

lemma acts_surface: "acts C s (snd (surfaceError H c m s))"
proof -
  have "acts C s (s\<lparr>d_errorRing := ring_push ERRORS_CAP (d_errorRing s) e, hooked := h\<rparr>)" for e h
    by (rule acts_action [OF action.keeps_error]) (simp add: shown_def)
  from acts_trans [OF this error_acts] show ?thesis by (simp add: surfaceError_def Let_def)
qed

lemma acts_each_join: "acts C s (snd (each (\<lambda>ch. dsh_join (ch_name ch) (ch_pub ch)) chs s))"
  by (induction chs arbitrary: s) (auto intro: acts_and_then acts_join)

lemma acts_welcome: "acts C s (snd (dsh_onWelcome H W s))"
proof -
  let ?s1 = "s\<lparr>d_welcomed := True, d_welcomes := d_welcomes s + 1, d_delay := d_initialMs s\<rparr>"
  have s1: "acts C s ?s1"
    by (rule acts_action [OF action.resets]) (simp add: shown_def)
  then have "acts C s (snd (let s1 = ?s1 in if d_enrollMode s1 then dsh_ws_send (JObj [(''t'', JStr ''enroll'')]) s1 else (None, s1)))"
    using acts_trans [OF s1 acts_ws_send] by (cases "d_enrollMode ?s1") (simp_all only: Let_def if_True if_False snd_conv frame_by_known)
  moreover have "acts C t (snd (hk_ready H (wake_all (warmUpEcho W 0 t))))" for t
    by (rule acts_trans [OF acts_warmUp acts_then [OF _ ready_acts]]) (simp add: shown_simps)
  ultimately show ?thesis
    unfolding dsh_onWelcome_def by (intro acts_and_then) (auto intro: acts_ws_send acts_each_join)
qed

lemma acts_enrolled: "acts C s (snd (dsh_onEnrolled H secret s))"
proof -
  have "acts C s (snd (persist_secret_now u (s\<lparr>d_clientSecret := y, d_enrollMode := z\<rparr>)))" for u y z
    by (simp add: acts_internal shown_simps)
  from acts_and_then [OF this enrolled_acts] show ?thesis by (simp add: dsh_onEnrolled_def)
qed

lemma acts_error_frame: "acts C s (snd (onHubErrorFrame H f s))"
proof -
  have "acts C s (snd (surfaceError H c m (s\<lparr>d_lastError := l\<rparr>)))" for c m l
    by (rule acts_then [OF _ acts_surface]) (simp add: shown_simps)
  then show ?thesis
    unfolding onHubErrorFrame_def Let_def by (intro acts_and_then) (auto simp: shown_simps intro: acts_internal)
qed

lemma acts_msg_resumed: "acts C s (dsh_msg_resumed H W f out s)"
proof -
  have deliver: "acts C s (snd (dsh_deliver H ev s))" for ev
  proof -
    have "acts C s (s\<lparr>d_inboxMsgs := ring_push INBOX_CAP (d_inboxMsgs s) ev, delivered := x\<rparr>)" for x
      by (rule acts_action [OF action.keeps_message]) (simp add: shown_def)
    from acts_trans [OF this message_acts] show ?thesis by (simp add: dsh_deliver_def)
  qed
  have "acts C s (snd (msg_body H W f info s))" for info
    by (simp add: msg_body_def deliver acts_and_then acts_acceptInvite invite_acts split: sum.splits option.splits)
  moreover have u: "acts C t (effect_or_crash (undecryptable H W e t))" for e t
  proof -
    have "acts C t (snd (undecryptable H W e t))"
      unfolding undecryptable_def by (rule acts_then [OF _ acts_surface]) (simp add: shown_simps)
    then show ?thesis by (rule acts_after) (simp add: shown_simps)
  qed
  ultimately have body: "acts C s (snd r)"
    if "r = (case out of Inl e \<Rightarrow> (Some e, s) | Inr (DInfo (Some info)) \<Rightarrow> msg_body H W f info s | Inr _ \<Rightarrow> (None, s))" for r
    using that by (auto split: sum.splits dvalue.splits option.splits)
  from this [OF HOL.refl] acts_trans [OF this [OF HOL.refl] u] show ?thesis
    by (auto simp: dsh_msg_resumed_def Let_def split: prod.splits option.splits)
qed

lemma acts_raw: "acts C s (snd (dsh_handleRaw H W raw s))"
proof -
  have "acts C s (dsh_onAgentInfo f s)" "acts C s (dsh_onMsg f s)" "acts C s (resolvePresence f s)" for f
    by (simp_all add: acts_internal shown_simps dsh_onMsg_def acts_agentInfo)
  then have "acts C s (snd (dsh_dispatch H W f s))" for f
    by (simp add: dsh_dispatch_def acts_enrolled acts_welcome acts_error_frame)
  then show ?thesis
    by (simp add: dsh_handleRaw_def acts_internal shown_simps split: sum.splits)
qed

lemma acts_guarded: "(\<And>t. acts C t (snd (f t))) \<Longrightarrow> acts C s (guarded i f s)"
  using acts_after [of C s "snd (f s)"] by (simp add: guarded_def shown_simps)

lemma acts_on_message: "acts C s (dsh_on_message H W i raw s)"
  unfolding dsh_on_message_def by (intro acts_guarded acts_raw)

lemma acts_on_close: "acts C s (dsh_on_close i s)"
proof -
  let ?u = "\<lambda>t. failWhoisWaiters ''whois: hub connection closed'' (t\<lparr>watching := None, d_welcomed := False\<rparr>)"
  have u: "acts C t (?u t)" for t by (simp add: acts_internal shown_simps)
  have "acts C t (t\<lparr>d_delay := min (d_delay t * 2) (d_maxMs t), retries := b, d_retryTimer := c, n_timer := e\<rparr>)" for t b c e
    by (rule acts_action [OF action.slows]) (simp add: shown_def)
  from u acts_trans [OF u this] have "acts C t (dsh_onDisconnect t)" for t
    by (simp add: dsh_onDisconnect_def Let_def)
  then show ?thesis
    unfolding dsh_on_close_def by (intro acts_guarded) simp
qed

lemma acts_on_error: "acts C s (dsh_on_error i e s)"
  unfolding dsh_on_error_def by (intro acts_guarded) (simp add: acts_internal shown_simps)

lemma acts_unexpected: "acts C s (dsh_on_unexpected H W i st s)"
proof -
  have a: "acts C t (snd (surfaceError H c m (t\<lparr>d_lastError := l\<rparr>)))" for t c m l
    by (rule acts_then [OF _ acts_surface]) (simp add: shown_simps)
  have b: "acts C t (snd (persist_secret_now u (t\<lparr>d_reEnrolled := x, d_clientSecret := y\<rparr>)))" for t u x y
    by (simp add: acts_internal shown_simps)
  have c: "acts C t (close_sock i t)" for t by (rule acts_action [OF action.closes])
  show ?thesis
    unfolding dsh_on_unexpected_def
    by (rule acts_guarded) (auto intro!: acts_and_then a simp: b c)
qed

lemma acts_dsh_resume:
  assumes "C = ce_crypto W"
  shows "acts C s (dsh_resume H W out k ks s)"
proof -
  have t: "acts C s (throw e ks s)" "acts C s (ret v ks s)" "acts C s (crash s)" for e v
    by (simp_all add: acts_internal shown_simps)
  show ?thesis
    by (cases k; cases out; cases "projr out" rule: dtype.cases)
      (simp_all add: t assms acts_msg_resumed [unfolded assms] acts_warmUp acts_presence_answered acts_posted acts_dm_info
        t [unfolded assms])
qed

end

lemma acts_deliverPending: "acts C s (deliverPending X ks s)"
  by (auto simp: deliverPending_def shown_simps intro: acts_internal acts_then [OF _ acts_presence])

lemma acts_poll: "acts C s (pollPending X s)"
  by (simp add: pollPending_def acts_deliverPending)

lemma acts_notice: "acts C s (snd (and_then (logger_warn X a s) (followup X b)))"
  by (intro acts_and_then) (simp_all add: acts_internal shown_simps)

interpretation acting: acting_hooks C "plugin_hooks X" for C X
  by unfold_locales
    (simp_all add: plugin_hooks_def announce_def invited_notice_def error_notice_def enroll_notice_def Let_def
      acts_poll acts_notice acts_internal shown_simps)

lemma acts_end_pass: "acts C s (end_pass out ks s)"
  by (simp add: end_pass_def acts_internal shown_simps)

lemma acts_delivery_loop: "acts C s (delivery_loop X i agents ks s)"
  by (induction i) (auto simp: acts_end_pass acts_invite Let_def split: sum.splits)

lemma acts_delivery_sent: "acts C s (delivery_sent X i agents p ks s)"
proof -
  let ?r = "and_then (persistInvites (s\<lparr>pl_pending := drop_at i (pl_pending s)\<rparr>)) (followup X (delivered_notice p))"
  have r: "acts C s (snd ?r)" by (intro acts_and_then) (simp_all add: acts_internal shown_simps)
  show ?thesis
    using acts_trans [OF r acts_end_pass] acts_trans [OF r acts_delivery_loop]
    by (auto simp: delivery_sent_def split: prod.splits option.splits)
qed

lemma acts_arm: "acts C s (arm_invite X who channel ks s)"
proof -
  obtain e ch s1 where e: "dsh_ensureChannel (px_env X) channel s = (e, ch, s1)" by (cases "dsh_ensureChannel (px_env X) channel s") auto
  with acts_ensureChannel [of C s "px_env X" channel] have s1: "acts C s s1" by simp
  have s2: "acts C s (snd (persistInvites (s1\<lparr>pl_pending := p\<rparr>)))" for p
    by (rule acts_after [OF s1]) (simp add: shown_simps)
  have t: "acts C s (throw x ks t)" "acts C s (ret v ks (pollPending X t))" if "acts C s t" for x v t
    by (rule acts_after [OF that], simp add: shown_simps, rule acts_after [OF acts_trans [OF that acts_poll]], simp add: shown_simps)
  show ?thesis
    using t [OF s1] t [OF s2] e
    by (auto simp: arm_invite_def split: prod.splits sum.splits option.splits) (metis snd_conv)+
qed

lemma acts_invite_named: "acts C s (invite_named X who channel as ks s)"
  by (auto simp: invite_named_def acts_arm acts_invite shown_simps intro: acts_internal split: sum.splits list.splits)

lemma acts_plugin_resume: "acts (ce_crypto (px_env X)) s (plugin_resume X out ks s)"
proof (cases ks)
  case (Cons k ks')
  have t: "acts C s (throw e ks' s)" "acts C s (ret v ks' s)" "acts C s (s\<lparr>results := r\<rparr>)" for C e v r
    by (simp_all add: acts_internal shown_simps)
  have "acts C s (effect_or_crash (poll_failed X e s))" for C e
    unfolding poll_failed_def Let_def by (rule acts_after [OF acts_notice]) (simp add: shown_simps)
  with t show ?thesis
    by (cases k; cases out; cases "projr out" rule: dtype.cases)
      (simp_all add: Cons invite_tool_settled_def acts_invite_named acts_delivery_loop acts_delivery_sent acts_end_pass
        acting.acts_dsh_resume del: dsh_resume.simps)
qed simp

lemma acts_connectTo: "acts C s (snd (connectTo X host name channel s))"
proof -
  have p: "acts C s (snd (persist_target url name channel (s\<lparr>pl_name := a, pl_url := b\<rparr>)))" for url a b
    by (simp add: acts_internal shown_simps)
  have "acts C t (snd (ensure_room X channel t))" for t
    using acts_ensureChannel by (auto simp: ensure_room_def split_beta split: option.splits)
  moreover have "acts C t (snd (retarget_to X url name t))" for url t
    by (simp add: retarget_to_def acts_retarget split: sum.splits)
  ultimately have "acts C t (snd (and_then (ensure_room X channel t) (retarget_to X url name)))" for url t
    by (rule acts_and_then)
  from acts_and_then [OF p this] show ?thesis
    unfolding connectTo_def Let_def by (simp split: sum.splits)
qed

lemma acts_execute: "acts C s (execute X t a ks s)"
proof -
  have j: "acts C u (ret v ks u)" for v u by (simp add: acts_internal shown_simps)
  have c: "acts C s (connect_plugin X a ks s)"
  proof -
    have "acts C s (throw e ks (snd (connectTo X h n c s)))" "acts C s (ret v ks (snd (connectTo X h n c s)))" for e v h n c
      by (rule acts_after [OF acts_connectTo], simp add: shown_simps)+
    then show ?thesis
      by (auto simp: connect_plugin_def Let_def j split: prod.splits option.splits) (metis snd_conv)+
  qed
  have d: "acts C s (ret v ks (s\<lparr>d_errorRing := []\<rparr>))" for v
    by (rule acts_action [OF action.drains]) (simp add: shown_simps)
  have "acts C s (run_tool X t a ks s)"
    by (cases t) (simp_all add: run_tool_def Let_def dsh_drainErrors_def acts_send acts_dm acts_whois acts_presence invite_plugin_def
        acts_invite j c d)
  then show ?thesis by (simp add: execute_def j)
qed

text \<open>The states between which an event acts: the socket's own events come first.\<close>

definition event_starts :: "dlabel \<Rightarrow> plugin \<Rightarrow> plugin" where
  "event_starts l s =
     (case l of EOpen i \<Rightarrow> set_sock i OPEN s | EClose i \<Rightarrow> set_sock i CLOSED s | _ \<Rightarrow> s)"

lemma acts_happens:
  assumes "\<not> (\<exists>i. l = EOpen i)"
  shows "acts (ce_crypto (px_env X)) (event_starts l s) (happens X l s)"
proof (cases l)
  case (EClose i)
  have "acts C (set_sock i CLOSED s) (detach i (set_sock i CLOSED s))" for C
    by (simp add: acts_internal shown_simps)
  from acts_trans [OF this acting.acts_on_close] show ?thesis by (simp add: EClose event_starts_def)
next
  case (ETimeout p)
  then show ?thesis
    by (auto simp: dsh_timeout_fires_def event_starts_def shown_simps intro: acts_internal split: list.splits)
next
  case EWatchdog
  have "acts C s (close_sock i (s\<lparr>watching := None\<rparr>))" for C i
    by (rule acts_then [OF _ acts_action [OF action.closes]]) (simp add: shown_simps)
  with EWatchdog show ?thesis by (simp add: event_starts_def split: option.splits)
next
  case (EResume n)
  have "acts (ce_crypto (px_env X)) s (plugin_resume X out ks (s\<lparr>micro := m\<rparr>))" for out ks m
    by (rule acts_then [OF _ acts_plugin_resume]) (simp add: shown_simps)
  with EResume show ?thesis by (simp add: event_starts_def plugin_resume_nth_def split: prod.splits)
next
  case (ERetry h)
  have "acts C s (effect_or_crash (dsh_connect W (s\<lparr>retries := q\<rparr>)))" for C W q
    by (rule acts_after [OF acts_then [OF _ acts_connect]]) (simp_all add: shown_simps)
  with ERetry show ?thesis by (simp add: event_starts_def dsh_retry_def)
next
  case EDispose
  have "acts C s (dsh_stop (s\<lparr>pl_poller := None\<rparr>))" for C
    by (rule acts_then [OF _ acts_stop]) (simp add: shown_simps)
  with EDispose show ?thesis by (simp add: event_starts_def dispose_def)
qed (use assms in \<open>simp_all add: event_starts_def acting.acts_on_message acting.acts_on_error acting.acts_unexpected acts_poll
  acts_execute acts_internal shown_simps\<close>)

end
