(* ===== verification/Dsh_Sockets.thy ===== *)
theory Dsh_Sockets
  imports Dsh_Wire
begin

text \<open>Invariants of the actions of the plugin, and what they say of every run.\<close>

definition frames_on :: "sock \<Rightarrow> plugin \<Rightarrow> json list" where
  "frames_on i s = map snd (filter (\<lambda>(j, f). j = i) (wire s))"

definition hello_by :: "crypto \<Rightarrow> identity \<Rightarrow> json \<Rightarrow> bool" where
  "hello_by C i f =
     (\<exists>fr sig. f = JObj (obj_put ''sig'' (JStr sig) fr) \<and> signFrame C fr (id_priv i) = Inr sig
        \<and> prop_of fr ''op'' = JStr ''hello'' \<and> prop_of fr ''pubkey'' = JStr (b64e (id_pub i))
        \<and> prop_of fr ''x25519'' = JStr (b64e (id_xpub i)))"

definition one_voice :: "crypto \<Rightarrow> sock \<Rightarrow> plugin \<Rightarrow> bool" where
  "one_voice C i s =
     (frames_on i s = [] \<or>
      (\<exists>a. hello_by C a (hd (frames_on i s)) \<and> (\<forall>f \<in> set (tl (frames_on i s)). frame_by C a f)
         \<and> (d_ws s = Some i \<and> sock_of i s = OPEN \<longrightarrow> a = d_ident s)))"

definition speaks :: "crypto \<Rightarrow> plugin \<Rightarrow> bool" where
  "speaks C s =
     ((\<forall>i. one_voice C i s) \<and> (\<forall>i. sock_of i s = CONNECTING \<or> n_sock s \<le> i \<longrightarrow> frames_on i s = [])
      \<and> (\<forall>i. d_ws s = Some i \<and> sock_of i s = OPEN \<longrightarrow> frames_on i s \<noteq> []) \<and> (\<forall>i. d_ws s = Some i \<longrightarrow> i < n_sock s))"

lemma frames_push [simp]: "frames_on j (push_frame i f s) = frames_on j s @ (if j = i then [f] else [])"
  by (simp add: frames_on_def push_frame_def)

lemma frames_fields [simp]:
  "frames_on j (s\<lparr>socks := a\<rparr>) = frames_on j s" "frames_on j (s\<lparr>d_ws := b\<rparr>) = frames_on j s"
  "frames_on j (s\<lparr>n_sock := c\<rparr>) = frames_on j s" "frames_on j (s\<lparr>d_ident := d\<rparr>) = frames_on j s"
  "frames_on j (s\<lparr>watching := e\<rparr>) = frames_on j s" "frames_on j (s\<lparr>attached := f\<rparr>) = frames_on j s"
  by (simp_all add: frames_on_def)

lemma sock_of_fields [simp]:
  "sock_of j (s\<lparr>d_ws := b\<rparr>) = sock_of j s" "sock_of j (s\<lparr>n_sock := c\<rparr>) = sock_of j s"
  "sock_of j (s\<lparr>d_ident := d\<rparr>) = sock_of j s" "sock_of j (push_frame i f s) = sock_of j s"
  "sock_of j (s\<lparr>watching := e\<rparr>) = sock_of j s" "sock_of j (s\<lparr>attached := g\<rparr>) = sock_of j s"
  "sock_of j (s\<lparr>socks := jm_set i st (socks s)\<rparr>) = (if j = i then st else sock_of j s)"
  by (simp_all add: sock_of_def push_frame_def)

lemma sock_of_set [simp]: "sock_of j (set_sock i st s) = (if j = i then st else sock_of j s)"
  by (simp add: set_sock_def sock_of_def)

lemma frames_set [simp]: "frames_on j (set_sock i st s) = frames_on j s"
  by (simp add: set_sock_def)

lemma set_sock_fields [simp]:
  "d_ws (set_sock i st s) = d_ws s" "n_sock (set_sock i st s) = n_sock s" "d_ident (set_sock i st s) = d_ident s"
  "d_ws (push_frame i f s) = d_ws s" "n_sock (push_frame i f s) = n_sock s" "d_ident (push_frame i f s) = d_ident s"
  by (simp_all add: set_sock_def push_frame_def)

lemma sock_of_close [simp]: "sock_of j (close_sock i s) = (if j = i \<and> sock_of i s \<noteq> CLOSED then CLOSING else sock_of j s)"
  by (simp add: close_sock_def) (simp add: sock_of_def)

lemma close_fields [simp]:
  "frames_on j (close_sock i s) = frames_on j s" "d_ws (close_sock i s) = d_ws s" "n_sock (close_sock i s) = n_sock s"
  "d_ident (close_sock i s) = d_ident s"
  by (simp_all add: close_sock_def)

lemma speaks_shown: "shown t = shown s \<Longrightarrow> speaks C t = speaks C s"
  by (simp add: speaks_def one_voice_def shown_def frames_on_def sock_of_def)

lemma speaks_same:
  "wire t = wire s \<Longrightarrow> socks t = socks s \<Longrightarrow> n_sock t = n_sock s \<Longrightarrow> d_ws t = d_ws s \<Longrightarrow> d_ident t = d_ident s \<Longrightarrow>
     speaks C t = speaks C s"
  by (simp add: speaks_def one_voice_def frames_on_def sock_of_def)

lemma speaks_less:
  assumes "speaks C s" "\<And>j. frames_on j t = frames_on j s" "n_sock t = n_sock s" "d_ident t = d_ident s"
    and "d_ws t = d_ws s \<or> d_ws t = None" "\<And>j. sock_of j t = sock_of j s \<or> sock_of j t = CLOSING \<or> sock_of j t = CLOSED"
  shows "speaks C t"
proof -
  have o: "sock_of j t = OPEN \<Longrightarrow> sock_of j s = OPEN" "sock_of j t = CONNECTING \<Longrightarrow> sock_of j s = CONNECTING"
    "d_ws t = Some j \<Longrightarrow> d_ws s = Some j" for j
    using assms(5) assms(6) [of j] by auto
  have "one_voice C j t" for j
  proof -
    have "one_voice C j s" using assms(1) by (simp add: speaks_def)
    then show ?thesis unfolding one_voice_def assms(2,4) using o [of j] by blast
  qed
  with assms(1,3) o show ?thesis unfolding speaks_def assms(2) by metis
qed

lemma speaks_sends:
  assumes "speaks C s" "d_ws s = Some i" "sock_of i s = OPEN" "frame_by C (d_ident s) f"
  shows "speaks C (push_frame i f s)"
proof -
  from assms(1-3) have n: "frames_on i s \<noteq> []" and v: "one_voice C i s" by (simp_all add: speaks_def)
  then have "hello_by C (d_ident s) (hd (frames_on i s))" "\<forall>g \<in> set (tl (frames_on i s)). frame_by C (d_ident s) g"
    using assms(2,3) by (auto simp: one_voice_def)
  with n assms(4) have "one_voice C i (push_frame i f s)"
    by (auto simp: one_voice_def)
  moreover have "one_voice C j (push_frame i f s)" if "j \<noteq> i" for j
    using that assms(1,2) by (auto simp: speaks_def one_voice_def)
  ultimately have "one_voice C j (push_frame i f s)" for j by (cases "j = i") simp_all
  with assms show ?thesis by (auto simp: speaks_def)
qed

lemma speaks_dials:
  assumes "speaks C s" "\<And>j. sock_of j t = (if j = n_sock s then CONNECTING else sock_of j s)" "\<And>j. frames_on j t = frames_on j s"
    and "n_sock t = Suc (n_sock s)" "d_ws t = Some (n_sock s)"
  shows "speaks C t"
proof -
  from assms(1) have n: "frames_on (n_sock s) s = []" by (simp add: speaks_def)
  have "one_voice C j t" for j
  proof (cases "j = n_sock s")
    case False
    have "one_voice C j s" using assms(1) by (simp add: speaks_def)
    with False assms(3,5) show ?thesis by (auto simp: one_voice_def)
  qed (simp add: one_voice_def assms(3) n)
  with assms(1) n show ?thesis by (simp add: speaks_def assms(2-5))
qed

lemma speaks_action:
  assumes "action C s t" "speaks C s"
  shows "speaks C t"
  using assms(1)
proof cases
  case internal
  then show ?thesis using assms(2) speaks_shown by blast
next
  case (sends i f)
  then show ?thesis using speaks_sends [OF assms(2)] by simp
next
  case (closes i)
  then show ?thesis using speaks_less [OF assms(2)] by simp
next
  case lets_go
  have "speaks C (s\<lparr>d_ws := None\<rparr>)" by (rule speaks_less [OF assms(2)]) simp_all
  with speaks_shown [OF lets_go] show ?thesis by blast
next
  case dials
  then have "sock_of j t = (if j = n_sock s then CONNECTING else sock_of j s)" "frames_on j t = frames_on j s"
    "n_sock t = Suc (n_sock s)" "d_ws t = Some (n_sock s)" for j
    by (simp_all add: shown_def sock_of_def frames_on_def)
  with speaks_dials [OF assms(2)] show ?thesis by simp
next
  case (swaps i)
  have "speaks C (s\<lparr>d_ident := i\<rparr>)" using assms(2) swaps(1) by (simp add: speaks_def one_voice_def)
  with speaks_shown [OF swaps(2)] show ?thesis by blast
qed (use assms(2) speaks_same [of t s C] in \<open>simp_all add: shown_def\<close>)

section \<open>The hello\<close>

lemma on_open_cases:
  assumes "sock_of i s = OPEN"
  shows "d_ws s \<noteq> Some i \<and> dsh_on_open W i s = s
    \<or> d_ws s = Some i \<and> crashed (dsh_on_open W i s) \<and> shown (dsh_on_open W i s) = shown s
    \<or> d_ws s = Some i \<and> (\<exists>f. hello_by (ce_crypto W) (d_ident s) f \<and> shown (dsh_on_open W i s) = shown (push_frame i f s))"
proof (cases "d_ws s = Some i")
  case True
  let ?t = "s\<lparr>watching := Some i\<rparr>"
  let ?u = "take_random (?t\<lparr>d_hellos := d_hellos ?t + 1\<rparr>)"
  let ?f = "dsh_hello_frame W ?t"
  have u: "shown ?u = shown s" "d_ws ?u = Some i" "sock_of i ?u = OPEN"
    using True assms by (simp_all add: take_random_def shown_def sock_of_def)
  have o: "dsh_on_open W i s = effect_or_crash (dsh_sendHello W ?t)"
    using True by (simp add: dsh_on_open_def guarded_def)
  show ?thesis
  proof (cases "signFrame (ce_crypto W) ?f (id_priv (d_ident ?t))")
    case (Inl e)
    then have "dsh_on_open W i s = crash ?u" by (simp add: o dsh_sendHello_def Let_def effect_or_crash_def)
    with u True show ?thesis by (simp add: shown_simps) (simp add: crash_def)
  next
    case (Inr sig)
    let ?g = "JObj (obj_put ''sig'' (JStr sig) ?f)"
    have "dsh_on_open W i s = push_frame i ?g ?u"
      using Inr u by (simp add: o dsh_sendHello_def Let_def dsh_ws_send_def effect_or_crash_def)
    moreover have "shown (push_frame i ?g ?u) = shown (push_frame i ?g s)"
      using u(1) by (simp add: shown_def push_frame_def)
    moreover have "hello_by (ce_crypto W) (d_ident s) ?g"
      unfolding hello_by_def
      by (intro exI [of _ ?f] exI [of _ sig]) (use Inr in \<open>simp add: dsh_hello_frame_def prop_of_def\<close>)
    ultimately have "shown (dsh_on_open W i s) = shown (push_frame i ?g s)" "hello_by (ce_crypto W) (d_ident s) ?g" by simp_all
    with True show ?thesis by blast
  qed
qed (simp add: dsh_on_open_def guarded_def)

lemma speaks_open:
  assumes "speaks C s" "sock_of i s = CONNECTING" "C = ce_crypto W"
  shows "speaks C (dsh_on_open W i (set_sock i OPEN s))
    \<or> crashed (dsh_on_open W i (set_sock i OPEN s)) \<and> (\<forall>j. one_voice C j (dsh_on_open W i (set_sock i OPEN s)))"
proof -
  let ?t = "set_sock i OPEN s"
  have f: "frames_on i s = []" using assms(1,2) by (simp add: speaks_def)
  have voice: "one_voice C j ?t" for j
    using assms(1) f by (cases "j = i") (auto simp: speaks_def one_voice_def)
  from on_open_cases [of i ?t W] consider "d_ws s \<noteq> Some i" "dsh_on_open W i ?t = ?t"
    | "crashed (dsh_on_open W i ?t)" "shown (dsh_on_open W i ?t) = shown ?t"
    | g where "d_ws s = Some i" "hello_by C (d_ident s) g" "shown (dsh_on_open W i ?t) = shown (push_frame i g ?t)"
    using assms(3) by auto
  then show ?thesis
  proof cases
    case 1
    with assms(1) voice f show ?thesis by (auto simp: speaks_def)
  next
    case 2
    have "one_voice C j (dsh_on_open W i ?t)" for j
      using voice [of j] 2(2) by (simp add: one_voice_def shown_def frames_on_def sock_of_def)
    with 2(1) show ?thesis by blast
  next
    case (3 g)
    have "one_voice C j (push_frame i g ?t)" for j
    proof (cases "j = i")
      case True
      with 3 f show ?thesis by (auto simp: one_voice_def)
    next
      case False
      with voice [of j] 3(1) show ?thesis by (auto simp: one_voice_def)
    qed
    with assms(1) 3(1) f have "speaks C (push_frame i g ?t)" by (auto simp: speaks_def)
    with 3(3) show ?thesis using speaks_shown by blast
  qed
qed

lemma speaks_happens:
  assumes "possible l s" "speaks (ce_crypto (px_env X)) s"
  shows "speaks (ce_crypto (px_env X)) (happens X l s)
    \<or> crashed (happens X l s) \<and> (\<forall>i. one_voice (ce_crypto (px_env X)) i (happens X l s))"
proof (cases "\<exists>i. l = EOpen i")
  case True
  then obtain i where l: "l = EOpen i" ..
  with assms(1) have "sock_of i s = CONNECTING" by simp
  from speaks_open [OF assms(2) this HOL.refl] show ?thesis by (simp only: l happens.simps)
next
  case False
  have "speaks (ce_crypto (px_env X)) (event_starts l s)"
  proof (cases l)
    case (EClose i)
    have "speaks (ce_crypto (px_env X)) (set_sock i CLOSED s)" by (rule speaks_less [OF assms(2)]) simp_all
    with EClose show ?thesis by (simp add: event_starts_def)
  qed (use assms(2) False in \<open>simp_all add: event_starts_def\<close>)
  with acts_happens [OF False] have "speaks (ce_crypto (px_env X)) (happens X l s)"
    by (rule acts_invariant [where P = "speaks (ce_crypto (px_env X))"]) (rule speaks_action)
  then show ?thesis ..
qed

lemma run_speaks:
  assumes "plugin_run X s ls s'" "speaks (ce_crypto (px_env X)) s"
  shows "speaks (ce_crypto (px_env X)) s' \<or> crashed s' \<and> (\<forall>i. one_voice (ce_crypto (px_env X)) i s')"
  using assms
proof (induction rule: plugin_run.induct)
  case (snoc s ls s' l s'')
  from snoc(2) have l: "\<not> crashed s'" "possible l s'" "s'' = happens X l s'" by (auto elim: plugin_stepE)
  with snoc have "speaks (ce_crypto (px_env X)) s'" by blast
  from speaks_happens [OF l(2) this] show ?case unfolding l(3) .
qed simp

lemma installs_speaks: "installs X c h s \<Longrightarrow> speaks C s"
  by (simp add: speaks_def one_voice_def frames_on_def sock_of_def installs_fields)

section \<open>Retired sockets, and bounds\<close>

definition retired :: "sock \<Rightarrow> plugin \<Rightarrow> bool" where
  "retired i s = (i < n_sock s \<and> d_ws s \<noteq> Some i)"

lemma retired_shown: "shown t = shown s \<Longrightarrow> retired i t = retired i s"
  by (simp add: retired_def shown_def)

lemma retired_action: "action C s t \<Longrightarrow> retired i s \<Longrightarrow> retired i t"
  by (erule action.cases) (auto simp: retired_def shown_def push_frame_def)

definition in_bounds :: "plugin \<Rightarrow> plugin \<Rightarrow> bool" where
  "in_bounds s0 s =
     (length (d_inboxMsgs s) \<le> INBOX_CAP \<and> length (d_errorRing s) \<le> ERRORS_CAP \<and> d_initialMs s = d_initialMs s0
      \<and> d_maxMs s = d_maxMs s0 \<and> d_delay s \<le> max (d_initialMs s0) (d_maxMs s0))"

lemma in_bounds_shown: "shown t = shown s \<Longrightarrow> in_bounds s0 t = in_bounds s0 s"
  by (simp add: in_bounds_def shown_def)

lemma length_ring: "length xs \<le> cap \<Longrightarrow> length (ring_push cap xs x) \<le> cap"
  by (simp add: ring_push_def Let_def)

lemma in_bounds_action: "action C s t \<Longrightarrow> in_bounds s0 s \<Longrightarrow> in_bounds s0 t"
  by (erule action.cases) (auto simp: in_bounds_def shown_def push_frame_def close_sock_def length_ring)

lemma shown_open:
  assumes "sock_of i s = OPEN"
  shows "n_sock (dsh_on_open W i s) = n_sock s \<and> d_ws (dsh_on_open W i s) = d_ws s
    \<and> in_bounds s0 (dsh_on_open W i s) = in_bounds s0 s"
proof -
  from on_open_cases [OF assms, of W] obtain t where "shown (dsh_on_open W i s) = shown t"
      "t = s \<or> (\<exists>f. t = push_frame i f s)"
    by metis
  then show ?thesis by (auto simp: shown_def in_bounds_def push_frame_def)
qed

text \<open>An invariant of the actions that the sockets' own events respect holds of every step.\<close>

lemma step_invariant:
  assumes "plugin_step X s l s'" "P s" "\<And>C s t. action C s t \<Longrightarrow> P s \<Longrightarrow> P t"
    and "\<And>i st. P (set_sock i st s) = P s" "\<And>i. P (set_sock i OPEN s) \<Longrightarrow> P (dsh_on_open (px_env X) i (set_sock i OPEN s))"
  shows "P s'"
proof -
  from assms(1) have s': "s' = happens X l s" by (auto elim: plugin_stepE)
  show ?thesis
  proof (cases "\<exists>i. l = EOpen i")
    case True
    with assms(2,4,5) show ?thesis by (auto simp: s')
  next
    case False
    have "P (event_starts l s)" using assms(2,4) by (simp add: event_starts_def split: dlabel.splits)
    with acts_happens [OF False] show ?thesis unfolding s' by (rule acts_invariant) (rule assms(3))
  qed
qed

lemma retired_step: "plugin_step X s l s' \<Longrightarrow> retired i s \<Longrightarrow> retired i s'"
  by (erule step_invariant) (auto simp: retired_def shown_open retired_action [unfolded retired_def])

lemma bounds_step: "plugin_step X s l s' \<Longrightarrow> in_bounds s0 s \<Longrightarrow> in_bounds s0 s'"
proof (erule step_invariant)
  show "action C s t \<Longrightarrow> in_bounds s0 s \<Longrightarrow> in_bounds s0 t" for C s t by (rule in_bounds_action)
  show "in_bounds s0 (set_sock i st s) = in_bounds s0 s" for i st by (simp add: in_bounds_def set_sock_def)
  show "in_bounds s0 (dsh_on_open (px_env X) i (set_sock i OPEN s))" if "in_bounds s0 (set_sock i OPEN s)" for i
    using shown_open [of i "set_sock i OPEN s" "px_env X" s0] that by simp
qed

section \<open>Properties\<close>


text \<open>C10: a socket that was let go stays let go: once a socket is no longer the client's, after a stop or a
  \<open>dap_connect\<close>, it never is again, and whatever it still opens, receives, refuses or closes changes nothing of
  the plugin, of its client or of their logs, timers and files.\<close>

theorem retired_socket_silent:
  assumes "plugin_run X s ls s'" "i < n_sock s" "d_ws s \<noteq> Some i"
    and "l \<in> {EOpen i, EMessage i raw, EError i m, EClose i, EUnexpected i st}"
  shows "d_ws s' \<noteq> Some i \<and> happens X l s' = s'\<lparr>socks := socks (happens X l s'), attached := attached (happens X l s')\<rparr>"
proof -
  have "retired i s'"
    by (rule plugin_invariant [where P = "retired i", OF assms(1)]) (use assms(2,3) in \<open>auto simp: retired_def [of i s] intro: retired_step\<close>)
  then have w: "d_ws s' \<noteq> Some i" by (simp add: retired_def)
  with assms(4) show ?thesis
    by (auto simp: dsh_on_open_def dsh_on_message_def dsh_on_error_def dsh_on_close_def dsh_on_unexpected_def guarded_def
        set_sock_def detach_def)
qed

text \<open>The plugin keeps at most \<open>INBOX_CAP\<close> messages and \<open>ERRORS_CAP\<close> hub errors, and waits at most the larger of
  its two backoff settings before it dials again, after any run.\<close>

lemma plugin_bounds:
  assumes "installs X c h s0" "plugin_run X s0 ls s"
  shows "length (d_inboxMsgs s) \<le> INBOX_CAP \<and> length (d_errorRing s) \<le> ERRORS_CAP
    \<and> d_delay s \<le> max (d_initialMs s0) (d_maxMs s0)"
proof -
  have "in_bounds s0 s0" using installs_fields [OF assms(1)] by (simp add: in_bounds_def)
  with plugin_invariant [where P = "in_bounds s0", OF assms(2)] bounds_step have "in_bounds s0 s" by blast
  then show ?thesis by (simp add: in_bounds_def)
qed

section \<open>A concrete plugin\<close>

definition demo_opened :: plugin where
  "demo_opened = happens demo_ctx (EOpen 0) demo_plugin"

lemma demo_opened_run: "plugin_run demo_ctx demo_plugin [EOpen 0] demo_opened"
  by (rule plugin_steps_run) (simp add: demo_plugin_fields demo_opened_def sock_of_def)

lemma demo_signs: "\<exists>sig. signFrame (ce_crypto demo_env) f k = Inr sig"
  by (simp add: signFrame_def demo_env_def demo_crypto_def of_option_def)

lemma demo_opened_sends: "frames_on 0 demo_opened \<noteq> []"
proof -
  let ?t = "(set_sock 0 OPEN demo_plugin)\<lparr>watching := Some 0\<rparr>"
  obtain sig where s: "signFrame (ce_crypto demo_env) (dsh_hello_frame demo_env ?t) (id_priv (d_ident ?t)) = Inr sig"
    using demo_signs by blast
  have "d_ws ?t = Some 0" "sock_of 0 (take_random (?t\<lparr>d_hellos := d_hellos ?t + 1\<rparr>)) = OPEN"
    by (simp_all add: demo_plugin_fields sock_of_def set_sock_def take_random_def)
  with s show ?thesis
    by (simp add: demo_opened_def dsh_on_open_def guarded_def dsh_sendHello_def Let_def dsh_ws_send_def effect_or_crash_def
        take_random_def)
qed


lemma retired_socket_silent_witness: "d_ws (happens demo_ctx EDispose demo_plugin) \<noteq> Some 0"
proof -
  let ?s = "happens demo_ctx EDispose demo_plugin"
  have "retired 0 ?s"
  proof -
    have "shown (failWhoisWaiters m (demo_plugin\<lparr>pl_poller := None, d_stopped := True\<rparr>)) = shown demo_plugin" for m
      by (simp add: shown_simps)
    then have "n_sock (failWhoisWaiters m (demo_plugin\<lparr>pl_poller := None, d_stopped := True\<rparr>)) = 1" for m
      by (simp add: shown_def demo_plugin_fields)
    then show ?thesis
      by (simp add: retired_def dispose_def dsh_stop_def dsh_close_ws_def clear_timer_handle_def close_sock_def Let_def
          split: option.splits)
  qed
  then have "0 < n_sock ?s" "d_ws ?s \<noteq> Some 0" by (simp_all add: retired_def)
  from retired_socket_silent [OF plugin_run.refl this, of "EClose 0"] show ?thesis by blast
qed

lemma plugin_bounds_witness: "length (d_inboxMsgs demo_opened) \<le> 100"
  using plugin_bounds [OF demo_installed demo_opened_run] by (simp add: INBOX_CAP_def)

end
