(* ===== verification/Client_Messages.thy ===== *)
theory Client_Messages
  imports Client_Calls
begin

text \<open>
  Messages end to end: what \<open>send\<close> and \<open>dm\<close> put on the wire, and what the receiving client makes of
  it; invites carried by a direct message.
\<close>

section \<open>The frame of a message\<close>

lemma prop_rank_names:
  "prop_rank ''op'' = 4294967295" "prop_rank ''channel'' = 4294967295" "prop_rank ''to'' = 4294967295"
  "prop_rank ''id'' = 4294967295" "prop_rank ''ts'' = 4294967295" "prop_rank ''ciphertext'' = 4294967295"
  by (simp_all add: prop_rank_def arr_index_def is_digit_def code_def)

lemma msg_frame_ok:
  assumes "fld = ''channel'' \<or> fld = ''to''"
  shows "obj_ok (msg_frame fld peer i ts ct)" "jdist_props (msg_frame fld peer i ts ct)" "jtok_props (msg_frame fld peer i ts ct)"
    "prop_of (msg_frame fld peer i ts ct) fld = JStr peer" "prop_of (msg_frame fld peer i ts ct) ''id'' = JStr i"
    "prop_of (msg_frame fld peer i ts ct) ''ciphertext'' = JStr ct"
  using assms by (auto simp: msg_frame_def obj_ok_def prop_rank_names)

lemma sendFrame_Inr: "sendFrame f s = Inr s' \<Longrightarrow> \<exists>k. ws s = Some k \<and> sock_of k s = OPEN \<and> s' = push_frame k f s"
  by (simp add: sendFrame_def split: option.splits if_splits)

lemma post_Inr:
  assumes "post W fld peer text pub s = Inr (i, s')"
  obtains ct sig k where "i = ce_uuid W (n_uuid s)"
    and "seal (ce_crypto W) (ce_random W (n_random s) 12) text i peer (id_xpriv (ident s)) pub = Inr ct"
    and "signFrame (ce_crypto W) (msg_frame fld peer i (now s) ct) (id_priv (ident s)) = Inr sig"
    and "ws s = Some k" "sock_of k s = OPEN"
    and "wire s' = wire s @ [(k, JObj (obj_put ''sig'' (JStr sig) (msg_frame fld peer i (now s) ct)))]"
proof -
  let ?i = "ce_uuid W (n_uuid s)" and ?s = "take_random (take_uuid s)"
  have same: "ws ?s = ws s" "sock_of k ?s = sock_of k s" "wire ?s = wire s" "ident ?s = ident s" for k
    by (simp_all add: take_random_def take_uuid_def sock_of_def)
  from assms obtain ct sig where i: "i = ?i"
    and ct: "seal (ce_crypto W) (ce_random W (n_random s) 12) text ?i peer (id_xpriv (ident s)) pub = Inr ct"
    and sig: "signFrame (ce_crypto W) (msg_frame fld peer ?i (now s) ct) (id_priv (ident s)) = Inr sig"
    and snd: "sendFrame (JObj (obj_put ''sig'' (JStr sig) (msg_frame fld peer ?i (now s) ct))) ?s = Inr s'"
    by (auto simp: post_def signAndSend_def Let_def bind_result_Inr_iff same)
  from sendFrame_Inr [OF snd] obtain k where "ws s = Some k" "sock_of k s = OPEN"
    "wire s' = wire s @ [(k, JObj (obj_put ''sig'' (JStr sig) (msg_frame fld peer i (now s) ct)))]"
    by (auto simp: same push_frame_def i)
  with that i ct sig show thesis by blast
qed

definition relayed :: "string \<Rightarrow> string \<Rightarrow> frame \<Rightarrow> frame \<Rightarrow> bool" where
  \<comment> \<open>\<open>g\<close> carries the message of \<open>f\<close> on, with whatever else the hub puts in\<close>
  "relayed fld from f g =
     (prop_of g fld = prop_of f fld \<and> prop_of g ''id'' = prop_of f ''id'' \<and> prop_of g ''ciphertext'' = prop_of f ''ciphertext''
      \<and> prop_of g ''from'' = JStr from \<and> (fld = ''to'' \<longrightarrow> prop_of g ''channel'' = JUndef))"

lemma relayed_channel:
  assumes "relayed ''channel'' from (obj_put ''sig'' sig (msg_frame ''channel'' ch i ts ct)) g"
  shows "prop_of g ''channel'' = JStr ch" "prop_of g ''id'' = JStr i" "prop_of g ''ciphertext'' = JStr ct" "prop_of g ''from'' = JStr from"
  using assms by (simp_all add: relayed_def msg_frame_def)

lemma relayed_dm:
  assumes "relayed ''to'' from (obj_put ''sig'' sig (msg_frame ''to'' a i ts ct)) g"
  shows "prop_of g ''to'' = JStr a" "prop_of g ''id'' = JStr i" "prop_of g ''ciphertext'' = JStr ct" "prop_of g ''from'' = JStr from"
    "prop_of g ''channel'' = JUndef"
  using assms by (simp_all add: relayed_def msg_frame_def)

section \<open>Properties\<close>

text \<open>C4: a channel message arrives as it was sent: the frame \<open>send\<close> puts on the wire, relayed by the hub
  with its channel, id and ciphertext, decrypts to the same text for a client that holds the channel's
  private key and knows the sender's x25519 key, and is reported for that channel and sender.\<close>

theorem channel_message_arrives:
  assumes "dh_commutes C" "aead_correct C" "ce_crypto W = C" "length (ce_random W (n_random s) 12) = 12"
    and "post W ''channel'' ch text (x_public C chPriv) s = Inr (i, s')"
    and "relayed ''channel'' from (case last (wire s') of (k, JObj f) \<Rightarrow> f | _ \<Rightarrow> []) g"
    and "jm_get (channels r) ch = Some key" "ch_priv key = Some (b64e chPriv)" "chPriv \<noteq> []"
    and "ce_crypto V = C" "p_xPub sender = x_public C (id_xpriv (ident s))"
  shows "\<exists>ev. decryptMsg V g sender r = Inr ev \<and> me_text ev = text \<and> me_channel ev = Some ch \<and> me_from ev = from \<and> \<not> me_dm ev"
proof -
  from post_Inr [OF assms(5)] obtain ct sig k
    where i: "i = ce_uuid W (n_uuid s)"
      and ct: "seal C (ce_random W (n_random s) 12) text i ch (id_xpriv (ident s)) (x_public C chPriv) = Inr ct"
      and w: "wire s' = wire s @ [(k, JObj (obj_put ''sig'' (JStr sig) (msg_frame ''channel'' ch i (now s) ct)))]"
    by (metis assms(3))
  note g = relayed_channel [OF assms(6) [unfolded w, simplified]]
  have "open_sealed C ct i ch chPriv (x_public C (id_xpriv (ident s))) = Inr text"
    by (rule open_seal [OF assms(1,2,4) ct])
  moreover from assms(9) obtain x xs where "b64e chPriv = x # xs"
    by (metis b64_roundtrip b64e_Nil neq_Nil_conv b64e_inj)
  moreover from this have "b64d (x # xs) = chPriv" by (metis b64_roundtrip)
  ultimately show ?thesis
    using assms(7,8,10,11) g by (simp add: decryptMsg_def Let_def opt_str_prop_def)
qed

text \<open>A direct message arrives as it was sent: the frame \<open>dm\<close> puts on the wire decrypts to the same
  text for the agent whose x25519 key it was sealed for.\<close>

lemma direct_message_arrives:
  assumes "dh_commutes C" "aead_correct C" "ce_crypto W = C" "length (ce_random W (n_random s) 12) = 12"
    and "post W ''to'' a text (x_public C (id_xpriv (ident r))) s = Inr (i, s')"
    and "relayed ''to'' from (case last (wire s') of (k, JObj f) \<Rightarrow> f | _ \<Rightarrow> []) g"
    and "ce_crypto V = C" "p_xPub sender = x_public C (id_xpriv (ident s))" "p_xPub sender \<noteq> []"
  shows "\<exists>ev. decryptMsg V g sender r = Inr ev \<and> me_text ev = text \<and> me_channel ev = None \<and> me_from ev = from \<and> me_dm ev"
proof -
  from post_Inr [OF assms(5)] obtain ct sig k
    where ct: "seal C (ce_random W (n_random s) 12) text i a (id_xpriv (ident s)) (x_public C (id_xpriv (ident r))) = Inr ct"
      and w: "wire s' = wire s @ [(k, JObj (obj_put ''sig'' (JStr sig) (msg_frame ''to'' a i (now s) ct)))]"
    by (metis assms(3))
  note g = relayed_dm [OF assms(6) [unfolded w, simplified]]
  have "open_sealed C ct i a (id_xpriv (ident r)) (x_public C (id_xpriv (ident s))) = Inr text"
    by (rule open_seal [OF assms(1,2,4) ct])
  then show ?thesis
    using assms(7-9) g by (simp add: decryptMsg_def Let_def opt_str_prop_def)
qed

text \<open>Every message frame on the wire is signed by the client: parsed from its JSON text it verifies
  under the public key of the identity's secret key, and it went to an open socket.\<close>

lemma posted_frame_verifies:
  assumes "ed_correct (ce_crypto W)" "fld = ''channel'' \<or> fld = ''to''" "post W fld peer text pub s = Inr (i, s')"
  shows "\<exists>k f g. wire s' = wire s @ [(k, JObj f)] \<and> ws s = Some k \<and> sock_of k s = OPEN
    \<and> json_parse (json_text (JObj f)) = Inr (JObj g) \<and> verifyFrame (ce_crypto W) g (ed_public (ce_crypto W) (id_priv (ident s))) = Inr True"
proof -
  from post_Inr [OF assms(3)] obtain ct sig k
    where sig: "signFrame (ce_crypto W) (msg_frame fld peer i (now s) ct) (id_priv (ident s)) = Inr sig"
      and k: "ws s = Some k" "sock_of k s = OPEN"
      and w: "wire s' = wire s @ [(k, JObj (obj_put ''sig'' (JStr sig) (msg_frame fld peer i (now s) ct)))]"
    by metis
  from signed_frame_verifies [OF assms(1) sig msg_frame_ok(1-3) [OF assms(2)]] obtain g
    where "json_parse (json_text (JObj (obj_put ''sig'' (JStr sig) (msg_frame fld peer i (now s) ct)))) = Inr (JObj g)"
      "verifyFrame (ce_crypto W) g (ed_public (ce_crypto W) (id_priv (ident s))) = Inr True"
    by blast
  with w k show ?thesis by blast
qed

section \<open>Invites\<close>

lemma join_channel_fields [simp]:
  "channels (join_channel n p ks s) = channels s" "w_host (join_channel n p ks s) = w_host s"
  "delivered (join_channel n p ks s) = delivered s" "inboxMsgs (join_channel n p ks s) = inboxMsgs s"
  "hooked (join_channel n p ks s) = hooked s" "errorRing (join_channel n p ks s) = errorRing s"
  by (simp_all add: join_channel_def ready_def ret_def schedule_def new_promise_def)

lemma persist_keys_client_fields [simp]:
  "channels (persist_keys n k s) = channels s" "delivered (persist_keys n k s) = delivered s"
  "inboxMsgs (persist_keys n k s) = inboxMsgs s" "hooked (persist_keys n k s) = hooked s"
  "errorRing (persist_keys n k s) = errorRing s"
  by (simp_all add: persist_keys_def split: option.splits)

text \<open>A direct message that is an invite is not shown as chat: its key pair becomes the channel's,
  in memory and in the channels file, and the listeners and the inbox get a notice that names the
  channel and the inviter instead of the payload.\<close>

lemma invite_accepted:
  assumes "me_dm ev" "parseChankeyInvite (me_text ev) = Some i" "channels_file s = Some f" "ci_channel i \<noteq> ''__proto__''"
  shows "let s' = msg_decrypted W fr ev s;
      n = ev\<lparr>me_invite := Some (ci_channel i), me_text := ''[dap] invited to #'' @ ci_channel i @ '' by '' @ me_from ev\<rparr>
    in jm_get (channels s') (ci_channel i) = Some \<lparr>ch_name = ci_channel i, ch_pub = ck_pub i, ch_priv = Some (ck_priv i)\<rparr>
      \<and> stored_keys (w_host s') f (ci_channel i) = Some \<lparr>ck_pub = ck_pub i, ck_priv = ck_priv i\<rparr>
      \<and> delivered s' = delivered s @ [n] \<and> inboxMsgs s' = ring_push INBOX_CAP (inboxMsgs s) n"
proof -
  have h: "w_host (persist_keys n k (s\<lparr>channels := c\<rparr>)) = persistChannelKeys f n k (w_host s)" for n k c
    using assms(3) by (simp add: persist_keys_def channels_file_def)
  show ?thesis
    using assms
    by (simp add: msg_decrypted_def surface_msg_def accept_invite_def Let_def deliver_def msg_failed_def ringError_def h
        stored_keys_persist addChannel_def split: option.splits)
qed

section \<open>Concrete messages\<close>

definition demo_open :: client where
  "demo_open = demo_client\<lparr>ws := Some 0, socks := [(0, OPEN)], welcomed := True\<rparr>"

definition demo_peer :: peer_info where
  "demo_peer = \<lparr>p_agentId = ''ada'', p_pubkey = [], p_x25519 = [], p_name = JUndef, p_online = JUndef,
     p_xPub = x_public demo_crypto (id_xpriv (ident demo_open))\<rparr>"

definition demo_room :: client where
  "demo_room = demo_client\<lparr>channels := [(''room'', \<lparr>ch_name = ''room'', ch_pub = [], ch_priv = Some (b64e [5])\<rparr>)]\<rparr>"

lemma demo_env_simps [simp]:
  "ce_crypto demo_env = demo_crypto" "ce_listeners demo_env ev = None" "length (ce_random demo_env n 12) = 12"
  by (simp_all add: demo_env_def)

lemma demo_post: "\<exists>i s'. post demo_env fld peer text pub demo_open = Inr (i, s')"
  by (simp add: post_def signAndSend_def seal_def signFrame_def demo_crypto_def demo_env_def Let_def sendFrame_def
      demo_open_def take_random_def take_uuid_def sock_of_def)

lemma new_client_ident:
  assumes "new_client W opts h = Inr s"
  obtains h1 where "loadIdentity (ce_crypto W) (ce_random W 0 32) (ce_random W 1 32) (co_keyPath opts) h = Inr (ident s, h1)"
  using assms by (auto simp: new_client_def bind_result_Inr_iff)

lemma demo_identity:
  "loadIdentity (ce_crypto demo_env) (ce_random demo_env 0 32) (ce_random demo_env 1 32) (co_keyPath demo_copts) sample_host = Inr (i, h)
     \<Longrightarrow> id_xpriv i = replicate 32 2"
  by (auto simp: loadIdentity_def stored_identity_def sample_host_def newEdKeypair_def newX25519Keypair_def demo_env_def Let_def)

lemma demo_xpriv: "id_xpriv (ident demo_client) = replicate 32 2"
  using new_client_ident [OF demo_new] demo_identity by blast

lemma channel_message_arrives_witness:
  "\<exists>g ev. decryptMsg demo_env g demo_peer demo_room = Inr ev \<and> me_text ev = ''hi''"
proof -
  obtain i s' where p: "post demo_env ''channel'' ''room'' ''hi'' (x_public demo_crypto [5]) demo_open = Inr (i, s')"
    using demo_post by blast
  let ?f = "case last (wire s') of (k, JObj f) \<Rightarrow> f | _ \<Rightarrow> []"
  have "relayed ''channel'' ''ada'' ?f (obj_put ''from'' (JStr ''ada'') ?f)"
    by (simp add: relayed_def)
  from channel_message_arrives [OF demo_laws(2,3) _ _ p this, of demo_room
      "\<lparr>ch_name = ''room'', ch_pub = [], ch_priv = Some (b64e [5])\<rparr>" demo_env demo_peer]
  show ?thesis by (auto simp: demo_room_def demo_peer_def)
qed

lemma direct_message_arrives_witness:
  "\<exists>g ev. decryptMsg demo_env g demo_peer demo_client = Inr ev \<and> me_text ev = ''hi''"
proof -
  obtain i s' where p: "post demo_env ''to'' ''bob'' ''hi'' (x_public demo_crypto (id_xpriv (ident demo_client))) demo_open = Inr (i, s')"
    using demo_post by blast
  from post_Inr [OF p] obtain ct sig k
    where w: "wire s' = wire demo_open @ [(k, JObj (obj_put ''sig'' (JStr sig) (msg_frame ''to'' ''bob'' i (now demo_open) ct)))]"
    by metis
  let ?f = "case last (wire s') of (k, JObj f) \<Rightarrow> f | _ \<Rightarrow> []"
  have "relayed ''to'' ''ada'' ?f (obj_put ''from'' (JStr ''ada'') ?f)"
    by (simp add: relayed_def w msg_frame_def)
  from direct_message_arrives [OF demo_laws(2,3) _ _ p this, of demo_env demo_peer]
  show ?thesis by (auto simp: demo_peer_def demo_open_def demo_xpriv demo_crypto_def)
qed

lemma posted_frame_verifies_witness:
  "\<exists>(s' :: client) k f g. wire s' = wire demo_open @ [(k, JObj f)] \<and> json_parse (json_text (JObj f)) = Inr (JObj g)
     \<and> verifyFrame demo_crypto g (ed_public demo_crypto (id_priv (ident demo_open))) = Inr True"
proof -
  obtain i s' where p: "post demo_env ''to'' ''bob'' ''hi'' [] demo_open = Inr (i, s')"
    using demo_post by blast
  from posted_frame_verifies [OF _ _ p] demo_laws(1) obtain k f g
    where "wire s' = wire demo_open @ [(k, JObj f)]" "json_parse (json_text (JObj f)) = Inr (JObj g)"
      "verifyFrame demo_crypto g (ed_public demo_crypto (id_priv (ident demo_open))) = Inr True"
    by auto
  then show ?thesis by blast
qed

lemma invite_accepted_witness:
  "\<exists>ev s'. jm_get (channels s') ''room'' = Some \<lparr>ch_name = ''room'', ch_pub = b64e (replicate 32 1), ch_priv = Some (b64e (replicate 32 2))\<rparr>
     \<and> me_dm ev \<and> s' = msg_decrypted demo_env [] ev (demo_client\<lparr>o_channelsFile := Some ''/c''\<rparr>)"
proof -
  let ?k = "\<lparr>ck_pub = b64e (replicate 32 1), ck_priv = b64e (replicate 32 2)\<rparr>"
  let ?ev = "\<lparr>me_dm = True, me_channel = None, me_from = ''bob'', me_text = invite_payload ''room'' ?k, me_ts = JNull, me_invite = None\<rparr>"
  let ?i = "\<lparr>ck_pub = b64e (replicate 32 1), ck_priv = b64e (replicate 32 2), ci_channel = ''room''\<rparr>"
  have "parseChankeyInvite (me_text ?ev) = Some ?i"
    by (simp add: invite_payload_parse del: replicate.simps)
  from invite_accepted [OF _ this, of "demo_client\<lparr>o_channelsFile := Some ''/c''\<rparr>" "''/c''" demo_env "[]"]
  show ?thesis by (intro exI [of _ ?ev]) (simp add: channels_file_def Let_def)
qed

end
