(* ===== verification/Dsh_Messages.thy ===== *)
theory Dsh_Messages
  imports Dsh_Sockets Client_Messages
begin

text \<open>
  The two adapters talk to each other: what the plugin sends the bridge's client reads, and the other way
  round, and a room opened by one is shared with the other by an invite.
\<close>

lemma signAndSend_None:
  assumes "dsh_signAndSend W f s = (None, s')"
  obtains k sig where "d_ws s = Some k" "sock_of k s = OPEN" "signFrame (ce_crypto W) f (id_priv (d_ident s)) = Inr sig"
    and "wire s' = wire s @ [(k, JObj (obj_put ''sig'' (JStr sig) f))]"
  using assms by (auto simp: dsh_signAndSend_def push_frame_def split: option.splits if_splits sum.splits)

lemma dsh_post_None:
  assumes "dsh_post W fld peer text pub s = (None, s')"
  obtains ct sig k where "seal (ce_crypto W) (ce_random W (n_random s) 12) text (ce_uuid W (n_uuid s)) peer (id_xpriv (d_ident s)) pub = Inr ct"
    and "wire s' = wire s @ [(k, JObj (obj_put ''sig'' (JStr sig) (msg_frame fld peer (ce_uuid W (n_uuid s)) (now s) ct)))]"
proof -
  let ?i = "ce_uuid W (n_uuid s)" and ?s = "take_random (take_uuid s)"
  from assms obtain ct where ct: "seal (ce_crypto W) (ce_random W (n_random s) 12) text ?i peer (id_xpriv (d_ident s)) pub = Inr ct"
    and p: "dsh_signAndSend W (msg_frame fld peer ?i (now s) ct) ?s = (None, s')"
    by (auto simp: dsh_post_def Let_def split: sum.splits)
  have "wire ?s = wire s" by (simp add: take_random_def take_uuid_def)
  with signAndSend_None [OF p] ct that show thesis by metis
qed

lemma b64d_b64e_Cons:
  assumes "k \<noteq> []"
  obtains x xs where "b64e k = x # xs" "b64d (x # xs) = k"
  using assms by (metis b64_roundtrip b64e_Nil neq_Nil_conv b64e_inj)

text \<open>What opens a sealed frame, for either receiver.\<close>

lemma bridge_reads_channel:
  assumes "open_sealed (ce_crypto V) ct i ch chPriv (p_xPub sender) = Inr text" "chPriv \<noteq> []"
    and "prop_of g ''channel'' = JStr ch" "prop_of g ''id'' = JStr i" "prop_of g ''ciphertext'' = JStr ct" "prop_of g ''from'' = JStr from"
    and "jm_get (channels r) ch = Some key" "ch_priv key = Some (b64e chPriv)"
  shows "\<exists>ev. decryptMsg V g sender r = Inr ev \<and> me_text ev = text \<and> me_channel ev = Some ch \<and> me_from ev = from \<and> \<not> me_dm ev"
proof -
  from assms(2) obtain x xs where "b64e chPriv = x # xs" "b64d (x # xs) = chPriv" by (rule b64d_b64e_Cons)
  with assms show ?thesis by (simp add: decryptMsg_def Let_def opt_str_prop_def)
qed

lemma bridge_reads_dm:
  assumes "open_sealed (ce_crypto V) ct i a (id_xpriv (ident r)) (p_xPub sender) = Inr text" "p_xPub sender \<noteq> []"
    and "prop_of g ''to'' = JStr a" "prop_of g ''id'' = JStr i" "prop_of g ''ciphertext'' = JStr ct" "prop_of g ''from'' = JStr from"
    and "prop_of g ''channel'' = JUndef"
  shows "\<exists>ev. decryptMsg V g sender r = Inr ev \<and> me_text ev = text \<and> me_channel ev = None \<and> me_from ev = from \<and> me_dm ev"
  using assms by (simp add: decryptMsg_def Let_def opt_str_prop_def)

lemma plugin_reads_channel:
  assumes "open_sealed (ce_crypto W) ct i ch chPriv (in_xPub info) = Inr text" "chPriv \<noteq> []"
    and "prop_of g ''channel'' = JStr ch" "prop_of g ''id'' = JStr i" "prop_of g ''ciphertext'' = JStr ct" "prop_of g ''from'' = JStr from"
    and "jm_get (d_channels s) ch = Some key" "ch_priv key = Some (b64e chPriv)"
  shows "\<exists>ev. dsh_decryptMsg W g info s = Inr ev \<and> me_text ev = text \<and> me_channel ev = Some ch \<and> me_from ev = from \<and> \<not> me_dm ev"
proof -
  from assms(2) obtain x xs where "b64e chPriv = x # xs" "b64d (x # xs) = chPriv" by (rule b64d_b64e_Cons)
  with assms show ?thesis by (simp add: dsh_decryptMsg_def Let_def opt_str_prop_def)
qed

section \<open>Properties\<close>

text \<open>What the plugin says in a room the bridge reads: the frame the plugin's client posts, relayed by the hub
  with its channel, id and ciphertext, decrypts to the same text for a bridge that holds the room's private
  key and knows the plugin's x25519 key.\<close>

lemma plugin_message_reaches_bridge:
  assumes "dh_commutes C" "aead_correct C" "ce_crypto W = C" "length (ce_random W (n_random s) 12) = 12"
    and "dsh_post W ''channel'' ch text (x_public C chPriv) s = (None, s')"
    and "relayed ''channel'' from (case last (wire s') of (k, JObj f) \<Rightarrow> f | _ \<Rightarrow> []) g"
    and "jm_get (channels r) ch = Some key" "ch_priv key = Some (b64e chPriv)" "chPriv \<noteq> []"
    and "ce_crypto V = C" "p_xPub sender = x_public C (id_xpriv (d_ident s))"
  shows "\<exists>ev. decryptMsg V g sender r = Inr ev \<and> me_text ev = text \<and> me_channel ev = Some ch \<and> me_from ev = from \<and> \<not> me_dm ev"
proof -
  from dsh_post_None [OF assms(5)] obtain ct sig k
    where ct: "seal C (ce_random W (n_random s) 12) text (ce_uuid W (n_uuid s)) ch (id_xpriv (d_ident s)) (x_public C chPriv) = Inr ct"
      and w: "wire s' = wire s @ [(k, JObj (obj_put ''sig'' (JStr sig) (msg_frame ''channel'' ch (ce_uuid W (n_uuid s)) (now s) ct)))]"
    by (metis assms(3))
  note g = relayed_channel [OF assms(6) [unfolded w, simplified]]
  have "open_sealed (ce_crypto V) ct (ce_uuid W (n_uuid s)) ch chPriv (p_xPub sender) = Inr text"
    using open_seal [OF assms(1,2,4) ct] assms(10,11) by simp
  from bridge_reads_channel [OF this assms(9) g assms(7,8)] show ?thesis .
qed

text \<open>C7: an invite shares a room between the adapters: the direct message that carries the room's keys from the
  plugin makes the bridge register exactly these keys, in memory and in its channels file, and from then on
  whatever the bridge sends to the room decrypts for the plugin to the text that was sent.\<close>

theorem invite_shares_room:
  assumes "dh_commutes C" "aead_correct C" "ce_crypto W = C" "ce_crypto V = C" "length (ce_random W (n_random s) 12) = 12"
    and "length chPriv = 32" "length (x_public C chPriv) = 32" "ch \<noteq> ''__proto__''" "channels_file r = Some f"
    and "keys = \<lparr>ck_pub = b64e (x_public C chPriv), ck_priv = b64e chPriv\<rparr>"
    and "dsh_post W ''to'' a (invite_payload ch keys) (x_public C (id_xpriv (ident r))) s = (None, s')"
    and "relayed ''to'' from (case last (wire s') of (k, JObj f) \<Rightarrow> f | _ \<Rightarrow> []) g"
    and "p_xPub sender = x_public C (id_xpriv (d_ident s))" "p_xPub sender \<noteq> []"
  shows "\<exists>ev. decryptMsg V g sender r = Inr ev
    \<and> (let r1 = msg_decrypted V g ev r in
        jm_get (channels r1) ch = Some \<lparr>ch_name = ch, ch_pub = ck_pub keys, ch_priv = Some (ck_priv keys)\<rparr>
        \<and> stored_keys (w_host r1) f ch = Some keys
        \<and> (\<forall>text i r2 from' g' s1 key info.
             length (ce_random V (n_random r1) 12) = 12 \<and> post V ''channel'' ch text (b64d (ck_pub keys)) r1 = Inr (i, r2)
             \<and> relayed ''channel'' from' (case last (wire r2) of (k, JObj f) \<Rightarrow> f | _ \<Rightarrow> []) g'
             \<and> jm_get (d_channels s1) ch = Some key \<and> ch_priv key = Some (ck_priv keys)
             \<and> in_xPub info = x_public C (id_xpriv (ident r1))
             \<longrightarrow> (\<exists>ev'. dsh_decryptMsg W g' info s1 = Inr ev' \<and> me_text ev' = text \<and> me_from ev' = from')))"
proof -
  from dsh_post_None [OF assms(11)] obtain ct sig k
    where ct: "seal C (ce_random W (n_random s) 12) (invite_payload ch keys) (ce_uuid W (n_uuid s)) a (id_xpriv (d_ident s))
        (x_public C (id_xpriv (ident r))) = Inr ct"
      and w: "wire s' = wire s @ [(k, JObj (obj_put ''sig'' (JStr sig) (msg_frame ''to'' a (ce_uuid W (n_uuid s)) (now s) ct)))]"
    by (metis assms(3))
  note g = relayed_dm [OF assms(12) [unfolded w, simplified]]
  have "open_sealed (ce_crypto V) ct (ce_uuid W (n_uuid s)) a (id_xpriv (ident r)) (p_xPub sender) = Inr (invite_payload ch keys)"
    using open_seal [OF assms(1,2,5) ct] assms(4,13) by simp
  from bridge_reads_dm [OF this assms(14) g] obtain ev
    where ev: "decryptMsg V g sender r = Inr ev" "me_text ev = invite_payload ch keys" "me_dm ev" by blast
  let ?r1 = "msg_decrypted V g ev r"
  have p: "parseChankeyInvite (me_text ev) = Some \<lparr>ck_pub = ck_pub keys, ck_priv = ck_priv keys, ci_channel = ch\<rparr>"
    using assms(6,7) by (simp add: ev(2) assms(10) invite_payload_parse)
  have h: "w_host (persist_keys n k (r\<lparr>channels := c\<rparr>)) = persistChannelKeys f n k (w_host r)" for n k c
    using assms(9) by (simp add: persist_keys_def channels_file_def)
  have r1: "jm_get (channels ?r1) ch = Some \<lparr>ch_name = ch, ch_pub = ck_pub keys, ch_priv = Some (ck_priv keys)\<rparr>"
    "stored_keys (w_host ?r1) f ch = Some keys"
    using assms(8) p ev(3)
    by (simp_all add: msg_decrypted_def surface_msg_def accept_invite_def Let_def deliver_def msg_failed_def ringError_def h
        stored_keys_persist addChannel_def split: option.splits)
  have "\<exists>ev'. dsh_decryptMsg W g' info s1 = Inr ev' \<and> me_text ev' = msg \<and> me_from ev' = from'"
    if n: "length (ce_random V (n_random ?r1) 12) = 12" and q: "post V ''channel'' ch msg (b64d (ck_pub keys)) ?r1 = Inr (i, r2)"
      and rel: "relayed ''channel'' from' (case last (wire r2) of (k, JObj f) \<Rightarrow> f | _ \<Rightarrow> []) g'"
      and key: "jm_get (d_channels s1) ch = Some key" "ch_priv key = Some (ck_priv keys)"
      and info: "in_xPub info = x_public C (id_xpriv (ident ?r1))"
    for msg i r2 from' g' s1 key info
  proof -
    have "post V ''channel'' ch msg (x_public C chPriv) ?r1 = Inr (i, r2)" using q by (simp add: assms(10))
    from post_Inr [OF this] obtain ct' sig' k'
      where c: "seal C (ce_random V (n_random ?r1) 12) msg i ch (id_xpriv (ident ?r1)) (x_public C chPriv) = Inr ct'"
        and w': "wire r2 = wire ?r1 @ [(k', JObj (obj_put ''sig'' (JStr sig') (msg_frame ''channel'' ch i (now ?r1) ct')))]"
      by (metis assms(4))
    note g' = relayed_channel [OF rel [unfolded w', simplified]]
    have "open_sealed (ce_crypto W) ct' i ch chPriv (in_xPub info) = Inr msg"
      using open_seal [OF assms(1,2) n c] assms(3) info by simp
    moreover have "chPriv \<noteq> []" using assms(6) by auto
    ultimately show ?thesis using plugin_reads_channel [OF _ _ g' key(1)] key(2) by (fastforce simp: assms(10))
  qed
  with ev(1) r1 show ?thesis unfolding Let_def by blast
qed

section \<open>Concrete messages\<close>

definition demo_talker :: plugin where
  "demo_talker = demo_plugin\<lparr>socks := [(0, OPEN)], d_ident := \<lparr>id_priv = [1], id_pub = [1], id_xpriv = [3], id_xpub = [3]\<rparr>\<rparr>"

definition demo_known :: peer_info where
  "demo_known = \<lparr>p_agentId = ''bob'', p_pubkey = [], p_x25519 = [], p_name = JUndef, p_online = JUndef, p_xPub = x_public demo_crypto [3]\<rparr>"

lemma demo_dsh_post: "\<exists>s'. dsh_post demo_env fld peer text pub demo_talker = (None, s')"
  by (simp add: dsh_post_def dsh_signAndSend_def seal_def signFrame_def demo_crypto_def demo_env_def Let_def of_option_def
      demo_talker_def demo_plugin_fields take_random_def take_uuid_def sock_of_def)

lemma demo_frame:
  assumes "dsh_post demo_env fld peer t pub demo_talker = (None, s')"
  shows "\<exists>sig ct. (case last (wire s') of (k, JObj f) \<Rightarrow> f | _ \<Rightarrow> [])
    = obj_put ''sig'' (JStr sig) (msg_frame fld peer (ce_uuid demo_env (n_uuid demo_talker)) (now demo_talker) ct)"
proof -
  from assms obtain ct sig k
    where "wire s' = wire demo_talker @
      [(k, JObj (obj_put ''sig'' (JStr sig) (msg_frame fld peer (ce_uuid demo_env (n_uuid demo_talker)) (now demo_talker) ct)))]"
    by (rule dsh_post_None)
  then show ?thesis by auto
qed

lemma plugin_message_reaches_bridge_witness: "\<exists>g ev. decryptMsg demo_env g demo_known demo_room = Inr ev \<and> me_text ev = ''hi''"
proof -
  obtain s' where p: "dsh_post demo_env ''channel'' ''room'' ''hi'' (x_public demo_crypto [5]) demo_talker = (None, s')"
    using demo_dsh_post by blast
  let ?f = "case last (wire s') of (k, JObj f) \<Rightarrow> f | _ \<Rightarrow> []"
  have "relayed ''channel'' ''bob'' ?f (obj_put ''from'' (JStr ''bob'') ?f)"
    by (simp add: relayed_def)
  from plugin_message_reaches_bridge [OF demo_laws(2,3) _ _ p this, of demo_room
      "\<lparr>ch_name = ''room'', ch_pub = [], ch_priv = Some (b64e [5])\<rparr>" demo_env demo_known]
  show ?thesis by (auto simp: demo_room_def demo_known_def demo_talker_def)
qed

lemma invite_shares_room_witness:
  "\<exists>g ev. decryptMsg demo_env g demo_known (demo_client\<lparr>o_channelsFile := Some ''/c''\<rparr>) = Inr ev
     \<and> jm_get (channels (msg_decrypted demo_env g ev (demo_client\<lparr>o_channelsFile := Some ''/c''\<rparr>))) ''room''
         = Some \<lparr>ch_name = ''room'', ch_pub = b64e (replicate 32 7), ch_priv = Some (b64e (replicate 32 7))\<rparr>"
proof -
  let ?r = "demo_client\<lparr>o_channelsFile := Some ''/c''\<rparr>" and ?k = "replicate 32 7 :: bytes"
  let ?keys = "\<lparr>ck_pub = b64e (x_public demo_crypto ?k), ck_priv = b64e ?k\<rparr>"
  obtain s' where p: "dsh_post demo_env ''to'' ''ada'' (invite_payload ''room'' ?keys) (x_public demo_crypto (id_xpriv (ident ?r))) demo_talker
      = (None, s')"
    using demo_dsh_post by blast
  let ?f = "case last (wire s') of (k, JObj f) \<Rightarrow> f | _ \<Rightarrow> []"
  obtain sig ct where f: "?f = obj_put ''sig'' (JStr sig) (msg_frame ''to'' ''ada'' (ce_uuid demo_env (n_uuid demo_talker)) (now demo_talker) ct)"
    using demo_frame [OF p] by blast
  have "relayed ''to'' ''bob'' ?f (obj_put ''from'' (JStr ''bob'') ?f)"
    unfolding f by (simp add: relayed_def msg_frame_def)
  from invite_shares_room [OF demo_laws(2,3) _ _ _ _ _ _ _ HOL.refl p this, of demo_env "''/c''" demo_known]
  show ?thesis
    by (auto simp: demo_known_def demo_talker_def channels_file_def demo_crypto_def Let_def simp del: replicate.simps)
qed

end
