(* ===== verification/Dsh_Connection.thy ===== *)
theory Dsh_Connection
  imports Dsh_Messages
begin

text \<open>
  The connection of the plugin: what it dials with at the launch, how it recovers from a refused secret, and
  what \<open>dap_connect\<close> leaves of the old connection.
\<close>

section \<open>Pieces\<close>

definition config_secret :: "host \<Rightarrow> json" where
  "config_secret h = prop_of (readDapConfig h (defaultConfigFile h)) ''clientSecret''"

lemma persist_secret_host:
  obtains h' where "persistDapConfig (no_update\<lparr>up_secret := u\<rparr>) (defaultConfigFile h) h = Inr h'"
    and "env_var h' = env_var h"
    and "config_secret h' = (case u of PurgeSecret \<Rightarrow> JUndef | SetSecret (c # t) \<Rightarrow> JStr (c # t) | _ \<Rightarrow> config_secret h)"
proof -
  let ?u = "no_update\<lparr>up_secret := u\<rparr>"
  obtain ps where "next_config ?u (readDapConfig h (defaultConfigFile h)) = Inr ps"
    using next_config_total [of ?u] by (auto simp: no_update_def)
  then obtain h' where p: "persistDapConfig ?u (defaultConfigFile h) h = Inr h'" by (simp add: persistDapConfig_def)
  have ok: "update_jok ?u" by (simp add: update_jok_def no_update_def)
  from next_config_prop [OF persist_read [OF p ok]] persist_config_path [OF p]
  have "config_secret h' = (case u of PurgeSecret \<Rightarrow> JUndef | SetSecret (c # t) \<Rightarrow> JStr (c # t) | _ \<Rightarrow> config_secret h)"
    by (auto simp: config_secret_def no_update_def split: secret_update.splits list.splits)
  with p persist_fields [OF p] that show thesis by (auto simp: env_var_def fun_eq_iff)
qed

lemma dsh_connect_eq:
  assumes "\<not> d_stopped s" "ce_url_ok W (d_url s)"
  shows "dsh_connect W s = (None, s\<lparr>d_enrollMode := (case dialAuth (w_host s) (d_clientSecret s) of Some a \<Rightarrow> at_enroll a | None \<Rightarrow> False),
      d_dialSource := map_option at_source (dialAuth (w_host s) (d_clientSecret s)), n_sock := n_sock s + 1,
      socks := jm_set (n_sock s) CONNECTING (socks s), attached := js_add (n_sock s) (attached s),
      dialed := dialed s @ [(d_url s, map_option at_token (dialAuth (w_host s) (d_clientSecret s)))], d_ws := Some (n_sock s)\<rparr>)"
  using assms by (simp add: dsh_connect_def Let_def)

lemma dialAuth_order:
  "dialAuth h c = (case (optStr (env_var h ''DAP_CLIENT_SECRET''), optStr c, optStr (env_var h ''DAP_MASTER_SECRET'')) of
       (Some t, _, _) \<Rightarrow> Some \<lparr>at_token = t, at_enroll = False, at_source = AuthEnv\<rparr>
     | (None, Some t, _) \<Rightarrow> Some \<lparr>at_token = t, at_enroll = False, at_source = AuthConfig\<rparr>
     | (None, None, Some t) \<Rightarrow> Some \<lparr>at_token = t, at_enroll = True, at_source = AuthMaster\<rparr>
     | _ \<Rightarrow> None)"
  by (simp add: dialAuth_def split: option.splits)

lemma loadIdentity_env: "dsh_loadIdentity C a b p h = Inr (i, h') \<Longrightarrow> env h' = env h \<and> homedir h' = homedir h"
  by (auto simp: dsh_loadIdentity_def bind_result_Inr_iff Let_def split: if_splits prod.splits)

lemma apply_disabled: "apply_plugin X c h = Some (Inr (Disabled h')) \<Longrightarrow> optStr (env_var h ''DAP_MASTER_SECRET'') = None \<and> h' = h"
proof -
  have "map_sum id Enabled x \<noteq> Inr (Disabled y)" for x :: "exn + plugin" and y by (cases x) auto
  then show "apply_plugin X c h = Some (Inr (Disabled h')) \<Longrightarrow> optStr (env_var h ''DAP_MASTER_SECRET'') = None \<and> h' = h"
    by (auto simp: apply_plugin_def split: if_splits option.splits sum.splits)
qed

definition undisturbed :: "plugin_ctx \<Rightarrow> bool" where
  \<comment> \<open>the host's agent and logger do not throw\<close>
  "undisturbed X = ((\<forall>f t. px_followup X = Some f \<longrightarrow> f t = None) \<and> (\<forall>f t. px_warn X = Some f \<longrightarrow> f t = None))"

lemma undisturbed_notices:
  assumes "undisturbed X"
  obtains a b where "error_notice X e s = (None, s\<lparr>pl_warnings := b, pl_followups := a\<rparr>)"
proof -
  have "logger_warn X t s = (None, s\<lparr>pl_warnings := (case px_warn X of None \<Rightarrow> pl_warnings s | Some f \<Rightarrow> pl_warnings s @ [t])\<rparr>)" for t
    using assms by (auto simp: undisturbed_def logger_warn_def split: option.splits)
  moreover have "followup X t s = (None, s\<lparr>pl_followups := (case px_followup X of None \<Rightarrow> pl_followups s | Some f \<Rightarrow> pl_followups s @ [t])\<rparr>)"
    for t and s :: "'a plugin_scheme"
    using assms by (auto simp: undisturbed_def followup_def split: option.splits)
  ultimately have "\<exists>a b. error_notice X e s = (None, s\<lparr>pl_warnings := b, pl_followups := a\<rparr>)"
    by (simp add: error_notice_def Let_def del: append.simps) blast
  with that show thesis by blast
qed

section \<open>The steps of \<open>retarget\<close>\<close>

definition let_go :: "'m d \<Rightarrow> 'm d" where
  \<comment> \<open>the client without its connection\<close>
  "let_go s = (dsh_close_ws ((clear_timer_handle (d_retryTimer s) s)\<lparr>d_retryTimer := None, watching := None\<rparr>))
     \<lparr>d_ws := None, d_welcomed := False, d_stopped := False\<rparr>"

definition dialed_to :: "cenv \<Rightarrow> 'm d \<Rightarrow> dsh_target \<Rightarrow> identity \<Rightarrow> host \<Rightarrow> nat \<Rightarrow> 'm d" where
  \<comment> \<open>the client as it was let go, with a new target, after its dial\<close>
  "dialed_to W s next i h n =
     (let auth = dialAuth h (d_clientSecret s); url = (case dt_url next of Some (c # u) \<Rightarrow> c # u | _ \<Rightarrow> d_url s)
      in s\<lparr>d_url := url, d_ident := i, w_host := h, n_random := n, d_known := [],
           d_name := (case dt_name next of Some m \<Rightarrow> Some m | None \<Rightarrow> d_name s), d_delay := d_initialMs s,
           d_enrollMode := (case auth of Some a \<Rightarrow> at_enroll a | None \<Rightarrow> False), d_dialSource := map_option at_source auth,
           n_sock := n_sock s + 1, socks := jm_set (n_sock s) CONNECTING (socks s), attached := js_add (n_sock s) (attached s),
           dialed := dialed s @ [(url, map_option at_token auth)], d_ws := Some (n_sock s)\<rparr>)"

lemma let_go_fields:
  "parked (let_go s) = parked s" "micro (let_go s) = micro s" "d_whoisWaiters (let_go s) = d_whoisWaiters s" "d_ws (let_go s) = None"
  "watching (let_go s) = None" "dialed (let_go s) = dialed s" "d_url (let_go s) = d_url s" "d_ident (let_go s) = d_ident s"
  "n_sock (let_go s) = n_sock s" "n_random (let_go s) = n_random s" "w_host (let_go s) = w_host s" "\<not> d_welcomed (let_go s)"
  "\<not> d_stopped (let_go s)" "d_channels (let_go s) = d_channels s" "d_name (let_go s) = d_name s"
  "d_clientSecret (let_go s) = d_clientSecret s"
  by (simp_all add: let_go_def dsh_close_ws_def close_sock_def clear_timer_handle_def split: option.splits)

lemma settle_all_keeps:
  "d_ws (settle_all o1 qs u) = d_ws u" "watching (settle_all o1 qs u) = watching u" "dialed (settle_all o1 qs u) = dialed u"
  "d_url (settle_all o1 qs u) = d_url u" "d_ident (settle_all o1 qs u) = d_ident u" "n_sock (settle_all o1 qs u) = n_sock u"
  "n_random (settle_all o1 qs u) = n_random u" "w_host (settle_all o1 qs u) = w_host u" "d_welcomed (settle_all o1 qs u) = d_welcomed u"
  "d_stopped (settle_all o1 qs u) = d_stopped u" "retries (settle_all o1 qs u) = retries u" "socks (settle_all o1 qs u) = socks u"
  "d_channels (settle_all o1 qs u) = d_channels u" "d_name (settle_all o1 qs u) = d_name u"
  "d_clientSecret (settle_all o1 qs u) = d_clientSecret u"
  for u :: "'a dsh_scheme"
  unfolding settle_all_def
  by (induction qs arbitrary: u) (auto simp: settle_def schedule_def split: option.splits)

lemma retarget_steps:
  assumes "dsh_retarget W next s = (None, t)"
  obtains s2 i h n where "s2 = let_go s" "t = dialed_to W (failWhoisWaiters RETARGET_REASON s2) next i h n"
    "case dt_keyPath next of
       Some (c # p) \<Rightarrow> dsh_loadIdentity (ce_crypto W) (ce_random W (n_random s) 32) (ce_random W (n_random s + 1) 32) (c # p) (w_host s) = Inr (i, h)
     | _ \<Rightarrow> i = d_ident s \<and> h = w_host s"
    "ce_url_ok W (d_url t)"
proof -
  let ?s3 = "failWhoisWaiters RETARGET_REASON (let_go s)"
  define s4 where "s4 = ?s3\<lparr>d_url := (case dt_url next of Some (c # u) \<Rightarrow> c # u | _ \<Rightarrow> d_url ?s3)\<rparr>"
  let ?k = "\<lambda>s5. dsh_connect W (s5\<lparr>d_known := [], d_name := (case dt_name next of Some n \<Rightarrow> Some n | None \<Rightarrow> d_name s5), d_delay := d_initialMs s5\<rparr>)"
  have "and_then (swap_identity W (dt_keyPath next) s4) ?k = (None, t)"
    using assms unfolding dsh_retarget_def Let_def s4_def let_go_def .
  then obtain s5 where s5: "swap_identity W (dt_keyPath next) s4 = (None, s5)" and c: "?k s5 = (None, t)"
    by (cases "swap_identity W (dt_keyPath next) s4") (auto simp: and_then_def split: option.splits)
  have f4: "d_stopped s4 = False" "n_random s4 = n_random s" "w_host s4 = w_host s" "d_ident s4 = d_ident s"
    using let_go_fields [of s] by (simp_all add: s4_def failWhoisWaiters_def settle_all_keeps)
  obtain i h n where s5': "s5 = s4\<lparr>d_ident := i, w_host := h, n_random := n\<rparr>" and i: "case dt_keyPath next of
       Some (c # p) \<Rightarrow> dsh_loadIdentity (ce_crypto W) (ce_random W (n_random s) 32) (ce_random W (n_random s + 1) 32) (c # p) (w_host s) = Inr (i, h)
     | _ \<Rightarrow> i = d_ident s \<and> h = w_host s"
  proof -
    have "s5 = s4\<lparr>d_ident := d_ident s5, w_host := w_host s5, n_random := n_random s5\<rparr>"
      "case dt_keyPath next of
         Some (c # p) \<Rightarrow> dsh_loadIdentity (ce_crypto W) (ce_random W (n_random s) 32) (ce_random W (n_random s + 1) 32) (c # p) (w_host s)
           = Inr (d_ident s5, w_host s5)
       | _ \<Rightarrow> d_ident s5 = d_ident s \<and> w_host s5 = w_host s"
      using s5 f4 by (auto simp: swap_identity_def split: option.splits list.splits sum.splits)
    then show thesis by (rule that)
  qed
  let ?s6 = "s5\<lparr>d_known := [], d_name := (case dt_name next of Some n \<Rightarrow> Some n | None \<Rightarrow> d_name s5), d_delay := d_initialMs s5\<rparr>"
  have go: "\<not> d_stopped ?s6" by (simp add: s5' f4)
  moreover from c this have "ce_url_ok W (d_url ?s6)" by (auto simp: dsh_connect_def Let_def split: if_splits)
  ultimately have "dsh_connect W ?s6 = (None, dialed_to W ?s3 next i h n)"
    by (simp add: dsh_connect_eq s5' dialed_to_def s4_def Let_def cong: option.case_cong)
  with c have "t = dialed_to W ?s3 next i h n" by simp
  moreover from go c have "ce_url_ok W (d_url s5)" by (auto simp: dsh_connect_def Let_def split: if_splits)
  ultimately show thesis
    using i by (intro that [of "let_go s" i h n]) (simp_all add: dialed_to_def s5' s4_def Let_def)
qed

section \<open>Properties\<close>

text \<open>C23: what the plugin does at its launch: without a master secret it touches nothing and dials nobody; with
  one it makes one socket, to the url it resolved, and presents the client secret of the environment before the
  persisted one before the master secret, which alone asks to enroll.\<close>

theorem plugin_launch:
  "case apply_plugin X c h of
     Some (Inr (Disabled h')) \<Rightarrow> optStr (env_var h ''DAP_MASTER_SECRET'') = None \<and> h' = h
   | Some (Inr (Enabled s)) \<Rightarrow> optStr (env_var h ''DAP_MASTER_SECRET'') \<noteq> None
       \<and> dialed s = [(d_url s, case (optStr (env_var h ''DAP_CLIENT_SECRET''), optStr (d_clientSecret s)) of
                                 (Some t, _) \<Rightarrow> Some t
                               | (None, Some t) \<Rightarrow> Some t
                               | _ \<Rightarrow> optStr (env_var h ''DAP_MASTER_SECRET''))]
       \<and> d_enrollMode s = (optStr (env_var h ''DAP_CLIENT_SECRET'') = None \<and> optStr (d_clientSecret s) = None)
   | _ \<Rightarrow> True"
proof -
  have "dialed s = [(d_url s, case (optStr (env_var h ''DAP_CLIENT_SECRET''), optStr (d_clientSecret s)) of
          (Some t, _) \<Rightarrow> Some t | (None, Some t) \<Rightarrow> Some t | _ \<Rightarrow> optStr (env_var h ''DAP_MASTER_SECRET''))]"
    "d_enrollMode s = (optStr (env_var h ''DAP_CLIENT_SECRET'') = None \<and> optStr (d_clientSecret s) = None)"
    "optStr (env_var h ''DAP_MASTER_SECRET'') \<noteq> None"
    if "installs X c h s" for s
  proof -
    from that obtain opts s0 s1 where n: "new_dsh (px_env X) opts h = Inr s0" and st: "dsh_start (px_env X) s0 = (None, s1)"
      and s: "dialed s = dialed s1" "d_url s = d_url s1" "d_clientSecret s = d_clientSecret s1" "d_enrollMode s = d_enrollMode s1"
      and m: "optStr (env_var h ''DAP_MASTER_SECRET'') \<noteq> None"
      by (rule installs_cases) (auto simp: dsh.defs)
    have e: "env_var (w_host s0) = env_var h"
      using n by (auto simp: new_dsh_def bind_result_Inr_iff env_var_def dest!: loadIdentity_env)
    show "optStr (env_var h ''DAP_MASTER_SECRET'') \<noteq> None" by (rule m)
    show "dialed s = [(d_url s, case (optStr (env_var h ''DAP_CLIENT_SECRET''), optStr (d_clientSecret s)) of
          (Some t, _) \<Rightarrow> Some t | (None, Some t) \<Rightarrow> Some t | _ \<Rightarrow> optStr (env_var h ''DAP_MASTER_SECRET''))]"
      "d_enrollMode s = (optStr (env_var h ''DAP_CLIENT_SECRET'') = None \<and> optStr (d_clientSecret s) = None)"
      using m new_dsh_fields [OF n]
      by (auto simp: s dsh_start_dials(1) [OF st] e dialAuth_order split: option.splits)
  qed
  then show ?thesis
    by (auto simp: installs_def split: option.splits sum.splits installed.splits) (auto dest: apply_disabled)
qed

text \<open>C24: recovery from a stale secret: when the hub refuses the persisted client secret with 401 and a master secret
  is at hand, the plugin reports the refusal, forgets the secret in memory and in the config file, closes the
  socket and keeps its identity, and its next dial presents the master secret and asks to enroll.\<close>

theorem plugin_secret_recovery:
  assumes "d_ws s = Some i" "sock_of i s = CONNECTING" "undisturbed X" "\<not> d_stopped s" "ce_url_ok (px_env X) (d_url s)"
    and "d_dialSource s = Some AuthConfig" "\<not> d_reEnrolled s"
    and "optStr (env_var (w_host s) ''DAP_CLIENT_SECRET'') = None" "optStr (env_var (w_host s) ''DAP_MASTER_SECRET'') = Some master"
  shows "let t = happens X (EUnexpected i 401) s; u = snd (dsh_connect (px_env X) t) in
      d_reEnrolled t \<and> crashed t = crashed s \<and> sock_of i t = CLOSING
      \<and> d_errorRing t = ring_push ERRORS_CAP (d_errorRing s) (mk_error ''unauthorized'' AUTH_REQUIRED s)
      \<and> config_secret (w_host t) = JUndef \<and> d_clientSecret t = JUndef \<and> d_ident u = d_ident s
      \<and> dialed u = dialed s @ [(d_url s, Some master)] \<and> d_enrollMode u \<and> d_dialSource u = Some AuthMaster"
proof -
  let ?e = "mk_error ''unauthorized'' AUTH_REQUIRED s"
  let ?r = "s\<lparr>d_lastError := AUTH_REQUIRED, d_errorRing := ring_push ERRORS_CAP (d_errorRing s) ?e, hooked := hooked s @ [?e]\<rparr>"
  obtain a b where n: "error_notice X ?e ?r = (None, ?r\<lparr>pl_warnings := b, pl_followups := a\<rparr>)"
    using undisturbed_notices [OF assms(3)] by blast
  let ?q = "?r\<lparr>pl_warnings := b, pl_followups := a\<rparr>"
  have q: "surfaceError (plugin_hooks X) ''unauthorized'' AUTH_REQUIRED (s\<lparr>d_lastError := AUTH_REQUIRED\<rparr>) = (None, ?q)"
    using n by (simp add: surfaceError_def Let_def plugin_hooks_def mk_error_def)
  obtain h where h: "persistDapConfig (no_update\<lparr>up_secret := PurgeSecret\<rparr>) (defaultConfigFile (w_host s)) (w_host s) = Inr h"
      "env_var h = env_var (w_host s)" "config_secret h = JUndef"
    using persist_secret_host [of PurgeSecret "w_host s"] by auto
  let ?t = "close_sock i (?q\<lparr>d_reEnrolled := True, d_clientSecret := JUndef, w_host := h\<rparr>)"
  have t: "happens X (EUnexpected i 401) s = ?t"
    using assms(1,6,7,9) h(1) by (simp add: dsh_on_unexpected_def guarded_def q persist_secret_now_def effect_or_crash_def)
  have f: "d_reEnrolled ?t" "crashed ?t = crashed s" "d_errorRing ?t = ring_push ERRORS_CAP (d_errorRing s) ?e" "w_host ?t = h"
    "d_clientSecret ?t = JUndef" "d_ident ?t = d_ident s" "dialed ?t = dialed s" "d_stopped ?t = d_stopped s" "d_url ?t = d_url s"
    by (simp_all add: close_sock_def)
  have "sock_of i ?t = CLOSING" using assms(2) by (simp add: close_sock_def sock_of_def)
  moreover have "dialAuth h JUndef = Some \<lparr>at_token = master, at_enroll = True, at_source = AuthMaster\<rparr>"
    using assms(8,9) by (simp add: dialAuth_def h(2) optStr_def [of JUndef])
  ultimately show ?thesis
    using assms(4,5) h(3) unfolding t Let_def by (simp add: dsh_connect_eq f)
qed

lemma plugin_secret_recovery_witness:
  "dialed (snd (dsh_connect demo_env (happens demo_ctx (EUnexpected 0 401)
     (demo_plugin\<lparr>d_dialSource := Some AuthConfig, w_host := demo_host, d_url := ''ws://hub/ws'', dialed := []\<rparr>)))) = [(''ws://hub/ws'', Some ''master'')]"
proof -
  let ?s = "demo_plugin\<lparr>d_dialSource := Some AuthConfig, w_host := demo_host, d_url := ''ws://hub/ws'', dialed := []\<rparr>"
  have u: "undisturbed demo_ctx" by (simp add: undisturbed_def demo_ctx_def)
  have c: "d_ws ?s = Some 0" "sock_of 0 ?s = CONNECTING" by (simp_all add: demo_plugin_fields sock_of_def)
  have o: "\<not> d_stopped ?s" "ce_url_ok (px_env demo_ctx) (d_url ?s)" "d_dialSource ?s = Some AuthConfig" "\<not> d_reEnrolled ?s"
    by (simp_all add: demo_plugin_fields) (simp add: demo_env_def)
  have v: "optStr (env_var (w_host ?s) ''DAP_CLIENT_SECRET'') = None" "optStr (env_var (w_host ?s) ''DAP_MASTER_SECRET'') = Some ''master''"
    by (simp_all add: demo_env_vars)
  from plugin_secret_recovery [OF c u o v] have
    "dialed (snd (dsh_connect (px_env demo_ctx) (happens demo_ctx (EUnexpected 0 401) ?s))) = dialed ?s @ [(d_url ?s, Some ''master'')]"
    unfolding Let_def by blast
  then show ?thesis by (simp del: happens.simps)
qed



end
