(* ===== verification/Dsh_Findings.thy ===== *)
theory Dsh_Findings
  imports Dsh_Connection
begin

text \<open>
  What the plugin does in situations its comments do not speak of: a refusal that is not 401, a frame that is
  the JSON null, an \<open>enrolled\<close> nobody asked for, a lookup and a \<open>dap_connect\<close> before the socket is open.
\<close>

text \<open>A hub or proxy that refuses the upgrade with anything but 401 (a restart behind a proxy: 502, 503): the
  listener returns, the socket is neither closed nor replaced, no reconnect is scheduled.\<close>

lemma other_refusal_ignored: "st \<noteq> 401 \<Longrightarrow> happens X (EUnexpected i st) s = s"
  by (simp add: dsh_on_unexpected_def guarded_def effect_or_crash_def)

text \<open>One frame that is the JSON null ends the process.\<close>

lemma null_frame_crashes:
  assumes "d_ws s = Some i"
  shows "crashed (happens X (EMessage i ''null'') s)"
proof -
  have "json_parse ''null'' = Inr JNull" by code_simp
  with assms show ?thesis
    by (simp add: dsh_on_message_def guarded_def dsh_handleRaw_def nullish_def effect_or_crash_def crash_def)
qed

text \<open>An \<open>enrolled\<close> frame without a secret, on a connection that did not ask to enroll, replaces the client
  secret in memory and in the config file by the text of the undefined value.\<close>

lemma unsolicited_enroll:
  assumes "undisturbed X"
  shows "let s' = snd (dsh_dispatch (plugin_hooks X) W [(''t'', JStr ''enrolled'')] (s :: plugin))
    in d_clientSecret s' = JStr ''undefined'' \<and> config_secret (w_host s') = JStr ''undefined''"
proof -
  obtain h where h: "persistDapConfig (no_update\<lparr>up_secret := SetSecret ''undefined''\<rparr>) (defaultConfigFile (w_host s)) (w_host s) = Inr h"
      "config_secret h = JStr ''undefined''"
    using persist_secret_host [of "SetSecret ''undefined''" "w_host s"] by auto
  have "d_clientSecret (snd (enroll_notice X u)) = d_clientSecret u \<and> w_host (snd (enroll_notice X u)) = w_host u" for u :: plugin
    using assms by (auto simp: enroll_notice_def logger_warn_def followup_def undisturbed_def split: option.splits)
  then show ?thesis
    using h by (simp add: dsh_dispatch_def dsh_onEnrolled_def prop_of_def persist_secret_now_def plugin_hooks_def Let_def)
qed

text \<open>A \<open>dap_whois\<close> before the socket is open: \<open>ws.send\<close> throws out of \<open>agentInfo\<close> with the promise
  made and its timer armed; five seconds later the promise is rejected, nobody handles it, the process ends.\<close>

lemma early_whois_ends_process:
  "\<exists>ls s. plugin_run demo_ctx demo_plugin ls s \<and> crashed s"
proof -
  let ?ls = "[ETick READY_TIMEOUT_MS, ETimeout 0, EResume 1]"
  have "\<exists>s. plugin_steps demo_ctx ?ls demo_early = Some s \<and> crashed s"
    by (simp add: demo_early_state dsh_timeout_fires_def dsh_timeout_def settle_def schedule_def plugin_resume_nth_def crash_def Let_def)
  then obtain s where "plugin_run demo_ctx demo_early ?ls s" "crashed s" using plugin_steps_run by blast
  with plugin_run_append [OF this(1) demo_early_run] show ?thesis by blast
qed

text \<open>\<open>dap_connect\<close> with a new default room while the socket is not open: the room's \<open>join\<close> throws, so the
  tool fails and does not dial, when the url and the name of the plugin are already the new ones.\<close>

lemma early_connect_half_done:
  assumes "d_ws s = Some i" "sock_of i s = CONNECTING" "jm_get (d_channels s) room = None"
  shows "fst (connectTo X None (Some n) (Some room) s) \<noteq> None"
    and "dialed (snd (connectTo X None (Some n) (Some room) s)) = dialed s"
    and "pl_name (snd (connectTo X None (Some n) (Some room) s)) = Some n"
proof -
  have c: "connectTo X None (Some n) (Some room) s =
      and_then (persist_target None (Some n) (Some room) (s\<lparr>pl_name := Some n\<rparr>)) (\<lambda>s2.
        and_then (ensure_room X (Some room) s2) (retarget_to X None (Some n)))"
    by (simp add: connectTo_def Let_def)
  have e: "fst (ensure_room X (Some room) u) \<noteq> None \<and> dialed (snd (ensure_room X (Some room) u)) = dialed u
      \<and> pl_name (snd (ensure_room X (Some room) u)) = pl_name u"
    if "d_ws u = Some i" "sock_of i u = CONNECTING" "jm_get (d_channels u) room = None" for u :: "'m p"
  proof -
    have j: "dsh_join channel pub w = (Some LibError, w)" if "d_ws w = Some i" "sock_of i w = CONNECTING" for channel pub and w :: "'m p"
      using that by (simp add: dsh_join_def dsh_ws_send_def)
    have k: "d_ws (dsh_persist_keys c k w) = d_ws w" "sock_of i (dsh_persist_keys c k w) = sock_of i w"
      "dialed (dsh_persist_keys c k w) = dialed w" "pl_name (dsh_persist_keys c k w) = pl_name w" for c k and w :: "'m p"
      by (simp_all add: dsh_persist_keys_def sock_of_def split: option.splits)
    have r: "d_ws (take_random w) = d_ws w" "sock_of i (take_random w) = sock_of i w"
      "dialed (take_random w) = dialed w" "pl_name (take_random w) = pl_name w" for w :: "'m p"
      by (simp_all add: take_random_def sock_of_def)
    have f: "sock_of i (u\<lparr>d_channels := cs\<rparr>) = sock_of i u" for cs by (simp add: sock_of_def)
    show ?thesis using that by (simp add: ensure_room_def dsh_ensureChannel_def createChannel_def Let_def j k r f)
  qed
  have "fst (connectTo X None (Some n) (Some room) s) \<noteq> None \<and> dialed (snd (connectTo X None (Some n) (Some room) s)) = dialed s
      \<and> pl_name (snd (connectTo X None (Some n) (Some room) s)) = Some n"
  proof (cases "persistDapConfig (connect_update None (Some n) (Some room)) (defaultConfigFile (w_host s)) (w_host s)")
    case (Inr h)
    let ?u = "s\<lparr>pl_name := Some n, w_host := h\<rparr>"
    have "d_ws ?u = Some i" "sock_of i ?u = CONNECTING" "jm_get (d_channels ?u) room = None"
      using assms by (simp_all add: sock_of_def)
    note e [OF this]
    then show ?thesis
      by (cases "ensure_room X (Some room) ?u") (auto simp: c persist_target_def Inr and_then_case)
  qed (simp add: c persist_target_def)
  then show "fst (connectTo X None (Some n) (Some room) s) \<noteq> None"
    "dialed (snd (connectTo X None (Some n) (Some room) s)) = dialed s"
    "pl_name (snd (connectTo X None (Some n) (Some room) s)) = Some n"
    by simp_all
qed

end
