(* ===== verification/Dsh_Restart.thy ===== *)
theory Dsh_Restart
  imports Dsh_Connection Server_Launch
begin

text \<open>What \<open>dap_connect\<close> of the plugin sets up and its next launch finds: hub, name, identity, room, pending invites.\<close>

section \<open>Pieces\<close>

lemma dsh_identity_ranks:
  "prop_rank ''edPriv'' = 4294967295" "prop_rank ''edPub'' = 4294967295" "prop_rank ''xPriv'' = 4294967295" "prop_rank ''xPub'' = 4294967295"
  by (simp_all add: prop_rank_def arr_index_def is_digit_def code_def)

lemma dsh_identity_parse:
  "json_parse (dsh_identity_text i) = Inr (JObj [(''edPriv'', JStr (b64e (id_priv i))), (''edPub'', JStr (b64e (id_pub i))),
     (''xPriv'', JStr (b64e (id_xpriv i))), (''xPub'', JStr (b64e (id_xpub i)))])"
  unfolding dsh_identity_text_def by (rule json_parse_text_ok) (simp add: obj_ok_def dsh_identity_ranks)

lemma dsh_loadIdentity_again:
  assumes "dsh_loadIdentity C a b p h = Inr (i, h')"
  shows "dsh_loadIdentity C' a' b' p h' = Inr (i, h')"
proof (cases "fs h p = None")
  case True
  with assms have h': "h' = chmod_file p private_mode (write_file p (dsh_identity_text i) private_mode h)"
    by (auto simp: dsh_loadIdentity_def Let_def split: prod.splits)
  then have "fs h' p \<noteq> None" "read_file h' p = Inr (dsh_identity_text i)" by simp_all (simp add: chmod_file_def write_file_def)
  then show ?thesis
    by (simp add: dsh_loadIdentity_def dsh_stored_identity_def read_json_def dsh_identity_parse key_field_def get_prop_def)
next
  case False
  with assms show ?thesis by (auto simp: dsh_loadIdentity_def bind_result_Inr_iff)
qed

lemma dsh_loadIdentity_other: "dsh_loadIdentity C a b p h = Inr (i, h') \<Longrightarrow> f \<noteq> p \<Longrightarrow> read_file h' f = read_file h f"
  by (auto simp: dsh_loadIdentity_def bind_result_Inr_iff Let_def split: if_splits prod.splits)

definition dsh_key_path :: "host \<Rightarrow> string \<Rightarrow> string" where
  "dsh_key_path h name = homedir h @ ''/.dap/keys/dsh/'' @ sanitize name @ ''.key''"

lemma dsh_paths_distinct [simp]:
  "config_path h \<noteq> dsh_key_path h n" "channels_path h \<noteq> dsh_key_path h n"
  by (simp_all add: config_path_def channels_path_def dsh_key_path_def)

lemma dsh_defaultKeyPath_name: "dsh_defaultKeyPath h (JStr n) = Inr (dsh_key_path h n)"
  by (simp add: dsh_defaultKeyPath_def coalesce_def nullish_def path_join_def dsh_key_path_def)

definition no_overrides :: "plugin_config \<Rightarrow> bool" where
  "no_overrides c = (pc_url c = None \<and> pc_keyPath c = None \<and> pc_name c = None \<and> pc_channelsFile c = None \<and> pc_channels c = None)"

lemma plugin_settings:
  assumes "default_machine h" "no_overrides c" "prop_of (readDapConfig h (config_path h)) ''url'' = JStr url"
    and "prop_of (readDapConfig h (config_path h)) ''name'' = JStr name"
  shows "dsh_resolveDapSettings h (config_overrides c) = Inr \<lparr>st_url = JStr url, st_keyPath = JStr (dsh_key_path h name), st_name = JStr name,
      st_channelsFile = JStr (channels_path h), st_clientSecret = prop_of (readDapConfig h (config_path h)) ''clientSecret''\<rparr>"
  using assms
  by (simp add: dsh_resolveDapSettings_def setting_def default_config_file [OF assms(1)] opt_json_def coalesce_def nullish_def
      dsh_defaultKeyPath_name Let_def config_overrides_def no_overrides_def prop_of_def [of "_ # _"])
    (auto simp: default_machine_def nullish_def channels_path_def path_join_def coalesce_def)

lemma dsh_new_channel:
  assumes "dsh_ensureChannel W room s = (None, ch, t)" "jm_get (d_channels s) room = None" "d_useChannelFile s"
    and "d_channelsFile s = Some f" "room \<noteq> ''__proto__''"
  obtains k where "w_host t = persistChannelKeys f room k (w_host s)" "stored_keys (w_host t) f room = Some k"
    and "jm_get (d_channels t) room = Some \<lparr>ch_name = room, ch_pub = ck_pub k, ch_priv = Some (ck_priv k)\<rparr>"
proof -
  have j: "w_host u' = w_host u \<and> d_channels u' = d_channels u" if "dsh_join room p u = (None, u')" for p and u u' :: "'a d"
    using that by (auto simp: dsh_join_def dsh_ws_send_def push_frame_def split: option.splits sock_state.splits)
  from assms show thesis
    by (auto simp: dsh_ensureChannel_def createChannel_def dsh_persist_keys_def take_random_def stored_keys_persist Let_def
        split: prod.splits dest!: j intro!: that)
qed

lemma connectTo_ok:
  assumes "connectTo X (Some host) (Some name) (Some room) s = (None, t)" "dsh_normalizeHost (px_platform X) host = Inr url"
  obtains h1 ch s3 where
    "persistDapConfig (connect_update (Some url) (Some name) (Some room)) (defaultConfigFile (w_host s)) (w_host s) = Inr h1"
    and "dsh_ensureChannel (px_env X) room (s\<lparr>pl_name := Some name, pl_url := url, w_host := h1\<rparr>) = (None, ch, s3)"
    and "dsh_retarget (px_env X) \<lparr>dt_url = Some url, dt_keyPath = Some (dsh_key_path (w_host s3) name), dt_name = Some name\<rparr> s3 = (None, t)"
proof -
  let ?s1 = "s\<lparr>pl_name := Some name, pl_url := url\<rparr>"
  from assms have c: "and_then (persist_target (Some url) (Some name) (Some room) ?s1) (\<lambda>s2.
      and_then (ensure_room X (Some room) s2) (retarget_to X (Some url) (Some name))) = (None, t)"
    by (simp add: connectTo_def Let_def)
  then obtain s2 s3 where "persist_target (Some url) (Some name) (Some room) ?s1 = (None, s2)"
      "ensure_room X (Some room) s2 = (None, s3)" "retarget_to X (Some url) (Some name) s3 = (None, t)"
    by (auto simp: and_then_def split: prod.splits option.splits)
  then show thesis
    by (auto simp: persist_target_def ensure_room_def retarget_to_def dsh_defaultKeyPath_name split: sum.splits prod.splits intro!: that)
qed

lemma retarget_to_agent:
  assumes "dsh_retarget W \<lparr>dt_url = Some (c # u), dt_keyPath = Some (d # p), dt_name = Some name\<rparr> s = (None, t)"
  shows "d_url t = c # u" "d_name t = Some name" "d_channels t = d_channels s" "ce_url_ok W (c # u)"
    and "dsh_loadIdentity (ce_crypto W) (ce_random W (n_random s) 32) (ce_random W (n_random s + 1) 32) (d # p) (w_host s)
      = Inr (d_ident t, w_host t)"
proof -
  obtain i h n where t: "t = dialed_to W (failWhoisWaiters RETARGET_REASON (let_go s))
      \<lparr>dt_url = Some (c # u), dt_keyPath = Some (d # p), dt_name = Some name\<rparr> i h n"
    and l: "dsh_loadIdentity (ce_crypto W) (ce_random W (n_random s) 32) (ce_random W (n_random s + 1) 32) (d # p) (w_host s) = Inr (i, h)"
    and o: "ce_url_ok W (d_url t)"
    by (rule retarget_steps [OF assms]) auto
  show "d_url t = c # u" "d_name t = Some name" "d_channels t = d_channels s"
    by (simp_all add: t dialed_to_def failWhoisWaiters_def settle_all_keeps let_go_fields Let_def)
  then show "ce_url_ok W (c # u)" using o by simp
  show "dsh_loadIdentity (ce_crypto W) (ce_random W (n_random s) 32) (ce_random W (n_random s + 1) 32) (d # p) (w_host s)
      = Inr (d_ident t, w_host t)"
    using l by (simp add: t dialed_to_def Let_def)
qed

text \<open>The machine after \<open>dap_connect\<close>, as the next launch reads it.\<close>

lemma connectTo_machine:
  assumes "connectTo X (Some host) (Some name) (Some room) s = (None, t)" "name \<noteq> []" "room \<noteq> []"
    and "dsh_normalizeHost (px_platform X) host = Inr url" "url \<noteq> []" "default_machine (w_host s)"
    and "d_useChannelFile s" "d_channelsFile s = Some (channels_path (w_host s))"
    and "jm_get (d_channels s) room = None" "room \<noteq> ''__proto__''"
  obtains k where "env (w_host t) = env (w_host s)" "homedir (w_host t) = homedir (w_host s)" "default_machine (w_host t)"
    and "prop_of (readDapConfig (w_host t) (config_path (w_host s))) ''url'' = JStr url"
    and "prop_of (readDapConfig (w_host t) (config_path (w_host s))) ''name'' = JStr name"
    and "prop_of (readDapConfig (w_host t) (config_path (w_host s))) ''invites''
      = prop_of (readDapConfig (w_host s) (config_path (w_host s))) ''invites''"
    and "stored_keys (w_host t) (channels_path (w_host s)) room = Some k"
    and "jm_get (d_channels t) room = Some \<lparr>ch_name = room, ch_pub = ck_pub k, ch_priv = Some (ck_priv k)\<rparr>"
    and "\<And>C a b. dsh_loadIdentity C a b (dsh_key_path (w_host s) name) (w_host t) = Inr (d_ident t, w_host t)"
    and "d_url t = url" "d_name t = Some name" "ce_url_ok (px_env X) url"
proof -
  let ?h = "w_host s" and ?W = "px_env X"
  let ?cf = "config_path ?h" and ?f = "channels_path ?h" and ?u = "connect_update (Some url) (Some name) (Some room)"
  obtain h1 ch s3 where p: "persistDapConfig ?u (defaultConfigFile ?h) ?h = Inr h1"
    and e: "dsh_ensureChannel ?W room (s\<lparr>pl_name := Some name, pl_url := url, w_host := h1\<rparr>) = (None, ch, s3)"
    and r: "dsh_retarget ?W \<lparr>dt_url = Some url, dt_keyPath = Some (dsh_key_path (w_host s3) name), dt_name = Some name\<rparr> s3 = (None, t)"
    by (rule connectTo_ok [OF assms(1,4)])
  note p = p [unfolded default_config_file [OF assms(6)]]
  obtain k where h3: "w_host s3 = persistChannelKeys ?f room k h1" and k: "stored_keys (w_host s3) ?f room = Some k"
    and ck: "jm_get (d_channels s3) room = Some \<lparr>ch_name = room, ch_pub = ck_pub k, ch_priv = Some (ck_priv k)\<rparr>"
    by (rule dsh_new_channel [OF e, where f = ?f]) (use assms(7-10) in auto)
  have e3: "env (w_host s3) = env ?h" "homedir (w_host s3) = homedir ?h" using persist_fields [OF p] by (simp_all add: h3)
  then have kp: "dsh_key_path (w_host s3) name = dsh_key_path ?h name" by (simp add: dsh_key_path_def)
  obtain a u where url: "url = a # u" using assms(5) by (cases url) auto
  obtain b q where q: "dsh_key_path ?h name = b # q" by (cases "dsh_key_path ?h name") (auto simp: dsh_key_path_def)
  note t = retarget_to_agent [OF r [unfolded kp url q], folded url q]
  have et: "env (w_host t) = env ?h" "homedir (w_host t) = homedir ?h" using loadIdentity_env [OF t(5)] e3 by auto
  have cfg: "readDapConfig (w_host t) ?cf = readDapConfig h1 ?cf"
    by (rule readDapConfig_read) (simp add: dsh_loadIdentity_other [OF t(5)] h3 persist_keys_other)
  have "update_jok ?u" by (simp add: update_jok_def no_update_def connect_update_def split: list.split)
  note np = next_config_prop [OF persist_read [OF p this], folded cfg]
  have paths: "config_path (w_host t) = ?cf" using et by (simp add: config_path_def)
  have "default_machine (w_host t)"
    using assms(6) np(1) [of "''keyPath''"] np(1) [of "''channelsFile''"]
    by (simp add: default_machine_def paths env_var_eq [OF et(1)])
  moreover have "prop_of (readDapConfig (w_host t) ?cf) ''url'' = JStr url" "prop_of (readDapConfig (w_host t) ?cf) ''name'' = JStr name"
    "prop_of (readDapConfig (w_host t) ?cf) ''invites'' = prop_of (readDapConfig ?h ?cf) ''invites''"
    using np(2,3,4) assms(2,5) by (simp_all add: connect_update_def no_update_def)
  moreover have "stored_keys (w_host t) ?f room = Some k"
    using stored_keys_read [OF dsh_loadIdentity_other [OF t(5), of ?f]] k by simp
  moreover have "dsh_loadIdentity C x y (dsh_key_path ?h name) (w_host t) = Inr (d_ident t, w_host t)" for C x y
    by (rule dsh_loadIdentity_again [OF t(5)])
  ultimately show thesis using that et t ck by simp
qed

section \<open>The next launch\<close>

text \<open>C31: what \<open>dap_connect\<close> of the plugin sets up survives a restart: after it succeeded for a host, a name and a
  new room, the next launch on the machine, with settings that are otherwise the defaults, succeeds and
  dials the same hub as the same agent, under the same name, knows the room with the same keys, and has the
  pending invites that were in the config file before.\<close>

theorem plugin_connect_survives_restart:
  assumes "connectTo X (Some host) (Some name) (Some room) s = (None, t)" "name \<noteq> []" "room \<noteq> []"
    and "dsh_normalizeHost (px_platform X) host = Inr url" "url \<noteq> []" "default_machine (w_host s)"
    and "d_useChannelFile s" "d_channelsFile s = Some (channels_path (w_host s))"
    and "jm_get (d_channels s) room = None" "room \<noteq> ''__proto__''"
    and "optStr (env_var (w_host s) ''DAP_MASTER_SECRET'') \<noteq> None" "no_overrides c"
  shows "\<exists>u. apply_plugin X c (w_host t) = Some (Inr (Enabled u))
    \<and> d_url u = url \<and> d_url t = url \<and> d_name u = Some name \<and> d_name t = Some name \<and> map fst (dialed u) = [url]
    \<and> d_ident u = d_ident t \<and> dsh_agentId (px_env X) u = dsh_agentId (px_env X) t
    \<and> jm_get (d_channels u) room = jm_get (d_channels t) room \<and> jm_get (d_channels t) room \<noteq> None
    \<and> pl_pending u = stored_invites (w_host s) None"
proof -
  let ?h = "w_host s" and ?t = "w_host t" and ?W = "px_env X"
  obtain k where m: "env ?t = env ?h" "homedir ?t = homedir ?h" "default_machine ?t"
      "prop_of (readDapConfig ?t (config_path ?h)) ''url'' = JStr url" "prop_of (readDapConfig ?t (config_path ?h)) ''name'' = JStr name"
      "prop_of (readDapConfig ?t (config_path ?h)) ''invites'' = prop_of (readDapConfig ?h (config_path ?h)) ''invites''"
      "stored_keys ?t (channels_path ?h) room = Some k"
      "jm_get (d_channels t) room = Some \<lparr>ch_name = room, ch_pub = ck_pub k, ch_priv = Some (ck_priv k)\<rparr>"
    and id: "\<And>C a b. dsh_loadIdentity C a b (dsh_key_path ?h name) ?t = Inr (d_ident t, ?t)"
    and t: "d_url t = url" "d_name t = Some name" "ce_url_ok ?W url"
    by (rule connectTo_machine [OF assms(1-10)]) blast
  have paths: "config_path ?t = config_path ?h" "channels_path ?t = channels_path ?h" "dsh_key_path ?t x = dsh_key_path ?h x" for x
    using m(2) by (simp_all add: config_path_def channels_path_def dsh_key_path_def)
  let ?sec = "prop_of (readDapConfig ?t (config_path ?h)) ''clientSecret''"
  let ?o = "\<lparr>dc_url = url, dc_keyPath = dsh_key_path ?h name, dc_name = Some name, dc_channels = None,
      dc_channelsFile = Some (channels_path ?h), dc_initialMs = pc_initialMs c, dc_maxMs = pc_maxMs c, dc_clientSecret = ?sec\<rparr>"
  have o: "map_option (\<lambda>opts. map_sum id Enabled (install X c opts ?t)) (plugin_opts c st) = Some (map_sum id Enabled (install X c ?o ?t))"
    if "st = \<lparr>st_url = JStr url, st_keyPath = JStr (dsh_key_path ?h name), st_name = JStr name, st_channelsFile = JStr (channels_path ?h),
      st_clientSecret = ?sec\<rparr>" for st
    using assms(12) by (simp add: that plugin_opts_def given_str_def no_overrides_def)
  have l: "dsh_loadIdentity (ce_crypto ?W) (ce_random ?W 0 32) (ce_random ?W 1 32) (dc_keyPath ?o) ?t = Inr (d_ident t, ?t)"
    by (simp add: id)
  obtain u0 where n: "new_dsh ?W ?o ?t = Inr u0" "d_ident u0 = d_ident t" "w_host u0 = ?t" "d_channels u0 = dsh_channels ?o ?t"
    using new_dsh_total [OF l] by blast
  note f = new_dsh_fields [OF n(1)]
  obtain u1 where u1: "dsh_start ?W u0 = (None, u1)"
    using t(3) f(28) by (simp add: dsh_start_def dsh_connect_eq)
  note s1 = dsh_start_dials(1) [OF u1]
  obtain u where i: "install X c ?o ?t = Inr u" and u: "u = dsh.extend u1 \<lparr>pl_url = url, pl_name = Some name,
      pl_configFile = None, pl_pending = stored_invites ?t None, pl_delivering = False,
      pl_poller = Some (case pc_invitePollMs c of Some n \<Rightarrow> n | None \<Rightarrow> POLL_MS), pl_followups = [], pl_warnings = []\<rparr>"
    using m(3) n(3) by (simp add: install_def n(1) u1 Let_def s1 default_machine_def)
  have "apply_plugin X c ?t = Some (Inr (Enabled u))"
    using assms(11) i o plugin_settings [OF m(3) assms(12), unfolded paths, OF m(4,5)]
    by (simp add: apply_plugin_def env_var_eq [OF m(1)])
  moreover have "d_url u = url" "d_name u = Some name" "d_ident u = d_ident t" "map fst (dialed u) = [url]"
    "d_channels u = dsh_channels ?o ?t" "pl_pending u = stored_invites ?t None"
    using n f by (simp_all add: u s1 dsh.defs)
  moreover have "jm_get (dsh_channels ?o ?t) room = jm_get (d_channels t) room"
    using m(7,8) by (cases "channels_path ?h")
      (auto simp: dsh_channels_def uses_channel_file_def file_channels_get channels_path_def)
  moreover have "stored_invites ?t None = stored_invites ?h None"
    using m(6) by (simp add: stored_invites_def default_config_file [OF m(3)] default_config_file [OF assms(6)] paths)
  ultimately show ?thesis
    using t m(8) by (intro exI [of _ u]) (simp add: dsh_agentId_def)
qed

lemma dsh_retarget_succeeds:
  assumes "dsh_loadIdentity (ce_crypto W) (ce_random W (n_random s) 32) (ce_random W (n_random s + 1) 32) (d # p) (w_host s) = Inr (i, h)"
    and "\<And>u. ce_url_ok W u"
  shows "\<exists>t. dsh_retarget W \<lparr>dt_url = u, dt_keyPath = Some (d # p), dt_name = m\<rparr> s = (None, t)"
proof -
  let ?s3 = "failWhoisWaiters RETARGET_REASON (let_go s)"
  have f: "n_random ?s3 = n_random s" "w_host ?s3 = w_host s" "d_stopped ?s3 = False"
    using let_go_fields [of s] by (simp_all add: failWhoisWaiters_def settle_all_keeps)
  show ?thesis
    unfolding dsh_retarget_def Let_def let_go_def [symmetric]
    by (simp add: swap_identity_def f assms(1) [simplified] assms(2) dsh_connect_eq)
qed

lemma demo_connectTo:
  assumes "s = demo_plugin\<lparr>w_host := demo_host, socks := [(0, OPEN)], d_channels := [], d_useChannelFile := True,
      d_channelsFile := Some (channels_path demo_host)\<rparr>" "default_machine demo_host"
  shows "\<exists>t. connectTo demo_ctx (Some ''hub'') (Some ''ada'') (Some ''lab'') s = (None, t)"
proof -
  let ?cf = "config_path demo_host" and ?f = "channels_path demo_host" and ?key = "dsh_key_path demo_host ''ada''"
  have n: "dsh_normalizeHost (px_platform demo_ctx) ''hub'' = Inr ''ws://hub/ws''"
    by (simp add: dsh_normalizeHost_def demo_ctx_def has_ws_scheme_def starts_with_def ends_with_def)
  obtain h1 where p: "persistDapConfig (connect_update (Some ''ws://hub/ws'') (Some ''ada'') (Some ''lab'')) ?cf demo_host = Inr h1"
    by (simp add: persistDapConfig_def next_config_def merge_channels_def connect_update_def no_update_def demo_config
        coalesce_def nullish_def iterate_def prop_of_def)
  let ?s2 = "s\<lparr>pl_name := Some ''ada'', pl_url := ''ws://hub/ws'', w_host := h1\<rparr>"
  have "\<exists>k ch s3. dsh_ensureChannel demo_env ''lab'' ?s2 = (None, ch, s3) \<and> w_host s3 = persistChannelKeys ?f ''lab'' k h1"
    by (simp add: assms(1) dsh_ensureChannel_def createChannel_def dsh_persist_keys_def dsh_join_def dsh_ws_send_def push_frame_def
        take_random_def demo_plugin_fields sock_of_def Let_def) blast
  then obtain k ch s3 where e: "dsh_ensureChannel demo_env ''lab'' ?s2 = (None, ch, s3)" and h3: "w_host s3 = persistChannelKeys ?f ''lab'' k h1"
    by blast
  have kp: "dsh_key_path (w_host s3) ''ada'' = ?key" using persist_fields [OF p] by (simp add: h3 dsh_key_path_def)
  have "fs demo_host ?key = None" by (simp add: demo_host_def sample_host_def)
  then have none: "fs (w_host s3) ?key = None"
    using persist_other [OF p, of ?key] dsh_paths_distinct [THEN not_sym, of demo_host "''ada''"]
    by (simp add: h3 read_file_None persist_keys_other)
  obtain d q where q: "?key = d # q" by (cases ?key) (auto simp: dsh_key_path_def)
  obtain i h where l: "dsh_loadIdentity (ce_crypto demo_env) (ce_random demo_env (n_random s3) 32) (ce_random demo_env (n_random s3 + 1) 32)
      (d # q) (w_host s3) = Inr (i, h)"
    using none by (simp add: q dsh_loadIdentity_def split_beta Let_def)
  have ok: "ce_url_ok demo_env u" for u by (simp add: demo_env_def)
  obtain t where "dsh_retarget demo_env \<lparr>dt_url = Some ''ws://hub/ws'', dt_keyPath = Some ?key, dt_name = Some ''ada''\<rparr> s3 = (None, t)"
    using dsh_retarget_succeeds [OF l ok] unfolding q by blast
  with n p e show ?thesis
    by (simp add: connectTo_def persist_target_def ensure_room_def retarget_to_def dsh_defaultKeyPath_name kp Let_def
        default_config_file [OF assms(2)] assms(1))
qed

lemma plugin_connect_survives_restart_witness:
  "\<exists>t u. connectTo demo_ctx (Some ''hub'') (Some ''ada'') (Some ''lab'')
      (demo_plugin\<lparr>w_host := demo_host, socks := [(0, OPEN)], d_channels := [], d_useChannelFile := True,
         d_channelsFile := Some (channels_path demo_host)\<rparr>) = (None, t)
    \<and> apply_plugin demo_ctx (demo_pconfig\<lparr>pc_url := None, pc_keyPath := None, pc_name := None, pc_channelsFile := None\<rparr>) (w_host t)
        = Some (Inr (Enabled u))
    \<and> d_url u = ''ws://hub/ws'' \<and> d_ident u = d_ident t"
proof -
  let ?s = "demo_plugin\<lparr>w_host := demo_host, socks := [(0, OPEN)], d_channels := [], d_useChannelFile := True,
      d_channelsFile := Some (channels_path demo_host)\<rparr>"
  let ?c = "demo_pconfig\<lparr>pc_url := None, pc_keyPath := None, pc_name := None, pc_channelsFile := None\<rparr>"
  have n: "dsh_normalizeHost (px_platform demo_ctx) ''hub'' = Inr ''ws://hub/ws''"
    by (simp add: dsh_normalizeHost_def demo_ctx_def has_ws_scheme_def starts_with_def ends_with_def)
  have dm: "default_machine demo_host"
    by (simp add: default_machine_def demo_env_var demo_config optStr_def nullish_def prop_of_def)
  have c: "no_overrides ?c" by (simp add: no_overrides_def demo_pconfig_def)
  obtain t where t: "connectTo demo_ctx (Some ''hub'') (Some ''ada'') (Some ''lab'') ?s = (None, t)"
    using demo_connectTo [OF HOL.refl dm] by blast
  from plugin_connect_survives_restart [OF t _ _ n _ _ _ _ _ _ _ c] t dm show ?thesis
    by (fastforce simp: demo_env_vars)
qed

end
