(* ===== verification/Hub_Wire.thy ===== *)
theory Hub_Wire
  imports Client_State
begin

text \<open>
  The wire format as the hub has it, \<open>hub/frames.go\<close> and the envelope of \<open>hub/auth.go\<close>: JSON as Go's
  \<open>encoding/json\<close> decodes and prints it, strict base64, the union of all frames, the signature over the canonical
  form. Go's strings are byte sequences; here they are the characters the bytes encode.
\<close>

record henv =
  he_crypto :: crypto
  he_random :: "nat \<Rightarrow> nat \<Rightarrow> bytes"  \<comment> \<open>the \<open>n\<close>-th draw, of so many bytes\<close>
  he_parse_error :: "string \<Rightarrow> string"  \<comment> \<open>the text of the decoder's error\<close>

section \<open>Credentials\<close>

definition constEq :: "crypto \<Rightarrow> string \<Rightarrow> string \<Rightarrow> bool" where
  "constEq C a b = (sha256 C (utf8 a) = sha256 C (utf8 b))"

definition agentIDFor :: "crypto \<Rightarrow> bytes \<Rightarrow> string" where
  "agentIDFor C pub = take 16 (hex (sha256 C pub))"

lemma agentIDFor_agentIdOf: "agentIDFor C pub = agentIdOf C pub"
  by (simp add: agentIDFor_def agentIdOf_def sha256Hex_def)

text \<open>\<open>base64.StdEncoding.DecodeString\<close>: line ends are skipped, anything else outside the alphabet, and wrong
  padding, is an error; the bits left over in the last digit are not looked at.\<close>

definition std_digit :: "char \<Rightarrow> bool" where
  "std_digit c = (b64_val c \<noteq> None \<and> c \<noteq> CHR ''-'' \<and> c \<noteq> CHR ''_'')"

fun std_base64 :: "string \<Rightarrow> bool" where
  "std_base64 [] = True"
| "std_base64 (a # b # c # d # s) =
     (std_digit a \<and> std_digit b
      \<and> (if c = CHR ''='' then d = CHR ''='' \<and> s = []
         else std_digit c \<and> (if d = CHR ''='' then s = [] else std_digit d \<and> std_base64 s)))"
| "std_base64 _ = False"

definition go_base64 :: "string \<Rightarrow> bytes option" where
  "go_base64 s =
     (let t = filter (\<lambda>c. c \<noteq> CHR 0x0A \<and> c \<noteq> CHR 0x0D) s in if std_base64 t then Some (b64d t) else None)"

section \<open>Decoding into the frame struct\<close>

text \<open>A key sets the field whose name it equals up to case, a later one again; \<open>null\<close> leaves a field as it is, and a
  value of another type fails the whole frame.\<close>

definition go_values :: "frame \<Rightarrow> string \<Rightarrow> json list" where
  "go_values ps k = filter (\<lambda>v. v \<noteq> JNull) (map snd (filter (\<lambda>(k', _). toLowerCase k' = toLowerCase k) ps))"

definition go_string :: "frame \<Rightarrow> string \<Rightarrow> string option" where
  "go_string ps k =
     (let vs = go_values ps k
      in if list_all (\<lambda>v. case v of JStr _ \<Rightarrow> True | _ \<Rightarrow> False) vs
         then Some (case rev vs of JStr s # _ \<Rightarrow> s | _ \<Rightarrow> []) else None)"

definition int64 :: "json \<Rightarrow> bool" where
  "int64 v = (case v of JNum i \<Rightarrow> - (2 ^ 63) \<le> i \<and> i < 2 ^ 63 | _ \<Rightarrow> False)"

definition go_int :: "frame \<Rightarrow> string \<Rightarrow> int option" where
  "go_int ps k =
     (let vs = go_values ps k
      in if list_all int64 vs then Some (case rev vs of JNum i # _ \<Rightarrow> i | _ \<Rightarrow> 0) else None)"

definition go_bool_ok :: "frame \<Rightarrow> string \<Rightarrow> bool" where
  "go_bool_ok ps k = list_all (\<lambda>v. case v of JBool _ \<Rightarrow> True | _ \<Rightarrow> False) (go_values ps k)"

definition agent_entry_ok :: "json \<Rightarrow> bool" where
  "agent_entry_ok v =
     (case v of
        JNull \<Rightarrow> True
      | JObj ps \<Rightarrow> list_all (\<lambda>k. go_string ps k \<noteq> None) [''agentId'', ''pubkey'', ''x25519'', ''name'']
          \<and> go_bool_ok ps ''online'' \<and> go_int ps ''lastSeen'' \<noteq> None
      | _ \<Rightarrow> False)"

definition agents_ok :: "frame \<Rightarrow> bool" where
  "agents_ok ps = list_all (\<lambda>v. case v of JArr vs \<Rightarrow> list_all agent_entry_ok vs | _ \<Rightarrow> False) (go_values ps ''agents'')"

record gframe =
  f_op :: string
  f_pubkey :: string
  f_x25519 :: string
  f_name :: string
  f_nonce :: string
  f_ts :: int
  f_sig :: string
  f_agentId :: string
  f_channel :: string
  f_chanPubkey :: string
  f_to :: string
  f_id :: string
  f_ciphertext :: string

definition str_fields :: "string list" where
  "str_fields = [''op'', ''pubkey'', ''x25519'', ''name'', ''nonce'', ''sig'', ''agentId'', ''channel'', ''chanPubkey'', ''to'',
     ''from'', ''id'', ''replyTo'', ''ciphertext'', ''code'', ''msg'']"

definition frame_typed :: "frame \<Rightarrow> bool" where
  "frame_typed ps =
     (list_all (\<lambda>k. go_string ps k \<noteq> None) str_fields
      \<and> list_all (\<lambda>k. go_int ps k \<noteq> None) [''v'', ''ts'', ''lastSeen'', ''count''] \<and> go_bool_ok ps ''online'' \<and> agents_ok ps)"

definition frame_of :: "frame \<Rightarrow> gframe" where
  "frame_of ps =
     (let s = (\<lambda>k. the (go_string ps k))
      in \<lparr>f_op = s ''op'', f_pubkey = s ''pubkey'', f_x25519 = s ''x25519'', f_name = s ''name'', f_nonce = s ''nonce'',
          f_ts = the (go_int ps ''ts''), f_sig = s ''sig'', f_agentId = s ''agentId'', f_channel = s ''channel'',
          f_chanPubkey = s ''chanPubkey'', f_to = s ''to'', f_id = s ''id'', f_ciphertext = s ''ciphertext''\<rparr>)"

definition parseFrame :: "string \<Rightarrow> (gframe \<times> frame) option" where
  \<comment> \<open>the struct and the raw map; \<open>None\<close>: an error of the decoder\<close>
  "parseFrame data =
     (case json_parse data of
        Inr (JObj ps) \<Rightarrow> if frame_typed ps then Some (frame_of ps, ps) else None
      | Inr JNull \<Rightarrow> Some (frame_of [], [])
      | _ \<Rightarrow> None)"

definition frameOp :: "gframe \<Rightarrow> frame \<Rightarrow> string" where
  "frameOp f raw = (if f_op f \<noteq> [] then f_op f else case prop_of raw ''t'' of JStr t \<Rightarrow> t | _ \<Rightarrow> [])"

section \<open>Printing\<close>

definition html_esc :: "char \<Rightarrow> string" where
  \<comment> \<open>\<open>json.Marshal\<close> escapes these wherever they occur, which is in strings\<close>
  "html_esc c = (if c \<in> {CHR ''<'', CHR ''>'', CHR ''&''}
     then [CHR 0x5C, CHR ''u'', CHR ''0'', CHR ''0'', hex_digit (code c div 16), hex_digit (code c mod 16)] else [c])"

definition frame_bytes :: "json \<Rightarrow> nat" where
  \<comment> \<open>\<open>len(b)\<close> of the marshaled frame\<close>
  "frame_bytes v = length (utf8 (concat (map html_esc (json_text v))))"

definition str_field :: "string \<Rightarrow> string \<Rightarrow> frame" where
  \<comment> \<open>a field that is left out when it is empty\<close>
  "str_field k s = (if s = [] then [] else [(k, JStr s)])"

definition int_field :: "string \<Rightarrow> int \<Rightarrow> frame" where
  "int_field k i = (if i = 0 then [] else [(k, JNum i)])"

definition err_frame :: "string \<Rightarrow> string \<Rightarrow> json" where
  "err_frame c m = JObj ([(''op'', JStr ''error'')] @ str_field ''code'' c @ str_field ''msg'' m)"

section \<open>The signature\<close>

fun go_sorted :: "json \<Rightarrow> json"
  and go_sorted_elems :: "json list \<Rightarrow> json list"
  and go_sorted_props :: "frame \<Rightarrow> frame" where
  "go_sorted (JArr vs) = JArr (go_sorted_elems vs)"
| "go_sorted (JObj ps) = JObj (sort_key fst (go_sorted_props ps))"
| "go_sorted v = v"
| "go_sorted_elems [] = []"
| "go_sorted_elems (v # vs) = go_sorted v # go_sorted_elems vs"
| "go_sorted_props [] = []"
| "go_sorted_props ((k, v) # ps) = (k, go_sorted v) # go_sorted_props ps"

definition go_canonical :: "frame \<Rightarrow> string" where
  "go_canonical ps = json_text (go_sorted (JObj ps))"

definition signedPayloadFor :: "crypto \<Rightarrow> frame \<Rightarrow> gframe \<Rightarrow> string option" where
  "signedPayloadFor C raw f =
     (if f_sig f = [] then None
      else Some (''dap1|'' @ f_op f @ ''|'' @ int_str (f_ts f) @ ''|'' @ hex (sha256 C (utf8 (go_canonical (obj_del ''sig'' raw))))))"

definition verifySignature :: "crypto \<Rightarrow> gframe \<Rightarrow> frame \<Rightarrow> string \<Rightarrow> string option" where
  \<comment> \<open>\<open>None\<close>: the signature is good; else the message of the error \<open>bad_signature\<close>\<close>
  "verifySignature C f raw pubB64 =
     (case signedPayloadFor C raw f of
        None \<Rightarrow> Some ''missing sig''
      | Some payload \<Rightarrow>
          (case go_base64 pubB64 of
             None \<Rightarrow> Some ''bad pubkey''
           | Some pub \<Rightarrow>
               if length pub \<noteq> 32 then Some ''bad pubkey''
               else (case go_base64 (f_sig f) of
                       None \<Rightarrow> Some ''bad sig encoding''
                     | Some sg \<Rightarrow> if ed_verify C sg (utf8 payload) pub = Some True then None else Some ''verification failed'')))"

definition tsWindow :: int where "tsWindow = 300000"

definition tsFresh :: "int \<Rightarrow> int \<Rightarrow> bool" where
  \<comment> \<open>the clock, the timestamp\<close>
  "tsFresh t ts = (let drift = t - ts in (if drift < 0 then - drift else drift) \<le> tsWindow)"

lemma tsFresh_iff: "tsFresh t ts = (\<bar>t - ts\<bar> \<le> tsWindow)"
  by (simp add: tsFresh_def Let_def abs_if)

section \<open>What the adapters print, the hub reads\<close>

lemma std_digit_char [simp]: "d < 64 \<Longrightarrow> std_digit (b64_char d)"
proof -
  assume d: "d < 64"
  have "b64_char d \<noteq> CHR ''-'' \<and> b64_char d \<noteq> CHR ''_''"
    using d by (auto simp: b64_char_def code_def simp flip: code_inj)
  with d show ?thesis by (simp add: std_digit_def)
qed

lemma std_base64_b64e: "std_base64 (b64e bs)"
  by (induction bs rule: b64e.induct) simp_all

lemma b64e_chars: "c \<in> set (b64e bs) \<Longrightarrow> c = CHR ''='' \<or> std_digit c"
  by (induction bs rule: b64e.induct) auto

lemma std_digit_plain: "std_digit c \<Longrightarrow> c \<noteq> CHR 0x0A \<and> c \<noteq> CHR 0x0D"
  by (auto simp: std_digit_def b64_val_def code_def)

lemma go_base64_b64e [simp]: "go_base64 (b64e bs) = Some bs"
proof -
  have "filter (\<lambda>c. c \<noteq> CHR 0x0A \<and> c \<noteq> CHR 0x0D) (b64e bs) = b64e bs"
    by (rule filter_True) (use b64e_chars std_digit_plain in fastforce)
  then show ?thesis by (simp add: go_base64_def std_base64_b64e)
qed

text \<open>The frames the adapters sign hold strings and numbers only; on these the two canonical forms agree.\<close>

definition flat :: "frame \<Rightarrow> bool" where
  "flat f = (obj_ok f \<and> (\<forall>(k, v) \<in> set f. (\<exists>s. v = JStr s) \<or> (\<exists>i. v = JNum i)))"

lemma flat_value: "flat f \<Longrightarrow> (k, v) \<in> set f \<Longrightarrow> (\<exists>s. v = JStr s) \<or> (\<exists>i. v = JNum i)"
  by (auto simp: flat_def)

lemma flat_sorted:
  assumes "\<forall>(k, v) \<in> set f. (\<exists>s. v = JStr s) \<or> (\<exists>i. v = JNum i)"
  shows "go_sorted_props f = f" "canon_props f = obj_del ''sig'' f" "jnorm_props f = f"
  using assms by (induction f) (auto simp: obj_del_def)

lemma flat_canonical: "flat f \<Longrightarrow> go_canonical (obj_del ''sig'' f) = canonicalJson (JObj f)"
  using flat_sorted(2) [of f] flat_sorted(1) [of "obj_del ''sig'' f"]
  by (simp add: flat_def go_canonical_def canonicalJson_text obj_del_def del: canonicalJson.simps)

lemma flat_put: "flat f \<Longrightarrow> flat (obj_put k (JStr s) f)"
  using obj_put_subset [of k "JStr s" f] by (simp add: flat_def obj_ok_put) blast

lemma flat_parse: "flat f \<Longrightarrow> json_parse (json_text (JObj f)) = Inr (JObj f)"
  using flat_sorted(3) [of f] by (subst json_parse_text) (auto simp: flat_def jtok_props_iff)

text \<open>A frame an adapter signed is accepted under the signer's key.\<close>

lemma hub_verifies:
  assumes "ed_correct C" "signFrame C f priv = Inr s" "s \<noteq> []" "length (ed_public C priv) = 32" "flat f"
    and "frame_typed (obj_put ''sig'' (JStr s) f)" "gf = frame_of (obj_put ''sig'' (JStr s) f)"
    and "f_sig gf = s" "prop_of f ''op'' = JStr (f_op gf)" "prop_of f ''ts'' = JNum (f_ts gf)"
  shows "parseFrame (json_text (JObj (obj_put ''sig'' (JStr s) f))) = Some (gf, obj_put ''sig'' (JStr s) f)"
    and "verifySignature C gf (obj_put ''sig'' (JStr s) f) (b64e (ed_public C priv)) = None"
proof -
  let ?f = "obj_put ''sig'' (JStr s) f"
  note fl = flat_put [OF assms(5)]
  show "parseFrame (json_text (JObj ?f)) = Some (gf, ?f)"
    using assms(6,7) by (simp add: parseFrame_def flat_parse [OF fl])
  from assms(2) obtain sg where s: "s = b64e sg" and sg: "ed_sign C (utf8 (sigPayload C f)) priv = Some sg"
    by (auto simp: signFrame_def of_option_def split: option.splits)
  have "sigPayload C ?f = ''dap1|'' @ f_op gf @ ''|'' @ int_str (f_ts gf) @ ''|'' @ hex (sha256 C (utf8 (go_canonical (obj_del ''sig'' ?f))))"
    unfolding flat_canonical [OF fl] by (simp add: sigPayload_def sha256Hex_def assms(9,10) del: canonicalJson.simps)
  then have p: "signedPayloadFor C ?f gf = Some (sigPayload C f)"
    using assms(3,8) by (simp add: signedPayloadFor_def)
  from assms(1) sg have "ed_verify C sg (utf8 (sigPayload C f)) (ed_public C priv) = Some True"
    by (simp add: ed_correct_def)
  then show "verifySignature C gf ?f (b64e (ed_public C priv)) = None"
    using p assms(4,8) by (simp add: verifySignature_def s)
qed

end
