(* ===== verification/Hub_State.thy ===== *)
theory Hub_State
  imports Hub_Wire
begin

text \<open>
  The state of the hub and what its handlers share: \<open>hub/relay.go\<close> (connections, the registry of agents), \<open>hub/mailbox.go\<close>,
  \<open>hub/presence.go\<close> and the two caches of \<open>hub/auth.go\<close>. A Go map is an insertion-ordered map (Go iterates in any order);
  a pointer to a connection is its number.

  A handler runs as one step, though other goroutines may run between two of its locked sections; a handler that waits
  for room in a full \<open>send\<close> channel has its frame at the end of the queue. Trace lines are left out.
\<close>

section \<open>The state\<close>

datatype auth_kind = ByMaster | BySecret  \<comment> \<open>\<open>authMaster\<close>, \<open>authAgent\<close>; \<open>authNone\<close> never gets a connection\<close>

record hconn =  \<comment> \<open>\<open>client\<close>\<close>
  hc_auth :: auth_kind
  hc_bound :: string
  hc_authed :: bool
  hc_agentID :: string
  hc_pubkey :: string
  hc_x25519 :: string
  hc_name :: string
  hc_queue :: "json list"  \<comment> \<open>\<open>send\<close>\<close>
  hc_queued :: nat
  hc_reject :: "json option"  \<comment> \<open>\<open>rejectCh\<close>\<close>
  hc_closed :: bool
  hc_gone :: bool  \<comment> \<open>\<open>readLoop\<close> has returned\<close>
  hc_wire :: "json list"  \<comment> \<open>what went out on the socket\<close>

record agent_entry =
  ae_pubkey :: string
  ae_x25519 :: string
  ae_name :: string
  ae_online :: bool
  ae_lastSeen :: int

record hchannel =
  cr_pubkey :: string
  cr_allowed :: "string list"
  cr_members :: "string list"

record hub =
  hb_conns :: "nat \<Rightarrow> hconn"
  hb_next :: nat  \<comment> \<open>connections opened so far\<close>
  hb_clients :: "(string, nat) jsmap"
  hb_agents :: "(string, agent_entry) jsmap"
  hb_channels :: "(string, hchannel) jsmap"
  hb_mailbox :: "(string, json list) jsmap"
  hb_dropped :: "string list"  \<comment> \<open>\<open>mailboxDropped\<close>\<close>
  hb_seen :: "(string, (string, int) jsmap) jsmap"  \<comment> \<open>\<open>nonces.seen\<close>: expiry in ms\<close>
  hb_lastSweep :: "int option"  \<comment> \<open>\<open>None\<close>: the zero time\<close>
  hb_ids :: "(string, string list) jsmap"
  hb_idnext :: "(string, nat) jsmap"
  hb_adminToken :: string
  hb_masterSecret :: string
  hb_secrets :: "(string, string list) jsmap"
  hb_store :: "json option"  \<comment> \<open>what \<open>channels.json\<close> holds\<close>
  hb_secretStore :: "json option"
  hb_writable :: bool  \<comment> \<open>whether a write to these files succeeds\<close>
  hb_clock :: int
  hb_draws :: nat

definition maxFrameBytes :: nat where "maxFrameBytes = 2 ^ 20"
definition maxQueuedBytes :: nat where "maxQueuedBytes = 4 * 2 ^ 20"

definition on_conn :: "nat \<Rightarrow> (hconn \<Rightarrow> hconn) \<Rightarrow> hub \<Rightarrow> hub" where
  "on_conn c g h = h\<lparr>hb_conns := (hb_conns h)(c := g (hb_conns h c))\<rparr>"

section \<open>Connections\<close>

definition drop_conn :: "nat \<Rightarrow> hub \<Rightarrow> hub" where
  "drop_conn c h = on_conn c (hc_closed_update (\<lambda>_. True)) h"

definition hub_send :: "nat \<Rightarrow> json \<Rightarrow> hub \<Rightarrow> bool \<times> hub" where
  \<comment> \<open>\<open>sendFrame\<close>\<close>
  "hub_send c v h =
     (let cl = hb_conns h c; n = frame_bytes v
      in if maxQueuedBytes < hc_queued cl + n then (False, drop_conn c h)
         else if hc_closed cl then (False, h)
         else (True, on_conn c (\<lambda>cl. cl\<lparr>hc_queue := hc_queue cl @ [v], hc_queued := hc_queued cl + n\<rparr>) h))"

definition tell :: "json \<Rightarrow> nat \<Rightarrow> hub \<Rightarrow> hub" where
  "tell v c h = snd (hub_send c v h)"

definition sendErr :: "nat \<Rightarrow> string \<Rightarrow> string \<Rightarrow> hub \<Rightarrow> hub" where
  "sendErr c cd m h = tell (err_frame cd m) c h"

definition reject :: "nat \<Rightarrow> string \<Rightarrow> string \<Rightarrow> hub \<Rightarrow> hub" where
  "reject c cd m h =
     on_conn c (\<lambda>cl. if hc_closed cl then cl else cl\<lparr>hc_reject := Some (err_frame cd m)\<rparr>) h"

section \<open>Presence\<close>

definition agent_json :: "string \<Rightarrow> agent_entry \<Rightarrow> json" where
  "agent_json i e =
     JObj ([(''agentId'', JStr i), (''pubkey'', JStr (ae_pubkey e))] @ str_field ''x25519'' (ae_x25519 e)
       @ str_field ''name'' (ae_name e) @ [(''online'', JBool (ae_online e))] @ int_field ''lastSeen'' (ae_lastSeen e))"

definition presence_frame :: "string \<Rightarrow> json list \<Rightarrow> json" where
  "presence_frame replyTo infos =
     JObj ([(''op'', JStr ''presence'')] @ str_field ''replyTo'' replyTo
       @ (if infos = [] then [] else [(''agents'', JArr infos)]))"

definition presenceList :: "hub \<Rightarrow> json list" where
  "presenceList h = map (\<lambda>(i, e). agent_json i e) (hb_agents h)"

definition presencePeers :: "string \<Rightarrow> hub \<Rightarrow> nat list" where
  "presencePeers i h =
     remdups (concat (map (\<lambda>(_, ch).
       if i \<in> set (cr_members ch)
       then List.map_filter (\<lambda>m. if m = i then None else jm_get (hb_clients h) m) (cr_members ch) else []) (hb_channels h)))"

definition sendPresence :: "nat list \<Rightarrow> string \<Rightarrow> string \<Rightarrow> string \<Rightarrow> string \<Rightarrow> bool \<Rightarrow> hub \<Rightarrow> hub" where
  "sendPresence peers i name x25519 pubkey online h =
     (if peers = [] then h
      else fold (tell (presence_frame [] [agent_json i
        \<lparr>ae_pubkey = pubkey, ae_x25519 = x25519, ae_name = name, ae_online = online, ae_lastSeen = hb_clock h\<rparr>])) peers h)"

section \<open>The registry\<close>

definition upsertAgent :: "hconn \<Rightarrow> hub \<Rightarrow> hub" where
  "upsertAgent cl h =
     h\<lparr>hb_agents := jm_set (hc_agentID cl)
         \<lparr>ae_pubkey = hc_pubkey cl, ae_x25519 = hc_x25519 cl, ae_name = hc_name cl, ae_online = True, ae_lastSeen = hb_clock h\<rparr>
         (hb_agents h)\<rparr>"

definition evict_old :: "nat \<Rightarrow> hub \<Rightarrow> hub" where
  "evict_old c h =
     (case jm_get (hb_clients h) (hc_agentID (hb_conns h c)) of
        Some d \<Rightarrow> if d \<noteq> c then drop_conn d h else h
      | None \<Rightarrow> h)"

definition list_client :: "nat \<Rightarrow> hub \<Rightarrow> hub" where
  \<comment> \<open>\<open>register\<close>, under the lock\<close>
  "list_client c h =
     (let cl = hb_conns h c; h1 = evict_old c h
      in upsertAgent cl (h1\<lparr>hb_clients := jm_set (hc_agentID cl) c (hb_clients h1)\<rparr>))"

definition register :: "nat \<Rightarrow> hub \<Rightarrow> hub" where
  "register c h =
     (let cl = hb_conns h c; h1 = list_client c h
      in sendPresence (presencePeers (hc_agentID cl) h1) (hc_agentID cl) (hc_name cl) (hc_x25519 cl) (hc_pubkey cl) True h1)"

definition unlist_client :: "string \<Rightarrow> agent_entry \<Rightarrow> hub \<Rightarrow> hub" where
  \<comment> \<open>\<open>deregister\<close>, under the lock\<close>
  "unlist_client i e h =
     h\<lparr>hb_clients := jm_del i (hb_clients h),
       hb_agents := jm_set i (e\<lparr>ae_online := False, ae_lastSeen := hb_clock h\<rparr>) (hb_agents h)\<rparr>"

definition deregister :: "nat \<Rightarrow> hub \<Rightarrow> hub option" where
  \<comment> \<open>\<open>None\<close>: the panic of a \<open>nil\<close> identity record\<close>
  "deregister c h =
     (let h1 = drop_conn c h; i = hc_agentID (hb_conns h c)
      in if jm_get (hb_clients h1) i \<noteq> Some c then Some h1
         else (case jm_get (hb_agents h1) i of
                 None \<Rightarrow> None
               | Some e \<Rightarrow>
                   let h2 = unlist_client i e h1
                   in Some (sendPresence (presencePeers i h2) i (ae_name e) (ae_x25519 e) (ae_pubkey e) False h2)))"

definition touchLastSeen :: "string \<Rightarrow> hub \<Rightarrow> hub" where
  "touchLastSeen i h =
     (case jm_get (hb_agents h) i of
        None \<Rightarrow> h
      | Some e \<Rightarrow> h\<lparr>hb_agents := jm_set i (e\<lparr>ae_lastSeen := hb_clock h\<rparr>) (hb_agents h)\<rparr>)"

section \<open>The replay cache of hello\<close>

definition replayKeep :: int where "replayKeep = tsWindow + 60000"
definition nonceSweepEvery :: int where "nonceSweepEvery = 60000"
definition nonceMinLen :: nat where "nonceMinLen = 16"

definition live_nonces :: "int \<Rightarrow> (string, int) jsmap \<Rightarrow> (string, int) jsmap" where
  "live_nonces t m = filter (\<lambda>(_, e). t < e) m"

definition sweep_nonces :: "int \<Rightarrow> (string, (string, int) jsmap) jsmap \<Rightarrow> (string, (string, int) jsmap) jsmap" where
  \<comment> \<open>\<open>sweepLocked\<close>\<close>
  "sweep_nonces t m = filter (\<lambda>(_, p). p \<noteq> []) (map (\<lambda>(k, p). (k, live_nonces t p)) m)"

definition nonce_check :: "string \<Rightarrow> string \<Rightarrow> hub \<Rightarrow> bool \<times> hub" where
  "nonce_check pub nonce h =
     (let t = hb_clock h; perPub = (case jm_get (hb_seen h) pub of None \<Rightarrow> [] | Some p \<Rightarrow> p)
      in if (case jm_get perPub nonce of None \<Rightarrow> False | Some e \<Rightarrow> t < e) then (False, h)
         else let m = jm_set pub (live_nonces t (jm_set nonce (t + replayKeep) perPub)) (hb_seen h)
              in (True,
                  if (case hb_lastSweep h of None \<Rightarrow> True | Some s \<Rightarrow> nonceSweepEvery \<le> t - s)
                  then h\<lparr>hb_seen := sweep_nonces t m, hb_lastSweep := Some t\<rparr> else h\<lparr>hb_seen := m\<rparr>))"

section \<open>The ids of accepted sends\<close>

definition sendIDCap :: nat where "sendIDCap = 4096"

definition ids_of :: "string \<Rightarrow> hub \<Rightarrow> string list" where
  "ids_of pub h = (case jm_get (hb_ids h) pub of None \<Rightarrow> [] | Some r \<Rightarrow> r)"

definition idnext_of :: "string \<Rightarrow> hub \<Rightarrow> nat" where
  "idnext_of pub h = (case jm_get (hb_idnext h) pub of None \<Rightarrow> 0 | Some n \<Rightarrow> n)"

definition ids_seen :: "string \<Rightarrow> string \<Rightarrow> hub \<Rightarrow> bool" where
  "ids_seen pub i h = (i \<in> set (ids_of pub h))"

definition ids_add :: "string \<Rightarrow> string \<Rightarrow> hub \<Rightarrow> hub" where
  "ids_add pub i h =
     (let r = ids_of pub h; n = idnext_of pub h
      in if length r < sendIDCap then h\<lparr>hb_ids := jm_set pub (r @ [i]) (hb_ids h)\<rparr>
         else h\<lparr>hb_ids := jm_set pub (r[n := i]) (hb_ids h), hb_idnext := jm_set pub ((n + 1) mod sendIDCap) (hb_idnext h)\<rparr>)"

section \<open>Mailboxes\<close>

definition mailboxCap :: nat where "mailboxCap = 100"

definition mailbox_of :: "string \<Rightarrow> hub \<Rightarrow> json list" where
  "mailbox_of i h = (case jm_get (hb_mailbox h) i of None \<Rightarrow> [] | Some q \<Rightarrow> q)"

definition enqueue :: "string \<Rightarrow> json \<Rightarrow> hub \<Rightarrow> hub" where
  "enqueue i v h =
     (let q = mailbox_of i h @ [v]
      in if mailboxCap < length q
         then h\<lparr>hb_mailbox := jm_set i (drop (length q - mailboxCap) q) (hb_mailbox h), hb_dropped := js_add i (hb_dropped h)\<rparr>
         else h\<lparr>hb_mailbox := jm_set i q (hb_mailbox h)\<rparr>)"

definition drain :: "string \<Rightarrow> hub \<Rightarrow> (json list \<times> bool) \<times> hub" where
  "drain i h =
     ((mailbox_of i h, i \<in> set (hb_dropped h)),
      h\<lparr>hb_mailbox := jm_del i (hb_mailbox h), hb_dropped := js_remove i (hb_dropped h)\<rparr>)"

section \<open>The files\<close>

definition channel_record :: "string \<times> hchannel \<Rightarrow> json" where
  "channel_record = (\<lambda>(name, ch). JObj ([(''name'', JStr name)] @ str_field ''pubkey'' (cr_pubkey ch)
     @ (if cr_allowed ch = [] then [] else [(''allowed'', JArr (map JStr (cr_allowed ch)))])))"

definition persistChannels :: "hub \<Rightarrow> hub" where
  "persistChannels h =
     (if hb_writable h then h\<lparr>hb_store := Some (JObj [(''channels'', JArr (map channel_record (hb_channels h)))])\<rparr> else h)"

definition secret_record :: "string \<Rightarrow> string \<Rightarrow> json" where
  "secret_record name hash = JObj [(''name'', JStr name), (''hash'', JStr hash)]"

definition persistSecrets :: "hub \<Rightarrow> hub" where
  "persistSecrets h =
     (if hb_writable h
      then h\<lparr>hb_secretStore := Some (JObj [(''secrets'', JArr (concat (map (\<lambda>(n, hs). map (secret_record n) hs) (hb_secrets h))))])\<rparr>
      else h)"

end
