(* ===== verification/Hub.thy ===== *)
theory Hub
  imports Hub_State
begin

text \<open>
  The operations of the hub: the handlers of \<open>hub/auth.go\<close>, \<open>hub/presence.go\<close>, \<open>hub/channels.go\<close>, \<open>hub/mailbox.go\<close> and
  \<open>hub/enroll.go\<close>, the dispatch of \<open>hub/relay.go\<close>, the changes of the admin API (\<open>hub/admin.go\<close>), the files (\<open>hub/store.go\<close>)
  and the start of a process (\<open>hub/main.go\<close>); what happens to a hub is a list of events.
\<close>

section \<open>\<open>hello\<close>\<close>

definition stale_text :: string where
  "stale_text = ''timestamp outside '' @ [CHR 0xB1] @ ''300s window''"

definition checkHello :: "henv \<Rightarrow> gframe \<Rightarrow> frame \<Rightarrow> hub \<Rightarrow> (string \<times> string) option \<times> hub" where
  "checkHello E f raw h =
     (if length (utf8 (f_nonce f)) < nonceMinLen then (Some (''bad_frame'', ''nonce too short''), h)
      else case verifySignature (he_crypto E) f raw (f_pubkey f) of
        Some m \<Rightarrow> (Some (''bad_signature'', m), h)
      | None \<Rightarrow>
          if \<not> tsFresh (hb_clock h) (f_ts f) then (Some (''stale_ts'', stale_text), h)
          else let (ok, h1) = nonce_check (f_pubkey f) (f_nonce f) h
               in (if ok then None else Some (''replayed_nonce'', ''nonce already used''), h1))"

definition welcome_frame :: "string \<Rightarrow> json" where
  "welcome_frame i = JObj ([(''op'', JStr ''welcome'')] @ str_field ''agentId'' i)"

definition set_identity :: "crypto \<Rightarrow> gframe \<Rightarrow> hconn \<Rightarrow> hconn" where
  "set_identity C f cl =
     cl\<lparr>hc_agentID := agentIDFor C (case go_base64 (f_pubkey f) of Some b \<Rightarrow> b | None \<Rightarrow> []), hc_pubkey := f_pubkey f,
        hc_x25519 := f_x25519 f, hc_name := f_name f, hc_authed := True\<rparr>"

definition hub_welcome :: "henv \<Rightarrow> nat \<Rightarrow> gframe \<Rightarrow> hub \<Rightarrow> hub" where
  "hub_welcome E c f h =
     (if hc_auth (hb_conns h c) = BySecret \<and> f_name f \<noteq> hc_bound (hb_conns h c)
      then reject c ''access_denied'' ''hello name does not match the enrolled secret'' h
      else let h1 = on_conn c (set_identity (he_crypto E) f) h
           in tell (welcome_frame (hc_agentID (hb_conns h1 c))) c (register c h1))"

definition handleHello :: "henv \<Rightarrow> nat \<Rightarrow> gframe \<Rightarrow> frame \<Rightarrow> hub \<Rightarrow> hub" where
  "handleHello E c f raw h =
     (if hc_authed (hb_conns h c) then sendErr c ''bad_frame'' ''already authenticated'' h
      else case checkHello E f raw h of
        (Some (cd, m), h1) \<Rightarrow> reject c cd m h1
      | (None, h1) \<Rightarrow> hub_welcome E c f h1)"

section \<open>\<open>whois\<close>, \<open>presence_query\<close>, \<open>flush\<close>\<close>

definition handleWhois :: "nat \<Rightarrow> gframe \<Rightarrow> hub \<Rightarrow> hub" where
  "handleWhois c f h =
     (case jm_get (hb_agents h) (f_agentId f) of
        None \<Rightarrow> sendErr c ''unknown_agent'' (''no such agent: '' @ f_agentId f) h
      | Some e \<Rightarrow>
          tell (JObj ([(''op'', JStr ''agent_info'')] @ str_field ''pubkey'' (ae_pubkey e) @ str_field ''x25519'' (ae_x25519 e)
            @ str_field ''name'' (ae_name e) @ str_field ''agentId'' (f_agentId f) @ [(''online'', JBool (ae_online e))]
            @ int_field ''lastSeen'' (ae_lastSeen e))) c h)"

definition handlePresenceQuery :: "nat \<Rightarrow> gframe \<Rightarrow> hub \<Rightarrow> hub" where
  "handlePresenceQuery c f h = tell (presence_frame (f_id f) (presenceList h)) c h"

definition flushed_frame :: "nat \<Rightarrow> json" where
  "flushed_frame n = JObj ([(''op'', JStr ''flushed'')] @ int_field ''count'' (int n))"

definition handleFlush :: "nat \<Rightarrow> hub \<Rightarrow> hub" where
  "handleFlush c h =
     (case drain (hc_agentID (hb_conns h c)) h of
        ((msgs, dropped), h1) \<Rightarrow>
          let h2 = fold (\<lambda>m. tell m c) msgs h1;
              h3 = (if dropped then sendErr c ''mailbox_full'' ''mailbox overflowed; oldest messages dropped'' h2 else h2)
          in tell (flushed_frame (length msgs)) c h3)"

section \<open>\<open>join\<close>\<close>

definition allows :: "crypto \<Rightarrow> hchannel \<Rightarrow> string \<Rightarrow> bool" where
  "allows C ch pubkey = (cr_allowed ch = [] \<or> list_ex (\<lambda>a. constEq C a pubkey) (cr_allowed ch))"

definition newChannel :: "string \<Rightarrow> string \<Rightarrow> hub \<Rightarrow> hub" where
  "newChannel name chanPub h =
     persistChannels (h\<lparr>hb_channels := jm_set name \<lparr>cr_pubkey = chanPub, cr_allowed = [], cr_members = []\<rparr> (hb_channels h)\<rparr>)"

definition add_member :: "string \<Rightarrow> string \<Rightarrow> hub \<Rightarrow> hub" where
  "add_member name i h =
     (case jm_get (hb_channels h) name of
        None \<Rightarrow> h
      | Some ch \<Rightarrow> h\<lparr>hb_channels := jm_set name (ch\<lparr>cr_members := js_add i (cr_members ch)\<rparr>) (hb_channels h)\<rparr>)"

definition joinChannel :: "henv \<Rightarrow> nat \<Rightarrow> string \<Rightarrow> string \<Rightarrow> hub \<Rightarrow> (string \<times> string) option \<times> hub" where
  "joinChannel E c name chanPub h =
     (let cl = hb_conns h c; i = hc_agentID cl
      in if \<not> jm_has (hb_channels h) name \<and> hc_auth cl \<noteq> ByMaster
         then (Some (''access_denied'', ''channel creation requires the master secret''), h)
         else let h1 = (if jm_has (hb_channels h) name then h else newChannel name chanPub h)
              in case jm_get (hb_channels h1) name of
                   None \<Rightarrow> (None, h1)
                 | Some ch \<Rightarrow>
                     if \<not> allows (he_crypto E) ch (hc_pubkey cl) then (Some (''access_denied'', ''pubkey not on channel ACL''), h1)
                     else let h2 = add_member name i h1
                          in (None, sendPresence (presencePeers i h2) i (hc_name cl) (hc_x25519 cl) (hc_pubkey cl) True h2))"

definition handleJoin :: "henv \<Rightarrow> nat \<Rightarrow> gframe \<Rightarrow> hub \<Rightarrow> hub" where
  "handleJoin E c f h =
     (if f_channel f = [] then sendErr c ''bad_frame'' ''join requires channel'' h
      else case joinChannel E c (f_channel f) (f_chanPubkey f) h of
        (Some (cd, m), h1) \<Rightarrow> sendErr c cd m h1
      | (None, h1) \<Rightarrow> tell (JObj ([(''op'', JStr ''joined'')] @ str_field ''channel'' (f_channel f))) c h1)"

section \<open>\<open>send\<close>\<close>

definition hub_msg :: "string \<Rightarrow> string \<Rightarrow> string \<Rightarrow> gframe \<Rightarrow> json" where
  \<comment> \<open>\<open>frame{Op: "msg", Channel: ch, To: to, From: from, ...}\<close>\<close>
  "hub_msg ch to from f =
     JObj ([(''op'', JStr ''msg'')] @ int_field ''ts'' (f_ts f) @ str_field ''channel'' ch @ str_field ''to'' to @ str_field ''from'' from
       @ str_field ''id'' (f_id f) @ str_field ''ciphertext'' (f_ciphertext f))"

definition channelTargets :: "henv \<Rightarrow> nat \<Rightarrow> gframe \<Rightarrow> hub \<Rightarrow> (string \<times> string) + (json \<times> nat list \<times> string list)" where
  "channelTargets E c f h =
     (let cl = hb_conns h c
      in case jm_get (hb_channels h) (f_channel f) of
           None \<Rightarrow> Inl (''unknown_channel'', ''no such channel: '' @ f_channel f)
         | Some ch \<Rightarrow>
             if hc_agentID cl \<notin> set (cr_members ch) then Inl (''access_denied'', ''not a member: join the channel first'')
             else if \<not> allows (he_crypto E) ch (hc_pubkey cl) then Inl (''access_denied'', ''pubkey not on channel ACL'')
             else Inr (hub_msg (f_channel f) [] (hc_agentID cl) f,
                       List.map_filter (jm_get (hb_clients h)) (cr_members ch),
                       filter (\<lambda>m. jm_get (hb_clients h) m = None) (cr_members ch)))"

definition deliverChannel :: "henv \<Rightarrow> nat \<Rightarrow> gframe \<Rightarrow> hub \<Rightarrow> bool \<times> hub" where
  "deliverChannel E c f h =
     (case channelTargets E c f h of
        Inl (cd, m) \<Rightarrow> (False, sendErr c cd m h)
      | Inr (msg, online, offline) \<Rightarrow> (True, fold (\<lambda>i. enqueue i msg) offline (fold (tell msg) online h)))"

definition deliverDM :: "nat \<Rightarrow> gframe \<Rightarrow> hub \<Rightarrow> bool \<times> hub" where
  "deliverDM c f h =
     (let msg = hub_msg [] (f_to f) (hc_agentID (hb_conns h c)) f
      in if \<not> jm_has (hb_agents h) (f_to f) then (False, sendErr c ''unknown_agent'' (''no such agent: '' @ f_to f) h)
         else case jm_get (hb_clients h) (f_to f) of
           None \<Rightarrow> (True, enqueue (f_to f) msg h)
         | Some d \<Rightarrow>
             (case hub_send d msg h of
                (True, h1) \<Rightarrow> (True, h1)
              | (False, h1) \<Rightarrow> (True, enqueue (f_to f) msg h1)))"

definition send_key :: "gframe \<Rightarrow> string" where
  "send_key f = f_to f @ ''|'' @ f_channel f @ ''|'' @ f_id f"

definition handleSend :: "henv \<Rightarrow> nat \<Rightarrow> gframe \<Rightarrow> frame \<Rightarrow> hub \<Rightarrow> hub" where
  "handleSend E c f raw h =
     (let pub = hc_pubkey (hb_conns h c)
      in case verifySignature (he_crypto E) f raw pub of
           Some m \<Rightarrow> sendErr c ''bad_signature'' m h
         | None \<Rightarrow>
             if \<not> tsFresh (hb_clock h) (f_ts f) then sendErr c ''stale_ts'' stale_text h
             else if f_id f = [] then sendErr c ''bad_frame'' ''send requires id'' h
             else if ids_seen pub (send_key f) h then sendErr c ''replayed_nonce'' ''frame id already used'' h
             else case (if f_to f \<noteq> [] then deliverDM c f h else deliverChannel E c f h) of
               (False, h1) \<Rightarrow> h1
             | (True, h1) \<Rightarrow> ids_add pub (send_key f) h1)"

section \<open>\<open>enroll\<close>\<close>

definition b64url :: "bytes \<Rightarrow> string" where
  \<comment> \<open>\<open>RawURLEncoding\<close>\<close>
  "b64url bs = map (\<lambda>c. if c = CHR ''+'' then CHR ''-'' else if c = CHR ''/'' then CHR ''_'' else c) (filter (\<lambda>c. c \<noteq> CHR ''='') (b64e bs))"

definition secret_hash :: "crypto \<Rightarrow> string \<Rightarrow> string" where
  \<comment> \<open>\<open>sha256Hex\<close>\<close>
  "secret_hash C s = hex (sha256 C (utf8 s))"

definition enrolled_frame :: "string \<Rightarrow> json" where
  "enrolled_frame s = JObj [(''t'', JStr ''enrolled''), (''secret'', JStr s)]"

definition hub_enroll :: "henv \<Rightarrow> nat \<Rightarrow> string \<Rightarrow> hub \<Rightarrow> hub" where
  "hub_enroll E c op h =
     (let cl = hb_conns h c
      in if hc_auth cl \<noteq> ByMaster then sendErr c ''access_denied'' (op @ '' requires the hub master secret'') h
         else let secret = b64url (he_random E (hb_draws h) 32);
                  hash = secret_hash (he_crypto E) secret;
                  old = (case jm_get (hb_secrets h) (hc_name cl) of None \<Rightarrow> [] | Some hs \<Rightarrow> hs);
                  hs = (if op = ''enroll'' then [hash] else old @ [hash]);
                  h1 = persistSecrets (h\<lparr>hb_draws := hb_draws h + 1, hb_secrets := jm_set (hc_name cl) hs (hb_secrets h)\<rparr>)
              in tell (enrolled_frame secret) c h1)"

section \<open>Dispatch\<close>

definition run_handler :: "henv \<Rightarrow> nat \<Rightarrow> string \<Rightarrow> gframe \<Rightarrow> frame \<Rightarrow> hub \<Rightarrow> hub" where
  \<comment> \<open>\<open>h.handlers[op]\<close>\<close>
  "run_handler E c op f raw h =
     (if op = ''hello'' then handleHello E c f raw h
      else if op = ''whois'' then handleWhois c f h
      else if op = ''presence_query'' then handlePresenceQuery c f h
      else if op = ''join'' then handleJoin E c f h
      else if op = ''send'' then handleSend E c f raw h
      else if op = ''flush'' then handleFlush c h
      else if op = ''enroll'' \<or> op = ''enroll_create'' then hub_enroll E c op h
      else sendErr c ''bad_frame'' (''unknown op '' @ op) h)"

definition hub_dispatch :: "henv \<Rightarrow> nat \<Rightarrow> string \<Rightarrow> hub \<Rightarrow> hub" where
  "hub_dispatch E c data h =
     (case parseFrame data of
        None \<Rightarrow> sendErr c ''bad_frame'' (he_parse_error E data) h
      | Some (f, raw) \<Rightarrow>
          let op = frameOp f raw
          in if \<not> hc_authed (hb_conns h c) \<and> op \<noteq> ''hello'' then sendErr c ''not_authenticated'' ''send hello first'' h
             else run_handler E c op f raw (touchLastSeen (hc_agentID (hb_conns h c)) h))"

definition read_message :: "henv \<Rightarrow> nat \<Rightarrow> string option \<Rightarrow> hub \<Rightarrow> hub" where
  \<comment> \<open>one round of \<open>readLoop\<close>; \<open>None\<close>: a message that is not text\<close>
  "read_message E c msg h =
     (case msg of
        None \<Rightarrow> sendErr c ''bad_frame'' ''text frames only'' h
      | Some data \<Rightarrow>
          if maxFrameBytes < length (utf8 data) then reject c ''bad_frame'' ''frame too large'' h
          else hub_dispatch E c data h)"

section \<open>Credentials at the upgrade\<close>

definition bearerToken :: "string \<Rightarrow> string" where
  \<comment> \<open>of the header \<open>Authorization\<close>, empty when it is missing\<close>
  "bearerToken header = (if take 7 header = ''Bearer '' then drop 7 header else header)"

definition wsCredential :: "string \<Rightarrow> string \<Rightarrow> string" where
  \<comment> \<open>the header and the query parameter \<open>token\<close>\<close>
  "wsCredential header query = (if bearerToken header \<noteq> [] then bearerToken header else query)"

definition isMaster :: "crypto \<Rightarrow> hub \<Rightarrow> string \<Rightarrow> bool" where
  "isMaster C h token = (token \<noteq> [] \<and> hb_masterSecret h \<noteq> [] \<and> constEq C token (hb_masterSecret h))"

definition agentForSecret :: "crypto \<Rightarrow> hub \<Rightarrow> string \<Rightarrow> string option" where
  "agentForSecret C h token =
     (if token = [] then None
      else map_option fst (List.find (\<lambda>(_, hs). list_ex (\<lambda>x. constEq C x (secret_hash C token)) hs) (hb_secrets h)))"

definition matchBearer :: "crypto \<Rightarrow> hub \<Rightarrow> string \<Rightarrow> (auth_kind \<times> string) option" where
  "matchBearer C h token =
     (if isMaster C h token then Some (ByMaster, [])
      else map_option (\<lambda>n. (BySecret, n)) (agentForSecret C h token))"

definition new_conn :: "auth_kind \<Rightarrow> string \<Rightarrow> hconn" where
  "new_conn a b =
     \<lparr>hc_auth = a, hc_bound = b, hc_authed = False, hc_agentID = [], hc_pubkey = [], hc_x25519 = [], hc_name = [],
      hc_queue = [], hc_queued = 0, hc_reject = None, hc_closed = False, hc_gone = False, hc_wire = []\<rparr>"

definition accept_ws :: "henv \<Rightarrow> string \<Rightarrow> string \<Rightarrow> hub \<Rightarrow> hub" where
  \<comment> \<open>\<open>wsAuth\<close>, then \<open>handleWS\<close> up to its read loop; a denied upgrade changes nothing\<close>
  "accept_ws E header query h =
     (case matchBearer (he_crypto E) h (wsCredential header query) of
        None \<Rightarrow> h
      | Some (a, b) \<Rightarrow> h\<lparr>hb_conns := (hb_conns h)(hb_next h := new_conn a b), hb_next := hb_next h + 1\<rparr>)"

section \<open>The admin API\<close>

definition adminOK :: "crypto \<Rightarrow> hub \<Rightarrow> string \<Rightarrow> bool" where
  "adminOK C h header =
     (let got = bearerToken header in got \<noteq> [] \<and> hb_adminToken h \<noteq> [] \<and> constEq C got (hb_adminToken h))"

text \<open>The two listings; \<^const>\<open>None\<close> is the \<open>401\<close>.\<close>

definition adminChannels :: "henv \<Rightarrow> string \<Rightarrow> hub \<Rightarrow> json option" where
  "adminChannels E header h =
     (if adminOK (he_crypto E) h header
      then Some (JArr (map (\<lambda>(n, ch). JObj [(''name'', JStr n), (''members'', JNum (int (length (cr_members ch)))),
             (''aclSize'', JNum (int (length (cr_allowed ch))))]) (hb_channels h)))
      else None)"

definition adminAgents :: "henv \<Rightarrow> string \<Rightarrow> hub \<Rightarrow> json option" where
  "adminAgents E header h = (if adminOK (he_crypto E) h header then Some (JArr (presenceList h)) else None)"

definition setACL :: "string \<Rightarrow> string list \<Rightarrow> hub \<Rightarrow> hub" where
  "setACL name allowed h =
     (let ch = (case jm_get (hb_channels h) name of
                  None \<Rightarrow> \<lparr>cr_pubkey = [], cr_allowed = [], cr_members = []\<rparr>
                | Some ch \<Rightarrow> ch)
      in persistChannels (h\<lparr>hb_channels := jm_set name (ch\<lparr>cr_allowed := allowed\<rparr>) (hb_channels h)\<rparr>))"

definition evict_agent :: "string \<Rightarrow> hub \<Rightarrow> hub" where
  \<comment> \<open>\<open>adminEvict\<close> after \<open>adminOK\<close>\<close>
  "evict_agent i h =
     (case jm_get (hb_agents h) i of
        None \<Rightarrow> h
      | Some e \<Rightarrow>
          if jm_has (hb_clients h) i then h
          else let h1 = h\<lparr>hb_agents := jm_del i (hb_agents h), hb_mailbox := jm_del i (hb_mailbox h),
                    hb_dropped := js_remove i (hb_dropped h)\<rparr>
               in if jm_has (hb_secrets h) (ae_name e) \<and> \<not> list_ex (\<lambda>(_, d). ae_name d = ae_name e) (hb_agents h1)
                  then persistSecrets (h1\<lparr>hb_secrets := jm_del (ae_name e) (hb_secrets h1)\<rparr>) else h1)"

definition adminSetACL :: "henv \<Rightarrow> string \<Rightarrow> string \<Rightarrow> string list \<Rightarrow> hub \<Rightarrow> hub" where
  "adminSetACL E header name allowed h = (if adminOK (he_crypto E) h header then setACL name allowed h else h)"

definition adminEvict :: "henv \<Rightarrow> string \<Rightarrow> string \<Rightarrow> hub \<Rightarrow> hub" where
  "adminEvict E header i h = (if adminOK (he_crypto E) h header then evict_agent i h else h)"

section \<open>Starting a process\<close>

definition str_or_empty :: "frame \<Rightarrow> string \<Rightarrow> string" where
  "str_or_empty ps k = (case go_string ps k of Some s \<Rightarrow> s | None \<Rightarrow> [])"

definition record_props :: "json \<Rightarrow> frame" where
  "record_props v = (case v of JObj ps \<Rightarrow> ps | _ \<Rightarrow> [])"

definition record_ok :: "string list \<Rightarrow> json \<Rightarrow> bool" where
  "record_ok ks v = (case v of JObj ps \<Rightarrow> list_all (\<lambda>k. go_string ps k \<noteq> None) ks | JNull \<Rightarrow> True | _ \<Rightarrow> False)"

definition go_strings :: "frame \<Rightarrow> string \<Rightarrow> string list option" where
  \<comment> \<open>a field of type \<open>[]string\<close>\<close>
  "go_strings ps k =
     (let vs = go_values ps k
      in if list_all (\<lambda>v. case v of JArr xs \<Rightarrow> list_all (\<lambda>x. case x of JStr _ \<Rightarrow> True | JNull \<Rightarrow> True | _ \<Rightarrow> False) xs | _ \<Rightarrow> False) vs
         then Some (case rev vs of JArr xs # _ \<Rightarrow> map (\<lambda>x. case x of JStr s \<Rightarrow> s | _ \<Rightarrow> []) xs | _ \<Rightarrow> []) else None)"

definition go_records :: "string list \<Rightarrow> string \<Rightarrow> json option \<Rightarrow> frame list option" where
  \<comment> \<open>the array of objects under a key of a file; \<open>None\<close>: no file, or an error of the decoder\<close>
  "go_records ks key file =
     (case file of
        Some (JObj ps) \<Rightarrow>
          (let vs = go_values ps key
           in if list_all (\<lambda>v. case v of JArr xs \<Rightarrow> list_all (record_ok ks) xs | _ \<Rightarrow> False) vs
              then Some (case rev vs of JArr xs # _ \<Rightarrow> map record_props xs | _ \<Rightarrow> []) else None)
      | Some JNull \<Rightarrow> Some []
      | _ \<Rightarrow> None)"

definition stored_channel :: "frame \<Rightarrow> hchannel" where
  "stored_channel r =
     \<lparr>cr_pubkey = str_or_empty r ''pubkey'', cr_allowed = (case go_strings r ''allowed'' of Some xs \<Rightarrow> xs | None \<Rightarrow> []),
      cr_members = []\<rparr>"

definition loadChannels :: "hub \<Rightarrow> hub" where
  "loadChannels h =
     (case go_records [''name'', ''pubkey''] ''channels'' (hb_store h) of
        None \<Rightarrow> h
      | Some rs \<Rightarrow>
          if list_all (\<lambda>r. go_strings r ''allowed'' \<noteq> None) rs
          then h\<lparr>hb_channels := fold (\<lambda>r. jm_set (str_or_empty r ''name'') (stored_channel r)) rs (hb_channels h)\<rparr>
          else h)"

definition add_secret :: "string \<Rightarrow> string \<Rightarrow> (string, string list) jsmap \<Rightarrow> (string, string list) jsmap" where
  "add_secret n x m = jm_set n ((case jm_get m n of None \<Rightarrow> [] | Some hs \<Rightarrow> hs) @ [x]) m"

definition loadSecrets :: "hub \<Rightarrow> hub" where
  "loadSecrets h =
     (case go_records [''name'', ''hash''] ''secrets'' (hb_secretStore h) of
        None \<Rightarrow> h
      | Some rs \<Rightarrow> h\<lparr>hb_secrets := fold (\<lambda>r. add_secret (str_or_empty r ''name'') (str_or_empty r ''hash'')) rs []\<rparr>)"

definition newHub :: "string \<Rightarrow> string \<Rightarrow> json option \<Rightarrow> json option \<Rightarrow> int \<Rightarrow> nat \<Rightarrow> hub" where
  \<comment> \<open>of the two tokens, the two files, the clock and the number of draws so far\<close>
  "newHub admin master store secrets t n =
     \<lparr>hb_conns = (\<lambda>_. new_conn BySecret []), hb_next = 0, hb_clients = [], hb_agents = [], hb_channels = [], hb_mailbox = [],
      hb_dropped = [], hb_seen = [], hb_lastSweep = None, hb_ids = [], hb_idnext = [], hb_adminToken = admin,
      hb_masterSecret = master, hb_secrets = [], hb_store = store, hb_secretStore = secrets, hb_writable = True,
      hb_clock = t, hb_draws = n\<rparr>"

definition boot :: "string \<Rightarrow> string \<Rightarrow> json option \<Rightarrow> json option \<Rightarrow> int \<Rightarrow> nat \<Rightarrow> hub option" where
  \<comment> \<open>\<open>run\<close>\<close>
  "boot admin master store secrets t n =
     (if master = [] then None else Some (loadSecrets (loadChannels (newHub admin master store secrets t n))))"

section \<open>Events\<close>

datatype event =
    HDial string string  \<comment> \<open>an upgrade request: its \<open>Authorization\<close> header and \<open>token\<close> parameter\<close>
  | HMessage nat "string option"
  | HWrite nat  \<comment> \<open>the pump writes the next frame\<close>
  | HReject nat  \<comment> \<open>the pump writes a rejection, and drops the connection\<close>
  | HFail nat  \<comment> \<open>a write or a ping fails\<close>
  | HGone nat  \<comment> \<open>the read loop returns\<close>
  | HSetACL string string "string list"
  | HEvict string string
  | HTime int
  | HDisk bool

definition reading :: "nat \<Rightarrow> hub \<Rightarrow> bool" where
  \<comment> \<open>the read loop runs, and does not wait for the pump in \<open>reject\<close>\<close>
  "reading c h = (c < hb_next h \<and> \<not> hc_gone (hb_conns h c) \<and> (hc_reject (hb_conns h c) = None \<or> hc_closed (hb_conns h c)))"

fun hub_event :: "henv \<Rightarrow> event \<Rightarrow> hub \<Rightarrow> hub option" where
  \<comment> \<open>\<open>None\<close>: a panic; an event that cannot happen changes nothing\<close>
  "hub_event E (HDial header query) h = Some (accept_ws E header query h)"
| "hub_event E (HMessage c msg) h =
     Some (if reading c h \<and> hc_reject (hb_conns h c) = None then read_message E c msg h else h)"
| "hub_event E (HWrite c) h =
     Some (case hc_queue (hb_conns h c) of
        v # vs \<Rightarrow>
          if hc_closed (hb_conns h c) then h
          else on_conn c (\<lambda>cl. cl\<lparr>hc_queue := vs, hc_queued := hc_queued cl - frame_bytes v, hc_wire := hc_wire cl @ [v]\<rparr>) h
      | [] \<Rightarrow> h)"
| "hub_event E (HReject c) h =
     Some (case hc_reject (hb_conns h c) of
        Some v \<Rightarrow> if hc_closed (hb_conns h c) then h else drop_conn c (on_conn c (\<lambda>cl. cl\<lparr>hc_wire := hc_wire cl @ [v]\<rparr>) h)
      | None \<Rightarrow> h)"
| "hub_event E (HFail c) h = Some (if c < hb_next h then drop_conn c h else h)"
| "hub_event E (HGone c) h =
     (if reading c h then map_option (on_conn c (hc_gone_update (\<lambda>_. True))) (deregister c h) else Some h)"
| "hub_event E (HSetACL header name allowed) h = Some (adminSetACL E header name allowed h)"
| "hub_event E (HEvict header i) h = Some (adminEvict E header i h)"
| "hub_event E (HTime t) h = Some (if hb_clock h \<le> t then h\<lparr>hb_clock := t\<rparr> else h)"
| "hub_event E (HDisk ok) h = Some (h\<lparr>hb_writable := ok\<rparr>)"

fun hub_run :: "henv \<Rightarrow> event list \<Rightarrow> hub \<Rightarrow> hub option" where
  "hub_run E [] h = Some h"
| "hub_run E (e # es) h = (case hub_event E e h of None \<Rightarrow> None | Some h' \<Rightarrow> hub_run E es h')"

end
