(* ===== verification/Hub_Inv.thy ===== *)
theory Hub_Inv
  imports Hub
begin

text \<open>
  What it takes for a property of the hub's state to be an invariant: the locale \<open>hub_inv\<close> lists the changes the
  handlers make, and the handlers, which only compose these changes, are gone through once.
\<close>

section \<open>What sending a frame changes\<close>

definition conn_core :: "hconn \<Rightarrow> hconn" where
  \<comment> \<open>a connection without what \<open>sendFrame\<close> and \<open>drop\<close> touch\<close>
  "conn_core cl = cl\<lparr>hc_queue := [], hc_queued := 0, hc_closed := False\<rparr>"

definition talked :: "hub \<Rightarrow> hub \<Rightarrow> bool" where
  \<comment> \<open>the second hub differs by frames queued and connections dropped\<close>
  "talked h h' = (h' = h\<lparr>hb_conns := hb_conns h'\<rparr> \<and> (\<forall>c. conn_core (hb_conns h' c) = conn_core (hb_conns h c)))"

lemma conn_core_iff:
  "conn_core a = conn_core b \<longleftrightarrow> hc_auth a = hc_auth b \<and> hc_bound a = hc_bound b \<and> hc_authed a = hc_authed b \<and> hc_agentID a = hc_agentID b
     \<and> hc_pubkey a = hc_pubkey b \<and> hc_x25519 a = hc_x25519 b \<and> hc_name a = hc_name b \<and> hc_reject a = hc_reject b
     \<and> hc_gone a = hc_gone b \<and> hc_wire a = hc_wire b"
  by (cases a; cases b) (simp add: conn_core_def)

lemma talked_refl [simp]: "talked h h"
  by (simp add: talked_def)

lemma talked_trans: "talked a b \<Longrightarrow> talked b c \<Longrightarrow> talked a c"
  by (cases a; cases b; cases c) (simp add: talked_def)

lemma talked_fields:
  assumes "talked h h'"
  shows "hb_next h' = hb_next h" "hb_clients h' = hb_clients h" "hb_agents h' = hb_agents h" "hb_channels h' = hb_channels h"
    "hb_mailbox h' = hb_mailbox h" "hb_dropped h' = hb_dropped h" "hb_seen h' = hb_seen h" "hb_lastSweep h' = hb_lastSweep h"
    "hb_ids h' = hb_ids h" "hb_idnext h' = hb_idnext h" "hb_adminToken h' = hb_adminToken h" "hb_masterSecret h' = hb_masterSecret h"
    "hb_secrets h' = hb_secrets h" "hb_store h' = hb_store h" "hb_secretStore h' = hb_secretStore h" "hb_writable h' = hb_writable h"
    "hb_clock h' = hb_clock h" "hb_draws h' = hb_draws h"
proof -
  from assms obtain k where "h' = h\<lparr>hb_conns := k\<rparr>" by (auto simp: talked_def)
  then show "hb_next h' = hb_next h" "hb_clients h' = hb_clients h" "hb_agents h' = hb_agents h" "hb_channels h' = hb_channels h"
    "hb_mailbox h' = hb_mailbox h" "hb_dropped h' = hb_dropped h" "hb_seen h' = hb_seen h" "hb_lastSweep h' = hb_lastSweep h"
    "hb_ids h' = hb_ids h" "hb_idnext h' = hb_idnext h" "hb_adminToken h' = hb_adminToken h" "hb_masterSecret h' = hb_masterSecret h"
    "hb_secrets h' = hb_secrets h" "hb_store h' = hb_store h" "hb_secretStore h' = hb_secretStore h" "hb_writable h' = hb_writable h"
    "hb_clock h' = hb_clock h" "hb_draws h' = hb_draws h"
    by simp_all
qed

lemma talked_conn:
  assumes "talked h h'"
  shows "hc_auth (hb_conns h' c) = hc_auth (hb_conns h c)" "hc_bound (hb_conns h' c) = hc_bound (hb_conns h c)"
    "hc_authed (hb_conns h' c) = hc_authed (hb_conns h c)" "hc_agentID (hb_conns h' c) = hc_agentID (hb_conns h c)"
    "hc_pubkey (hb_conns h' c) = hc_pubkey (hb_conns h c)" "hc_x25519 (hb_conns h' c) = hc_x25519 (hb_conns h c)"
    "hc_name (hb_conns h' c) = hc_name (hb_conns h c)" "hc_reject (hb_conns h' c) = hc_reject (hb_conns h c)"
    "hc_gone (hb_conns h' c) = hc_gone (hb_conns h c)" "hc_wire (hb_conns h' c) = hc_wire (hb_conns h c)"
  using assms unfolding talked_def conn_core_iff by simp_all

lemma on_conn_conns [simp]: "hb_conns (on_conn c g h) d = (if d = c then g (hb_conns h c) else hb_conns h d)"
  by (simp add: on_conn_def)

lemma on_conn_fields [simp]:
  "hb_next (on_conn c g h) = hb_next h" "hb_clients (on_conn c g h) = hb_clients h" "hb_agents (on_conn c g h) = hb_agents h"
  "hb_channels (on_conn c g h) = hb_channels h" "hb_mailbox (on_conn c g h) = hb_mailbox h" "hb_dropped (on_conn c g h) = hb_dropped h"
  "hb_seen (on_conn c g h) = hb_seen h" "hb_lastSweep (on_conn c g h) = hb_lastSweep h" "hb_ids (on_conn c g h) = hb_ids h"
  "hb_idnext (on_conn c g h) = hb_idnext h" "hb_adminToken (on_conn c g h) = hb_adminToken h"
  "hb_masterSecret (on_conn c g h) = hb_masterSecret h" "hb_secrets (on_conn c g h) = hb_secrets h"
  "hb_store (on_conn c g h) = hb_store h" "hb_secretStore (on_conn c g h) = hb_secretStore h"
  "hb_writable (on_conn c g h) = hb_writable h" "hb_clock (on_conn c g h) = hb_clock h" "hb_draws (on_conn c g h) = hb_draws h"
  by (simp_all add: on_conn_def)

lemma talked_on_conn: "(\<And>cl. conn_core (g cl) = conn_core cl) \<Longrightarrow> talked h (on_conn c g h)"
  by (simp add: talked_def on_conn_def)

lemma talked_drop: "talked h (drop_conn c h)"
  unfolding drop_conn_def by (rule talked_on_conn) (simp add: conn_core_def)

lemma talked_hub_send: "talked h (snd (hub_send c v h))"
  by (auto simp: hub_send_def Let_def talked_drop intro!: talked_on_conn) (simp add: conn_core_def)

lemma talked_tell: "talked h (tell v c h)"
  by (simp add: tell_def talked_hub_send)

lemma talked_fold: "talked h (fold (tell v) cs h)"
proof (induction cs arbitrary: h)
  case (Cons c cs)
  then show ?case using talked_trans [OF talked_tell Cons.IH] by simp
qed simp

lemma talked_sendPresence: "talked h (sendPresence ps i n x p b h)"
  by (simp add: sendPresence_def talked_fold)

lemma talked_sendErr: "talked h (sendErr c cd m h)"
  by (simp add: sendErr_def talked_tell)

section \<open>The contract\<close>

definition is_msg :: "json \<Rightarrow> bool" where
  "is_msg v = (case v of JObj ps \<Rightarrow> prop_of ps ''op'' = JStr ''msg'' | _ \<Rightarrow> False)"

definition put_secret :: "string \<Rightarrow> string list \<Rightarrow> hub \<Rightarrow> hub" where
  "put_secret n hs h = persistSecrets (h\<lparr>hb_draws := hb_draws h + 1, hb_secrets := jm_set n hs (hb_secrets h)\<rparr>)"

definition write_next :: "json \<Rightarrow> json list \<Rightarrow> hconn \<Rightarrow> hconn" where
  "write_next v vs cl = cl\<lparr>hc_queue := vs, hc_queued := hc_queued cl - frame_bytes v, hc_wire := hc_wire cl @ [v]\<rparr>"

definition open_conn :: "auth_kind \<Rightarrow> string \<Rightarrow> hub \<Rightarrow> hub" where
  "open_conn a b h = h\<lparr>hb_conns := (hb_conns h)(hb_next h := new_conn a b), hb_next := hb_next h + 1\<rparr>"

definition accepts :: "henv \<Rightarrow> nat \<Rightarrow> gframe \<Rightarrow> string \<Rightarrow> hub \<Rightarrow> bool" where
  \<comment> \<open>a \<open>send\<close> that passed the checks on its envelope\<close>
  "accepts E c f data h =
     (hc_authed (hb_conns h c)
      \<and> (\<exists>raw. parseFrame data = Some (f, raw) \<and> frameOp f raw = ''send''
           \<and> verifySignature (he_crypto E) f raw (hc_pubkey (hb_conns h c)) = None))"

definition relay_of :: "string \<Rightarrow> gframe \<Rightarrow> json" where
  \<comment> \<open>the message a \<open>send\<close> of the agent becomes\<close>
  "relay_of from f = hub_msg (if f_to f = [] then f_channel f else []) (f_to f) from f"

text \<open>\<open>I\<close> is the property, \<open>F\<close> the frames that may be sent, \<open>S\<close> the events considered.\<close>

locale hub_inv =
  fixes E :: henv and I :: "hub \<Rightarrow> bool" and F :: "json \<Rightarrow> bool" and S :: "event \<Rightarrow> bool"
  assumes plain: "\<not> is_msg v \<Longrightarrow> F v"
    and message: "I h \<Longrightarrow> S (HMessage c (Some data)) \<Longrightarrow> accepts E c f data h \<Longrightarrow> F (relay_of (hc_agentID (hb_conns h c)) f)"
    and queued: "I h \<Longrightarrow> v \<in> set (mailbox_of i h) \<Longrightarrow> F v"
    and told: "I h \<Longrightarrow> F v \<Longrightarrow> I (tell v c h)"
    and dropped: "I h \<Longrightarrow> I (drop_conn c h)"
    and rejected: "I h \<Longrightarrow> I (reject c cd m h)"
    and touched: "I h \<Longrightarrow> I (touchLastSeen i h)"
    and checked: "I h \<Longrightarrow> I (snd (nonce_check p n h))"
    and listed: "I h \<Longrightarrow> reading c h \<Longrightarrow> \<not> hc_authed (hb_conns h c) \<Longrightarrow> verifySignature (he_crypto E) f raw (f_pubkey f) = None
      \<Longrightarrow> (hc_auth (hb_conns h c) = BySecret \<Longrightarrow> f_name f = hc_bound (hb_conns h c))
      \<Longrightarrow> I (list_client c (on_conn c (set_identity (he_crypto E) f) h))"
    and unlisted: "I h \<Longrightarrow> jm_get (hb_clients h) (hc_agentID (hb_conns h c)) = Some c
      \<Longrightarrow> jm_get (hb_agents h) (hc_agentID (hb_conns h c)) = Some e \<Longrightarrow> I (unlist_client (hc_agentID (hb_conns h c)) e h)"
    and left: "I h \<Longrightarrow> jm_get (hb_clients h) (hc_agentID (hb_conns h c)) \<noteq> Some c \<Longrightarrow> I (on_conn c (hc_gone_update (\<lambda>_. True)) h)"
    and drained: "I h \<Longrightarrow> I (snd (drain i h))"
    and enqueued: "I h \<Longrightarrow> F v \<Longrightarrow> I (enqueue i v h)"
    and latched: "I h \<Longrightarrow> I (ids_add p k h)"
    and created: "I h \<Longrightarrow> hc_auth (hb_conns h c) = ByMaster \<Longrightarrow> reading c h \<Longrightarrow> jm_get (hb_channels h) name = None
      \<Longrightarrow> I (newChannel name p h)"
    and joined: "I h \<Longrightarrow> hc_authed (hb_conns h c) \<Longrightarrow> jm_get (hb_channels h) name = Some chan
      \<Longrightarrow> allows (he_crypto E) chan (hc_pubkey (hb_conns h c)) \<Longrightarrow> I (add_member name (hc_agentID (hb_conns h c)) h)"
    and issued: "I h \<Longrightarrow> hc_auth (hb_conns h c) = ByMaster \<Longrightarrow> reading c h \<Longrightarrow> hs \<noteq> [] \<Longrightarrow> I (put_secret n hs h)"
    and dialled: "I h \<Longrightarrow> S (HDial hdr q) \<Longrightarrow> matchBearer (he_crypto E) h (wsCredential hdr q) = Some (a, b) \<Longrightarrow> I (open_conn a b h)"
    and wrote: "I h \<Longrightarrow> hc_queue (hb_conns h c) = v # vs \<Longrightarrow> I (on_conn c (write_next v vs) h)"
    and wrote_reject: "I h \<Longrightarrow> hc_reject (hb_conns h c) = Some v \<Longrightarrow> I (on_conn c (\<lambda>cl. cl\<lparr>hc_wire := hc_wire cl @ [v]\<rparr>) h)"
    and acl_set: "I h \<Longrightarrow> S (HSetACL hdr n as) \<Longrightarrow> adminOK (he_crypto E) h hdr \<Longrightarrow> I (setACL n as h)"
    and evicted: "I h \<Longrightarrow> S (HEvict hdr i) \<Longrightarrow> adminOK (he_crypto E) h hdr \<Longrightarrow> I (evict_agent i h)"
    and ticked: "I h \<Longrightarrow> hb_clock h \<le> t \<Longrightarrow> I (h\<lparr>hb_clock := t\<rparr>)"
    and disk: "I h \<Longrightarrow> S (HDisk ok) \<Longrightarrow> I (h\<lparr>hb_writable := ok\<rparr>)"
begin

lemma told_all: "I h \<Longrightarrow> F v \<Longrightarrow> I (fold (tell v) cs h)"
  by (induction cs arbitrary: h) (simp_all add: told)

lemma told_each: "I h \<Longrightarrow> \<forall>v \<in> set vs. F v \<Longrightarrow> I (fold (\<lambda>v. tell v c) vs h)"
  by (induction vs arbitrary: h) (simp_all add: told)

lemma enqueued_all: "I h \<Longrightarrow> F v \<Longrightarrow> I (fold (\<lambda>i. enqueue i v) is h)"
  by (induction "is" arbitrary: h) (simp_all add: enqueued)

lemma told_plain: "I h \<Longrightarrow> \<not> is_msg v \<Longrightarrow> I (tell v c h)"
  by (simp add: told plain)

lemma erred: "I h \<Longrightarrow> I (sendErr c cd m h)"
  unfolding sendErr_def by (rule told_plain) (simp_all add: err_frame_def is_msg_def)

lemma announced: "I h \<Longrightarrow> I (sendPresence ps i n x p b h)"
  by (simp add: sendPresence_def told_all plain is_msg_def presence_frame_def)

lemma welcomed:
  assumes "I h" "reading c h" "\<not> hc_authed (hb_conns h c)" "verifySignature (he_crypto E) f raw (f_pubkey f) = None"
  shows "I (hub_welcome E c f h)"
proof (cases "hc_auth (hb_conns h c) = BySecret \<and> f_name f \<noteq> hc_bound (hb_conns h c)")
  case True
  with assms(1) show ?thesis by (simp add: hub_welcome_def rejected)
next
  case False
  with assms have "I (list_client c (on_conn c (set_identity (he_crypto E) f) h))" by (intro listed) auto
  with False show ?thesis
    by (auto simp: hub_welcome_def Let_def register_def welcome_frame_def is_msg_def intro!: told_plain announced)
qed

lemma nonce_check_conns [simp]: "hb_conns (snd (nonce_check p n h)) = hb_conns h" "hb_next (snd (nonce_check p n h)) = hb_next h"
  by (simp_all add: nonce_check_def Let_def)

lemma greeted: "I h \<Longrightarrow> reading c h \<Longrightarrow> I (handleHello E c f raw h)"
  using checked [of h "f_pubkey f" "f_nonce f"] welcomed [of "snd (nonce_check (f_pubkey f) (f_nonce f) h)" c f raw]
  by (auto simp: handleHello_def checkHello_def Let_def erred rejected case_prod_unfold reading_def split: option.splits if_splits)

lemma flushed: "I h \<Longrightarrow> I (handleFlush c h)"
  using drained [of h "hc_agentID (hb_conns h c)"] queued [of h _ "hc_agentID (hb_conns h c)"]
  by (auto simp: handleFlush_def drain_def Let_def flushed_frame_def is_msg_def intro!: told_plain erred told_each)

lemma newChannel_conns [simp]: "hb_conns (newChannel n p h) = hb_conns h"
  by (simp add: newChannel_def persistChannels_def)

lemma joined_channel:
  assumes "I h" "reading c h" "hc_authed (hb_conns h c)"
  shows "I (snd (joinChannel E c name p h))"
proof (cases "jm_get (hb_channels h) name")
  case None
  show ?thesis
  proof (cases "hc_auth (hb_conns h c) = ByMaster")
    case True
    with None assms have "I (newChannel name p h)" by (intro created)
    with True None assms show ?thesis
      by (auto simp: joinChannel_def Let_def jm_has_def split: option.splits intro!: announced
          joined [of "newChannel name p h" c, simplified])
  qed (use None assms in \<open>simp add: joinChannel_def Let_def jm_has_def\<close>)
next
  case (Some ch)
  with assms show ?thesis by (auto simp: joinChannel_def Let_def jm_has_def intro!: announced joined)
qed

lemma handled_join: "I h \<Longrightarrow> reading c h \<Longrightarrow> hc_authed (hb_conns h c) \<Longrightarrow> I (handleJoin E c f h)"
  using joined_channel [of h c "f_channel f" "f_chanPubkey f"]
  by (auto simp: handleJoin_def erred told_plain is_msg_def split: prod.splits option.splits)

lemma handled_send:
  assumes "I h" "S (HMessage c (Some data))" "parseFrame data = Some (f, raw)" "frameOp f raw = ''send''" "hc_authed (hb_conns h c)"
  shows "I (handleSend E c f raw h)"
proof (cases "verifySignature (he_crypto E) f raw (hc_pubkey (hb_conns h c))")
  case None
  then have F: "F (relay_of (hc_agentID (hb_conns h c)) f)"
    using assms by (intro message) (auto simp: accepts_def)
  have dm: "I (snd (deliverDM c f h))" if "f_to f \<noteq> []"
  proof (cases "jm_get (hb_clients h) (f_to f)")
    case None
    with assms(1) F that show ?thesis by (simp add: deliverDM_def Let_def erred enqueued relay_of_def)
  next
    case (Some d)
    let ?m = "hub_msg [] (f_to f) (hc_agentID (hb_conns h c)) f"
    have m: "F ?m" using F that by (simp add: relay_of_def)
    have "I (snd (hub_send d ?m h))" using told [OF assms(1) m] by (simp add: tell_def)
    with Some assms(1) m show ?thesis
      by (cases "hub_send d ?m h"; cases "fst (hub_send d ?m h)") (simp_all add: deliverDM_def Let_def erred enqueued)
  qed
  have chan: "I (snd (deliverChannel E c f h))" if "f_to f = []"
    using assms(1) F that
    by (auto simp: deliverChannel_def channelTargets_def Let_def relay_of_def erred told_all enqueued_all split: option.splits)
  show ?thesis
    using dm chan assms(1) None by (auto simp: handleSend_def Let_def erred latched split: prod.splits bool.splits)
next
  case (Some m)
  with assms(1) show ?thesis by (simp add: handleSend_def Let_def erred)
qed

lemma handled_enroll: "I h \<Longrightarrow> reading c h \<Longrightarrow> I (hub_enroll E c op h)"
  using issued [of h c] by (auto simp: hub_enroll_def Let_def erred told_plain is_msg_def enrolled_frame_def put_secret_def)

lemma touch_conns [simp]: "hb_conns (touchLastSeen i h) = hb_conns h" "hb_next (touchLastSeen i h) = hb_next h"
  by (simp_all add: touchLastSeen_def split: option.splits)

lemma dispatched:
  assumes "I h" "S (HMessage c (Some data))" "reading c h"
  shows "I (hub_dispatch E c data h)"
proof (cases "parseFrame data")
  case None
  with assms(1) show ?thesis by (simp add: hub_dispatch_def erred)
next
  case (Some p)
  obtain f raw where p: "parseFrame data = Some (f, raw)" using Some by (cases p) auto
  let ?h = "touchLastSeen (hc_agentID (hb_conns h c)) h"
  show ?thesis
  proof (cases "\<not> hc_authed (hb_conns h c) \<and> frameOp f raw \<noteq> ''hello''")
    case True
    with p assms(1) show ?thesis by (simp add: hub_dispatch_def erred)
  next
    case False
    have r: "reading c ?h" using assms(3) by (simp add: reading_def)
    have I: "I ?h" by (rule touched [OF assms(1)])
    have "I (run_handler E c (frameOp f raw) f raw ?h)"
      unfolding run_handler_def
      using False I r assms(2) p
      by (auto intro!: greeted handled_join handled_send flushed handled_enroll erred
          simp: handleWhois_def handlePresenceQuery_def presence_frame_def told_plain is_msg_def split: option.splits)
    moreover have "hub_dispatch E c data h = run_handler E c (frameOp f raw) f raw ?h"
      using False p by (auto simp: hub_dispatch_def Let_def)
    ultimately show ?thesis by simp
  qed
qed

lemma event_kept:
  assumes "I h" "S e" "hub_event E e h = Some h'"
  shows "I h'"
proof (cases e)
  case (HDial hdr q)
  with assms show ?thesis
    using dialled [of h hdr q] by (auto simp: accept_ws_def open_conn_def split: option.splits prod.splits)
next
  case (HMessage c m)
  have "I (sendErr c x y h)" "I (reject c x y h)" for x y using assms(1) by (simp_all add: erred rejected)
  with HMessage assms dispatched show ?thesis
    by (auto simp: read_message_def split: option.splits if_splits)
next
  case (HWrite c)
  with assms wrote [of h c] show ?thesis
    by (auto simp: write_next_def [abs_def] split: list.splits if_splits)
next
  case (HReject c)
  with assms wrote_reject [of h c] dropped show ?thesis by (auto split: option.splits if_splits)
next
  case (HGone c)
  have d: "I (drop_conn c h)" by (rule dropped [OF assms(1)])
  have same: "hc_agentID (hb_conns (drop_conn c h) c) = hc_agentID (hb_conns h c)"
    by (rule talked_conn(4) [OF talked_drop])
  note left' = left [where c = c]
  show ?thesis
  proof (cases "jm_get (hb_clients (drop_conn c h)) (hc_agentID (hb_conns h c)) = Some c")
    case False
    with HGone assms left' [OF d] same show ?thesis by (auto simp: deregister_def Let_def split: if_splits)
  next
    case True
    show ?thesis
    proof (cases "reading c h")
      case reading: True
      with True HGone assms obtain e where e: "jm_get (hb_agents (drop_conn c h)) (hc_agentID (hb_conns h c)) = Some e"
        by (auto simp: deregister_def Let_def split: option.splits)
      let ?u = "unlist_client (hc_agentID (hb_conns h c)) e (drop_conn c h)"
      have u: "I ?u" using unlisted [OF d, of c e] True e by (simp add: same)
      let ?h = "sendPresence (presencePeers (hc_agentID (hb_conns h c)) ?u) (hc_agentID (hb_conns h c)) (ae_name e) (ae_x25519 e) (ae_pubkey e) False ?u"
      have "I ?h" by (rule announced [OF u])
      moreover have "jm_get (hb_clients ?h) (hc_agentID (hb_conns ?h c)) \<noteq> Some c"
        unfolding talked_conn(4) [OF talked_sendPresence] talked_fields(2) [OF talked_sendPresence]
        by (simp add: unlist_client_def same)
      moreover have "h' = on_conn c (hc_gone_update (\<lambda>_. True)) ?h"
        using HGone assms(3) reading True e by (simp add: deregister_def Let_def)
      ultimately show ?thesis using left' by simp
    qed (use HGone assms in simp)
  qed
qed (use assms dropped acl_set evicted ticked disk in \<open>auto simp: adminSetACL_def adminEvict_def\<close>)

theorem run_kept: "I h \<Longrightarrow> \<forall>e \<in> set es. S e \<Longrightarrow> hub_run E es h = Some h' \<Longrightarrow> I h'"
proof (induction es arbitrary: h)
  case (Cons e es)
  then show ?case using event_kept [of h e] by (auto split: option.splits)
qed simp

end

end
