(* ===== verification/Hub_Registry.thy ===== *)
theory Hub_Registry
  imports Hub_Inv
begin

text \<open>
  The registry of agents: every connection that is listed is a live one that proved to hold the key its id is the hash
  of, the identity records match the connections, a secret speaks only for the name it was issued for, and no record
  that a leaving connection updates is missing.
\<close>

section \<open>The invariant\<close>

definition key_id :: "crypto \<Rightarrow> string \<Rightarrow> string \<Rightarrow> bool" where
  \<comment> \<open>the id of an agent and its public key\<close>
  "key_id C i p = (\<exists>b. go_base64 p = Some b \<and> length b = 32 \<and> agentIDFor C b = i)"

definition conn_ok :: "crypto \<Rightarrow> nat \<Rightarrow> hub \<Rightarrow> bool" where
  "conn_ok C c h =
     (let cl = hb_conns h c
      in hc_authed cl \<longrightarrow> c < hb_next h \<and> key_id C (hc_agentID cl) (hc_pubkey cl) \<and> (hc_auth cl = BySecret \<longrightarrow> hc_name cl = hc_bound cl))"

fun recorded :: "string \<Rightarrow> string \<Rightarrow> string \<Rightarrow> agent_entry option \<Rightarrow> bool" where
  "recorded p x n None = False"
| "recorded p x n (Some e) = (ae_online e \<and> ae_pubkey e = p \<and> ae_x25519 e = x \<and> ae_name e = n)"

lemma recorded_Some: "recorded p x n r \<Longrightarrow> \<exists>e. r = Some e"
  by (cases r) simp_all

definition listed_ok :: "string \<Rightarrow> nat \<Rightarrow> hub \<Rightarrow> bool" where
  "listed_ok i c h =
     (let cl = hb_conns h c
      in hc_authed cl \<and> \<not> hc_gone cl \<and> hc_agentID cl = i
         \<and> recorded (hc_pubkey cl) (hc_x25519 cl) (hc_name cl) (jm_get (hb_agents h) i))"

definition registry_ok :: "crypto \<Rightarrow> hub \<Rightarrow> bool" where
  "registry_ok C h =
     ((\<forall>c. conn_ok C c h)
      \<and> (\<forall>i c. jm_get (hb_clients h) i = Some c \<longrightarrow> listed_ok i c h)
      \<and> (\<forall>i e. jm_get (hb_agents h) i = Some e \<longrightarrow> key_id C i (ae_pubkey e) \<and> (ae_online e \<longrightarrow> jm_get (hb_clients h) i \<noteq> None)))"

lemma listed_client: "registry_ok C h \<Longrightarrow> jm_get (hb_clients h) i = Some c \<Longrightarrow> listed_ok i c h"
  unfolding registry_ok_def by blast

lemma listed_entry: "registry_ok C h \<Longrightarrow> jm_get (hb_clients h) i = Some c \<Longrightarrow> \<exists>e. jm_get (hb_agents h) i = Some e"
  by (drule listed_client, assumption, unfold listed_ok_def Let_def) (blast intro: recorded_Some)

lemma registry_cong:
  assumes "registry_ok C h"
    and "hb_next h \<le> hb_next h'" "hb_clients h' = hb_clients h" "hb_agents h' = hb_agents h"
    and "\<And>c. hc_authed (hb_conns h' c) = hc_authed (hb_conns h c)" "\<And>c. hc_gone (hb_conns h' c) = hc_gone (hb_conns h c)"
      "\<And>c. hc_agentID (hb_conns h' c) = hc_agentID (hb_conns h c)" "\<And>c. hc_pubkey (hb_conns h' c) = hc_pubkey (hb_conns h c)"
      "\<And>c. hc_x25519 (hb_conns h' c) = hc_x25519 (hb_conns h c)" "\<And>c. hc_name (hb_conns h' c) = hc_name (hb_conns h c)"
      "\<And>c. hc_auth (hb_conns h' c) = hc_auth (hb_conns h c)" "\<And>c. hc_bound (hb_conns h' c) = hc_bound (hb_conns h c)"
  shows "registry_ok C h'"
  using assms by (auto simp: registry_ok_def conn_ok_def listed_ok_def Let_def)

lemma registry_talked: "registry_ok C h \<Longrightarrow> talked h h' \<Longrightarrow> registry_ok C h'"
  by (rule registry_cong) (simp_all add: talked_fields talked_conn)

lemma registry_frame:
  "registry_ok C h \<Longrightarrow> hb_conns h' = hb_conns h \<Longrightarrow> hb_next h' = hb_next h \<Longrightarrow> hb_clients h' = hb_clients h
     \<Longrightarrow> hb_agents h' = hb_agents h \<Longrightarrow> registry_ok C h'"
  by (rule registry_cong) simp_all

lemma verified_key_id: "verifySignature C f raw p = None \<Longrightarrow> key_id C (agentIDFor C (case go_base64 p of Some b \<Rightarrow> b | None \<Rightarrow> [])) p"
  by (auto simp: verifySignature_def key_id_def split: option.splits if_splits)

lemma evict_old_fields:
  "talked h (evict_old c h)"
  by (simp add: evict_old_def talked_drop split: option.splits)

lemma registry_listed:
  assumes "registry_ok C h" "c < hb_next h" "\<not> hc_gone (hb_conns h c)" "\<not> hc_authed (hb_conns h c)"
    and "verifySignature C f raw (f_pubkey f) = None" "hc_auth (hb_conns h c) = BySecret \<Longrightarrow> f_name f = hc_bound (hb_conns h c)"
  shows "registry_ok C (list_client c (on_conn c (set_identity C f) h))"
proof -
  let ?h = "on_conn c (set_identity C f) h"
  have tk: "talked ?h (evict_old c ?h)" by (rule evict_old_fields)
  note t = talked_fields [OF tk] talked_conn [OF tk]
  have new: "c' \<noteq> c" if "jm_get (hb_clients h) i = Some c'" for i c'
    using assms(1,4) that by (auto simp: registry_ok_def listed_ok_def Let_def)
  show ?thesis
    using assms verified_key_id [OF assms(5)] new
    by (auto simp: registry_ok_def conn_ok_def listed_ok_def list_client_def upsertAgent_def set_identity_def Let_def t split: if_splits)
qed

lemma registry_unlisted:
  assumes "registry_ok C h" "jm_get (hb_clients h) i = Some c" "jm_get (hb_agents h) i = Some e"
  shows "registry_ok C (unlist_client i e h)"
  using assms by (auto simp: registry_ok_def conn_ok_def listed_ok_def unlist_client_def Let_def)

lemma registry_touched: "registry_ok C h \<Longrightarrow> registry_ok C (touchLastSeen i h)"
  by (cases "jm_get (hb_agents h) i")
    (fastforce simp: registry_ok_def conn_ok_def listed_ok_def touchLastSeen_def Let_def)+

lemma registry_evicted: "registry_ok C h \<Longrightarrow> registry_ok C (evict_agent i h)"
  by (auto simp: registry_ok_def conn_ok_def listed_ok_def evict_agent_def persistSecrets_def Let_def jm_has_def split: option.splits)

interpretation hub_registry: hub_inv E "registry_ok (he_crypto E)" "\<lambda>_. True" "\<lambda>_. True" for E
proof unfold_locales
  fix h c f raw
  assume "registry_ok (he_crypto E) h" "reading c h" "\<not> hc_authed (hb_conns h c)"
    "verifySignature (he_crypto E) f raw (f_pubkey f) = None" "hc_auth (hb_conns h c) = BySecret \<Longrightarrow> f_name f = hc_bound (hb_conns h c)"
  then show "registry_ok (he_crypto E) (list_client c (on_conn c (set_identity (he_crypto E) f) h))"
    by (intro registry_listed) (auto simp: reading_def)
next
  fix h a b
  assume "registry_ok (he_crypto E) h"
  then show "registry_ok (he_crypto E) (open_conn a b h)"
    by (fastforce simp: registry_ok_def conn_ok_def listed_ok_def open_conn_def new_conn_def Let_def)
next
  fix h c
  assume "registry_ok (he_crypto E) h" "jm_get (hb_clients h) (hc_agentID (hb_conns h c)) \<noteq> Some c"
  then show "registry_ok (he_crypto E) (on_conn c (hc_gone_update (\<lambda>_. True)) h)"
    by (auto simp: registry_ok_def conn_ok_def listed_ok_def Let_def)
qed (simp_all add: registry_talked [OF _ talked_tell] registry_talked [OF _ talked_drop] registry_touched registry_unlisted registry_evicted,
  (erule registry_cong; auto simp: reject_def nonce_check_def drain_def enqueue_def ids_add_def newChannel_def persistChannels_def
    add_member_def put_secret_def persistSecrets_def write_next_def setACL_def Let_def split: option.splits)+)

section \<open>A hub that starts\<close>

lemma loadChannels_fields [simp]:
  "hb_conns (loadChannels h) = hb_conns h" "hb_next (loadChannels h) = hb_next h" "hb_clients (loadChannels h) = hb_clients h"
  "hb_agents (loadChannels h) = hb_agents h" "hb_mailbox (loadChannels h) = hb_mailbox h" "hb_ids (loadChannels h) = hb_ids h"
  "hb_idnext (loadChannels h) = hb_idnext h" "hb_secretStore (loadChannels h) = hb_secretStore h" "hb_store (loadChannels h) = hb_store h"
  "hb_secrets (loadChannels h) = hb_secrets h" "hb_writable (loadChannels h) = hb_writable h"
  "hb_masterSecret (loadChannels h) = hb_masterSecret h"
  by (simp_all add: loadChannels_def split: option.splits)

lemma loadSecrets_fields [simp]:
  "hb_conns (loadSecrets h) = hb_conns h" "hb_next (loadSecrets h) = hb_next h" "hb_clients (loadSecrets h) = hb_clients h"
  "hb_agents (loadSecrets h) = hb_agents h" "hb_mailbox (loadSecrets h) = hb_mailbox h" "hb_ids (loadSecrets h) = hb_ids h"
  "hb_idnext (loadSecrets h) = hb_idnext h" "hb_secretStore (loadSecrets h) = hb_secretStore h" "hb_store (loadSecrets h) = hb_store h"
  "hb_channels (loadSecrets h) = hb_channels h" "hb_writable (loadSecrets h) = hb_writable h"
  "hb_masterSecret (loadSecrets h) = hb_masterSecret h"
  by (simp_all add: loadSecrets_def split: option.splits)

lemma boot_fields:
  assumes "boot admin master st sec t n = Some h"
  shows "hb_conns h = (\<lambda>_. new_conn BySecret [])" "hb_next h = 0" "hb_clients h = []" "hb_agents h = []" "hb_mailbox h = []"
    "hb_ids h = []" "hb_idnext h = []" "hb_store h = st" "hb_secretStore h = sec" "hb_writable h" "hb_masterSecret h = master"
  using assms by (auto simp: boot_def newHub_def split: if_splits)

lemma boot_registry: "boot admin master st sec t n = Some h \<Longrightarrow> registry_ok C h"
  by (simp add: registry_ok_def conn_ok_def listed_ok_def boot_fields new_conn_def Let_def)

lemma event_runs: "registry_ok (he_crypto E) h \<Longrightarrow> \<exists>h'. hub_event E e h = Some h'"
proof (cases e)
  case (HGone c)
  assume ok: "registry_ok (he_crypto E) h"
  note same = talked_fields(2,3) [OF talked_drop, of c h]
  have "\<exists>h'. deregister c h = Some h'"
  proof (cases "jm_get (hb_clients h) (hc_agentID (hb_conns h c)) = Some c")
    case True
    from listed_entry [OF ok True] True show ?thesis by (auto simp: deregister_def Let_def same)
  qed (simp add: deregister_def Let_def same)
  with HGone show ?thesis by auto
qed simp_all

lemma run_exists: "registry_ok (he_crypto E) h \<Longrightarrow> \<exists>h'. hub_run E es h = Some h' \<and> registry_ok (he_crypto E) h'"
proof (induction es arbitrary: h)
  case (Cons e es)
  from event_runs [OF Cons.prems] obtain h1 where "hub_event E e h = Some h1" by blast
  moreover from this have "registry_ok (he_crypto E) h1" using hub_registry.event_kept Cons.prems by blast
  ultimately show ?case using Cons.IH by simp
qed simp

section \<open>Property\<close>

text \<open>C3: whatever requests, frames, failures and admin calls a hub sees after its start, it never runs into a missing
  identity record, and its registry stays consistent: a listed connection is live and has the identity of its entry,
  every id is the hash of the public key its hello was signed with, whoever is marked online is listed, and a
  connection opened with an issued secret has the name the secret was issued for.\<close>

theorem hub_registry_consistent:
  assumes "boot admin master st sec t n = Some h"
  shows "\<exists>h'. hub_run E es h = Some h' \<and> registry_ok (he_crypto E) h'"
  by (rule run_exists [OF boot_registry [OF assms]])

definition demo_henv :: henv where
  "demo_henv = \<lparr>he_crypto = demo_crypto, he_random = (\<lambda>n k. replicate k (of_nat n)), he_parse_error = (\<lambda>_. ''bad JSON'')\<rparr>"

lemma hub_registry_consistent_witness:
  "\<exists>h h'. boot [] ''m'' None None 0 0 = Some h \<and> hub_run demo_henv [HDial ''Bearer m'' [], HMessage 0 None, HGone 0] h = Some h'
     \<and> hb_next h' = 1 \<and> hc_gone (hb_conns h' 0)"
proof -
  obtain h where h: "boot [] ''m'' None None 0 0 = Some h" by (simp add: boot_def)
  from hub_registry_consistent [OF h] obtain h' where h': "hub_run demo_henv [HDial ''Bearer m'' [], HMessage 0 None, HGone 0] h = Some h'"
    by blast
  have m: "matchBearer demo_crypto h (wsCredential ''Bearer m'' []) = Some (ByMaster, [])"
    using h by (simp add: matchBearer_def isMaster_def constEq_def wsCredential_def bearerToken_def boot_fields)
  have "hb_next h' = 1 \<and> hc_gone (hb_conns h' 0)"
    using h' h m
    by (simp add: accept_ws_def demo_henv_def boot_fields reading_def new_conn_def read_message_def deregister_def Let_def
        talked_fields [OF talked_sendErr] talked_conn [OF talked_sendErr] talked_fields [OF talked_drop] talked_conn [OF talked_drop] split: if_splits)
      (auto simp: talked_fields [OF talked_sendErr] talked_fields [OF talked_drop])
  with h h' show ?thesis by blast
qed

end
