(* ===== verification/Hub_Bounds.thy ===== *)
theory Hub_Bounds
  imports Hub_Registry
begin

text \<open>
  What the hub buffers is bounded, and what the buffers hold: the frames waiting for a connection, the mailbox of an
  agent, the ring of accepted send ids, which is the list of the last ones.
\<close>

section \<open>Mailboxes\<close>

lemma mailbox_enqueue:
  "mailbox_of j (enqueue i v h) = (if j = i then last_n mailboxCap (mailbox_of i h @ [v]) else mailbox_of j h)"
  by (auto simp: mailbox_of_def enqueue_def Let_def last_n_def)

lemma dropped_enqueue:
  "j \<in> set (hb_dropped (enqueue i v h)) \<longleftrightarrow> j \<in> set (hb_dropped h) \<or> j = i \<and> mailboxCap \<le> length (mailbox_of i h)"
  by (auto simp: enqueue_def Let_def)

lemma enqueue_fields [simp]:
  "hb_conns (enqueue i v h) = hb_conns h" "hb_next (enqueue i v h) = hb_next h" "hb_clients (enqueue i v h) = hb_clients h"
  "hb_agents (enqueue i v h) = hb_agents h" "hb_channels (enqueue i v h) = hb_channels h" "hb_ids (enqueue i v h) = hb_ids h"
  "hb_idnext (enqueue i v h) = hb_idnext h"
  by (simp_all add: enqueue_def Let_def)

lemma enqueue_all:
  "mailbox_of i (fold (enqueue i) vs h) = (if vs = [] then mailbox_of i h else last_n mailboxCap (mailbox_of i h @ vs))
   \<and> (i \<in> set (hb_dropped (fold (enqueue i) vs h)) \<longleftrightarrow>
        i \<in> set (hb_dropped h) \<or> vs \<noteq> [] \<and> mailboxCap < length (mailbox_of i h @ vs))"
proof (induction vs rule: rev_induct)
  case (snoc v vs)
  then show ?case
    by (cases "vs = []") (auto simp: mailbox_enqueue dropped_enqueue last_n_append)
qed simp

lemma fold_enqueue_conns [simp]: "hb_conns (fold (enqueue i) vs h) = hb_conns h"
  by (induction vs arbitrary: h) simp_all

section \<open>Accepted ids\<close>

definition ids_log :: "string \<Rightarrow> hub \<Rightarrow> string list" where
  \<comment> \<open>oldest first\<close>
  "ids_log p h = drop (idnext_of p h) (ids_of p h) @ take (idnext_of p h) (ids_of p h)"

definition ring_ok :: "string \<Rightarrow> hub \<Rightarrow> bool" where
  "ring_ok p h = (length (ids_of p h) \<le> sendIDCap \<and> idnext_of p h < sendIDCap \<and> (length (ids_of p h) < sendIDCap \<longrightarrow> idnext_of p h = 0))"

lemma set_ids_log: "set (ids_log p h) = set (ids_of p h)"
  unfolding ids_log_def by (metis append_take_drop_id set_append sup_commute)

lemma length_ids_log [simp]: "length (ids_log p h) = length (ids_of p h)"
  by (simp add: ids_log_def)

lemma ring_rotate:
  assumes "length r = m" "n < m"
  shows "drop (Suc n mod m) (r[n := x]) @ take (Suc n mod m) (r[n := x]) = tl (drop n r @ take n r) @ [x]"
proof (cases "Suc n = m")
  case True
  with assms have "drop n r = [r ! n]" by (metis Cons_nth_drop_Suc drop_all order_refl)
  moreover from True assms have "r[n := x] = take n r @ [x]" by (simp add: upd_conv_take_nth_drop)
  ultimately show ?thesis using True by simp
next
  case False
  with assms show ?thesis by (simp add: upd_conv_take_nth_drop drop_Suc tl_drop take_Suc_conv_app_nth)
qed

lemma ids_add_log:
  assumes "ring_ok p h"
  shows "ids_log q (ids_add p k h) = (if q = p then last_n sendIDCap (ids_log p h @ [k]) else ids_log q h)"
    and "ring_ok q (ids_add p k h) \<longleftrightarrow> q = p \<or> ring_ok q h"
proof -
  have "ids_log p (ids_add p k h) = last_n sendIDCap (ids_log p h @ [k]) \<and> ring_ok p (ids_add p k h)"
  proof (cases "length (ids_of p h) < sendIDCap")
    case True
    with assms show ?thesis by (simp add: ring_ok_def ids_log_def ids_add_def ids_of_def idnext_of_def Let_def)
  next
    case False
    with assms have l: "length (ids_of p h) = sendIDCap" "idnext_of p h < sendIDCap" by (auto simp: ring_ok_def)
    from l(2) have "0 < sendIDCap" by simp
    have "ids_of p (ids_add p k h) = (ids_of p h)[idnext_of p h := k]"
      "idnext_of p (ids_add p k h) = Suc (idnext_of p h) mod sendIDCap"
      using False by (simp_all add: ids_add_def ids_of_def idnext_of_def Let_def)
    moreover have "tl (ids_log p h) @ [k] = last_n sendIDCap (ids_log p h @ [k])"
    proof -
      have n: "length (ids_log p h) = sendIDCap" using l by simp
      with \<open>0 < sendIDCap\<close> have "ids_log p h \<noteq> []" by (metis list.size(3) less_irrefl)
      with n show ?thesis
        using ring_push_last_n [of "ids_log p h" sendIDCap k] by (simp add: ring_push_def Let_def)
    qed
    ultimately show ?thesis
      using ring_rotate [OF l, of k] l \<open>0 < sendIDCap\<close> by (simp add: ids_log_def ring_ok_def)
  qed
  moreover have "q \<noteq> p \<Longrightarrow> ids_log q (ids_add p k h) = ids_log q h \<and> ring_ok q (ids_add p k h) = ring_ok q h"
    by (simp add: ids_add_def ids_of_def idnext_of_def ids_log_def ring_ok_def Let_def)
  ultimately show "ids_log q (ids_add p k h) = (if q = p then last_n sendIDCap (ids_log p h @ [k]) else ids_log q h)"
    "ring_ok q (ids_add p k h) \<longleftrightarrow> q = p \<or> ring_ok q h"
    by (cases "q = p"; simp)+
qed

lemma ids_add_fields [simp]:
  "hb_conns (ids_add p k h) = hb_conns h" "hb_mailbox (ids_add p k h) = hb_mailbox h" "hb_channels (ids_add p k h) = hb_channels h"
  "mailbox_of i (ids_add p k h) = mailbox_of i h" "hb_clients (ids_add p k h) = hb_clients h"
  by (simp_all add: ids_add_def mailbox_of_def Let_def)

lemma ids_adds_log:
  "\<forall>p. ring_ok p h \<Longrightarrow>
     ids_log p (fold (\<lambda>(p, k). ids_add p k) as h) = last_n sendIDCap (ids_log p h @ map snd (filter (\<lambda>a. fst a = p) as))"
proof (induction "as" arbitrary: h)
  case Nil
  then have "length (ids_log p h) \<le> sendIDCap" by (simp add: ring_ok_def)
  then show ?case by simp
next
  case (Cons a as)
  have *: "\<forall>p. ring_ok p (ids_add (fst a) (snd a) h)" using Cons.prems ids_add_log(2) by blast
  show ?case
    using Cons.IH [OF *] Cons.prems by (auto simp: case_prod_unfold ids_add_log(1) last_n_append)
qed

section \<open>The invariant\<close>

definition queue_ok :: "json list \<Rightarrow> nat \<Rightarrow> bool" where
  "queue_ok q n = (n = sum_list (map frame_bytes q) \<and> n \<le> maxQueuedBytes)"

lemma queue_ok_simps:
  "queue_ok [] 0"
  "queue_ok q n \<Longrightarrow> \<not> maxQueuedBytes < n + frame_bytes v \<Longrightarrow> queue_ok (q @ [v]) (n + frame_bytes v)"
  "queue_ok (v # q) n \<Longrightarrow> queue_ok q (n - frame_bytes v)"
  by (simp_all add: queue_ok_def)

definition bounded :: "hub \<Rightarrow> bool" where
  "bounded h =
     ((\<forall>c. queue_ok (hc_queue (hb_conns h c)) (hc_queued (hb_conns h c)))
      \<and> (\<forall>i. length (mailbox_of i h) \<le> mailboxCap)
      \<and> (\<forall>p. ring_ok p h)
      \<and> (\<forall>n ch. jm_get (hb_channels h) n = Some ch \<longrightarrow> distinct (cr_members ch)))"

lemma bounded_cong:
  assumes "bounded h"
    and "\<And>c. hc_queue (hb_conns h' c) = hc_queue (hb_conns h c)" "\<And>c. hc_queued (hb_conns h' c) = hc_queued (hb_conns h c)"
    and "hb_mailbox h' = hb_mailbox h" "hb_ids h' = hb_ids h" "hb_idnext h' = hb_idnext h" "hb_channels h' = hb_channels h"
  shows "bounded h'"
  using assms by (simp add: bounded_def mailbox_of_def ring_ok_def ids_of_def idnext_of_def)

lemma bounded_channel:
  "bounded h \<Longrightarrow> distinct (cr_members ch) \<Longrightarrow> bounded (h\<lparr>hb_channels := jm_set n ch (hb_channels h)\<rparr>)"
  by (simp add: bounded_def mailbox_of_def ring_ok_def ids_of_def idnext_of_def)

lemma bounded_persist [simp]: "bounded (persistChannels h) = bounded h" "bounded (persistSecrets h) = bounded h"
  by (simp_all add: bounded_def persistChannels_def persistSecrets_def mailbox_of_def ring_ok_def ids_of_def idnext_of_def)

lemma bounded_enqueue: "bounded h \<Longrightarrow> bounded (enqueue i v h)"
  by (simp add: bounded_def mailbox_enqueue ring_ok_def ids_of_def idnext_of_def)

lemma bounded_ids: "bounded h \<Longrightarrow> bounded (ids_add p k h)"
  using ids_add_log(2) [of p h _ k] by (simp add: bounded_def)

lemma tell_other: "d \<noteq> c \<Longrightarrow> hb_conns (tell v c h) d = hb_conns h d"
  by (simp add: tell_def hub_send_def drop_conn_def Let_def)

lemma bounded_tell: "bounded h \<Longrightarrow> bounded (tell v c h)"
  by (auto simp: bounded_def tell_def hub_send_def drop_conn_def Let_def mailbox_of_def ring_ok_def ids_of_def idnext_of_def
      intro: queue_ok_simps)

lemma bounded_drop: "bounded h \<Longrightarrow> bounded (drop_conn c h)"
  by (erule bounded_cong) (simp_all add: drop_conn_def)

lemma bounded_forget:
  "bounded h \<Longrightarrow> bounded (h\<lparr>hb_mailbox := jm_del i (hb_mailbox h), hb_dropped := x\<rparr>)"
  by (simp add: bounded_def mailbox_of_def ring_ok_def ids_of_def idnext_of_def)

lemma bounded_evict: "bounded h \<Longrightarrow> bounded (evict_agent i h)"
proof -
  assume b: "bounded h"
  have "bounded (h\<lparr>hb_agents := y, hb_mailbox := jm_del i (hb_mailbox h), hb_dropped := x\<rparr>)" for x y
    using bounded_forget [OF b] by (rule bounded_cong) simp_all
  moreover from this have "bounded (h\<lparr>hb_agents := y, hb_mailbox := jm_del i (hb_mailbox h), hb_dropped := x, hb_secrets := z\<rparr>)" for x y z
    by (rule bounded_cong) simp_all
  ultimately show ?thesis using b by (simp add: evict_agent_def Let_def split: option.splits)
qed

lemma bounded_write:
  assumes "bounded h" "hc_queue (hb_conns h c) = v # vs"
  shows "bounded (on_conn c (write_next v vs) h)"
proof -
  have "queue_ok (v # vs) (hc_queued (hb_conns h c))"
    using assms by (metis bounded_def)
  with assms(1) show ?thesis
    by (auto simp: bounded_def write_next_def mailbox_of_def ring_ok_def ids_of_def idnext_of_def intro: queue_ok_simps)
qed

lemma bounded_open: "bounded h \<Longrightarrow> bounded (open_conn a b h)"
  by (auto simp: bounded_def open_conn_def new_conn_def mailbox_of_def ring_ok_def ids_of_def idnext_of_def queue_ok_simps)

lemma bounded_member: "bounded h \<Longrightarrow> bounded (add_member n i h)"
  by (auto simp: add_member_def split: option.splits intro!: bounded_channel) (simp add: bounded_def)

lemma bounded_acl: "bounded h \<Longrightarrow> bounded (setACL n as h)"
  by (auto simp: setACL_def Let_def split: option.splits intro!: bounded_channel) (simp add: bounded_def)

lemma bounded_listed: "bounded h \<Longrightarrow> bounded (list_client c (on_conn c (set_identity C f) h))"
  by (erule bounded_cong)
    (auto simp: list_client_def evict_old_def upsertAgent_def drop_conn_def set_identity_def Let_def split: option.splits)

interpretation hub_bounds: hub_inv E bounded "\<lambda>_. True" "\<lambda>_. True" for E
proof unfold_locales
  fix h i
  assume "bounded h"
  then show "bounded (snd (drain i h))" by (simp add: drain_def bounded_forget)
next
  fix h name p
  assume "bounded h"
  then show "bounded (newChannel name p h)" by (simp add: newChannel_def bounded_channel)
next
  fix h n hs
  assume "bounded h"
  then show "bounded (put_secret n hs h)" unfolding put_secret_def bounded_persist by (rule bounded_cong) simp_all
qed (simp_all add: bounded_tell bounded_drop bounded_enqueue bounded_ids bounded_write bounded_open bounded_member bounded_acl
    bounded_listed bounded_evict,
  (erule bounded_cong; auto simp: reject_def nonce_check_def touchLastSeen_def unlist_client_def Let_def split: option.splits)+)

lemma stored_members:
  "\<forall>n ch. jm_get m n = Some ch \<longrightarrow> cr_members ch = [] \<Longrightarrow>
     jm_get (fold (\<lambda>r. jm_set (k r) (stored_channel r)) rs m) n = Some ch \<Longrightarrow> cr_members ch = []"
proof (induction rs arbitrary: m)
  case (Cons r rs)
  have "\<forall>n ch. jm_get (jm_set (k r) (stored_channel r) m) n = Some ch \<longrightarrow> cr_members ch = []"
    using Cons.prems(1) by (auto simp: stored_channel_def)
  from Cons.IH [OF this] Cons.prems(2) show ?case by simp
qed simp

lemma boot_members: "boot admin master st sec t n = Some h \<Longrightarrow> jm_get (hb_channels h) i = Some ch \<Longrightarrow> cr_members ch = []"
  using stored_members [of "[]" "\<lambda>r. str_or_empty r ''name''"]
  by (auto simp: boot_def loadChannels_def newHub_def split: if_splits option.splits)

lemma boot_bounded: "boot admin master st sec t n = Some h \<Longrightarrow> bounded h"
  by (simp add: bounded_def boot_fields boot_members new_conn_def mailbox_of_def ring_ok_def ids_of_def idnext_of_def sendIDCap_def
      queue_ok_simps)

section \<open>A connection with room\<close>

lemma frame_bytes_le: "frame_bytes v \<le> 12 * length (json_text v)"
proof -
  have "length (utf8 (concat (map html_esc s))) \<le> 12 * length s" for s
    by (induction s) (auto simp: html_esc_def utf8_def utf8_char_def)
  then show ?thesis by (simp add: frame_bytes_def)
qed

lemma nat_str_digit: "n < 10 \<Longrightarrow> nat_str n = [digit n]"
  by (subst nat_str.simps) simp

definition has_room :: "nat \<Rightarrow> json list \<Rightarrow> hub \<Rightarrow> bool" where
  "has_room c vs h = (\<not> hc_closed (hb_conns h c) \<and> hc_queued (hb_conns h c) + sum_list (map frame_bytes vs) \<le> maxQueuedBytes)"

definition push_frames :: "json list \<Rightarrow> hconn \<Rightarrow> hconn" where
  "push_frames vs cl = cl\<lparr>hc_queue := hc_queue cl @ vs, hc_queued := hc_queued cl + sum_list (map frame_bytes vs)\<rparr>"

lemma on_conn_twice: "on_conn c f (on_conn c g h) = on_conn c (\<lambda>cl. f (g cl)) h"
  by (simp add: on_conn_def)

lemma hub_send_room: "has_room c [v] h \<Longrightarrow> hub_send c v h = (True, on_conn c (push_frames [v]) h)"
  by (simp add: hub_send_def has_room_def push_frames_def [abs_def] Let_def)

lemma tell_room: "has_room c [v] h \<Longrightarrow> tell v c h = on_conn c (push_frames [v]) h"
  by (simp add: tell_def hub_send_room)

lemma tells_room: "has_room c vs h \<Longrightarrow> fold (\<lambda>v. tell v c) vs h = on_conn c (push_frames vs) h"
proof (induction vs arbitrary: h)
  case Nil
  then show ?case by (simp add: push_frames_def on_conn_def)
next
  case (Cons v vs)
  then have "has_room c [v] h" "has_room c vs (on_conn c (push_frames [v]) h)"
    by (simp_all add: has_room_def push_frames_def)
  with Cons.IH show ?case by (simp add: tell_room on_conn_twice) (simp add: push_frames_def add.assoc)
qed

lemma has_room_frame: "hb_conns h' = hb_conns h \<Longrightarrow> has_room c vs h' = has_room c vs h"
  by (simp add: has_room_def)

section \<open>Properties\<close>



text \<open>C19: the ring buffer of accepted ids implements the list of the last 4096: after any sends of any agents, an id
  counts as used for a key if and only if it is among the last 4096 that were accepted from this key.\<close>

theorem sent_ids_are_the_last:
  assumes "boot admin master st sec t n = Some h"
  shows "ids_seen p i (fold (\<lambda>(p, k). ids_add p k) as h) \<longleftrightarrow> i \<in> set (last_n sendIDCap (map snd (filter (\<lambda>a. fst a = p) as)))"
proof -
  have "\<forall>p. ring_ok p h" using boot_bounded [OF assms] by (simp add: bounded_def)
  from ids_adds_log [OF this, of p as] have "ids_log p (fold (\<lambda>(p, k). ids_add p k) as h)
      = last_n sendIDCap (map snd (filter (\<lambda>a. fst a = p) as))"
    by (simp add: boot_fields [OF assms] ids_log_def ids_of_def)
  then show ?thesis by (simp add: ids_seen_def flip: set_ids_log)
qed

lemma sent_ids_are_the_last_witness:
  "\<exists>h. boot [] ''m'' None None 0 0 = Some h \<and> ids_seen ''p'' ''x'' (ids_add ''q'' ''y'' (ids_add ''p'' ''x'' h))
     \<and> \<not> ids_seen ''p'' ''y'' (ids_add ''q'' ''y'' (ids_add ''p'' ''x'' h))"
proof -
  obtain h where h: "boot [] ''m'' None None 0 0 = Some h" by (simp add: boot_def)
  from sent_ids_are_the_last [OF h, of "''p''" "''x''" "[(''p'', ''x''), (''q'', ''y'')]"]
    sent_ids_are_the_last [OF h, of "''p''" "''y''" "[(''p'', ''x''), (''q'', ''y'')]"] h
  show ?thesis by (auto simp: sendIDCap_def)
qed

text \<open>C20: a flush hands over what was queued while the agent was away: the last 100 messages in the order they came in,
  then the error \<open>mailbox_full\<close> if and only if there were more, then the count; the mailbox is empty after it, and
  nobody else's mailbox is touched.\<close>

theorem flush_hands_over_mailbox:
  assumes "i = hc_agentID (hb_conns h c)" "mailbox_of i h = []" "i \<notin> set (hb_dropped h)"
    and "out = last_n mailboxCap vs
        @ (if mailboxCap < length vs then [err_frame ''mailbox_full'' ''mailbox overflowed; oldest messages dropped''] else [])
        @ [flushed_frame (min mailboxCap (length vs))]"
    and "has_room c out h"
    and "h' = handleFlush c (fold (enqueue i) vs h)"
  shows "hc_queue (hb_conns h' c) = hc_queue (hb_conns h c) @ out \<and> mailbox_of i h' = [] \<and> i \<notin> set (hb_dropped h')
    \<and> (\<forall>j. j \<noteq> i \<longrightarrow> mailbox_of j h' = mailbox_of j h)"
proof -
  let ?h = "fold (enqueue i) vs h" and ?e = "err_frame ''mailbox_full'' ''mailbox overflowed; oldest messages dropped''"
  have box: "mailbox_of i ?h = last_n mailboxCap vs" "i \<in> set (hb_dropped ?h) \<longleftrightarrow> mailboxCap < length vs"
    using enqueue_all [of i vs h] assms(2,3) by (auto simp: last_n_def)
  have other: "j \<noteq> i \<Longrightarrow> mailbox_of j ?h = mailbox_of j h" for j
    by (induction vs arbitrary: h) (simp_all add: mailbox_enqueue)
  obtain h1 where h1: "drain i ?h = ((last_n mailboxCap vs, mailboxCap < length vs), h1)"
    by (simp add: drain_def box)
  then have conns: "hb_conns h1 = hb_conns h" and empty: "mailbox_of i h1 = []" "i \<notin> set (hb_dropped h1)"
    and same: "j \<noteq> i \<Longrightarrow> mailbox_of j h1 = mailbox_of j h" for j
    using other [of j] by (auto simp: drain_def mailbox_of_def)
  have "hc_agentID (hb_conns ?h c) = i" using assms(1) by simp
  then have "h' = fold (\<lambda>v. tell v c) out h1"
    unfolding assms(6) handleFlush_def by (simp add: h1 Let_def sendErr_def assms(4))
  also have "\<dots> = on_conn c (push_frames out) h1"
    by (rule tells_room) (use assms(5) has_room_frame [OF conns] in simp)
  finally show ?thesis
    using empty same by (simp add: conns push_frames_def mailbox_of_def)
qed

lemma flush_hands_over_mailbox_witness:
  "\<exists>h'. hc_queue (hb_conns h' 0) = [JNull, flushed_frame 1] \<and> mailbox_of [] h' = []"
proof -
  let ?h = "newHub [] ''m'' None None 0 0"
  have "frame_bytes JNull + frame_bytes (flushed_frame 1) \<le> 12 * length (json_text JNull) + 12 * length (json_text (flushed_frame 1))"
    by (rule add_mono frame_bytes_le)+
  also have "\<dots> \<le> 360"
    by (simp add: json_text_def flushed_frame_def int_field_def quote_def esc_def code_def brk_def colon_def int_str_def nat_str_digit)
  finally have "has_room 0 [JNull, flushed_frame 1] ?h" by (simp add: has_room_def newHub_def new_conn_def maxQueuedBytes_def)
  with flush_hands_over_mailbox [of "[]" ?h 0 "[JNull, flushed_frame 1]" "[JNull]", OF _ _ _ _ _ HOL.refl]
  have "hc_queue (hb_conns (handleFlush 0 (fold (enqueue []) [JNull] ?h)) 0) = [JNull, flushed_frame 1]
      \<and> mailbox_of [] (handleFlush 0 (fold (enqueue []) [JNull] ?h)) = []"
    by (simp add: newHub_def new_conn_def mailbox_of_def mailboxCap_def del: fold.simps)
  then show ?thesis by blast
qed

end
