(* ===== verification/Hub_Fanout.thy ===== *)
theory Hub_Fanout
  imports Hub_Bounds
begin

text \<open>
  What a frame that passes all checks makes the hub do: a \<open>hello\<close> lists the connection under the id of its key, a message
  to a channel reaches every member and nobody else.
\<close>

section \<open>Sending to several connections\<close>

lemma fold_tell_other: "d \<notin> set cs \<Longrightarrow> hb_conns (fold (tell v) cs h) d = hb_conns h d"
  by (induction cs arbitrary: h) (simp_all add: tell_other)

lemma fold_tell_room:
  "distinct cs \<Longrightarrow> d \<in> set cs \<Longrightarrow> has_room d [v] h \<Longrightarrow> hb_conns (fold (tell v) cs h) d = push_frames [v] (hb_conns h d)"
proof (induction cs arbitrary: h)
  case (Cons c cs)
  show ?case
  proof (cases "d = c")
    case True
    with Cons.prems show ?thesis by (simp add: fold_tell_other tell_room)
  next
    case False
    then have same: "hb_conns (tell v c h) d = hb_conns h d" by (simp add: tell_other)
    with Cons.prems have "has_room d [v] (tell v c h)" by (simp add: has_room_def)
    with Cons.IH [of "tell v c h"] Cons.prems False same show ?thesis by simp
  qed
qed simp

lemma sendPresence_other: "c \<notin> set ps \<Longrightarrow> hb_conns (sendPresence ps i n x p b h) c = hb_conns h c"
  by (simp add: sendPresence_def fold_tell_other)

lemma fold_enqueue:
  assumes "distinct is"
  shows "mailbox_of j (fold (\<lambda>i. enqueue i v) is h) = (if j \<in> set is then last_n mailboxCap (mailbox_of j h @ [v]) else mailbox_of j h)"
  using assms by (induction "is" arbitrary: h) (auto simp: mailbox_enqueue)

lemma fold_enqueue_conns' [simp]: "hb_conns (fold (\<lambda>i. enqueue i v) is h) = hb_conns h"
  by (induction "is" arbitrary: h) simp_all

lemma set_online: "set (List.map_filter (jm_get m) is) = {d. \<exists>i \<in> set is. jm_get m i = Some d}"
  by (auto simp: List.map_filter_def image_iff) force

lemma clients_distinct:
  assumes "registry_ok C h" "jm_get (hb_clients h) i = Some d" "jm_get (hb_clients h) j = Some d"
  shows "i = j"
  using listed_client [OF assms(1,2)] listed_client [OF assms(1,3)] by (simp add: listed_ok_def Let_def)

lemma distinct_online:
  assumes "registry_ok C h" "distinct is"
  shows "distinct (List.map_filter (jm_get (hb_clients h)) is)"
  using assms(2)
proof (induction "is")
  case (Cons i "is")
  have "d \<notin> set (List.map_filter (jm_get (hb_clients h)) is)" if "jm_get (hb_clients h) i = Some d" for d
    using clients_distinct [OF assms(1) that] Cons.prems by (auto simp: set_online)
  with Cons show ?case by (auto simp: List.map_filter_simps split: option.splits)
qed (simp add: List.map_filter_simps)

lemma tell_mail [simp]: "mailbox_of i (tell v c h) = mailbox_of i h"
  unfolding mailbox_of_def talked_fields(5) [OF talked_tell] ..

lemma fold_tell_mail [simp]: "mailbox_of i (fold (tell v) cs h) = mailbox_of i h"
  by (induction cs arbitrary: h) simp_all

lemma touch_fields [simp]:
  "hb_conns (touchLastSeen i h) = hb_conns h" "hb_clients (touchLastSeen i h) = hb_clients h" "hb_channels (touchLastSeen i h) = hb_channels h"
  "mailbox_of j (touchLastSeen i h) = mailbox_of j h" "hb_clock (touchLastSeen i h) = hb_clock h" "ids_seen p k (touchLastSeen i h) = ids_seen p k h"
  "hb_ids (touchLastSeen i h) = hb_ids h" "hb_next (touchLastSeen i h) = hb_next h"
  by (simp_all add: touchLastSeen_def mailbox_of_def ids_seen_def ids_of_def split: option.splits)

section \<open>A message to a channel\<close>

definition posts_to :: "henv \<Rightarrow> nat \<Rightarrow> string \<Rightarrow> gframe \<Rightarrow> hchannel \<Rightarrow> hub \<Rightarrow> bool" where
  \<comment> \<open>the frame is a \<open>send\<close> to the channel that passes every check\<close>
  "posts_to E c data f ch h =
     (reading c h \<and> hc_reject (hb_conns h c) = None \<and> length (utf8 data) \<le> maxFrameBytes \<and> accepts E c f data h
      \<and> tsFresh (hb_clock h) (f_ts f) \<and> f_id f \<noteq> [] \<and> \<not> ids_seen (hc_pubkey (hb_conns h c)) (send_key f) h
      \<and> f_to f = [] \<and> jm_get (hb_channels h) (f_channel f) = Some ch \<and> hc_agentID (hb_conns h c) \<in> set (cr_members ch)
      \<and> allows (he_crypto E) ch (hc_pubkey (hb_conns h c)))"

lemma posted:
  assumes "posts_to E c data f ch h"
  shows "hub_event E (HMessage c (Some data)) h
    = Some (ids_add (hc_pubkey (hb_conns h c)) (send_key f)
        (fold (\<lambda>i. enqueue i (relay_of (hc_agentID (hb_conns h c)) f)) (filter (\<lambda>m. jm_get (hb_clients h) m = None) (cr_members ch))
          (fold (tell (relay_of (hc_agentID (hb_conns h c)) f)) (List.map_filter (jm_get (hb_clients h)) (cr_members ch))
            (touchLastSeen (hc_agentID (hb_conns h c)) h))))"
  using assms
  by (auto simp: posts_to_def accepts_def read_message_def hub_dispatch_def run_handler_def handleSend_def deliverChannel_def channelTargets_def
      relay_of_def Let_def)

lemma fans_out:
  assumes "boot admin master st sec t n = Some h0" "hub_run E es h0 = Some h" "posts_to E c data f ch h"
    and "hub_event E (HMessage c (Some data)) h = Some h'" "msg = hub_msg (f_channel f) [] (hc_agentID (hb_conns h c)) f"
  shows "(\<forall>m d. m \<in> set (cr_members ch) \<and> jm_get (hb_clients h) m = Some d \<and> has_room d [msg] h
        \<longrightarrow> hc_queue (hb_conns h' d) = hc_queue (hb_conns h d) @ [msg])
    \<and> (\<forall>m \<in> set (cr_members ch). jm_get (hb_clients h) m = None \<longrightarrow> mailbox_of m h' = last_n mailboxCap (mailbox_of m h @ [msg]))
    \<and> (\<forall>d. (\<forall>m \<in> set (cr_members ch). jm_get (hb_clients h) m \<noteq> Some d) \<longrightarrow> hb_conns h' d = hb_conns h d)
    \<and> (\<forall>i. i \<notin> set (cr_members ch) \<longrightarrow> mailbox_of i h' = mailbox_of i h)"
proof -
  have reg: "registry_ok (he_crypto E) h"
    using hub_registry.run_kept [OF boot_registry [OF assms(1)] _ assms(2)] by simp
  have "bounded h" using hub_bounds.run_kept [OF boot_bounded [OF assms(1)] _ assms(2)] by simp
  with assms(3) have dist: "distinct (cr_members ch)" by (auto simp: bounded_def posts_to_def)
  have msg: "relay_of (hc_agentID (hb_conns h c)) f = msg"
    using assms(3,5) by (simp add: posts_to_def relay_of_def)
  let ?on = "List.map_filter (jm_get (hb_clients h)) (cr_members ch)"
    and ?off = "filter (\<lambda>m. jm_get (hb_clients h) m = None) (cr_members ch)" and ?h = "touchLastSeen (hc_agentID (hb_conns h c)) h"
  have h': "h' = ids_add (hc_pubkey (hb_conns h c)) (send_key f) (fold (\<lambda>i. enqueue i msg) ?off (fold (tell msg) ?on ?h))"
    using assms(4) unfolding posted [OF assms(3)] msg by simp
  have conns: "hb_conns h' = hb_conns (fold (tell msg) ?on ?h)" by (simp add: h')
  have "hb_conns h' d = push_frames [msg] (hb_conns h d)"
    if "m \<in> set (cr_members ch)" "jm_get (hb_clients h) m = Some d" "has_room d [msg] h" for m d
    unfolding conns
    by (subst fold_tell_room) (use that distinct_online [OF reg dist] in \<open>auto simp: set_online has_room_def\<close>)
  moreover have "hb_conns h' d = hb_conns h d" if "\<forall>m \<in> set (cr_members ch). jm_get (hb_clients h) m \<noteq> Some d" for d
    unfolding conns by (subst fold_tell_other) (use that in \<open>auto simp: set_online\<close>)
  moreover have "mailbox_of i h' = (if i \<in> set ?off then last_n mailboxCap (mailbox_of i h @ [msg]) else mailbox_of i h)" for i
    using dist by (simp add: h' fold_enqueue)
  ultimately show ?thesis by (auto simp: push_frames_def)
qed

section \<open>A hello\<close>

definition greets :: "henv \<Rightarrow> nat \<Rightarrow> string \<Rightarrow> gframe \<Rightarrow> hub \<Rightarrow> bool" where
  \<comment> \<open>the frame is a \<open>hello\<close> that passes every check\<close>
  "greets E c data f h =
     (reading c h \<and> hc_reject (hb_conns h c) = None \<and> \<not> hc_authed (hb_conns h c) \<and> length (utf8 data) \<le> maxFrameBytes
      \<and> (\<exists>raw. parseFrame data = Some (f, raw) \<and> frameOp f raw = ''hello'' \<and> verifySignature (he_crypto E) f raw (f_pubkey f) = None)
      \<and> nonceMinLen \<le> length (utf8 (f_nonce f)) \<and> tsFresh (hb_clock h) (f_ts f) \<and> fst (nonce_check (f_pubkey f) (f_nonce f) h)
      \<and> (hc_auth (hb_conns h c) = BySecret \<longrightarrow> f_name f = hc_bound (hb_conns h c)))"

lemma nonce_touch:
  "fst (nonce_check p n (touchLastSeen i h)) = fst (nonce_check p n h)"
  by (auto simp: nonce_check_def touchLastSeen_def Let_def split: option.splits)

lemma greeted_event:
  assumes "greets E c data f h" "h1 = snd (nonce_check (f_pubkey f) (f_nonce f) (touchLastSeen (hc_agentID (hb_conns h c)) h))"
    and "h2 = on_conn c (set_identity (he_crypto E) f) h1"
  shows "hub_event E (HMessage c (Some data)) h = Some (tell (welcome_frame (hc_agentID (hb_conns h2 c))) c (register c h2))"
proof -
  obtain raw where p: "parseFrame data = Some (f, raw)" "frameOp f raw = ''hello''" "verifySignature (he_crypto E) f raw (f_pubkey f) = None"
    using assms(1) by (auto simp: greets_def)
  let ?h = "touchLastSeen (hc_agentID (hb_conns h c)) h"
  have "checkHello E f raw ?h = (None, h1)"
    using assms(1,2) p nonce_touch [of "f_pubkey f" "f_nonce f" "hc_agentID (hb_conns h c)" h]
    by (simp add: checkHello_def greets_def case_prod_unfold Let_def)
  then show ?thesis
    using assms(1) p
    by (auto simp: greets_def read_message_def hub_dispatch_def run_handler_def handleHello_def hub_welcome_def assms(2,3) Let_def)
qed

lemma nonce_fields [simp]:
  "hb_channels (snd (nonce_check p n h)) = hb_channels h" "hb_ids (snd (nonce_check p n h)) = hb_ids h"
  "hb_clock (snd (nonce_check p n h)) = hb_clock h" "hb_next (snd (nonce_check p n h)) = hb_next h"
  "hb_conns (snd (nonce_check p n h)) = hb_conns h" "hb_clients (snd (nonce_check p n h)) = hb_clients h"
  by (simp_all add: nonce_check_def Let_def)

lemma closed_tell: "hc_closed (hb_conns h d) \<Longrightarrow> hc_closed (hb_conns (tell v c h) d)"
  by (auto simp: tell_def hub_send_def drop_conn_def Let_def)

lemma closed_fold: "hc_closed (hb_conns h d) \<Longrightarrow> hc_closed (hb_conns (fold (tell v) cs h) d)"
  by (induction cs arbitrary: h) (simp_all add: closed_tell)

lemma peers_other: "d \<in> set (presencePeers i h) \<Longrightarrow> \<exists>m. m \<noteq> i \<and> jm_get (hb_clients h) m = Some d"
  by (auto simp: presencePeers_def List.map_filter_def split: if_splits)

lemma list_client_same [simp]:
  "hb_channels (list_client c h) = hb_channels h" "hb_ids (list_client c h) = hb_ids h" "hb_clock (list_client c h) = hb_clock h"
  "hb_next (list_client c h) = hb_next h"
  by (simp_all add: list_client_def evict_old_def upsertAgent_def drop_conn_def Let_def split: option.splits)

lemma list_client_fields:
  assumes "cl = hb_conns h c"
  shows "hb_conns (list_client c h) c = cl" "hb_clients (list_client c h) = jm_set (hc_agentID cl) c (hb_clients h)"
    and "jm_get (hb_agents (list_client c h)) (hc_agentID cl)
      = Some \<lparr>ae_pubkey = hc_pubkey cl, ae_x25519 = hc_x25519 cl, ae_name = hc_name cl, ae_online = True, ae_lastSeen = hb_clock h\<rparr>"
    and "jm_get (hb_clients h) (hc_agentID cl) = Some d \<Longrightarrow> d \<noteq> c \<Longrightarrow> hc_closed (hb_conns (list_client c h) d)"
  unfolding assms by (auto simp: list_client_def evict_old_def upsertAgent_def drop_conn_def Let_def split: option.splits)

text \<open>The connection is the one of the agent afterwards, the agent's old one is dropped, and the answer is \<open>welcome\<close>.\<close>

lemma hello_lists:
  assumes reg: "registry_ok (he_crypto E) h" and g: "greets E c data f h" and ev: "hub_event E (HMessage c (Some data)) h = Some h'"
    and pub: "go_base64 (f_pubkey f) = Some b" "i = agentIDFor (he_crypto E) b" and room: "has_room c [welcome_frame i] h"
  shows "hc_authed (hb_conns h' c)" "hc_agentID (hb_conns h' c) = i" "jm_get (hb_clients h') i = Some c"
    and "recorded (f_pubkey f) (f_x25519 f) (f_name f) (jm_get (hb_agents h') i)"
    and "hc_queue (hb_conns h' c) = hc_queue (hb_conns h c) @ [welcome_frame i]"
    and "jm_get (hb_clients h) i = Some d \<Longrightarrow> hc_closed (hb_conns h' d)"
    and "hb_conns h' c = push_frames [welcome_frame i] (set_identity (he_crypto E) f (hb_conns h c))"
    and "hb_channels h' = hb_channels h" "hb_ids h' = hb_ids h" "hb_clock h' = hb_clock h" "hb_next h' = hb_next h"
proof -
  let ?cl = "set_identity (he_crypto E) f (hb_conns h c)"
  obtain h2 where h2: "h2 = on_conn c (set_identity (he_crypto E) f)
      (snd (nonce_check (f_pubkey f) (f_nonce f) (touchLastSeen (hc_agentID (hb_conns h c)) h)))" by blast
  have cl: "hb_conns h2 c = ?cl" "hc_agentID ?cl = i" and clients: "hb_clients h2 = hb_clients h"
    by (simp_all add: h2 set_identity_def pub)
  let ?h3 = "list_client c h2"
  note l = list_client_fields [OF cl(1) [symmetric], unfolded cl(2)]
  have new: "jm_get (hb_clients h) m \<noteq> Some c" for m
    using listed_client [OF reg, of m c] g by (auto simp: greets_def listed_ok_def Let_def)
  then have "c \<notin> set (presencePeers i ?h3)"
    using peers_other [of c i ?h3] by (auto simp: l(2) clients split: if_splits)
  note other = sendPresence_other [OF this]
  obtain h4 where def4: "h4 = sendPresence (presencePeers i ?h3) i (hc_name ?cl) (hc_x25519 ?cl) (hc_pubkey ?cl) True ?h3"
    by blast
  have h4: "talked ?h3 h4" "hb_conns h4 c = ?cl" "h' = tell (welcome_frame i) c h4"
    using ev greeted_event [OF g HOL.refl HOL.refl, folded h2]
    by (simp_all add: def4 talked_sendPresence other l(1) register_def Let_def cl)
  have closed: "hc_closed (hb_conns ?h3 d) \<Longrightarrow> hc_closed (hb_conns h4 d)" for d
    by (simp add: def4 sendPresence_def closed_fold)
  have "has_room c [welcome_frame i] h4"
    using room by (simp add: has_room_def h4(2) set_identity_def)
  then show c: "hb_conns h' c = push_frames [welcome_frame i] ?cl" by (simp add: h4 tell_room)
  then show "hc_authed (hb_conns h' c)" "hc_agentID (hb_conns h' c) = i"
    "hc_queue (hb_conns h' c) = hc_queue (hb_conns h c) @ [welcome_frame i]"
    using cl(2) by (simp_all add: push_frames_def set_identity_def)
  note t = talked_trans [OF h4(1) talked_tell [of h4 "welcome_frame i" c], folded h4(3)]
  show "jm_get (hb_clients h') i = Some c" by (simp add: talked_fields(2) [OF t] l(2))
  show "hb_channels h' = hb_channels h" "hb_ids h' = hb_ids h" "hb_clock h' = hb_clock h" "hb_next h' = hb_next h"
    by (simp_all add: talked_fields [OF t] h2)
  show "recorded (f_pubkey f) (f_x25519 f) (f_name f) (jm_get (hb_agents h') i)"
    by (simp add: talked_fields(3) [OF t] l(3) set_identity_def)
  assume "jm_get (hb_clients h) i = Some d"
  with new have "hc_closed (hb_conns h4 d)" by (intro closed l(4)) (auto simp: clients)
  then show "hc_closed (hb_conns h' d)" by (simp add: h4(3) closed_tell)
qed

section \<open>Properties\<close>

text \<open>C11: a message to a channel reaches exactly its members: after the frame is handled, every member with a connection that
  has room has the message at the end of its queue, every other member without a connection has it as the newest in its
  mailbox, and no other connection and nobody else's mailbox is touched.\<close>

theorem channel_message_fans_out:
  assumes "boot admin master st sec t n = Some h0" "hub_run E es h0 = Some h" "posts_to E c data f ch h"
    and "hub_event E (HMessage c (Some data)) h = Some h'" "msg = hub_msg (f_channel f) [] (hc_agentID (hb_conns h c)) f"
  shows "(\<forall>m d. m \<in> set (cr_members ch) \<and> jm_get (hb_clients h) m = Some d \<and> has_room d [msg] h
        \<longrightarrow> hc_queue (hb_conns h' d) = hc_queue (hb_conns h d) @ [msg])
    \<and> (\<forall>m \<in> set (cr_members ch). jm_get (hb_clients h) m = None \<longrightarrow> mailbox_of m h' = last_n mailboxCap (mailbox_of m h @ [msg]))
    \<and> (\<forall>d. (\<forall>m \<in> set (cr_members ch). jm_get (hb_clients h) m \<noteq> Some d) \<longrightarrow> hb_conns h' d = hb_conns h d)
    \<and> (\<forall>i. i \<notin> set (cr_members ch) \<longrightarrow> mailbox_of i h' = mailbox_of i h)"
  by (rule fans_out [OF assms])

text \<open>C12: a direct message to an agent the hub knows is never lost on the way: it is accepted, and then either the agent has a
  connection with room and the message is at the end of its queue, or it is the newest in the agent's mailbox and no
  queue has changed; nobody else's mailbox is touched.\<close>

theorem direct_message_queued_or_kept:
  assumes "jm_has (hb_agents h) (f_to f)" "deliverDM c f h = (ok, h')" "msg = hub_msg [] (f_to f) (hc_agentID (hb_conns h c)) f"
  shows "ok \<and> (\<forall>i. i \<noteq> f_to f \<longrightarrow> mailbox_of i h' = mailbox_of i h)
    \<and> ((\<exists>d. jm_get (hb_clients h) (f_to f) = Some d \<and> has_room d [msg] h
          \<and> hb_conns h' = (hb_conns h)(d := push_frames [msg] (hb_conns h d)) \<and> mailbox_of (f_to f) h' = mailbox_of (f_to f) h)
       \<or> (mailbox_of (f_to f) h' = last_n mailboxCap (mailbox_of (f_to f) h @ [msg])
          \<and> (\<forall>d. hc_queue (hb_conns h' d) = hc_queue (hb_conns h d))))"
proof (cases "jm_get (hb_clients h) (f_to f)")
  case None
  with assms show ?thesis by (auto simp: deliverDM_def Let_def mailbox_enqueue)
next
  case (Some d)
  show ?thesis
  proof (cases "has_room d [msg] h")
    case True
    with Some assms have "ok" "h' = on_conn d (push_frames [msg]) h"
      by (simp_all add: deliverDM_def Let_def hub_send_room)
    with Some True show ?thesis by (auto simp: mailbox_of_def fun_eq_iff)
  next
    case False
    then have s: "hub_send d msg h = (False, snd (hub_send d msg h))" "hc_queue (hb_conns (snd (hub_send d msg h)) e) = hc_queue (hb_conns h e)"
      "mailbox_of i (snd (hub_send d msg h)) = mailbox_of i h" for e i
      using tell_mail [of i msg d h]
      by (auto simp: has_room_def hub_send_def drop_conn_def Let_def mailbox_of_def)
    obtain h1 where h1: "hub_send d msg h = (False, h1)" using s(1) by blast
    with Some assms have "ok" "h' = enqueue (f_to f) msg h1"
      by (simp_all add: deliverDM_def Let_def)
    with s(2,3) show ?thesis by (simp add: h1 mailbox_enqueue)
  qed
qed

lemma direct_message_queued_or_kept_witness:
  "\<exists>h' msg. mailbox_of ''ada'' h' = [msg] \<and> is_msg msg"
proof -
  let ?h = "newHub [] ''m'' None None 0 0
    \<lparr>hb_agents := [(''ada'', \<lparr>ae_pubkey = [], ae_x25519 = [], ae_name = [], ae_online = False, ae_lastSeen = 0\<rparr>)]\<rparr>"
  let ?f = "(frame_of [])\<lparr>f_to := ''ada''\<rparr>"
  obtain ok h' where d: "deliverDM 0 ?f ?h = (ok, h')" by (cases "deliverDM 0 ?f ?h")
  from direct_message_queued_or_kept [OF _ d HOL.refl] have "mailbox_of ''ada'' h' = [hub_msg [] ''ada'' [] ?f]"
    by (simp add: jm_has_def newHub_def new_conn_def mailbox_of_def mailboxCap_def)
  moreover have "is_msg (hub_msg [] ''ada'' [] ?f)" by (simp add: is_msg_def hub_msg_def)
  ultimately show ?thesis by blast
qed

end
