(* ===== verification/Hub_Origin.thy ===== *)
theory Hub_Origin
  imports Hub_Bounds
begin

text \<open>
  Where the messages come from: the hub has no keys, yet every message it holds or has sent goes back to a frame it got,
  signed with the key of the agent the message names as its sender.
\<close>

section \<open>The invariant\<close>

definition authentic :: "henv \<Rightarrow> (event \<Rightarrow> bool) \<Rightarrow> json \<Rightarrow> bool" where
  \<comment> \<open>if it is a message, a frame that came in as one of the events asked for it, under the key of its sender\<close>
  "authentic E S v =
     (is_msg v \<longrightarrow>
        (\<exists>c data f raw i key. S (HMessage c (Some data)) \<and> parseFrame data = Some (f, raw) \<and> frameOp f raw = ''send''
           \<and> verifySignature (he_crypto E) f raw key = None \<and> key_id (he_crypto E) i key \<and> v = relay_of i f))"

definition held :: "hub \<Rightarrow> json \<Rightarrow> bool" where
  "held h v =
     ((\<exists>c. v \<in> set (hc_queue (hb_conns h c)) \<or> v \<in> set (hc_wire (hb_conns h c)) \<or> hc_reject (hb_conns h c) = Some v)
      \<or> (\<exists>i. v \<in> set (mailbox_of i h)))"

definition origin_ok :: "henv \<Rightarrow> (event \<Rightarrow> bool) \<Rightarrow> hub \<Rightarrow> bool" where
  "origin_ok E S h = (registry_ok (he_crypto E) h \<and> (\<forall>v. held h v \<longrightarrow> authentic E S v))"

lemma origin_step:
  "origin_ok E S h \<Longrightarrow> registry_ok (he_crypto E) h' \<Longrightarrow> (\<And>v. held h' v \<Longrightarrow> held h v \<or> authentic E S v) \<Longrightarrow> origin_ok E S h'"
  by (auto simp: origin_ok_def)

lemma origin_registry: "origin_ok E S h \<Longrightarrow> registry_ok (he_crypto E) h"
  by (simp add: origin_ok_def)

lemma plain_authentic: "\<not> is_msg v \<Longrightarrow> authentic E S v"
  by (simp add: authentic_def)

lemma held_frame:
  assumes "\<And>c. set (hc_queue (hb_conns h' c)) \<subseteq> set (hc_queue (hb_conns h c))" "\<And>c. hc_wire (hb_conns h' c) = hc_wire (hb_conns h c)"
    and "\<And>c. hc_reject (hb_conns h' c) = hc_reject (hb_conns h c)" "\<And>i. set (mailbox_of i h') \<subseteq> set (mailbox_of i h)"
  shows "held h' v \<Longrightarrow> held h v"
  using assms unfolding held_def by (metis subsetD)

lemma held_same:
  "hb_conns h' = hb_conns h \<Longrightarrow> hb_mailbox h' = hb_mailbox h \<Longrightarrow> held h' v = held h v"
  by (simp add: held_def mailbox_of_def)

lemma origin_frame:
  "origin_ok E S h \<Longrightarrow> registry_ok (he_crypto E) h' \<Longrightarrow> hb_conns h' = hb_conns h \<Longrightarrow> hb_mailbox h' = hb_mailbox h \<Longrightarrow> origin_ok E S h'"
  using held_same [of h' h] by (simp add: origin_ok_def)

lemma kept_mail:
  "hb_mailbox (touchLastSeen i h) = hb_mailbox h" "hb_mailbox (snd (nonce_check p n h)) = hb_mailbox h"
  by (simp_all add: touchLastSeen_def nonce_check_def Let_def split: option.splits)

lemma held_tell: "held (tell v c h) w \<Longrightarrow> held h w \<or> w = v"
  by (auto simp: held_def tell_def hub_send_def drop_conn_def mailbox_of_def Let_def split: if_splits)

lemma held_enqueue: "held (enqueue i v h) w \<Longrightarrow> held h w \<or> w = v"
  using set_last_n [of mailboxCap "mailbox_of i h @ [v]"] by (auto simp: held_def mailbox_enqueue split: if_splits)

lemma held_drop: "held (drop_conn c h) v \<Longrightarrow> held h v"
  by (rule held_frame) (simp_all add: drop_conn_def mailbox_of_def)

lemma held_reject: "held (reject c cd m h) v \<Longrightarrow> held h v \<or> v = err_frame cd m"
  by (auto simp: held_def reject_def mailbox_of_def split: if_splits)

lemma held_listed: "held (list_client c (on_conn c (set_identity C f) h)) v \<Longrightarrow> held h v"
  by (rule held_frame)
    (auto simp: list_client_def evict_old_def upsertAgent_def drop_conn_def set_identity_def mailbox_of_def Let_def split: option.splits)

lemma held_open: "held (open_conn a b h) v \<Longrightarrow> held h v"
  by (auto simp: held_def open_conn_def new_conn_def mailbox_of_def split: if_splits)

lemma held_write:
  assumes "hc_queue (hb_conns h c) = v # vs" "held (on_conn c (write_next v vs) h) w"
  shows "held h w"
proof -
  have "held h v" using assms(1) by (auto simp: held_def intro!: exI [of _ c])
  moreover have "held h x" if "x \<in> set vs" for x using assms(1) that by (auto simp: held_def intro!: exI [of _ c])
  ultimately show ?thesis
    using assms(2) by (auto simp: held_def write_next_def mailbox_of_def split: if_splits)
qed

lemma held_write_reject:
  assumes "hc_reject (hb_conns h c) = Some v" "held (on_conn c (\<lambda>cl. cl\<lparr>hc_wire := hc_wire cl @ [v]\<rparr>) h) w"
  shows "held h w"
proof -
  have "held h v" using assms(1) by (auto simp: held_def)
  with assms(2) show ?thesis by (auto simp: held_def mailbox_of_def split: if_splits)
qed

lemma held_evict: "held (evict_agent i h) v \<Longrightarrow> held h v"
  by (rule held_frame) (auto simp: evict_agent_def persistSecrets_def mailbox_of_def Let_def split: option.splits if_splits)

lemma held_drain: "held (snd (drain i h)) v \<Longrightarrow> held h v"
  by (rule held_frame) (auto simp: drain_def mailbox_of_def)

lemma held_gone: "held (on_conn c (hc_gone_update (\<lambda>_. True)) h) v \<Longrightarrow> held h v"
  by (rule held_frame) (auto simp: mailbox_of_def)

interpretation hub_origin: hub_inv E "origin_ok E S" "authentic E S" S for E S
proof unfold_locales
  fix h c data f
  assume I: "origin_ok E S h" and S: "S (HMessage c (Some data))" and a: "accepts E c f data h"
  from a I have "key_id (he_crypto E) (hc_agentID (hb_conns h c)) (hc_pubkey (hb_conns h c))"
    by (simp add: accepts_def origin_ok_def registry_ok_def conn_ok_def Let_def)
  with S a show "authentic E S (relay_of (hc_agentID (hb_conns h c)) f)"
    unfolding authentic_def accepts_def by blast
next
  fix h v i
  show "origin_ok E S h \<Longrightarrow> v \<in> set (mailbox_of i h) \<Longrightarrow> authentic E S v"
    by (auto simp: origin_ok_def held_def)
next
  fix h v c
  show "origin_ok E S h \<Longrightarrow> authentic E S v \<Longrightarrow> origin_ok E S (tell v c h)"
    by (rule origin_step) (auto simp: origin_ok_def hub_registry.told dest: held_tell)
next
  fix h v i
  show "origin_ok E S h \<Longrightarrow> authentic E S v \<Longrightarrow> origin_ok E S (enqueue i v h)"
    by (rule origin_step) (auto simp: origin_ok_def hub_registry.enqueued dest: held_enqueue)
next
  fix h c cd m
  show "origin_ok E S h \<Longrightarrow> origin_ok E S (reject c cd m h)"
    by (rule origin_step) (auto simp: origin_ok_def hub_registry.rejected authentic_def err_frame_def is_msg_def dest!: held_reject)
next
  fix h c f raw
  assume I: "origin_ok E S h" and *: "reading c h" "\<not> hc_authed (hb_conns h c)" "verifySignature (he_crypto E) f raw (f_pubkey f) = None"
    "hc_auth (hb_conns h c) = BySecret \<Longrightarrow> f_name f = hc_bound (hb_conns h c)"
  then have "registry_ok (he_crypto E) (list_client c (on_conn c (set_identity (he_crypto E) f) h))"
    by (intro hub_registry.listed) (auto simp: origin_ok_def)
  with I show "origin_ok E S (list_client c (on_conn c (set_identity (he_crypto E) f) h))"
    by (rule origin_step) (simp add: held_listed)
next
  fix h c v vs
  assume "origin_ok E S h" "hc_queue (hb_conns h c) = v # vs"
  then show "origin_ok E S (on_conn c (write_next v vs) h)"
    using hub_registry.wrote held_write unfolding origin_ok_def by blast
next
  fix h c v
  assume "origin_ok E S h" "hc_reject (hb_conns h c) = Some v"
  then show "origin_ok E S (on_conn c (\<lambda>cl. cl\<lparr>hc_wire := hc_wire cl @ [v]\<rparr>) h)"
    using hub_registry.wrote_reject held_write_reject unfolding origin_ok_def by blast
next
  fix h i e c
  assume "origin_ok E S h" "jm_get (hb_clients h) (hc_agentID (hb_conns h c)) = Some c"
    "jm_get (hb_agents h) (hc_agentID (hb_conns h c)) = Some e"
  then show "origin_ok E S (unlist_client (hc_agentID (hb_conns h c)) e h)"
    using hub_registry.unlisted [of E h c e] held_same [of "unlist_client (hc_agentID (hb_conns h c)) e h" h]
    by (auto simp: origin_ok_def unlist_client_def)
next
  fix h c
  assume "origin_ok E S h" "jm_get (hb_clients h) (hc_agentID (hb_conns h c)) \<noteq> Some c"
  then show "origin_ok E S (on_conn c (hc_gone_update (\<lambda>_. True)) h)"
    using hub_registry.left held_gone unfolding origin_ok_def by blast
next
  fix h c name p
  assume "origin_ok E S h" "hc_auth (hb_conns h c) = ByMaster" "reading c h" "jm_get (hb_channels h) name = None"
  then show "origin_ok E S (newChannel name p h)"
    using hub_registry.created [of E h c name p] held_same [of "newChannel name p h" h]
    by (auto simp: origin_ok_def newChannel_def persistChannels_def)
next
  fix h c name and chan :: hchannel
  assume "origin_ok E S h" "hc_authed (hb_conns h c)" "jm_get (hb_channels h) name = Some chan"
    "allows (he_crypto E) chan (hc_pubkey (hb_conns h c))"
  then show "origin_ok E S (add_member name (hc_agentID (hb_conns h c)) h)"
    using hub_registry.joined [of E h c name chan] held_same [of "add_member name (hc_agentID (hb_conns h c)) h" h]
    by (auto simp: origin_ok_def add_member_def)
next
  fix h c n and hs :: "string list"
  assume "origin_ok E S h" "hc_auth (hb_conns h c) = ByMaster" "reading c h" "hs \<noteq> []"
  then show "origin_ok E S (put_secret n hs h)"
    using hub_registry.issued [of E h c] held_same [of "put_secret n hs h" h]
    by (auto simp: origin_ok_def put_secret_def persistSecrets_def)
next
  fix h hdr q a b
  assume "origin_ok E S h" "matchBearer (he_crypto E) h (wsCredential hdr q) = Some (a, b)"
  then show "origin_ok E S (open_conn a b h)"
    using hub_registry.dialled held_open unfolding origin_ok_def by blast
next
  fix h hdr n "as"
  assume "origin_ok E S h" "adminOK (he_crypto E) h hdr"
  then show "origin_ok E S (setACL n as h)"
    using hub_registry.acl_set [of E h hdr n "as"] held_same [of "setACL n as h" h]
    by (auto simp: origin_ok_def setACL_def persistChannels_def Let_def)
next
  fix h hdr i
  assume "origin_ok E S h" "adminOK (he_crypto E) h hdr"
  then show "origin_ok E S (evict_agent i h)"
    using hub_registry.evicted held_evict unfolding origin_ok_def by blast
next
  fix h c
  show "origin_ok E S h \<Longrightarrow> origin_ok E S (drop_conn c h)"
    by (rule origin_step) (auto simp: origin_ok_def hub_registry.dropped dest: held_drop)
next
  fix h i
  show "origin_ok E S h \<Longrightarrow> origin_ok E S (snd (drain i h))"
    by (rule origin_step) (auto simp: origin_ok_def hub_registry.drained dest: held_drain)
next
  fix h i
  assume I: "origin_ok E S h"
  show "origin_ok E S (touchLastSeen i h)"
    by (rule origin_frame [OF I hub_registry.touched [OF origin_registry [OF I]]]) (simp_all add: kept_mail)
next
  fix h p n
  assume I: "origin_ok E S h"
  show "origin_ok E S (snd (nonce_check p n h))"
    by (rule origin_frame [OF I hub_registry.checked [OF origin_registry [OF I]]]) (simp_all add: kept_mail)
next
  fix h p k
  assume I: "origin_ok E S h"
  show "origin_ok E S (ids_add p k h)"
    by (rule origin_frame [OF I hub_registry.latched [OF origin_registry [OF I]]]) simp_all
next
  fix h t
  assume I: "origin_ok E S h" and t: "hb_clock h \<le> t"
  show "origin_ok E S (h\<lparr>hb_clock := t\<rparr>)"
    by (rule origin_frame [OF I hub_registry.ticked [OF origin_registry [OF I] t]]) simp_all
next
  fix h ok
  assume I: "origin_ok E S h"
  show "origin_ok E S (h\<lparr>hb_writable := ok\<rparr>)"
    by (rule origin_frame [OF I hub_registry.disk [OF origin_registry [OF I] TrueI]]) simp_all
qed (simp add: plain_authentic)

section \<open>Property\<close>

text \<open>C2: the hub vouches for senders: every message that waits for a connection, went out on one or lies in a mailbox
  was asked for by a frame the hub received, signed with a key whose hash is the sender the message names; its
  recipient, id, time stamp and ciphertext are those of the signed frame.\<close>

theorem hub_messages_authentic:
  assumes "boot admin master st sec t n = Some h" "hub_run E es h = Some h'" "held h' v" "is_msg v"
  shows "\<exists>c data f raw i key. HMessage c (Some data) \<in> set es \<and> parseFrame data = Some (f, raw) \<and> frameOp f raw = ''send''
    \<and> verifySignature (he_crypto E) f raw key = None \<and> key_id (he_crypto E) i key \<and> v = relay_of i f"
proof -
  have "\<not> held h w" for w
    by (simp add: held_def boot_fields [OF assms(1)] new_conn_def mailbox_of_def)
  then have "origin_ok E (\<lambda>e. e \<in> set es) h"
    by (simp add: origin_ok_def boot_registry [OF assms(1)])
  then have "origin_ok E (\<lambda>e. e \<in> set es) h'"
    using hub_origin.run_kept [of E "\<lambda>e. e \<in> set es" h es h'] assms(2) by blast
  then show ?thesis using assms(3,4) by (simp add: origin_ok_def authentic_def)
qed

end
