(* ===== verification/Hub_Meet.thy ===== *)
theory Hub_Meet
  imports Hub_Fanout Hub_Origin Dsh_Messages
begin

text \<open>
  The adapters and the hub together: the hello of the harness plugin is accepted by the hub, and what the plugin says in a
  room goes through the hub to a bridge that reads it.
\<close>

section \<open>The frames the plugin signs, as the hub decodes them\<close>

lemma go_values_simps:
  "go_values [] k = []"
  "go_values ((k', v) # ps) k = (if toLowerCase k' = toLowerCase k \<and> v \<noteq> JNull then v # go_values ps k else go_values ps k)"
  by (simp_all add: go_values_def)

lemmas decode_simps = frame_typed_def frame_of_def str_fields_def go_string_def go_int_def go_bool_ok_def agents_ok_def go_values_simps
  toLowerCase_def lower_char_def code_def Let_def int64_def

lemma rank_sig:
  "prop_rank ''sig'' = 4294967295" "prop_rank ''v'' = 4294967295" "prop_rank ''pubkey'' = 4294967295"
  "prop_rank ''x25519'' = 4294967295" "prop_rank ''name'' = 4294967295" "prop_rank ''nonce'' = 4294967295"
  by (simp_all add: prop_rank_def arr_index_def is_digit_def code_def)

definition signed_room_frame :: "string \<Rightarrow> string \<Rightarrow> nat \<Rightarrow> string \<Rightarrow> string \<Rightarrow> frame" where
  "signed_room_frame ch i ts ct s =
     [(''op'', JStr ''send''), (''channel'', JStr ch), (''id'', JStr i), (''ts'', JNum (int ts)), (''ciphertext'', JStr ct), (''sig'', JStr s)]"

lemma put_room_frame: "obj_put ''sig'' (JStr s) (msg_frame ''channel'' ch i ts ct) = signed_room_frame ch i ts ct s"
  by (simp add: msg_frame_def signed_room_frame_def prop_rank_names rank_sig)

definition room_gframe :: "string \<Rightarrow> string \<Rightarrow> nat \<Rightarrow> string \<Rightarrow> string \<Rightarrow> gframe" where
  "room_gframe ch i ts ct s =
     \<lparr>f_op = ''send'', f_pubkey = [], f_x25519 = [], f_name = [], f_nonce = [], f_ts = int ts, f_sig = s, f_agentId = [],
      f_channel = ch, f_chanPubkey = [], f_to = [], f_id = i, f_ciphertext = ct\<rparr>"

lemma room_frame_typed: "int ts < 2 ^ 63 \<Longrightarrow> frame_typed (signed_room_frame ch i ts ct s)"
  by (simp add: signed_room_frame_def decode_simps)

lemma room_frame_of: "int ts < 2 ^ 63 \<Longrightarrow> frame_of (signed_room_frame ch i ts ct s) = room_gframe ch i ts ct s"
  by (simp add: signed_room_frame_def room_gframe_def decode_simps)

lemma flat_msg_frame: "flat (msg_frame ''channel'' ch i ts ct)"
  using msg_frame_ok(1) [of "''channel''" ch i ts ct] by (simp add: flat_def msg_frame_def)

definition signs :: "crypto \<Rightarrow> bytes \<Rightarrow> bool" where
  \<comment> \<open>a key pair of the size Ed25519 has, whose signatures verify and are not empty\<close>
  "signs C k = (ed_correct C \<and> length (ed_public C k) = 32 \<and> (\<forall>m. ed_sign C m k \<noteq> Some []))"

lemma signature_not_empty: "signs C k \<Longrightarrow> signFrame C f k = Inr s \<Longrightarrow> s \<noteq> []"
  by (auto simp: signs_def signFrame_def of_option_def split: option.splits)

lemma room_frame_accepted:
  assumes "signs C k" "signFrame C (msg_frame ''channel'' ch i ts ct) k = Inr s" "int ts < 2 ^ 63"
  shows "parseFrame (json_text (JObj (signed_room_frame ch i ts ct s))) = Some (room_gframe ch i ts ct s, signed_room_frame ch i ts ct s)"
    and "verifySignature C (room_gframe ch i ts ct s) (signed_room_frame ch i ts ct s) (b64e (ed_public C k)) = None"
proof -
  have C: "ed_correct C" "length (ed_public C k) = 32" using assms(1) by (simp_all add: signs_def)
  note hub_verifies [OF C(1) assms(2) signature_not_empty [OF assms(1,2)] C(2) flat_msg_frame,
      of "room_gframe ch i ts ct s", unfolded put_room_frame,
      OF room_frame_typed [OF assms(3)] room_frame_of [OF assms(3), symmetric]]
  note this [unfolded room_gframe_def]
  then show "parseFrame (json_text (JObj (signed_room_frame ch i ts ct s))) = Some (room_gframe ch i ts ct s, signed_room_frame ch i ts ct s)"
    "verifySignature C (room_gframe ch i ts ct s) (signed_room_frame ch i ts ct s) (b64e (ed_public C k)) = None"
    by (simp_all add: msg_frame_def room_gframe_def)
qed

section \<open>A message of the plugin, through the hub, in the bridge\<close>

lemma hub_msg_relays:
  assumes "ch \<noteq> []" "i \<noteq> []" "ct \<noteq> []" "from \<noteq> []"
  shows "\<exists>g. hub_msg ch [] from (room_gframe ch i ts ct s) = JObj g \<and> prop_of g ''channel'' = JStr ch \<and> prop_of g ''id'' = JStr i
    \<and> prop_of g ''ciphertext'' = JStr ct \<and> prop_of g ''from'' = JStr from"
  using assms by (simp add: hub_msg_def room_gframe_def str_field_def int_field_def)

text \<open>So the hub's message is what the adapters take for \<^const>\<open>relayed\<close>.\<close>

lemma relayed_by_hub:
  assumes "ch \<noteq> []" "i \<noteq> []" "ct \<noteq> []" "from \<noteq> []"
  shows "\<exists>g. hub_msg ch [] from (room_gframe ch i ts ct s) = JObj g
    \<and> relayed ''channel'' from (obj_put ''sig'' (JStr s) (msg_frame ''channel'' ch i ts ct)) g"
  using hub_msg_relays [OF assms, of ts s] by (auto simp: relayed_def msg_frame_def)

definition speaks_in :: "henv \<Rightarrow> nat \<Rightarrow> bytes \<Rightarrow> string \<Rightarrow> string \<Rightarrow> nat \<Rightarrow> hub \<Rightarrow> bool" where
  \<comment> \<open>the hub reads from the connection, which is logged in with the public key, is in the channel and may speak there; the
    id is new and the time stamp is not stale\<close>
  "speaks_in E c pub ch i ts h =
     (reading c h \<and> hc_reject (hb_conns h c) = None \<and> hc_authed (hb_conns h c) \<and> hc_pubkey (hb_conns h c) = b64e pub
      \<and> tsFresh (hb_clock h) (int ts) \<and> \<not> ids_seen (b64e pub) ('''' @ ''|'' @ ch @ ''|'' @ i) h
      \<and> (\<exists>x. jm_get (hb_channels h) ch = Some x \<and> hc_agentID (hb_conns h c) \<in> set (cr_members x) \<and> allows (he_crypto E) x (b64e pub)))"

lemma speaks_posts:
  assumes "speaks_in E c (ed_public C k) ch i ts h" "he_crypto E = C" "signs C k"
    and "signFrame C (msg_frame ''channel'' ch i ts ct) k = Inr s" "int ts < 2 ^ 63" "i \<noteq> []"
    and "length (utf8 (json_text (JObj (signed_room_frame ch i ts ct s)))) \<le> maxFrameBytes" "jm_get (hb_channels h) ch = Some x"
  shows "posts_to E c (json_text (JObj (signed_room_frame ch i ts ct s))) (room_gframe ch i ts ct s) x h"
  using assms(1,2,6-8) room_frame_accepted [OF assms(3,4,5)]
  by (auto simp: posts_to_def speaks_in_def accepts_def frameOp_def room_gframe_def send_key_def)

lemma post_signed:
  assumes "dsh_post W fld peer text pub s = (None, s')"
  obtains ct sig j where "seal (ce_crypto W) (ce_random W (n_random s) 12) text (ce_uuid W (n_uuid s)) peer (id_xpriv (d_ident s)) pub = Inr ct"
    and "signFrame (ce_crypto W) (msg_frame fld peer (ce_uuid W (n_uuid s)) (now s) ct) (id_priv (d_ident s)) = Inr sig"
    and "wire s' = wire s @ [(j, JObj (obj_put ''sig'' (JStr sig) (msg_frame fld peer (ce_uuid W (n_uuid s)) (now s) ct)))]"
proof -
  let ?i = "ce_uuid W (n_uuid s)" and ?s = "take_random (take_uuid s)"
  have same: "d_ident ?s = d_ident s" "wire ?s = wire s" by (simp_all add: take_random_def take_uuid_def)
  from assms obtain ct where ct: "seal (ce_crypto W) (ce_random W (n_random s) 12) text ?i peer (id_xpriv (d_ident s)) pub = Inr ct"
    and p: "dsh_signAndSend W (msg_frame fld peer ?i (now s) ct) ?s = (None, s')"
    by (auto simp: dsh_post_def Let_def split: sum.splits)
  from signAndSend_None [OF p] that [OF ct] show thesis unfolding same by blast
qed

lemma seal_not_empty: "seal C n t i p a b = Inr ct \<Longrightarrow> n \<noteq> [] \<Longrightarrow> ct \<noteq> []"
  by (auto simp: seal_def bind_result_Inr_iff Let_def)

lemma agent_id_not_empty: "sha256 C b \<noteq> [] \<Longrightarrow> agentIdOf C b \<noteq> []"
  by (cases "sha256 C b") (simp_all add: agentIdOf_def sha256Hex_def hex_def)

text \<open>C1: what the plugin says in a room arrives in the bridge: the frame its client posts, handled by a hub where the
  plugin's connection is logged in with the plugin's key and is in the room, puts a message at the end of the queue of
  every other member with room, and a bridge that holds the room's private key and knows the plugin's x25519 key
  decrypts it to the text, for this room and with the plugin's id as the sender.\<close>

theorem plugin_to_bridge_through_hub:
  assumes k: "signs C (id_priv (d_ident s))" and sha: "sha256 C (ed_public C (id_priv (d_ident s))) \<noteq> []"
    and C: "dh_commutes C" "aead_correct C" "ce_crypto W = C" "ce_crypto V = C" "he_crypto E = C"
    and n: "length (ce_random W (n_random s) 12) = 12"
    and post: "dsh_post W ''channel'' ch text (x_public C chPriv) s = (None, s')"
    and given: "ch \<noteq> []" "ce_uuid W (n_uuid s) \<noteq> []" "int (now s) < 2 ^ 63"
    and data: "data = json_text (snd (last (wire s')))" "length (utf8 data) \<le> maxFrameBytes"
    and h: "boot admin master st sec t n0 = Some h0" "hub_run E es h0 = Some h"
    and c: "speaks_in E c (ed_public C (id_priv (d_ident s))) ch (ce_uuid W (n_uuid s)) (now s) h"
    and x: "jm_get (hb_channels h) ch = Some x" "m \<in> set (cr_members x)" "jm_get (hb_clients h) m = Some d"
    and r: "jm_get (channels r) ch = Some key" "ch_priv key = Some (b64e chPriv)" "chPriv \<noteq> []"
    and sender: "p_xPub sender = x_public C (id_xpriv (d_ident s))"
  shows "\<exists>h' g. hub_event E (HMessage c (Some data)) h = Some h'
    \<and> (has_room d [JObj g] h \<longrightarrow> hc_queue (hb_conns h' d) = hc_queue (hb_conns h d) @ [JObj g])
    \<and> (\<exists>ev. decryptMsg V g sender r = Inr ev \<and> me_text ev = text \<and> me_channel ev = Some ch \<and> \<not> me_dm ev
         \<and> me_from ev = agentIdOf C (ed_public C (id_priv (d_ident s))))"
proof -
  let ?k = "id_priv (d_ident s)" and ?i = "ce_uuid W (n_uuid s)"
  from post_signed [OF post, unfolded C] obtain ct sig j
    where ct: "seal C (ce_random W (n_random s) 12) text ?i ch (id_xpriv (d_ident s)) (x_public C chPriv) = Inr ct"
      and sig: "signFrame C (msg_frame ''channel'' ch ?i (now s) ct) ?k = Inr sig"
      and w: "wire s' = wire s @ [(j, JObj (obj_put ''sig'' (JStr sig) (msg_frame ''channel'' ch ?i (now s) ct)))]" .
  let ?f = "room_gframe ch ?i (now s) ct sig" and ?id = "agentIdOf C (ed_public C ?k)"
  have d: "data = json_text (JObj (signed_room_frame ch ?i (now s) ct sig))"
    by (simp add: data(1) w put_room_frame)
  have p: "posts_to E c data ?f x h"
    unfolding d by (rule speaks_posts [OF c C(5) k sig given(3,2) _ x(1)]) (use data(2) d in simp)
  obtain h' where h': "hub_event E (HMessage c (Some data)) h = Some h'"
    unfolding posted [OF p] by blast
  have "conn_ok C c h"
    using hub_registry.run_kept [OF boot_registry [OF h(1)] _ h(2)] C(5) by (simp add: registry_ok_def)
  with c have id: "hc_agentID (hb_conns h c) = ?id"
    by (auto simp: conn_ok_def speaks_in_def key_id_def agentIDFor_agentIdOf Let_def)
  have "ce_random W (n_random s) 12 \<noteq> []" using n by auto
  from seal_not_empty [OF ct this] hub_msg_relays [OF given(1,2) _ agent_id_not_empty [OF sha]]
  obtain g where g: "hub_msg ch [] ?id ?f = JObj g" "prop_of g ''channel'' = JStr ch" "prop_of g ''id'' = JStr ?i"
      "prop_of g ''ciphertext'' = JStr ct" "prop_of g ''from'' = JStr ?id"
    by blast
  have "has_room d [JObj g] h \<longrightarrow> hc_queue (hb_conns h' d) = hc_queue (hb_conns h d) @ [JObj g]"
    using fans_out [OF h p h' HOL.refl] x(2,3) g(1) id by (simp add: room_gframe_def)
  moreover have "open_sealed (ce_crypto V) ct ?i ch chPriv (p_xPub sender) = Inr text"
    using open_seal [OF C(1,2) n ct] C(4) sender by simp
  from bridge_reads_channel [OF this r(3) g(2-5) r(1,2)]
  have "\<exists>ev. decryptMsg V g sender r = Inr ev \<and> me_text ev = text \<and> me_channel ev = Some ch \<and> me_from ev = ?id \<and> \<not> me_dm ev" .
  ultimately show ?thesis using h' by blast
qed

section \<open>The hello of the plugin\<close>

definition hello_props :: "string \<Rightarrow> string \<Rightarrow> string \<Rightarrow> string \<Rightarrow> nat \<Rightarrow> frame" where
  "hello_props pub x n nonce ts =
     [(''op'', JStr ''hello''), (''v'', JNum 1), (''pubkey'', JStr pub), (''x25519'', JStr x), (''name'', JStr n),
      (''nonce'', JStr nonce), (''ts'', JNum (int ts))]"

lemma put_hello: "obj_put ''sig'' (JStr s) (hello_props pub x n nonce ts) = hello_props pub x n nonce ts @ [(''sig'', JStr s)]"
  by (simp add: hello_props_def prop_rank_names rank_sig)

lemma flat_hello: "flat (hello_props pub x n nonce ts)"
  by (simp add: flat_def hello_props_def obj_ok_def prop_rank_names rank_sig)

definition hello_gframe :: "string \<Rightarrow> string \<Rightarrow> string \<Rightarrow> string \<Rightarrow> nat \<Rightarrow> string \<Rightarrow> gframe" where
  "hello_gframe pub x n nonce ts s =
     \<lparr>f_op = ''hello'', f_pubkey = pub, f_x25519 = x, f_name = n, f_nonce = nonce, f_ts = int ts, f_sig = s, f_agentId = [],
      f_channel = [], f_chanPubkey = [], f_to = [], f_id = [], f_ciphertext = []\<rparr>"

lemma hello_typed: "int ts < 2 ^ 63 \<Longrightarrow> frame_typed (hello_props pub x n nonce ts @ [(''sig'', JStr s)])"
  by (simp add: hello_props_def decode_simps)

lemma hello_frame_of: "int ts < 2 ^ 63 \<Longrightarrow> frame_of (hello_props pub x n nonce ts @ [(''sig'', JStr s)]) = hello_gframe pub x n nonce ts s"
  by (simp add: hello_props_def hello_gframe_def decode_simps)

lemma hello_accepted:
  assumes "signs C k" "signFrame C (hello_props (b64e (ed_public C k)) x n nonce ts) k = Inr s" "int ts < 2 ^ 63"
  shows "parseFrame (json_text (JObj (hello_props (b64e (ed_public C k)) x n nonce ts @ [(''sig'', JStr s)])))
      = Some (hello_gframe (b64e (ed_public C k)) x n nonce ts s, hello_props (b64e (ed_public C k)) x n nonce ts @ [(''sig'', JStr s)])"
    and "verifySignature C (hello_gframe (b64e (ed_public C k)) x n nonce ts s)
      (hello_props (b64e (ed_public C k)) x n nonce ts @ [(''sig'', JStr s)]) (b64e (ed_public C k)) = None"
proof -
  have C: "ed_correct C" "length (ed_public C k) = 32" using assms(1) by (simp_all add: signs_def)
  note hub_verifies [OF C(1) assms(2) signature_not_empty [OF assms(1,2)] C(2) flat_hello,
      of "hello_gframe (b64e (ed_public C k)) x n nonce ts s", unfolded put_hello,
      OF hello_typed [OF assms(3)] hello_frame_of [OF assms(3), symmetric]]
  then show "parseFrame (json_text (JObj (hello_props (b64e (ed_public C k)) x n nonce ts @ [(''sig'', JStr s)])))
      = Some (hello_gframe (b64e (ed_public C k)) x n nonce ts s, hello_props (b64e (ed_public C k)) x n nonce ts @ [(''sig'', JStr s)])"
    "verifySignature C (hello_gframe (b64e (ed_public C k)) x n nonce ts s)
      (hello_props (b64e (ed_public C k)) x n nonce ts @ [(''sig'', JStr s)]) (b64e (ed_public C k)) = None"
    by (simp_all add: hello_props_def hello_gframe_def)
qed

definition awaits_hello :: "nat \<Rightarrow> string \<Rightarrow> string \<Rightarrow> string \<Rightarrow> nat \<Rightarrow> hub \<Rightarrow> bool" where
  \<comment> \<open>the hub reads from the connection, which has not logged in and may do so under the name; the nonce is new and the time
    stamp is not stale\<close>
  "awaits_hello c pub n nonce ts h =
     (reading c h \<and> hc_reject (hb_conns h c) = None \<and> \<not> hc_authed (hb_conns h c) \<and> tsFresh (hb_clock h) (int ts)
      \<and> fst (nonce_check pub nonce h) \<and> (hc_auth (hb_conns h c) = BySecret \<longrightarrow> hc_bound (hb_conns h c) = n))"

lemma hello_greets:
  assumes "signs C k" "he_crypto E = C" "signFrame C (hello_props (b64e (ed_public C k)) x n nonce ts) k = Inr s" "int ts < 2 ^ 63"
    and "nonceMinLen \<le> length (utf8 nonce)" "awaits_hello c (b64e (ed_public C k)) n nonce ts h"
    and "length (utf8 (json_text (JObj (hello_props (b64e (ed_public C k)) x n nonce ts @ [(''sig'', JStr s)])))) \<le> maxFrameBytes"
  shows "greets E c (json_text (JObj (hello_props (b64e (ed_public C k)) x n nonce ts @ [(''sig'', JStr s)])))
    (hello_gframe (b64e (ed_public C k)) x n nonce ts s) h"
  using assms(2,5,6,7) hello_accepted [OF assms(1,3,4)]
  by (auto simp: greets_def awaits_hello_def frameOp_def hello_gframe_def)

lemma length_utf8: "length s \<le> length (utf8 s)"
  by (induction s) (auto simp: utf8_def utf8_char_def)

text \<open>C16: the plugin can log in: the hello its client sends on an open socket, read by a hub that awaits it, makes the hub
  list the connection as the agent whose id the plugin computes for itself, record the plugin's keys and name for
  \<open>whois\<close>, drop the agent's previous connection, and answer \<open>welcome\<close> with this id.\<close>

theorem plugin_hello_welcomed:
  assumes k: "signs C (id_priv (d_ident s))" "id_pub (d_ident s) = ed_public C (id_priv (d_ident s))"
    and C: "ce_crypto W = C" "he_crypto E = C" and n: "length (ce_random W (n_random s) 16) = 16"
    and sent: "dsh_sendHello W s = (None, s')" "d_ws s = Some j" "sock_of j s = OPEN" "d_name s = Some n" "int (now s) < 2 ^ 63"
    and data: "data = json_text (snd (last (wire s')))" "length (utf8 data) \<le> maxFrameBytes"
    and h: "boot admin master st sec t n0 = Some h0" "hub_run E es h0 = Some h"
    and c: "awaits_hello c (b64e (id_pub (d_ident s))) n (hex (ce_random W (n_random s) 16)) (now s) h"
    and i: "i = dsh_agentId W s" "has_room c [welcome_frame i] h"
  shows "\<exists>h'. hub_event E (HMessage c (Some data)) h = Some h' \<and> hc_authed (hb_conns h' c) \<and> hc_agentID (hb_conns h' c) = i
    \<and> jm_get (hb_clients h') i = Some c
    \<and> recorded (b64e (id_pub (d_ident s))) (b64e (id_xpub (d_ident s))) n (jm_get (hb_agents h') i)
    \<and> hc_queue (hb_conns h' c) = hc_queue (hb_conns h c) @ [welcome_frame i]
    \<and> (\<forall>d. jm_get (hb_clients h) i = Some d \<longrightarrow> hc_closed (hb_conns h' d))"
proof -
  let ?k = "id_priv (d_ident s)" and ?nonce = "hex (ce_random W (n_random s) 16)"
  let ?f = "hello_props (b64e (ed_public C ?k)) (b64e (id_xpub (d_ident s))) n ?nonce (now s)"
  have f: "dsh_hello_frame W s = ?f" by (simp add: dsh_hello_frame_def hello_props_def k(2) sent(4))
  have same: "d_ws (take_random (s\<lparr>d_hellos := x\<rparr>)) = d_ws s" "sock_of j (take_random (s\<lparr>d_hellos := x\<rparr>)) = sock_of j s"
    "wire (take_random (s\<lparr>d_hellos := x\<rparr>)) = wire s" for x j
    by (simp_all add: take_random_def sock_of_def)
  from sent(1) obtain sig where sig: "signFrame C ?f ?k = Inr sig" and w: "wire s' = wire s @ [(j, JObj (obj_put ''sig'' (JStr sig) ?f))]"
    by (auto simp: dsh_sendHello_def f C(1) Let_def dsh_ws_send_def same sent(2,3) push_frame_def split: sum.splits)
  have d: "data = json_text (JObj (?f @ [(''sig'', JStr sig)]))" by (simp add: data(1) w put_hello)
  have "nonceMinLen \<le> length (utf8 ?nonce)"
    using length_utf8 [of ?nonce] n by (simp add: nonceMinLen_def)
  then have g: "greets E c data (hello_gframe (b64e (ed_public C ?k)) (b64e (id_xpub (d_ident s))) n ?nonce (now s) sig) h"
    unfolding d using c data(2) by (intro hello_greets [OF k(1) C(2) sig sent(5)]) (simp_all add: d k(2))
  have reg: "registry_ok (he_crypto E) h"
    using hub_registry.run_kept [OF boot_registry [OF h(1)] _ h(2)] by simp
  have b: "go_base64 (b64e (ed_public C ?k)) = Some (ed_public C ?k)" and id: "i = agentIDFor (he_crypto E) (ed_public C ?k)"
    using i(1) by (simp_all add: dsh_agentId_def agentIDFor_agentIdOf C k(2))
  obtain h' where ev: "hub_event E (HMessage c (Some data)) h = Some h'"
    unfolding greeted_event [OF g HOL.refl HOL.refl] by blast
  note l = hello_lists [OF reg g ev _ id i(2), simplified hello_gframe_def gframe.select_convs, OF b]
  from l ev show ?thesis unfolding k(2) by blast
qed

end
