(* ===== verification/Hub_Demo.thy ===== *)
theory Hub_Demo
  imports Hub_Meet
begin

text \<open>
  A concrete run of the hub, for the concrete instances of its properties: an agent dials with the master secret, says
  hello, creates a room and talks in it. The sizes of its frames are estimated, not computed.
\<close>

section \<open>Creating a room\<close>

definition joined_frame :: "string \<Rightarrow> json" where
  "joined_frame ch = JObj ([(''op'', JStr ''joined'')] @ str_field ''channel'' ch)"

lemma newChannel_fields [simp]:
  "hb_conns (newChannel n p h) = hb_conns h" "hb_clients (newChannel n p h) = hb_clients h" "hb_ids (newChannel n p h) = hb_ids h"
  "hb_clock (newChannel n p h) = hb_clock h" "hb_next (newChannel n p h) = hb_next h"
  "jm_get (hb_channels (newChannel n p h)) n = Some \<lparr>cr_pubkey = p, cr_allowed = [], cr_members = []\<rparr>"
  by (simp_all add: newChannel_def persistChannels_def)

lemma join_creates:
  assumes reg: "registry_ok (he_crypto E) h" and c: "reading c h" "hc_reject (hb_conns h c) = None" "hc_authed (hb_conns h c)"
      "hc_auth (hb_conns h c) = ByMaster"
    and f: "length (utf8 data) \<le> maxFrameBytes" "parseFrame data = Some (f, raw)" "frameOp f raw = ''join''" "f_channel f \<noteq> []"
    and new: "jm_get (hb_channels h) (f_channel f) = None" and room: "has_room c [joined_frame (f_channel f)] h"
    and ev: "hub_event E (HMessage c (Some data)) h = Some h'"
  shows "jm_get (hb_channels h') (f_channel f)
      = Some \<lparr>cr_pubkey = f_chanPubkey f, cr_allowed = [], cr_members = [hc_agentID (hb_conns h c)]\<rparr>"
    and "hb_conns h' c = push_frames [joined_frame (f_channel f)] (hb_conns h c)" "hb_clients h' = hb_clients h"
    and "hb_ids h' = hb_ids h" "hb_clock h' = hb_clock h" "hb_next h' = hb_next h"
proof -
  let ?i = "hc_agentID (hb_conns h c)" and ?ch = "f_channel f"
  obtain h1 where h1: "h1 = newChannel ?ch (f_chanPubkey f) (touchLastSeen ?i h)" by blast
  obtain h2 where h2: "h2 = add_member ?ch ?i h1" by blast
  have chan: "jm_get (hb_channels h1) ?ch = Some \<lparr>cr_pubkey = f_chanPubkey f, cr_allowed = [], cr_members = []\<rparr>" by (simp add: h1)
  then have same: "hb_conns h2 = hb_conns h" "hb_clients h2 = hb_clients h" "hb_ids h2 = hb_ids h" "hb_clock h2 = hb_clock h" "hb_next h2 = hb_next h"
    and chan2: "jm_get (hb_channels h2) ?ch = Some \<lparr>cr_pubkey = f_chanPubkey f, cr_allowed = [], cr_members = [?i]\<rparr>"
    by (simp_all add: h2 add_member_def h1 js_add_def)
  obtain h3 where h3: "h3 = sendPresence (presencePeers ?i h2) ?i (hc_name (hb_conns h c)) (hc_x25519 (hb_conns h c)) (hc_pubkey (hb_conns h c)) True h2"
    by blast
  have h': "h' = tell (joined_frame ?ch) c h3"
    using ev c f new chan
    by (auto simp: read_message_def hub_dispatch_def run_handler_def handleJoin_def joinChannel_def jm_has_def allows_def joined_frame_def Let_def
        h3 h2 h1)
  have "c \<notin> set (presencePeers ?i h2)"
    using peers_other [of c ?i h2] listed_client [OF reg, of _ c] by (auto simp: same listed_ok_def Let_def)
  then have c3: "hb_conns h3 c = hb_conns h c" by (simp add: h3 sendPresence_other same)
  have t: "talked h2 h'" unfolding h' h3 by (rule talked_trans [OF talked_sendPresence talked_tell])
  show "hb_conns h' c = push_frames [joined_frame ?ch] (hb_conns h c)"
    using room by (simp add: h' tell_room has_room_def c3)
  show "jm_get (hb_channels h') ?ch = Some \<lparr>cr_pubkey = f_chanPubkey f, cr_allowed = [], cr_members = [?i]\<rparr>"
    by (simp add: talked_fields(4) [OF t] chan2)
  show "hb_clients h' = hb_clients h" "hb_ids h' = hb_ids h" "hb_clock h' = hb_clock h" "hb_next h' = hb_next h"
    by (simp_all add: talked_fields [OF t] same)
qed

section \<open>Sizes\<close>

lemma length_b64e: "length (b64e bs) \<le> 2 * length bs + 4"
  by (induction bs rule: b64e.induct) simp_all

lemma length_utf8_le: "length (utf8 s) \<le> 2 * length s"
  by (induction s) (auto simp: utf8_def utf8_char_def)

lemma length_quote: "length (quote s) \<le> 6 * length s + 2"
proof -
  have "length (concat (map esc s)) \<le> 6 * length s" by (induction s) (auto simp: esc_def)
  then show ?thesis by (simp add: quote_def)
qed

lemma length_str_props:
  "length (json_text (JObj ps)) \<le> 2 + sum_list (map (\<lambda>(k, v). 6 * length k + 4 + length (json_text v)) ps)"
  (is "_ \<le> 2 + ?s ps")
proof -
  have "length (join '','' (ser_props [] [] ps)) \<le> ?s ps" for ps
  proof (induction ps)
    case (Cons p ps)
    have "length (join '','' (x # xs)) \<le> length x + 1 + length (join '','' xs)" for x and xs :: "string list"
      by (cases xs) simp_all
    note * = this [of "quote (fst p) @ colon [] @ ser [] [] (snd p)" "ser_props [] [] ps"]
    show ?case
      using * length_quote [of "fst p"] Cons by (cases p) (auto simp: colon_def json_text_def)
  qed simp
  from this [of ps] show ?thesis by (simp add: json_text_def brk_def Let_def)
qed

lemma length_str: "length (json_text (JStr s)) \<le> 6 * length s + 2"
  using length_quote [of s] by (simp add: json_text_def)

lemma demo_sig: "signFrame demo_crypto f k = Inr s \<Longrightarrow> s = b64e (k @ utf8 (sigPayload demo_crypto f))"
  by (simp add: signFrame_def demo_crypto_def of_option_def)

lemma demo_hash: "length (hex (sha256 demo_crypto b)) = 64"
  by (simp add: demo_crypto_def)

section \<open>The run\<close>

lemma demo_hub_start: "boot [] ''m'' None None 0 0 = Some (newHub [] ''m'' None None 0 0)"
  by (simp add: boot_def loadChannels_def loadSecrets_def go_records_def newHub_def)

definition demo_dialled :: hub where
  "demo_dialled = open_conn ByMaster [] (newHub [] ''m'' None None 0 0)"

lemma demo_dials: "hub_run demo_henv [HDial ''Bearer m'' []] (newHub [] ''m'' None None 0 0) = Some demo_dialled"
  by (simp add: demo_dialled_def open_conn_def accept_ws_def matchBearer_def isMaster_def constEq_def wsCredential_def bearerToken_def newHub_def)

definition demo_key :: bytes where
  "demo_key = replicate 32 1"

definition demo_speaker :: plugin where
  "demo_speaker = demo_talker\<lparr>d_ident := \<lparr>id_priv = demo_key, id_pub = demo_key, id_xpriv = [3], id_xpub = [3]\<rparr>, d_ws := Some 0,
     d_name := Some ''bob'', n_uuid := 0\<rparr>"

lemma demo_henv_crypto [simp]: "he_crypto demo_henv = demo_crypto"
  by (simp add: demo_henv_def)

lemma demo_public [simp]: "ed_public demo_crypto k = k" "x_public demo_crypto k = k"
  by (simp_all add: demo_crypto_def)

lemma demo_key_signs: "signs demo_crypto demo_key"
  using demo_laws(1) by (simp add: signs_def demo_crypto_def demo_key_def)

lemma length_text_number: "length (json_text (JNum 0)) = 1" "length (json_text (JNum 1)) = 1"
  by (simp_all add: json_text_def int_str_def nat_str_digit)

lemma demo_sig_length:
  assumes "signFrame demo_crypto f demo_key = Inr s" "prop_of f ''op'' = JStr opn" "length opn \<le> 10" "prop_of f ''ts'' = JNum 0"
  shows "length s \<le> 500"
proof -
  have "length (sigPayload demo_crypto f) \<le> 90"
    using assms(2-4) demo_hash by (simp add: sigPayload_def sha256Hex_def int_str_def nat_str_digit)
  then have "length (demo_key @ utf8 (sigPayload demo_crypto f)) \<le> 212"
    using length_utf8_le [of "sigPayload demo_crypto f"] by (simp add: demo_key_def)
  then show ?thesis
    using length_b64e [of "demo_key @ utf8 (sigPayload demo_crypto f)"] by (simp add: demo_sig [OF assms(1)])
qed

lemma frame_size: "length (json_text (JObj ps)) \<le> 500000 \<Longrightarrow> length (utf8 (json_text (JObj ps))) \<le> maxFrameBytes"
  using length_utf8_le [of "json_text (JObj ps)"] by (simp add: maxFrameBytes_def)

lemma demo_hello_size:
  assumes "signFrame demo_crypto (hello_props p x n nonce 0) demo_key = Inr s"
    and "length p \<le> 100" "length x \<le> 100" "length n \<le> 100" "length nonce \<le> 100"
  shows "length (utf8 (json_text (JObj (hello_props p x n nonce 0 @ [(''sig'', JStr s)])))) \<le> maxFrameBytes"
proof (rule frame_size)
  have "length s \<le> 500" by (rule demo_sig_length [OF assms(1), of "''hello''"]) (simp_all add: hello_props_def)
  with assms(2-5) length_str_props [of "hello_props p x n nonce 0 @ [(''sig'', JStr s)]"]
    length_str [of p] length_str [of x] length_str [of n] length_str [of nonce] length_str [of s] length_str [of "''hello''"]
  show "length (json_text (JObj (hello_props p x n nonce 0 @ [(''sig'', JStr s)]))) \<le> 500000"
    by (simp add: hello_props_def length_text_number)
qed

lemma welcome_size: "length i \<le> 100 \<Longrightarrow> frame_bytes (welcome_frame i) \<le> 20000"
  using frame_bytes_le [of "welcome_frame i"] length_str_props [of "[(''op'', JStr ''welcome'')] @ str_field ''agentId'' i"]
    length_str [of i] length_str [of "''welcome''"]
  by (simp add: welcome_frame_def str_field_def split: if_splits)

lemma joined_size: "length ch \<le> 100 \<Longrightarrow> frame_bytes (joined_frame ch) \<le> 20000"
  using frame_bytes_le [of "joined_frame ch"] length_str_props [of "[(''op'', JStr ''joined'')] @ str_field ''channel'' ch"]
    length_str [of ch] length_str [of "''joined''"]
  by (simp add: joined_frame_def str_field_def split: if_splits)

lemma demo_awaits: "awaits_hello 0 p n nonce 0 demo_dialled"
  by (simp add: awaits_hello_def demo_dialled_def open_conn_def new_conn_def newHub_def reading_def nonce_check_def tsFresh_def tsWindow_def Let_def)

lemma hub_run_append: "hub_run E (es @ es2) h = (case hub_run E es h of None \<Rightarrow> None | Some h' \<Rightarrow> hub_run E es2 h')"
  by (induction es arbitrary: h) (simp_all split: option.splits)

lemma hub_run_snoc: "hub_run E es h = Some h1 \<Longrightarrow> hub_event E e h1 = Some h2 \<Longrightarrow> hub_run E (es @ [e]) h = Some h2"
  by (simp add: hub_run_append del: hub_event.simps)

lemma demo_greets:
  obtains data f where "greets demo_henv 0 data f demo_dialled" "f_pubkey f = b64e demo_key"
proof -
  let ?p = "b64e demo_key" and ?n = "hex (replicate 16 0)"
  obtain s where s: "signFrame demo_crypto (hello_props ?p [] [] ?n 0) demo_key = Inr s"
    by (simp add: signFrame_def demo_crypto_def)
  let ?data = "json_text (JObj (hello_props ?p [] [] ?n 0 @ [(''sig'', JStr s)]))" and ?f = "hello_gframe ?p [] [] ?n 0 s"
  have p: "length ?p \<le> 100" "length ?n \<le> 100" using length_b64e [of demo_key] by (simp_all add: demo_key_def)
  have "greets demo_henv 0 ?data ?f demo_dialled"
  proof (rule hello_greets [of demo_crypto demo_key, simplified demo_public])
    show "nonceMinLen \<le> length (utf8 ?n)" using length_utf8 [of ?n] by (simp add: nonceMinLen_def)
    show "length (utf8 ?data) \<le> maxFrameBytes" by (rule demo_hello_size [OF s]) (use p in simp_all)
  qed (simp_all add: demo_key_signs s demo_awaits)
  then show thesis by (rule that) (simp add: hello_gframe_def)
qed

lemma demo_registry: "registry_ok demo_crypto demo_dialled"
  using hub_registry.run_kept [OF boot_registry [OF demo_hub_start] _ demo_dials] by simp

definition demo_id :: string where
  "demo_id = agentIdOf demo_crypto demo_key"

lemma demo_id_length: "length demo_id \<le> 16"
  by (simp add: demo_id_def agentIdOf_def)

lemma demo_welcome: "has_room 0 [welcome_frame demo_id] demo_dialled" "frame_bytes (welcome_frame demo_id) \<le> 20000"
proof -
  show "frame_bytes (welcome_frame demo_id) \<le> 20000"
    by (rule welcome_size) (use demo_id_length in simp)
  then show "has_room 0 [welcome_frame demo_id] demo_dialled"
    by (simp add: has_room_def demo_dialled_def open_conn_def newHub_def new_conn_def maxQueuedBytes_def)
qed

lemma demo_logs_in:
  obtains es h where "hub_run demo_henv es (newHub [] ''m'' None None 0 0) = Some h"
    and "reading 0 h" "hc_reject (hb_conns h 0) = None"
    and "hc_authed (hb_conns h 0)" "hc_auth (hb_conns h 0) = ByMaster" "hc_pubkey (hb_conns h 0) = b64e demo_key"
    and "hc_agentID (hb_conns h 0) = demo_id" "jm_get (hb_clients h) demo_id = Some 0"
    and "hb_channels h = []" "hb_ids h = []" "hb_clock h = 0" "\<not> hc_closed (hb_conns h 0)" "hc_queued (hb_conns h 0) \<le> 20000"
proof -
  obtain data f where g: "greets demo_henv 0 data f demo_dialled" and f: "f_pubkey f = b64e demo_key" by (rule demo_greets)
  obtain h where ev: "hub_event demo_henv (HMessage 0 (Some data)) demo_dialled = Some h"
    unfolding greeted_event [OF g HOL.refl HOL.refl] by blast
  have "go_base64 (f_pubkey f) = Some demo_key" and i: "demo_id = agentIDFor (he_crypto demo_henv) demo_key"
    by (simp_all add: f demo_id_def agentIDFor_agentIdOf)
  from hello_lists [OF demo_registry [folded demo_henv_crypto] g ev this demo_welcome(1)]
  have l: "hb_conns h 0 = push_frames [welcome_frame demo_id] (set_identity demo_crypto f (new_conn ByMaster []))"
    "hb_channels h = []" "hb_ids h = []" "hb_clock h = 0" "hb_next h = 1" "jm_get (hb_clients h) demo_id = Some 0"
    by (simp_all add: demo_dialled_def open_conn_def newHub_def)
  show thesis
    by (rule that [OF hub_run_snoc [OF demo_dials ev]])
      (use l demo_welcome(2) i in \<open>simp_all add: reading_def push_frames_def set_identity_def new_conn_def f\<close>)
qed

definition join_props :: frame where
  "join_props = [(''op'', JStr ''join''), (''channel'', JStr ''room'')]"

lemma demo_join:
  "parseFrame (json_text (JObj join_props)) = Some (frame_of join_props, join_props)" "f_op (frame_of join_props) = ''join''"
  "f_channel (frame_of join_props) = ''room''" "f_chanPubkey (frame_of join_props) = []"
proof -
  have "flat join_props" by (simp add: flat_def join_props_def obj_ok_def prop_rank_names)
  moreover have "frame_typed join_props" by (simp add: join_props_def decode_simps)
  ultimately show "parseFrame (json_text (JObj join_props)) = Some (frame_of join_props, join_props)"
    by (simp add: parseFrame_def flat_parse)
qed (simp_all add: join_props_def decode_simps)

lemma demo_in_room:
  obtains es h where "hub_run demo_henv es (newHub [] ''m'' None None 0 0) = Some h"
    and "\<And>i. speaks_in demo_henv 0 demo_key ''room'' i 0 h"
    and "jm_get (hb_channels h) ''room'' = Some \<lparr>cr_pubkey = [], cr_allowed = [], cr_members = [demo_id]\<rparr>"
    and "jm_get (hb_clients h) demo_id = Some 0" "hc_agentID (hb_conns h 0) = demo_id"
    and "\<not> hc_closed (hb_conns h 0)" "hc_queued (hb_conns h 0) \<le> 40000"
proof -
  obtain es h1 where run: "hub_run demo_henv es (newHub [] ''m'' None None 0 0) = Some h1"
    and h1: "reading 0 h1" "hc_reject (hb_conns h1 0) = None" "hc_authed (hb_conns h1 0)" "hc_auth (hb_conns h1 0) = ByMaster"
      "hc_pubkey (hb_conns h1 0) = b64e demo_key" "hc_agentID (hb_conns h1 0) = demo_id" "jm_get (hb_clients h1) demo_id = Some 0"
      "hb_channels h1 = []" "hb_ids h1 = []" "hb_clock h1 = 0" "\<not> hc_closed (hb_conns h1 0)" "hc_queued (hb_conns h1 0) \<le> 20000"
    by (rule demo_logs_in)
  have reg: "registry_ok (he_crypto demo_henv) h1"
    using hub_registry.run_kept [OF boot_registry [OF demo_hub_start] _ run] by simp
  let ?data = "json_text (JObj join_props)"
  obtain h where ev: "hub_event demo_henv (HMessage 0 (Some ?data)) h1 = Some h" using event_runs [OF reg] by blast
  have size: "length (utf8 ?data) \<le> maxFrameBytes"
    by (rule frame_size)
      (use length_str_props [of join_props] length_str [of "''join''"] length_str [of "''room''"] in \<open>simp add: join_props_def\<close>)
  have frame: "frame_bytes (joined_frame ''room'') \<le> 20000" by (rule joined_size) simp
  have room: "has_room 0 [joined_frame (f_channel (frame_of join_props))] h1"
    using h1(11,12) frame by (simp add: has_room_def demo_join maxQueuedBytes_def)
  have op: "frameOp (frame_of join_props) join_props = ''join''" by (simp add: frameOp_def demo_join)
  have f: "f_channel (frame_of join_props) \<noteq> []" "jm_get (hb_channels h1) (f_channel (frame_of join_props)) = None"
    by (simp_all add: demo_join h1)
  note j = join_creates [OF reg h1(1-4) size demo_join(1) op f room ev, unfolded demo_join]
  have "hub_run demo_henv (es @ [HMessage 0 (Some ?data)]) (newHub [] ''m'' None None 0 0) = Some h"
    by (rule hub_run_snoc [OF run ev])
  then show thesis
  proof (rule that)
    show "speaks_in demo_henv 0 demo_key ''room'' i 0 h" for i
      using h1 by (simp add: speaks_in_def j reading_def push_frames_def allows_def tsFresh_def tsWindow_def ids_seen_def ids_of_def Let_def)
    show "hc_queued (hb_conns h 0) \<le> 40000" using h1 frame by (simp add: j push_frames_def)
  qed (use h1 in \<open>simp_all add: j push_frames_def\<close>)
qed

lemma room_frame_size:
  assumes "signFrame demo_crypto (msg_frame ''channel'' ch i 0 ct) demo_key = Inr s"
    and "length ch \<le> 100" "length i \<le> 100" "length ct \<le> 1000"
  shows "length (utf8 (json_text (JObj (signed_room_frame ch i 0 ct s)))) \<le> maxFrameBytes"
proof (rule frame_size)
  have "length s \<le> 500" by (rule demo_sig_length [OF assms(1), of "''send''"]) (simp_all add: msg_frame_def)
  with assms(2-4) length_str_props [of "signed_room_frame ch i 0 ct s"]
    length_str [of ch] length_str [of i] length_str [of ct] length_str [of s] length_str [of "''send''"]
  show "length (json_text (JObj (signed_room_frame ch i 0 ct s))) \<le> 500000"
    by (simp add: signed_room_frame_def length_text_number)
qed

lemma demo_posts:
  obtains es h data f where "hub_run demo_henv es (newHub [] ''m'' None None 0 0) = Some h"
    and "posts_to demo_henv 0 data f \<lparr>cr_pubkey = [], cr_allowed = [], cr_members = [demo_id]\<rparr> h"
    and "f = room_gframe ''room'' ''1'' 0 ''hi'' (f_sig f)" "jm_get (hb_clients h) demo_id = Some 0"
    and "has_room 0 [hub_msg ''room'' [] demo_id f] h" "hc_agentID (hb_conns h 0) = demo_id"
proof -
  obtain es h where run: "hub_run demo_henv es (newHub [] ''m'' None None 0 0) = Some h"
    and s: "\<And>i. speaks_in demo_henv 0 demo_key ''room'' i 0 h"
    and ch: "jm_get (hb_channels h) ''room'' = Some \<lparr>cr_pubkey = [], cr_allowed = [], cr_members = [demo_id]\<rparr>"
    and cl: "jm_get (hb_clients h) demo_id = Some 0" "hc_agentID (hb_conns h 0) = demo_id"
    and q: "\<not> hc_closed (hb_conns h 0)" "hc_queued (hb_conns h 0) \<le> 40000"
    by (rule demo_in_room) blast
  obtain sig where sig: "signFrame demo_crypto (msg_frame ''channel'' ''room'' ''1'' 0 ''hi'') demo_key = Inr sig"
    by (simp add: signFrame_def demo_crypto_def)
  let ?f = "room_gframe ''room'' ''1'' 0 ''hi'' sig"
  have p: "posts_to demo_henv 0 (json_text (JObj (signed_room_frame ''room'' ''1'' 0 ''hi'' sig))) ?f
      \<lparr>cr_pubkey = [], cr_allowed = [], cr_members = [demo_id]\<rparr> h"
    using s [of "''1''"] sig ch room_frame_size [OF sig]
    by (intro speaks_posts [of demo_henv 0 demo_crypto demo_key]) (simp_all add: demo_key_signs)
  have "frame_bytes (hub_msg ''room'' [] demo_id ?f) \<le> 20000"
    using demo_id_length frame_bytes_le [of "hub_msg ''room'' [] demo_id ?f"]
      length_str_props [of "[(''op'', JStr ''msg''), (''channel'', JStr ''room'')] @ str_field ''from'' demo_id @ [(''id'', JStr ''1''), (''ciphertext'', JStr ''hi'')]"]
      length_str [of "''msg''"] length_str [of "''room''"] length_str [of demo_id] length_str [of "''1''"] length_str [of "''hi''"]
    by (simp add: hub_msg_def room_gframe_def str_field_def int_field_def split: if_splits)
  with q have "has_room 0 [hub_msg ''room'' [] demo_id ?f] h"
    by (simp add: has_room_def maxQueuedBytes_def)
  with run p cl that show thesis by (simp add: room_gframe_def)
qed

section \<open>The concrete instances\<close>

lemma demo_posted:
  obtains es h data f h' where "hub_run demo_henv es (newHub [] ''m'' None None 0 0) = Some h"
    and "posts_to demo_henv 0 data f \<lparr>cr_pubkey = [], cr_allowed = [], cr_members = [demo_id]\<rparr> h"
    and "hub_event demo_henv (HMessage 0 (Some data)) h = Some h'" "f_channel f = ''room''"
    and "jm_get (hb_clients h) demo_id = Some 0" "has_room 0 [hub_msg ''room'' [] demo_id f] h" "hc_agentID (hb_conns h 0) = demo_id"
proof -
  obtain es h data f where *: "hub_run demo_henv es (newHub [] ''m'' None None 0 0) = Some h"
    "posts_to demo_henv 0 data f \<lparr>cr_pubkey = [], cr_allowed = [], cr_members = [demo_id]\<rparr> h"
    "f = room_gframe ''room'' ''1'' 0 ''hi'' (f_sig f)" "jm_get (hb_clients h) demo_id = Some 0"
    "has_room 0 [hub_msg ''room'' [] demo_id f] h" "hc_agentID (hb_conns h 0) = demo_id"
    by (rule demo_posts) blast
  from *(3) have "f_channel f = ''room''" by (metis room_gframe_def gframe.select_convs(9))
  moreover obtain h' where "hub_event demo_henv (HMessage 0 (Some data)) h = Some h'" unfolding posted [OF *(2)] by blast
  ultimately show thesis using that * by blast
qed

lemma hub_msg_is_msg: "is_msg (hub_msg ch to from f)"
  by (simp add: is_msg_def hub_msg_def)

lemma channel_message_fans_out_witness:
  "\<exists>(h :: hub) (h' :: hub) msg. is_msg msg \<and> hc_queue (hb_conns h' 0) = hc_queue (hb_conns h 0) @ [msg]"
proof -
  obtain es h data f h' where *: "hub_run demo_henv es (newHub [] ''m'' None None 0 0) = Some h"
    "posts_to demo_henv 0 data f \<lparr>cr_pubkey = [], cr_allowed = [], cr_members = [demo_id]\<rparr> h"
    "hub_event demo_henv (HMessage 0 (Some data)) h = Some h'" "f_channel f = ''room''"
    "jm_get (hb_clients h) demo_id = Some 0" "has_room 0 [hub_msg ''room'' [] demo_id f] h" "hc_agentID (hb_conns h 0) = demo_id"
    by (rule demo_posted) blast
  from channel_message_fans_out [OF demo_hub_start *(1-3) HOL.refl] *(4-7)
  have "hc_queue (hb_conns h' 0) = hc_queue (hb_conns h 0) @ [hub_msg ''room'' [] demo_id f]" by auto
  then show ?thesis using hub_msg_is_msg by blast
qed

lemma hub_messages_authentic_witness:
  "\<exists>es h v f i. hub_run demo_henv es (newHub [] ''m'' None None 0 0) = Some h \<and> is_msg v \<and> v = relay_of i f
     \<and> (\<exists>c data. HMessage c (Some data) \<in> set es)"
proof -
  obtain es h data f h' where *: "hub_run demo_henv es (newHub [] ''m'' None None 0 0) = Some h"
    "posts_to demo_henv 0 data f \<lparr>cr_pubkey = [], cr_allowed = [], cr_members = [demo_id]\<rparr> h"
    "hub_event demo_henv (HMessage 0 (Some data)) h = Some h'" "f_channel f = ''room''"
    "jm_get (hb_clients h) demo_id = Some 0" "has_room 0 [hub_msg ''room'' [] demo_id f] h" "hc_agentID (hb_conns h 0) = demo_id"
    by (rule demo_posted) blast
  from fans_out [OF demo_hub_start *(1-3) HOL.refl] *(4-7)
  have "hc_queue (hb_conns h' 0) = hc_queue (hb_conns h 0) @ [hub_msg ''room'' [] demo_id f]" by auto
  then have "held h' (hub_msg ''room'' [] demo_id f)" by (auto simp: held_def intro!: exI [of _ 0])
  note hub_messages_authentic [OF demo_hub_start hub_run_snoc [OF *(1,3)] this hub_msg_is_msg]
  with hub_run_snoc [OF *(1,3)] hub_msg_is_msg show ?thesis by blast
qed

lemma demo_speaker_fields:
  "d_ident demo_speaker = \<lparr>id_priv = demo_key, id_pub = demo_key, id_xpriv = [3], id_xpub = [3]\<rparr>" "d_ws demo_speaker = Some 0"
  "d_name demo_speaker = Some ''bob''" "n_uuid demo_speaker = 0" "sock_of 0 demo_speaker = OPEN" "now demo_speaker = 0"
  by (simp_all add: demo_speaker_def demo_talker_def sock_of_def demo_plugin_fields)

lemma plugin_hello_welcomed_witness:
  "\<exists>h' :: hub. hc_authed (hb_conns h' 0) \<and> jm_get (hb_clients h') demo_id = Some 0"
proof -
  let ?f = "hello_props (b64e demo_key) (b64e [3]) ''bob'' (hex (ce_random demo_env (n_random demo_speaker) 16)) 0"
  have f: "dsh_hello_frame demo_env demo_speaker = ?f"
    by (simp add: dsh_hello_frame_def hello_props_def demo_speaker_fields del: b64e.simps)
  obtain sig where sig: "signFrame demo_crypto ?f demo_key = Inr sig" by (simp add: signFrame_def demo_crypto_def)
  have same: "d_ws (take_random (s\<lparr>d_hellos := x\<rparr>)) = d_ws s" "sock_of j (take_random (s\<lparr>d_hellos := x\<rparr>)) = sock_of j s"
    "wire (take_random (s\<lparr>d_hellos := x\<rparr>)) = wire s" for x j and s :: plugin
    by (simp_all add: take_random_def sock_of_def)
  obtain s' where s': "dsh_sendHello demo_env demo_speaker = (None, s')"
      "wire s' = wire demo_speaker @ [(0, JObj (?f @ [(''sig'', JStr sig)]))]"
    by (simp add: dsh_sendHello_def f sig demo_speaker_fields dsh_ws_send_def same push_frame_def Let_def put_hello del: b64e.simps)
  have r: "length (ce_random demo_env n 16) = 16" for n by (simp add: demo_env_def)
  have p: "length (b64e demo_key) \<le> 100" "length (b64e [3]) \<le> 100"
    using length_b64e [of demo_key] length_b64e [of "[3]"] by (simp_all add: demo_key_def)
  have size: "length (utf8 (json_text (snd (last (wire s'))))) \<le> maxFrameBytes"
    unfolding s'(2) using demo_hello_size [OF sig p(1,2)] by (simp add: r)
  have id: "demo_id = dsh_agentId demo_env demo_speaker" by (simp add: demo_id_def dsh_agentId_def demo_speaker_fields)
  have "\<exists>h'. hub_event demo_henv (HMessage 0 (Some (json_text (snd (last (wire s')))))) demo_dialled = Some h'
      \<and> hc_authed (hb_conns h' 0) \<and> hc_agentID (hb_conns h' 0) = demo_id \<and> jm_get (hb_clients h') demo_id = Some 0
      \<and> recorded (b64e (id_pub (d_ident demo_speaker))) (b64e (id_xpub (d_ident demo_speaker))) ''bob'' (jm_get (hb_agents h') demo_id)
      \<and> hc_queue (hb_conns h' 0) = hc_queue (hb_conns demo_dialled 0) @ [welcome_frame demo_id]
      \<and> (\<forall>d. jm_get (hb_clients demo_dialled) demo_id = Some d \<longrightarrow> hc_closed (hb_conns h' d))"
    by (rule plugin_hello_welcomed [OF _ _ _ _ r s'(1) demo_speaker_fields(2,5,3) _ HOL.refl size demo_hub_start demo_dials _ id demo_welcome(1)])
      (simp_all add: demo_speaker_fields demo_key_signs demo_awaits)
  then show ?thesis by blast
qed

lemma demo_speaker_posts:
  obtains s' ct sig where "dsh_post demo_env ''channel'' ''room'' ''hi'' (x_public demo_crypto [5]) demo_speaker = (None, s')"
    and "signFrame demo_crypto (msg_frame ''channel'' ''room'' (ce_uuid demo_env 0) 0 ct) demo_key = Inr sig" "length ct \<le> 1000"
    and "wire s' = wire demo_speaker @ [(0, JObj (signed_room_frame ''room'' (ce_uuid demo_env 0) 0 ct sig))]"
proof -
  let ?i = "ce_uuid demo_env 0" and ?n = "ce_random demo_env (n_random demo_speaker) 12" and ?s = "take_random (take_uuid demo_speaker)"
  let ?ct = "b64e (?n @ aadOf ?i ''room'' @ utf8 ''hi'')"
  have ct: "seal demo_crypto ?n ''hi'' ?i ''room'' [3] [5] = Inr ?ct"
    by (simp add: seal_def demo_crypto_def Let_def of_option_def)
  obtain sig where sig: "signFrame demo_crypto (msg_frame ''channel'' ''room'' ?i 0 ?ct) demo_key = Inr sig"
    by (simp add: signFrame_def demo_crypto_def)
  have i: "length ?i \<le> 2" by (simp add: demo_env_def nat_str_zero)
  have "length (aadOf ?i ''room'') \<le> 24"
    using i length_utf8_le [of "''dap1|'' @ ?i @ ''|'' @ ''room''"] by (simp add: aadOf_def)
  moreover have "length (utf8 ''hi'') \<le> 4" using length_utf8_le [of "''hi''"] by simp
  ultimately have len: "length ?ct \<le> 1000"
    using length_b64e [of "?n @ aadOf ?i ''room'' @ utf8 ''hi''"] by simp
  have same: "d_ident ?s = d_ident demo_speaker" "wire ?s = wire demo_speaker" "d_ws ?s = d_ws demo_speaker" "socks ?s = socks demo_speaker"
    by (simp_all add: take_random_def take_uuid_def)
  have "sock_of 0 ?s = OPEN" using demo_speaker_fields(5) by (simp add: sock_of_def same)
  then have "dsh_post demo_env ''channel'' ''room'' ''hi'' (x_public demo_crypto [5]) demo_speaker
      = (None, push_frame 0 (JObj (signed_room_frame ''room'' ?i 0 ?ct sig)) ?s)"
    by (simp add: dsh_post_def dsh_signAndSend_def ct [unfolded demo_public] sig Let_def same demo_speaker_fields put_room_frame del: b64e.simps)
  then show thesis by (rule that [OF _ sig len]) (simp add: push_frame_def same)
qed

lemma plugin_to_bridge_through_hub_witness:
  "\<exists>es h data h' g ev. hub_run demo_henv es (newHub [] ''m'' None None 0 0) = Some h
     \<and> hub_event demo_henv (HMessage 0 (Some data)) h = Some h'
     \<and> decryptMsg demo_env g demo_known demo_room = Inr ev \<and> me_text ev = ''hi'' \<and> me_from ev = demo_id"
proof -
  let ?i = "ce_uuid demo_env 0"
  obtain es h where run: "hub_run demo_henv es (newHub [] ''m'' None None 0 0) = Some h"
    and s: "\<And>i. speaks_in demo_henv 0 demo_key ''room'' i 0 h"
    and ch: "jm_get (hb_channels h) ''room'' = Some \<lparr>cr_pubkey = [], cr_allowed = [], cr_members = [demo_id]\<rparr>"
    and cl: "jm_get (hb_clients h) demo_id = Some 0"
    by (rule demo_in_room) blast
  obtain s' ct sig where p: "dsh_post demo_env ''channel'' ''room'' ''hi'' (x_public demo_crypto [5]) demo_speaker = (None, s')"
    and sig: "signFrame demo_crypto (msg_frame ''channel'' ''room'' ?i 0 ct) demo_key = Inr sig" "length ct \<le> 1000"
    and w: "wire s' = wire demo_speaker @ [(0, JObj (signed_room_frame ''room'' ?i 0 ct sig))]"
    by (rule demo_speaker_posts)
  have i: "?i \<noteq> []" "length ?i \<le> 100" by (simp_all add: demo_env_def nat_str_zero)
  have size: "length (utf8 (json_text (snd (last (wire s'))))) \<le> maxFrameBytes"
    unfolding w using room_frame_size [OF sig(1) _ i(2) sig(2)] by simp
  have "\<exists>h' g. hub_event demo_henv (HMessage 0 (Some (json_text (snd (last (wire s')))))) h = Some h'
      \<and> (has_room 0 [JObj g] h \<longrightarrow> hc_queue (hb_conns h' 0) = hc_queue (hb_conns h 0) @ [JObj g])
      \<and> (\<exists>ev. decryptMsg demo_env g demo_known demo_room = Inr ev \<and> me_text ev = ''hi'' \<and> me_channel ev = Some ''room'' \<and> \<not> me_dm ev
           \<and> me_from ev = agentIdOf demo_crypto (ed_public demo_crypto (id_priv (d_ident demo_speaker))))"
    by (rule plugin_to_bridge_through_hub [OF _ _ demo_laws(2,3) _ _ _ _ p _ _ _ HOL.refl size demo_hub_start run _ ch _ cl])
      (use s i in \<open>simp_all add: demo_speaker_fields demo_key_signs demo_room_def demo_known_def\<close>,
       simp_all add: demo_crypto_def demo_key_def)
  then show ?thesis using run unfolding demo_speaker_fields demo_id_def by auto
qed

end
