(* ===== verification/Hub_Policy.thy ===== *)
theory Hub_Policy
  imports Hub_Demo
begin

text \<open>
  What the hub refuses: a hello it has seen, and what a connection without the master secret must not do.
\<close>

section \<open>A hello that is replayed\<close>

definition remembers :: "string \<Rightarrow> string \<Rightarrow> int \<Rightarrow> hub \<Rightarrow> bool" where
  \<comment> \<open>until the clock shows the time, the nonce of the key is refused\<close>
  "remembers p n t h =
     (hb_clock h < t \<longrightarrow> (case jm_get (hb_seen h) p of None \<Rightarrow> False | Some m \<Rightarrow> (case jm_get m n of None \<Rightarrow> False | Some e \<Rightarrow> t \<le> e)))"

lemma remembers_refuses: "remembers p n t h \<Longrightarrow> hb_clock h < t \<Longrightarrow> \<not> fst (nonce_check p n h)"
  by (auto simp: remembers_def nonce_check_def Let_def split: option.splits)

lemma live_nonces_get: "jm_get m n = Some e \<Longrightarrow> t < e \<Longrightarrow> jm_get (live_nonces t m) n = Some e"
  by (induction m) (auto simp: live_nonces_def split: if_splits)

lemma sweep_get: "jm_get m p = Some q \<Longrightarrow> live_nonces t q \<noteq> [] \<Longrightarrow> jm_get (sweep_nonces t m) p = Some (live_nonces t q)"
  by (induction m) (auto simp: sweep_nonces_def split: if_splits)

lemma get_not_empty: "jm_get m n = Some e \<Longrightarrow> m \<noteq> []"
  by auto

lemma remembers_checked:
  assumes "remembers p n t h"
  shows "remembers p n t (snd (nonce_check p' n' h))"
proof (cases "hb_clock h < t")
  case True
  with assms obtain m e where m: "jm_get (hb_seen h) p = Some m" "jm_get m n = Some e" "t \<le> e"
    by (auto simp: remembers_def split: option.splits)
  show ?thesis
  proof (cases "fst (nonce_check p' n' h)")
    case False
    then have "snd (nonce_check p' n' h) = h" by (auto simp: nonce_check_def Let_def split: if_splits)
    with assms show ?thesis by simp
  next
    case new: True
    let ?old = "case jm_get (hb_seen h) p' of None \<Rightarrow> [] | Some q \<Rightarrow> q"
    let ?m = "jm_set p' (live_nonces (hb_clock h) (jm_set n' (hb_clock h + replayKeep) ?old)) (hb_seen h)"
    have "\<not> (p' = p \<and> n' = n)" using new remembers_refuses [OF assms True] by auto
    with m True obtain q where q: "jm_get ?m p = Some q" "jm_get q n = Some e"
      using live_nonces_get [of "jm_set n' (hb_clock h + replayKeep) m" n e "hb_clock h"] by (cases "p' = p") auto
    have "jm_get (live_nonces (hb_clock h) q) n = Some e" using live_nonces_get [OF q(2)] m(3) True by simp
    with sweep_get [OF q(1) get_not_empty] have "jm_get (sweep_nonces (hb_clock h) ?m) p = Some (live_nonces (hb_clock h) q)"
      "jm_get (live_nonces (hb_clock h) q) n = Some e" by blast+
    with q m(3) show ?thesis
      using new by (auto simp: nonce_check_def Let_def remembers_def split: if_splits)
  qed
next
  case False
  then show ?thesis by (simp add: remembers_def nonce_check_def Let_def)
qed

lemma remembers_frame: "remembers p n t h \<Longrightarrow> hb_seen h' = hb_seen h \<Longrightarrow> hb_clock h' = hb_clock h \<Longrightarrow> remembers p n t h'"
  by (simp add: remembers_def)

lemma list_client_seen [simp]: "hb_seen (list_client c h) = hb_seen h"
  by (simp add: list_client_def evict_old_def upsertAgent_def drop_conn_def Let_def split: option.splits)

interpretation hub_memory: hub_inv E "remembers p n t" "\<lambda>_. True" "\<lambda>_. True" for E p n t
proof unfold_locales
  fix h p' n'
  show "remembers p n t h \<Longrightarrow> remembers p n t (snd (nonce_check p' n' h))" by (rule remembers_checked)
next
  fix h t'
  show "remembers p n t h \<Longrightarrow> hb_clock h \<le> t' \<Longrightarrow> remembers p n t (h\<lparr>hb_clock := t'\<rparr>)" by (simp add: remembers_def)
next
  fix h v c
  show "remembers p n t h \<Longrightarrow> remembers p n t (tell v c h)"
    by (erule remembers_frame) (simp_all add: talked_fields [OF talked_tell])
qed (simp_all, (erule remembers_frame; simp add: drop_conn_def reject_def touchLastSeen_def unlist_client_def drain_def enqueue_def ids_add_def
    newChannel_def persistChannels_def add_member_def put_secret_def persistSecrets_def open_conn_def setACL_def evict_agent_def Let_def
    split: option.splits)+)

lemma accepted_remembers:
  assumes "fst (nonce_check p n h)"
  shows "remembers p n (hb_clock h + replayKeep) (snd (nonce_check p n h))"
proof -
  let ?t = "hb_clock h + replayKeep"
  let ?old = "case jm_get (hb_seen h) p of None \<Rightarrow> [] | Some q \<Rightarrow> q"
  let ?q = "live_nonces (hb_clock h) (jm_set n ?t ?old)"
  let ?m = "jm_set p ?q (hb_seen h)"
  have e: "jm_get ?q n = Some ?t" by (rule live_nonces_get) (simp_all add: replayKeep_def tsWindow_def)
  have e': "jm_get (live_nonces (hb_clock h) ?q) n = Some ?t"
    by (rule live_nonces_get [OF e]) (simp add: replayKeep_def tsWindow_def)
  have "jm_get (sweep_nonces (hb_clock h) ?m) p = Some (live_nonces (hb_clock h) ?q)"
    by (rule sweep_get [OF _ get_not_empty [OF e']]) simp
  with e e' assms show ?thesis
    by (auto simp: nonce_check_def Let_def remembers_def split: if_splits)
qed

text \<open>C14: a hello is not accepted twice: once a hello with a key and a nonce was accepted, every hello with the same key and
  nonce that arrives within the next six minutes is refused, whatever happens in between.\<close>

theorem hello_not_replayed:
  assumes "greets E c data f h" "hub_event E (HMessage c (Some data)) h = Some h1" "hub_run E es h1 = Some h2"
    and "hb_clock h2 < hb_clock h + replayKeep" "f_pubkey f' = f_pubkey f" "f_nonce f' = f_nonce f"
  shows "fst (checkHello E f' raw' h2) \<noteq> None"
proof -
  let ?h = "touchLastSeen (hc_agentID (hb_conns h c)) h"
  let ?c = "snd (nonce_check (f_pubkey f) (f_nonce f) ?h)" and ?t = "hb_clock h + replayKeep"
  have "fst (nonce_check (f_pubkey f) (f_nonce f) ?h)" using assms(1) by (simp add: greets_def nonce_touch)
  from accepted_remembers [OF this] have r: "remembers (f_pubkey f) (f_nonce f) ?t ?c" by simp
  have "remembers (f_pubkey f) (f_nonce f) ?t h1"
  proof -
    have "h1 = tell (welcome_frame (hc_agentID (hb_conns (on_conn c (set_identity (he_crypto E) f) ?c) c))) c
        (register c (on_conn c (set_identity (he_crypto E) f) ?c))"
      using assms(2) greeted_event [OF assms(1) HOL.refl HOL.refl] by simp
    with r show ?thesis
      by (auto simp: register_def Let_def talked_fields [OF talked_tell] talked_fields [OF talked_sendPresence] intro: remembers_frame)
  qed
  then have "remembers (f_pubkey f) (f_nonce f) ?t h2"
    using hub_memory.run_kept assms(3) by blast
  with assms(4-6) show ?thesis
    using remembers_refuses by (fastforce simp: checkHello_def case_prod_unfold Let_def split: option.splits)
qed

lemma hello_not_replayed_witness:
  "\<exists>(h :: hub) (f :: gframe). hb_clock h = 0 \<and> (\<forall>f' raw. f_pubkey f' = f_pubkey f \<and> f_nonce f' = f_nonce f \<longrightarrow> fst (checkHello demo_henv f' raw h) \<noteq> None)"
proof -
  obtain data f where g: "greets demo_henv 0 data f demo_dialled" by (rule demo_greets)
  obtain h where ev: "hub_event demo_henv (HMessage 0 (Some data)) demo_dialled = Some h"
    unfolding greeted_event [OF g HOL.refl HOL.refl] by blast
  have "hb_clock h = hb_clock demo_dialled"
    using ev unfolding greeted_event [OF g HOL.refl HOL.refl]
    by (auto simp: register_def Let_def talked_fields [OF talked_tell] talked_fields [OF talked_sendPresence])
  then have t: "hb_clock h = 0" "hb_clock h < hb_clock demo_dialled + replayKeep"
    by (simp_all add: demo_dialled_def open_conn_def newHub_def replayKeep_def tsWindow_def)
  then show ?thesis
    using hello_not_replayed [OF g ev, of "[]" h] by (intro exI [of _ h] exI [of _ f]) auto
qed

text \<open>The cache forgets too early: a hello stamped ahead of the hub's clock is fresh for longer than its nonce is kept.\<close>

lemma hello_replayed_later:
  assumes "checkHello E f raw h = (None, h1)" "f_ts f = hb_clock h + tsWindow"
  shows "fst (checkHello E f raw (h1\<lparr>hb_clock := hb_clock h + replayKeep\<rparr>)) = None"
proof -
  let ?p = "f_pubkey f" and ?n = "f_nonce f" and ?t = "hb_clock h + replayKeep"
  from assms(1) have v: "\<not> length (utf8 ?n) < nonceMinLen" "verifySignature (he_crypto E) f raw ?p = None"
    and c: "fst (nonce_check ?p ?n h)" "h1 = snd (nonce_check ?p ?n h)"
    by (auto simp: checkHello_def case_prod_unfold Let_def split: if_splits option.splits)
  let ?old = "case jm_get (hb_seen h) ?p of None \<Rightarrow> [] | Some q \<Rightarrow> q"
  let ?q = "live_nonces (hb_clock h) (jm_set ?n ?t ?old)"
  have q: "jm_get ?q ?n = Some ?t" by (rule live_nonces_get) (simp_all add: replayKeep_def tsWindow_def)
  have q': "jm_get (live_nonces (hb_clock h) ?q) ?n = Some ?t"
    by (rule live_nonces_get [OF q]) (simp add: replayKeep_def tsWindow_def)
  have s: "jm_get (sweep_nonces (hb_clock h) (jm_set ?p ?q (hb_seen h))) ?p = Some (live_nonces (hb_clock h) ?q)"
    by (rule sweep_get [OF _ get_not_empty [OF q']]) simp
  have "\<exists>m. jm_get (hb_seen h1) ?p = Some m \<and> jm_get m ?n = Some ?t"
    using c q q' s by (auto simp: nonce_check_def Let_def split: if_splits)
  then have "fst (nonce_check ?p ?n (h1\<lparr>hb_clock := ?t\<rparr>))" by (auto simp: nonce_check_def Let_def)
  moreover have "tsFresh ?t (f_ts f)" by (simp add: assms(2) tsFresh_iff replayKeep_def tsWindow_def)
  ultimately show ?thesis using v by (simp add: checkHello_def case_prod_unfold Let_def)
qed

section \<open>Connections without the master secret\<close>

definition settings :: "(string, hchannel) jsmap \<Rightarrow> (string \<times> string \<times> string list) list" where
  \<comment> \<open>what the admin and the creators decide: the channels, their keys and their access lists\<close>
  "settings m = map (\<lambda>(n, ch). (n, cr_pubkey ch, cr_allowed ch)) m"

lemma settings_member: "jm_get m n = Some ch \<Longrightarrow> settings (jm_set n (ch\<lparr>cr_members := x\<rparr>) m) = settings m"
  by (induction m) (auto simp: settings_def split: if_splits)

lemma settings_add_member [simp]: "settings (hb_channels (add_member n i h)) = settings (hb_channels h)"
  by (auto simp: add_member_def settings_member split: option.splits)

fun unprivileged :: "crypto \<Rightarrow> string \<Rightarrow> string \<Rightarrow> event \<Rightarrow> bool" where
  \<comment> \<open>neither a connection with the master secret nor a call of the admin\<close>
  "unprivileged C master admin (HDial hdr q) = (master = [] \<or> wsCredential hdr q = [] \<or> \<not> constEq C (wsCredential hdr q) master)"
| "unprivileged C master admin (HSetACL hdr n as) = (admin = [] \<or> bearerToken hdr = [] \<or> \<not> constEq C (bearerToken hdr) admin)"
| "unprivileged C master admin (HEvict hdr i) = (admin = [] \<or> bearerToken hdr = [] \<or> \<not> constEq C (bearerToken hdr) admin)"
| "unprivileged C master admin _ = True"

definition confined :: "string \<Rightarrow> string \<Rightarrow> (string \<times> string \<times> string list) list \<Rightarrow> (string, string list) jsmap \<Rightarrow> hub \<Rightarrow> bool" where
  "confined master admin K X h =
     (hb_masterSecret h = master \<and> hb_adminToken h = admin \<and> settings (hb_channels h) = K \<and> hb_secrets h = X
      \<and> (\<forall>c < hb_next h. hc_auth (hb_conns h c) = BySecret \<and> hc_bound (hb_conns h c) \<in> set (jm_keys X)
           \<and> (hc_authed (hb_conns h c) \<longrightarrow> hc_name (hb_conns h c) = hc_bound (hb_conns h c))))"

lemma confined_cong:
  assumes "confined master admin K X h" "hb_next h' = hb_next h"
    and "\<And>c. hc_auth (hb_conns h' c) = hc_auth (hb_conns h c)" "\<And>c. hc_bound (hb_conns h' c) = hc_bound (hb_conns h c)"
      "\<And>c. hc_authed (hb_conns h' c) = hc_authed (hb_conns h c)" "\<And>c. hc_name (hb_conns h' c) = hc_name (hb_conns h c)"
    and "hb_masterSecret h' = hb_masterSecret h" "hb_adminToken h' = hb_adminToken h" "settings (hb_channels h') = settings (hb_channels h)"
      "hb_secrets h' = hb_secrets h"
  shows "confined master admin K X h'"
  using assms by (simp add: confined_def)

lemma find_in: "List.find P xs = Some x \<Longrightarrow> x \<in> set xs"
  by (induction xs) (auto split: if_splits)

lemma add_member_fields [simp]:
  "hb_conns (add_member n i h) = hb_conns h" "hb_next (add_member n i h) = hb_next h" "hb_masterSecret (add_member n i h) = hb_masterSecret h"
  "hb_adminToken (add_member n i h) = hb_adminToken h" "hb_secrets (add_member n i h) = hb_secrets h"
  by (simp_all add: add_member_def split: option.splits)

lemma confined_dial:
  assumes "confined master admin K X h" "unprivileged C master admin (HDial hdr q)" "matchBearer C h (wsCredential hdr q) = Some (a, b)"
  shows "confined master admin K X (open_conn a b h)"
proof -
  have "\<not> isMaster C h (wsCredential hdr q)" using assms(1,2) by (auto simp: isMaster_def confined_def)
  with assms(3) have a: "a = BySecret" and "agentForSecret C h (wsCredential hdr q) = Some b"
    by (auto simp: matchBearer_def split: if_splits)
  then obtain hs where "(b, hs) \<in> set (hb_secrets h)"
    by (auto simp: agentForSecret_def split: if_splits dest!: find_in)
  then have "b \<in> set (jm_keys (hb_secrets h))" by (metis fst_conv in_set_zipE zip_map_fst_snd)
  with a assms(1) show ?thesis by (auto simp: confined_def open_conn_def new_conn_def less_Suc_eq)
qed

lemma confined_listed:
  assumes "confined master admin K X h" "reading c h" "hc_auth (hb_conns h c) = BySecret \<Longrightarrow> f_name f = hc_bound (hb_conns h c)"
  shows "confined master admin K X (list_client c (on_conn c (set_identity C f) h))"
proof -
  let ?h = "on_conn c (set_identity C f) h"
  have t: "talked ?h (evict_old c ?h)" by (rule evict_old_fields)
  from assms show ?thesis
    by (auto simp: confined_def list_client_def upsertAgent_def Let_def talked_fields [OF t] talked_conn [OF t] set_identity_def reading_def)
qed

lemma evict_secrets_unchanged:
  "confined master admin K X h \<Longrightarrow> unprivileged C master admin (HEvict hdr i) \<Longrightarrow> \<not> adminOK C h hdr"
  by (auto simp: adminOK_def confined_def Let_def)

interpretation hub_confined: hub_inv E "confined master admin K X" "\<lambda>_. True" "unprivileged (he_crypto E) master admin" for E master admin K X
proof unfold_locales
  fix h v c
  show "confined master admin K X h \<Longrightarrow> confined master admin K X (tell v c h)"
    by (erule confined_cong) (simp_all add: talked_fields [OF talked_tell] talked_conn [OF talked_tell])
next
  fix h c name p
  assume "confined master admin K X h" "hc_auth (hb_conns h c) = ByMaster" "reading c h"
  then have False by (auto simp: confined_def reading_def)
  then show "confined master admin K X (newChannel name p h)" ..
next
  fix h c n and hs :: "string list"
  assume "confined master admin K X h" "hc_auth (hb_conns h c) = ByMaster" "reading c h"
  then have False by (auto simp: confined_def reading_def)
  then show "confined master admin K X (put_secret n hs h)" ..
next
  fix h hdr n "as"
  assume "confined master admin K X h" "unprivileged (he_crypto E) master admin (HSetACL hdr n as)" "adminOK (he_crypto E) h hdr"
  then have False by (auto simp: adminOK_def confined_def Let_def)
  then show "confined master admin K X (setACL n as h)" ..
next
  fix h hdr i
  assume "confined master admin K X h" "unprivileged (he_crypto E) master admin (HEvict hdr i)" "adminOK (he_crypto E) h hdr"
  then have False using evict_secrets_unchanged by blast
  then show "confined master admin K X (evict_agent i h)" ..
qed (simp_all add: confined_dial confined_listed,
  (erule confined_cong; simp add: drop_conn_def reject_def touchLastSeen_def nonce_check_def unlist_client_def drain_def enqueue_def ids_add_def
    write_next_def Let_def split: option.splits)+)

text \<open>C13: without the master secret and the admin token nobody extends the hub: as long as every connection was opened with
  some other credential and no admin call carries the token, the channels, their keys and access lists and the issued
  secrets stay what they were at the start, and every agent that logs in has the name its secret was issued for.\<close>

theorem hub_without_master:
  assumes "boot admin master st sec t n = Some h" "\<forall>e \<in> set es. unprivileged (he_crypto E) master (hb_adminToken h) e"
    and "hub_run E es h = Some h'"
  shows "settings (hb_channels h') = settings (hb_channels h) \<and> hb_secrets h' = hb_secrets h
    \<and> (\<forall>c < hb_next h'. hc_authed (hb_conns h' c) \<longrightarrow> hc_name (hb_conns h' c) \<in> set (jm_keys (hb_secrets h)))"
proof -
  have "confined master (hb_adminToken h) (settings (hb_channels h)) (hb_secrets h) h"
    by (simp add: confined_def boot_fields [OF assms(1)])
  from hub_confined.run_kept [OF this assms(2,3)]
  show ?thesis by (auto simp: confined_def)
qed

lemma hub_without_master_witness:
  "\<exists>h h'. boot [] ''m'' None None 0 0 = Some h \<and> hub_run demo_henv [HDial ''Bearer x'' [], HMessage 0 None] h = Some h'
     \<and> hb_secrets h' = hb_secrets h"
proof -
  obtain h' where h': "hub_run demo_henv [HDial ''Bearer x'' [], HMessage 0 None] (newHub [] ''m'' None None 0 0) = Some h'"
    using run_exists [OF boot_registry [OF demo_hub_start]] by blast
  have "\<forall>e \<in> set [HDial ''Bearer x'' [], HMessage 0 None]. unprivileged (he_crypto demo_henv) ''m'' (hb_adminToken (newHub [] ''m'' None None 0 0)) e"
    by (simp add: wsCredential_def bearerToken_def constEq_def demo_crypto_def utf8_def utf8_char_def code_def byte_def)
  from hub_without_master [OF demo_hub_start this h'] h' demo_hub_start show ?thesis by blast
qed

end
