(* ===== verification/Hub_Restart.thy ===== *)
theory Hub_Restart
  imports Hub_Policy
begin

text \<open>
  What survives the hub's process: the channels with their keys and access lists, and the hashes of the issued secrets, are
  in the two files at all times, so a hub that starts on the files of another takes over from it.
\<close>

section \<open>Lists of pairs as maps\<close>

lemma fold_jm_set:
  "distinct (map fst m) \<Longrightarrow> fst ` set m \<inter> fst ` set acc = {} \<Longrightarrow> fold (\<lambda>p. jm_set (fst p) (snd p)) m acc = acc @ m"
proof (induction m arbitrary: acc)
  case (Cons p m)
  then have "jm_set (fst p) (snd p) acc = acc @ [p]" by (auto simp: jm_set_fresh)
  with Cons.IH [of "acc @ [p]"] Cons.prems show ?case by auto
qed simp

lemma distinct_fold_jm_set: "distinct (jm_keys m) \<Longrightarrow> distinct (jm_keys (fold (\<lambda>r. jm_set (k r) (v r)) rs m))"
  by (induction rs arbitrary: m) (simp_all add: keys_jm_set)

lemma add_secret_same: "n \<notin> fst ` set acc \<Longrightarrow> add_secret n x (acc @ [(n, ys)]) = acc @ [(n, ys @ [x])]"
proof -
  assume n: "n \<notin> fst ` set acc"
  then have "map_of acc n = None" by (simp add: map_of_eq_None_iff)
  moreover from n have "jm_set n v (acc @ [(n, ys)]) = acc @ [(n, v)]" for v
    by (induction acc) auto
  ultimately show ?thesis by (simp add: add_secret_def map_add_def)
qed

lemma add_secrets_same: "n \<notin> fst ` set acc \<Longrightarrow> fold (add_secret n) hs (acc @ [(n, ys)]) = acc @ [(n, ys @ hs)]"
  by (induction hs arbitrary: ys) (simp_all add: add_secret_same)

lemma add_secrets_new: "n \<notin> fst ` set acc \<Longrightarrow> hs \<noteq> [] \<Longrightarrow> fold (add_secret n) hs acc = acc @ [(n, hs)]"
proof (cases hs)
  case (Cons x xs)
  assume n: "n \<notin> fst ` set acc"
  then have "map_of acc n = None" by (simp add: map_of_eq_None_iff)
  with n have "add_secret n x acc = acc @ [(n, [x])]" by (simp add: add_secret_def jm_set_fresh)
  with n Cons show ?thesis by (simp add: add_secrets_same)
qed simp

definition secrets_ok :: "(string, string list) jsmap \<Rightarrow> bool" where
  "secrets_ok m = (distinct (jm_keys m) \<and> (\<forall>(n, hs) \<in> set m. hs \<noteq> []))"

lemma fold_secrets:
  "secrets_ok m \<Longrightarrow> fst ` set m \<inter> fst ` set acc = {} \<Longrightarrow>
     fold (\<lambda>p. add_secret (fst p) (snd p)) (concat (map (\<lambda>(n, hs). map (Pair n) hs) m)) acc = acc @ m"
proof (induction m arbitrary: acc)
  case (Cons p m)
  have "fold (\<lambda>p. add_secret (fst p) (snd p)) (map (Pair n) hs) a = fold (add_secret n) hs a" for n hs a
    by (induction hs arbitrary: a) simp_all
  moreover have "fold (add_secret (fst p)) (snd p) acc = acc @ [p]"
    using Cons.prems add_secrets_new [of "fst p" acc "snd p"] by (cases p) (auto simp: secrets_ok_def)
  ultimately show ?case
    using Cons.IH [of "acc @ [p]"] Cons.prems by (cases p) (auto simp: secrets_ok_def)
qed simp

lemma secrets_ok_set: "secrets_ok m \<Longrightarrow> hs \<noteq> [] \<Longrightarrow> secrets_ok (jm_set n hs m)"
proof -
  have "set (jm_set n hs m) \<subseteq> insert (n, hs) (set m)" by (induction m) (auto split: if_splits)
  then show "secrets_ok m \<Longrightarrow> hs \<noteq> [] \<Longrightarrow> secrets_ok (jm_set n hs m)"
    by (auto simp: secrets_ok_def keys_jm_set)
qed

lemma secrets_ok_del: "secrets_ok m \<Longrightarrow> secrets_ok (jm_del n m)"
  by (auto simp: secrets_ok_def jm_del_def distinct_map_filter)

lemma secrets_ok_fold: "secrets_ok m \<Longrightarrow> secrets_ok (fold (\<lambda>r. add_secret (k r) (v r)) rs m)"
  by (induction rs arbitrary: m) (simp_all add: add_secret_def secrets_ok_set)

section \<open>The files, read back\<close>

lemma go_value_one: "go_values [(k, v)] k = (if v = JNull then [] else [v])"
  by (simp add: go_values_simps)

definition channel_props :: "string \<times> hchannel \<Rightarrow> frame" where
  "channel_props p = record_props (channel_record p)"

lemma channel_props_simp:
  "channel_props (n, ch) = [(''name'', JStr n)] @ str_field ''pubkey'' (cr_pubkey ch)
     @ (if cr_allowed ch = [] then [] else [(''allowed'', JArr (map JStr (cr_allowed ch)))])"
  by (simp add: channel_props_def channel_record_def record_props_def)

lemma channel_props_decode:
  "go_string (channel_props (n, ch)) ''name'' = Some n" "go_string (channel_props (n, ch)) ''pubkey'' = Some (cr_pubkey ch)"
  "go_strings (channel_props (n, ch)) ''allowed'' = Some (cr_allowed ch)"
  by (cases "cr_pubkey ch = []"; cases "cr_allowed ch = []";
      simp add: channel_props_simp str_field_def go_string_def go_strings_def go_values_simps toLowerCase_def lower_char_def code_def Let_def
        list_all_iff comp_def)+

lemma stored_channel_props: "stored_channel (channel_props (n, ch)) = ch\<lparr>cr_members := []\<rparr>"
  by (simp add: stored_channel_def str_or_empty_def channel_props_decode)

definition file_channels :: "json option \<Rightarrow> (string, hchannel) jsmap" where
  \<comment> \<open>what a hub that starts on the file has\<close>
  "file_channels st =
     (case go_records [''name'', ''pubkey''] ''channels'' st of
        None \<Rightarrow> []
      | Some rs \<Rightarrow> if list_all (\<lambda>r. go_strings r ''allowed'' \<noteq> None) rs
          then fold (\<lambda>r. jm_set (str_or_empty r ''name'') (stored_channel r)) rs [] else [])"

definition file_secrets :: "json option \<Rightarrow> (string, string list) jsmap" where
  "file_secrets st =
     (case go_records [''name'', ''hash''] ''secrets'' st of
        None \<Rightarrow> []
      | Some rs \<Rightarrow> fold (\<lambda>r. add_secret (str_or_empty r ''name'') (str_or_empty r ''hash'')) rs [])"

lemma boot_files:
  "boot admin master st sec t n = Some h \<Longrightarrow> hb_channels h = file_channels st \<and> hb_secrets h = file_secrets sec"
  by (auto simp: boot_def loadChannels_def loadSecrets_def newHub_def file_channels_def file_secrets_def split: if_splits option.splits)

lemma channels_roundtrip:
  assumes "distinct (jm_keys m)"
  shows "file_channels (Some (JObj [(''channels'', JArr (map channel_record m))])) = map (\<lambda>(n, ch). (n, ch\<lparr>cr_members := []\<rparr>)) m"
proof -
  have ok: "record_ok [''name'', ''pubkey''] (channel_record p)" for p
  proof -
    have "record_ok ks (channel_record p) = list_all (\<lambda>k. go_string (channel_props p) k \<noteq> None) ks" for ks
      by (cases p) (simp add: record_ok_def channel_props_def channel_record_def record_props_def)
    then show ?thesis by (cases p) (simp add: channel_props_decode)
  qed
  have rs: "go_records [''name'', ''pubkey''] ''channels'' (Some (JObj [(''channels'', JArr (map channel_record m))])) = Some (map channel_props m)"
    using ok by (simp add: go_records_def go_value_one list_all_iff channel_props_def [abs_def] Let_def comp_def)
  have "fold (\<lambda>r. jm_set (str_or_empty r ''name'') (stored_channel r)) (map channel_props m) acc
      = fold (\<lambda>p. jm_set (fst p) (snd p)) (map (\<lambda>(n, ch). (n, ch\<lparr>cr_members := []\<rparr>)) m) acc" for acc
    by (induction m arbitrary: acc) (auto simp: str_or_empty_def channel_props_decode stored_channel_props)
  moreover have "list_all (\<lambda>r. go_strings r ''allowed'' \<noteq> None) (map channel_props m)"
    by (auto simp: list_all_iff channel_props_decode)
  ultimately show ?thesis
    using fold_jm_set [of "map (\<lambda>(n, ch). (n, ch\<lparr>cr_members := []\<rparr>)) m" "[]"] assms
    by (simp add: file_channels_def rs case_prod_unfold comp_def)
qed

definition secret_props :: "string \<times> string \<Rightarrow> frame" where
  "secret_props p = [(''name'', JStr (fst p)), (''hash'', JStr (snd p))]"

lemma secret_props_decode: "go_string (secret_props p) ''name'' = Some (fst p)" "go_string (secret_props p) ''hash'' = Some (snd p)"
  by (simp_all add: secret_props_def decode_simps)

lemma secrets_roundtrip:
  assumes "secrets_ok m"
  shows "file_secrets (Some (JObj [(''secrets'', JArr (concat (map (\<lambda>(n, hs). map (secret_record n) hs) m)))])) = m"
proof -
  let ?ps = "concat (map (\<lambda>(n, hs). map (Pair n) hs) m)"
  have rec: "secret_record n x = JObj (secret_props (n, x))" for n x
    by (simp add: secret_record_def secret_props_def)
  have eq: "concat (map (\<lambda>(n, hs). map (secret_record n) hs) m) = map (\<lambda>p. JObj (secret_props p)) ?ps"
    by (induction m) (auto simp: rec)
  have rs: "go_records [''name'', ''hash''] ''secrets'' (Some (JObj [(''secrets'', JArr (map (\<lambda>p. JObj (secret_props p)) ps))]))
      = Some (map secret_props ps)" for ps
    by (simp add: go_records_def go_value_one list_all_iff record_ok_def record_props_def secret_props_decode Let_def comp_def)
  have "fold (\<lambda>r. add_secret (str_or_empty r ''name'') (str_or_empty r ''hash'')) (map secret_props ps) acc
      = fold (\<lambda>p. add_secret (fst p) (snd p)) ps acc" for ps acc
    by (induction ps arbitrary: acc) (simp_all add: str_or_empty_def secret_props_decode)
  with fold_secrets [OF assms, of "[]"] show ?thesis by (simp add: file_secrets_def eq rs)
qed

section \<open>The invariant\<close>

definition saved :: "hub \<Rightarrow> bool" where
  "saved h =
     (hb_writable h \<and> distinct (jm_keys (hb_channels h)) \<and> secrets_ok (hb_secrets h)
      \<and> settings (file_channels (hb_store h)) = settings (hb_channels h) \<and> file_secrets (hb_secretStore h) = hb_secrets h)"

lemma saved_cong:
  assumes "saved h" "hb_writable h'" "jm_keys (hb_channels h') = jm_keys (hb_channels h)" "settings (hb_channels h') = settings (hb_channels h)"
    and "hb_secrets h' = hb_secrets h" "hb_store h' = hb_store h" "hb_secretStore h' = hb_secretStore h"
  shows "saved h'"
  using assms by (simp add: saved_def)

lemma settings_strip [simp]: "settings (map (\<lambda>(n, ch). (n, ch\<lparr>cr_members := []\<rparr>)) m) = settings m"
  by (induction m) (auto simp: settings_def)

lemma saved_channels:
  assumes "saved h" "distinct (jm_keys m)"
  shows "saved (persistChannels (h\<lparr>hb_channels := m\<rparr>))"
  using assms by (simp add: saved_def persistChannels_def channels_roundtrip)

lemma saved_secrets:
  assumes "saved h" "secrets_ok m" "hb_writable h'" "hb_channels h' = hb_channels h" "hb_store h' = hb_store h" "hb_secrets h' = m"
  shows "saved (persistSecrets h')"
  using assms by (simp add: saved_def persistSecrets_def secrets_roundtrip)

lemma saved_acl: "saved h \<Longrightarrow> saved (setACL n as h)"
  unfolding setACL_def Let_def by (rule saved_channels) (simp_all add: saved_def keys_jm_set)

lemma saved_new: "saved h \<Longrightarrow> saved (newChannel n p h)"
  unfolding newChannel_def by (rule saved_channels) (simp_all add: saved_def keys_jm_set)

lemma saved_put: "saved h \<Longrightarrow> hs \<noteq> [] \<Longrightarrow> saved (put_secret n hs h)"
  unfolding put_secret_def by (rule saved_secrets) (simp_all add: saved_def secrets_ok_set)

lemma saved_evict: "saved h \<Longrightarrow> saved (evict_agent i h)"
proof (cases "jm_get (hb_agents h) i")
  case (Some e)
  assume s: "saved h"
  let ?h = "h\<lparr>hb_agents := jm_del i (hb_agents h), hb_mailbox := jm_del i (hb_mailbox h), hb_dropped := js_remove i (hb_dropped h)\<rparr>"
  have "saved ?h" using s by (rule saved_cong) (use s in \<open>simp_all add: saved_def\<close>)
  moreover have "saved (persistSecrets (?h\<lparr>hb_secrets := jm_del (ae_name e) (hb_secrets ?h)\<rparr>))"
    by (rule saved_secrets [OF s]) (use s in \<open>simp_all add: saved_def secrets_ok_del\<close>)
  ultimately show ?thesis using s Some by (simp add: evict_agent_def Let_def)
qed (simp add: evict_agent_def)

lemma saved_member: "saved h \<Longrightarrow> saved (add_member n i h)"
proof (cases "jm_get (hb_channels h) n")
  case (Some ch)
  assume s: "saved h"
  have "n \<in> set (jm_keys (hb_channels h))" using Some by (metis domI dom_map_of_conv_image_fst list.set_map)
  with s Some show ?thesis
    by (intro saved_cong [OF s]) (simp_all add: add_member_def saved_def keys_jm_set settings_member)
qed (simp add: add_member_def)

interpretation hub_saved: hub_inv E saved "\<lambda>_. True" "\<lambda>e. e \<noteq> HDisk False" for E
proof unfold_locales
  fix h v c
  assume s: "saved h"
  show "saved (tell v c h)"
    by (rule saved_cong [OF s]) (use s in \<open>simp_all add: talked_fields [OF talked_tell] saved_def\<close>)
next
  fix h ok
  show "saved h \<Longrightarrow> HDisk ok \<noteq> HDisk False \<Longrightarrow> saved (h\<lparr>hb_writable := ok\<rparr>)"
    by (cases ok) (simp_all add: saved_def)
qed (simp_all add: saved_acl saved_new saved_put saved_evict saved_member,
  (simp add: saved_def drop_conn_def reject_def touchLastSeen_def nonce_check_def unlist_client_def drain_def enqueue_def ids_add_def
    open_conn_def list_client_def evict_old_def upsertAgent_def Let_def split: option.splits)+)

text \<open>The tokens never change.\<close>

interpretation hub_tokens: hub_inv E "\<lambda>h. hb_masterSecret h = master" "\<lambda>_. True" "\<lambda>_. True" for E master
  by unfold_locales (simp_all add: talked_fields [OF talked_tell] drop_conn_def reject_def touchLastSeen_def nonce_check_def unlist_client_def
    drain_def enqueue_def ids_add_def open_conn_def list_client_def evict_old_def upsertAgent_def newChannel_def persistChannels_def
    put_secret_def persistSecrets_def setACL_def evict_agent_def Let_def split: option.splits)

lemma run_master: "hub_run E es h = Some h' \<Longrightarrow> hb_masterSecret h' = hb_masterSecret h"
  using hub_tokens.run_kept [of h "hb_masterSecret h" es E h'] by simp

lemma boot_saved:
  assumes "boot admin master st sec t n = Some h"
  shows "saved h"
proof -
  have "distinct (jm_keys (file_channels st))"
    by (auto simp: file_channels_def intro: distinct_fold_jm_set split: option.splits)
  moreover have "secrets_ok (file_secrets sec)"
    by (auto simp: file_secrets_def secrets_ok_def [of "[]"] intro: secrets_ok_fold split: option.splits)
  ultimately show ?thesis using boot_files [OF assms] by (simp add: saved_def boot_fields [OF assms])
qed

section \<open>Property\<close>

text \<open>C15: a restart loses no channel and no credential: a hub that starts on the files another hub left, at any point of
  its run, has the same channels with the same keys and access lists and the same secrets, so every credential opens
  what it opened before; only the memberships are gone.\<close>

theorem hub_restarts_where_it_was:
  assumes "boot admin master st sec t n = Some h" "\<forall>e \<in> set es. e \<noteq> HDisk False" "hub_run E es h = Some h'"
    and "boot admin master (hb_store h') (hb_secretStore h') t' n' = Some h2"
  shows "settings (hb_channels h2) = settings (hb_channels h') \<and> hb_secrets h2 = hb_secrets h'
    \<and> (\<forall>token. matchBearer C h2 token = matchBearer C h' token)
    \<and> (\<forall>i ch. jm_get (hb_channels h2) i = Some ch \<longrightarrow> cr_members ch = [])"
proof -
  have s: "saved h'" by (rule hub_saved.run_kept [OF boot_saved [OF assms(1)] assms(2,3)])
  have "hb_masterSecret h' = master"
    using run_master [OF assms(3)] by (simp add: boot_fields [OF assms(1)])
  then show ?thesis
    using s boot_files [OF assms(4)] boot_members [OF assms(4)]
    by (auto simp: saved_def matchBearer_def isMaster_def agentForSecret_def boot_fields [OF assms(4)])
qed

lemma hub_restarts_where_it_was_witness:
  "\<exists>h' h2. hub_run demo_henv [HSetACL ''Bearer a'' ''room'' [''k'']] (newHub ''a'' ''m'' None None 0 0) = Some h'
     \<and> boot ''a'' ''m'' (hb_store h') (hb_secretStore h') 9 0 = Some h2 \<and> settings (hb_channels h2) = [(''room'', [], [''k''])]"
proof -
  let ?h = "newHub ''a'' ''m'' None None 0 0" and ?es = "[HSetACL ''Bearer a'' ''room'' [''k'']]"
  have b: "boot ''a'' ''m'' None None 0 0 = Some ?h"
    by (simp add: boot_def loadChannels_def loadSecrets_def go_records_def newHub_def)
  obtain h' where run: "hub_run demo_henv ?es ?h = Some h'" by simp
  have ch: "settings (hb_channels h') = [(''room'', [], [''k''])]"
    using run by (auto simp: adminSetACL_def adminOK_def bearerToken_def constEq_def newHub_def setACL_def persistChannels_def settings_def Let_def)
  obtain h2 where b2: "boot ''a'' ''m'' (hb_store h') (hb_secretStore h') 9 0 = Some h2" by (simp add: boot_def)
  from hub_restarts_where_it_was [OF b _ run b2] ch run b2 show ?thesis by auto
qed

section \<open>Issued secrets\<close>

definition matches :: "crypto \<Rightarrow> string \<Rightarrow> string list \<Rightarrow> bool" where
  \<comment> \<open>one of the hashes is that of the secret\<close>
  "matches C s hs = list_ex (\<lambda>x. constEq C x (secret_hash C s)) hs"

lemma agentForSecret_matches:
  "s \<noteq> [] \<Longrightarrow> agentForSecret C h s = map_option fst (List.find (\<lambda>p. matches C s (snd p)) (hb_secrets h))"
  by (simp add: agentForSecret_def matches_def case_prod_unfold)

lemma find_jm_set:
  "Q v \<Longrightarrow> \<forall>(n', v') \<in> set m. n' \<noteq> n \<longrightarrow> \<not> Q v' \<Longrightarrow> map_option fst (List.find (\<lambda>p. Q (snd p)) (jm_set n v m)) = Some n"
  by (induction m) auto

lemma find_jm_set_not:
  "\<not> Q v \<Longrightarrow> distinct (jm_keys m) \<Longrightarrow> map_option fst (List.find (\<lambda>p. Q (snd p)) (jm_set n v m)) \<noteq> Some n"
proof (induction m)
  case (Cons p m)
  have "List.find (\<lambda>p. Q (snd p)) m = Some (n, x) \<Longrightarrow> n \<in> fst ` set m" for x by (force dest: find_in)
  with Cons show ?case by (cases p) (auto split: if_splits)
qed simp



end
