(* ===== verification/Spec2Isabelle.thy ===== *)
theory Spec2Isabelle
  imports KeepAlive Gloss_Negotiate Server_Launch Dsh_Findings Dsh_Restart Hub_Restart
begin

text \<open>
  DAP: agents talk to each other, end to end encrypted, through a hub they do not trust. This development
  models the TypeScript adapters under \<open>src/adapters\<close>: the MCP bridge (\<open>mcp-bridge/src\<close>) and the harness
  plugin (\<open>dsh-plugin/src\<close>), all of their source files; and the hub they dial, in Go (\<open>src/hub\<close>).

  \<^bold>\<open>The program.\<close> Each adapter has a client (\<open>client.ts\<close>, class \<open>DapClient\<close>) that dials the hub over a web
  socket, introduces itself with a signed hello, joins its channels after every welcome, seals and opens
  messages, looks agents up, and dials again with a growing delay when the connection is lost. It rests on
  signed frames and sealed payloads (\<open>crypto.ts\<close>), the channels file (\<open>channels.ts\<close>), the config file and the
  settings (\<open>config.ts\<close>) and a watchdog over idle connections (\<open>keepalive.ts\<close>). Above the client stand the
  eight \<open>dap_*\<close> tools: of the bridge's tool server (\<open>server.ts\<close>) and of the plugin (\<open>index.ts\<close>); and in the
  bridge an agent that negotiates abbreviations with its peers (\<open>gloss.ts\<close>). Where the two adapters have the
  same code (\<open>crypto.ts\<close> and \<open>keepalive.ts\<close> are the same text, \<open>channels.ts\<close> and the file part of \<open>config.ts\<close>
  the same functions) one set of definitions models both. The hub checks the signatures of its agents, keeps
  who is connected and who is in which channel, relays messages to the members or to the receiver, keeps them for
  agents that are away, issues client secrets, and has its channels and secret hashes in two files.

  \<^bold>\<open>The platform.\<close> \<open>Prelude\<close>: maps in insertion order (\<open>jsmap\<close>, locale \<open>keyed_store\<close>), bounded buffers (locale
  \<open>bounded_log\<close>). \<open>Json\<close>, \<open>Json_Roundtrip\<close>: JSON values, \<open>JSON.stringify\<close>, \<open>JSON.parse\<close>, the order of
  property names, parse after print. \<open>Bytes\<close>: UTF-8, hex, base64. \<open>Host\<close>: files with their modes, environment, home
  directory; a JSON file is a store (locale \<open>json_store\<close>). \<open>Numbers\<close>: \<open>Number(v)\<close>.

  \<^bold>\<open>The shared parts.\<close> \<open>Crypto\<close>: \<open>canonicalJson\<close>, \<open>sigPayload\<close>, \<open>signFrame\<close>, \<open>verifyFrame\<close>, \<open>seal\<close>, \<open>open\<close>; the
  primitives are the record \<open>crypto\<close>, with what the code relies on as named hypotheses (\<open>dh_commutes\<close>,
  \<open>aead_correct\<close>, \<open>ed_correct\<close>). Opening inverts sealing, a signed frame verifies after a trip over the wire,
  equal payloads bind equal content. \<open>KeepAlive\<close>: the watchdog in a world of timers; a dead peer is terminated, only
  a silent one is. \<open>Config\<close>: reading, persisting, resolving. \<open>Channels\<close>: the channels file as a keyed store, invites.

  \<^bold>\<open>The bridge client.\<close> \<open>Client_State\<close> has the \<open>world\<close> every client lives in (files, clock, sockets, timers, parked
  promises, the micro tasks of settled ones, what was dialed, sent and answered) and the fields of the class.
  An \<open>async\<close> method is a function up to its next \<open>await\<close> and a continuation (\<open>kont\<close>) for the rest; parking a
  promise, settling it and resuming its continuations are separate steps. \<open>Client_Ops\<close>: sockets, promises,
  dialing, sending. \<open>Client_Async\<close>: the continuations. \<open>Client_Events\<close>: frames, sockets, timers, the constructor,
  \<open>retarget\<close>. \<open>Client_Run\<close>: labels and runs. \<open>Client_Async_Ok\<close>, \<open>Client_Sound\<close>, \<open>Client_Steps\<close>, \<open>Client_Calls\<close>:
  continuations are typed and counted (locale \<open>kont_count\<close>, interpreted for calls and for delivery passes), so that
  calls settle once, promises do not hang, passes do not overlap. \<open>Client_Messages\<close>: messages arrive as they were
  sent. \<open>Client_Frame\<close>, \<open>Client_Logs\<close>, \<open>Client_Waiters\<close>, \<open>Client_Connection\<close>: logs, waiters, reconnection, secrets,
  restarts.

  \<^bold>\<open>Above the bridge client.\<close> \<open>Gloss\<close>: \<open>GlossAgent\<close>; \<open>Gloss_Fidelity\<close>: compaction and expansion are inverse, what is
  proposed and when; \<open>Gloss_Negotiate\<close>: agreement of the two sides, serialization. \<open>Server\<close>: the tools and the gate;
  \<open>Server_Bridge\<close>: the bridge refines runs of the client, every tool call is answered once, a disabled bridge is
  inert; \<open>Server_Launch\<close>: launch, and what a restart finds.

  \<^bold>\<open>The plugin.\<close> \<open>Dsh_State\<close>, \<open>Dsh_Client\<close>: its client, in the same \<open>world\<close> with continuations of its own
  (\<open>dkont\<close>). Its listeners stay on a socket that was let go and compare it with \<open>this.ws\<close>, so events name their
  socket (\<open>guarded\<close>). The callbacks of its options are the record \<open>hooks\<close> of effects on the whole state.
  \<open>Dsh_Plugin\<close>: the closure of \<open>apply\<close> as a record that extends the client, its hooks, tools, pending invites and
  settings. \<open>Dsh_Run\<close>: labels and runs; \<open>Dsh_Demo\<close>: a concrete plugin for the witnesses. \<open>Dsh_Count\<close>, \<open>Dsh_Sound\<close>,
  \<open>Dsh_Steps\<close>, \<open>Dsh_Calls\<close>: the locale \<open>dsh_count\<close> counts and types continuations; its extension \<open>counted_hooks\<close>
  states what the client needs of its hooks, and a sublocale shows it of the plugin's. \<open>Dsh_Actions\<close>, \<open>Dsh_Wire\<close>,
  \<open>Dsh_Sockets\<close>: every step is a sequence of a few kinds of \<open>action\<close>s on the world (locale \<open>acting_hooks\<close>), hence each
  socket speaks for one agent, a retired one is silent, the logs are bounded. \<open>Dsh_Messages\<close>: the two adapters read
  each other. \<open>Dsh_Connection\<close>: launch, refused secrets, \<open>dap_connect\<close>;
  \<open>Dsh_Restart\<close>: what the next launch finds. \<open>Dsh_Findings\<close>: behaviour at the edges.

  \<^bold>\<open>The hub.\<close> \<open>Hub_Wire\<close>: frames as Go's \<open>encoding/json\<close> reads and prints them, and the envelope (\<open>frames.go\<close>,
  \<open>auth.go\<close>); what an adapter signs, the hub verifies. \<open>Hub_State\<close>: the record \<open>hub\<close> of connections, registry,
  channels, mailboxes, nonces, ids of accepted sends, secrets and files, and what the handlers share (\<open>relay.go\<close>,
  \<open>mailbox.go\<close>, \<open>presence.go\<close>, \<open>store.go\<close>). \<open>Hub\<close>: the handlers, \<open>dispatch\<close>, credentials (\<open>enroll.go\<close>), the admin API
  (\<open>admin.go\<close>), the start (\<open>main.go\<close>), and \<open>hub_event\<close>, one event of a run: a request to connect, a message, a frame
  written, a failure, an admin call, the clock, the disk. \<open>Hub_Inv\<close>: the locale \<open>hub_inv\<close> reduces an invariant of all runs
  to the elementary changes of the state; it is interpreted for the registry (\<open>Hub_Registry\<close>), the
  buffers (\<open>Hub_Bounds\<close>, with the ring of ids as a refinement of the list of the last ones, and \<open>flush\<close>), the origin of
  messages (\<open>Hub_Origin\<close>), the memory of nonces and what a hub without master secret cannot change (\<open>Hub_Policy\<close>) and
  the files (\<open>Hub_Restart\<close>). \<open>Hub_Fanout\<close>: where a message goes. \<open>Hub_Meet\<close>: the adapters and the hub together, a login
  of the plugin and a message from the plugin through the hub to the bridge. \<open>Hub_Demo\<close>: a concrete hub for the witnesses.

  \<^bold>\<open>Conventions.\<close> A throw is a value: of \<open>'a result\<close> where nothing was changed, of \<open>exn option \<times> state\<close> where the
  changes made before stay. An exception nobody catches and a rejection nobody handles set \<open>crashed\<close>, after which
  nothing happens. A run is a list of labels, each possible in its state: the clock does not pass a timer that is
  due, micro tasks run in any order, any frame may arrive on an open or closing socket, other processes may change
  the files. In a theorem about the adapters alone the frames of the hub are arbitrary, and a relayed
  message is the hypothesis \<open>relayed\<close>, which \<open>Hub_Meet\<close> shows of the channel messages of the hub. A run of
  the hub is a list of events; an event that cannot happen changes nothing, and a panic is \<open>None\<close>. Random bytes and
  UUIDs are drawn in order from the client's environment. Agent ids, keys and
  secrets are strings and bytes; times are natural numbers of milliseconds.

  \<^bold>\<open>Bounds and fuel.\<close> Recursions over the hub's data are structural or have a measure: the search for an
  abbreviation is bounded by the number of reserved ones and shown to find one; the loop over waiting presence
  queries, which grows while it runs, takes the number of waiters and their remaining attempts as fuel, shown to
  suffice; the parser and the compaction shorten their input. The hub has no loop of its own but those over its
  maps and lists.

  \<^bold>\<open>Not modelled.\<close> \<open>String(v)\<close> of objects with their own \<open>toString\<close>; text beyond one byte per character (a dash
  in a message of the program is the character 0x1A); the value of a fraction, which is kept as its token;
  \<open>NaN\<close>, shown as the \<open>null\<close> it prints as; settings that are not strings; pending invites whose channel is not a
  string. Listeners, the host's agent and logger, the URL parser, the socket library's check of a url and the texts of
  its errors are parameters. The tool server, schema checker, socket and crypto libraries are third-party; tool
  titles, descriptions and schemas are data for their readers. The client that \<open>apply\<close> returns is used by the
  plugin only. The poll of pending invites may come at any moment. Of the hub: trace lines and close reasons; HTTP routing,
  flags, the decoding of an admin body and the limit of file descriptors; the web socket library, of which a message, a
  written frame and a failure are events. A handler is one step, though other goroutines may run between two of its locked
  sections; a frame that waits for one of the 512 places of a channel counts as queued; a Go map is walked in the order of
  insertion; numbers that are not integers have no value; the decoder's error texts are a parameter. The tests, the site,
  deployment and scripts have no part in the model.
\<close>

end
